(* ===== verification/Lx_Prelude.thy ===== *)
theory Lx_Prelude
  imports Main "HOL-Library.Word" "HOL-Library.Multiset" "HOL-Library.Monad_Syntax"
begin

text \<open>
  Shared vocabulary of the development: C bytes and characters, C strings and the
  functions of \<open>string.h\<close>, \<open>ctype.h\<close> and \<open>stdlib.h\<close> that the sources under \<open>src/src\<close> call,
  the 32-bit \<open>int\<close> of the target, little-endian byte images, and the generic list lemmas
  that the components share.

  A C string is the list of its bytes before the terminating NUL; a buffer is the list of
  all its bytes. The build targets \<open>mingw32\<close> (see \<open>Makefile\<close>): \<open>int\<close>, \<open>long\<close> and \<open>size_t\<close>
  have 32 bits.
\<close>

named_theorems cstring_simps \<open>evaluation of the C string functions\<close>
named_theorems enum_defs \<open>definitions of the enumeration helpers\<close>

section \<open>The 32-bit integers of the target\<close>

definition int_min :: int where "int_min = - (2 ^ 31)"
definition int_max :: int where "int_max = 2 ^ 31 - 1"

definition wrap32 :: "int \<Rightarrow> int" where
  \<comment> \<open>two's complement wrap-around of a C \<open>int\<close> result\<close>
  "wrap32 x = (x + 2 ^ 31) mod 2 ^ 32 - 2 ^ 31"

definition c_int :: "int \<Rightarrow> bool" where
  "c_int x \<longleftrightarrow> int_min \<le> x \<and> x \<le> int_max"

definition size_of_int :: "int \<Rightarrow> nat" where
  \<comment> \<open>conversion of an arithmetic result to the 32-bit \<open>size_t\<close>\<close>
  "size_of_int x = nat (x mod 2 ^ 32)"

lemma wrap32_id [simp]: "c_int x \<Longrightarrow> wrap32 x = x"
  by (simp add: wrap32_def c_int_def int_min_def int_max_def)

lemma c_int_wrap32 [simp]: "c_int (wrap32 x)"
  using pos_mod_bound [of "2 ^ 32" "x + 2 ^ 31"] pos_mod_sign [of "2 ^ 32" "x + 2 ^ 31"]
  by (simp add: wrap32_def c_int_def int_min_def int_max_def)

lemma wrap32_mod: "wrap32 x mod 2 ^ 32 = x mod 2 ^ 32"
proof -
  have "((x + 2 ^ 31) mod 2 ^ 32 - 2 ^ 31) mod 2 ^ 32 = ((x + 2 ^ 31) - 2 ^ 31) mod (2 ^ 32 :: int)"
    by (rule mod_diff_left_eq)
  then show ?thesis by (simp add: wrap32_def)
qed

lemma size_of_int_small [simp]: "0 \<le> x \<Longrightarrow> x < 2 ^ 32 \<Longrightarrow> size_of_int x = nat x"
  by (simp add: size_of_int_def)

section \<open>Characters (\<open>ctype.h\<close>, C locale)\<close>

abbreviation NUL :: char where "NUL \<equiv> CHR 0x00"

definition isspace :: "char \<Rightarrow> bool" where
  "isspace c \<longleftrightarrow> (let n = (of_char c :: nat) in n = 32 \<or> (9 \<le> n \<and> n \<le> 13))"

definition isdigit :: "char \<Rightarrow> bool" where
  "isdigit c \<longleftrightarrow> (let n = (of_char c :: nat) in 48 \<le> n \<and> n \<le> 57)"

definition isupper :: "char \<Rightarrow> bool" where
  "isupper c \<longleftrightarrow> (let n = (of_char c :: nat) in 65 \<le> n \<and> n \<le> 90)"

definition islower :: "char \<Rightarrow> bool" where
  "islower c \<longleftrightarrow> (let n = (of_char c :: nat) in 97 \<le> n \<and> n \<le> 122)"

definition isalpha :: "char \<Rightarrow> bool" where
  "isalpha c \<longleftrightarrow> isupper c \<or> islower c"

definition isalnum :: "char \<Rightarrow> bool" where
  "isalnum c \<longleftrightarrow> isalpha c \<or> isdigit c"

definition tolower :: "char \<Rightarrow> char" where
  "tolower c = (if isupper c then char_of (of_char c + 32 :: nat) else c)"

definition toupper :: "char \<Rightarrow> char" where
  "toupper c = (if islower c then char_of (of_char c - 32 :: nat) else c)"

definition digit_value :: "char \<Rightarrow> nat" where
  "digit_value c = of_char c - 48"

definition digit_char :: "nat \<Rightarrow> char" where
  "digit_char d = char_of (48 + d)"

lemmas char_class_defs = isspace_def isdigit_def isupper_def islower_def isalpha_def isalnum_def
  Let_def

lemma of_char_less_256 [simp]: "(of_char c :: nat) < 256"
  using of_char_mod_256 [of c, where ?'a = nat] by (metis mod_less_divisor zero_less_numeral)

lemma of_char_char_of_small [simp]: "n < 256 \<Longrightarrow> (of_char (char_of n :: char) :: nat) = n"
  by simp

lemma char_eq_of_char: "c = d \<longleftrightarrow> (of_char c :: nat) = of_char d"
  by simp

lemma isdigit_digit_char [simp]: "d < 10 \<Longrightarrow> isdigit (digit_char d)"
  by (simp add: isdigit_def digit_char_def)

lemma digit_value_digit_char [simp]: "d < 10 \<Longrightarrow> digit_value (digit_char d) = d"
  by (simp add: digit_value_def digit_char_def)

lemma isdigit_not_space: "isdigit c \<Longrightarrow> \<not> isspace c"
  by (auto simp: char_class_defs)

lemma tolower_tolower [simp]: "tolower (tolower c) = tolower c"
  by (auto simp: tolower_def isupper_def Let_def)

lemma toupper_toupper [simp]: "toupper (toupper c) = toupper c"
  by (auto simp: toupper_def islower_def Let_def)

section \<open>C strings (\<open>string.h\<close>)\<close>

definition c_str :: "string \<Rightarrow> string" where
  \<comment> \<open>the string a pointer to the buffer denotes: the bytes before the first NUL\<close>
  "c_str buf = takeWhile (\<lambda>c. c \<noteq> NUL) buf"

definition nul_free :: "string \<Rightarrow> bool" where
  "nul_free s \<longleftrightarrow> list_all (\<lambda>c. c \<noteq> NUL) s"

definition starts_with :: "string \<Rightarrow> string \<Rightarrow> bool" where
  \<comment> \<open>\<open>strncmp(s, p, strlen(p)) == 0\<close>\<close>
  "starts_with p s \<longleftrightarrow> take (length p) s = p"

fun strstr :: "string \<Rightarrow> string \<Rightarrow> nat option" where
  "strstr [] nd = (if nd = [] then Some 0 else None)"
| "strstr (c # cs) nd =
     (if starts_with nd (c # cs) then Some 0 else map_option Suc (strstr cs nd))"

fun strchr :: "string \<Rightarrow> char \<Rightarrow> nat option" where
  "strchr [] d = None"
| "strchr (c # cs) d = (if c = d then Some 0 else map_option Suc (strchr cs d))"

definition strrchr :: "string \<Rightarrow> char \<Rightarrow> nat option" where
  "strrchr s d = (case strchr (rev s) d of None \<Rightarrow> None | Some k \<Rightarrow> Some (length s - 1 - k))"

fun strcmp :: "string \<Rightarrow> string \<Rightarrow> int" where
  "strcmp [] [] = 0"
| "strcmp [] (d # ds) = -1"
| "strcmp (c # cs) [] = 1"
| "strcmp (c # cs) (d # ds) =
     (if (of_char c :: nat) < of_char d then -1
      else if (of_char d :: nat) < of_char c then 1 else strcmp cs ds)"

definition strcasecmp_eq :: "string \<Rightarrow> string \<Rightarrow> bool" where
  \<comment> \<open>\<open>strcasecmp(a, b) == 0\<close>\<close>
  "strcasecmp_eq a b \<longleftrightarrow> map tolower a = map tolower b"

definition strncpy :: "string \<Rightarrow> string \<Rightarrow> nat \<Rightarrow> string" where
  \<comment> \<open>\<open>strncpy(dst, src, n)\<close>: at most \<open>n\<close> bytes of \<open>src\<close>, padded with NUL up to \<open>n\<close>\<close>
  "strncpy dst src n = take n (src @ replicate n NUL) @ drop n dst"

definition put_byte :: "string \<Rightarrow> nat \<Rightarrow> char \<Rightarrow> string" where
  "put_byte buf i c = buf[i := c]"

fun strtok :: "string \<Rightarrow> string \<Rightarrow> string \<Rightarrow> string list" where
  \<comment> \<open>all tokens that successive \<open>strtok\<close> calls return: the maximal non-empty runs of
      non-delimiters; the last argument is the reversed token read so far\<close>
  "strtok delims [] acc = (if acc = [] then [] else [rev acc])"
| "strtok delims (c # cs) acc =
     (if c \<in> set delims
      then (if acc = [] then strtok delims cs [] else rev acc # strtok delims cs [])
      else strtok delims cs (c # acc))"

lemma nul_free_simps [simp]:
  "nul_free []" "nul_free (c # s) \<longleftrightarrow> c \<noteq> NUL \<and> nul_free s"
  "nul_free (s @ t) \<longleftrightarrow> nul_free s \<and> nul_free t"
  by (auto simp: nul_free_def)

lemma nul_free_iff: "nul_free s \<longleftrightarrow> NUL \<notin> set s"
  by (auto simp: nul_free_def list_all_iff)

lemma nul_free_take: "nul_free s \<Longrightarrow> nul_free (take n s)"
  by (auto simp: nul_free_iff dest: in_set_takeD)

lemma nul_free_c_str [simp]: "nul_free (c_str s)"
  by (auto simp: nul_free_iff c_str_def dest: set_takeWhileD)

lemma c_str_id [simp]: "nul_free s \<Longrightarrow> c_str s = s"
  by (induction s) (auto simp: c_str_def)

lemma c_str_append_NUL [simp]: "nul_free s \<Longrightarrow> c_str (s @ NUL # t) = s"
  by (induction s) (auto simp: c_str_def)

lemma c_str_take_NUL_at:
  "nul_free s \<Longrightarrow> take (length s) b = s \<Longrightarrow> length s < length b \<Longrightarrow> c_str (b[length s := NUL]) = s"
  by (simp add: upd_conv_take_nth_drop)

lemma starts_with_refl [simp]: "starts_with p (p @ s)"
  by (simp add: starts_with_def)

lemma starts_with_Nil [simp]: "starts_with [] s"
  by (simp add: starts_with_def)

lemma starts_with_iff: "starts_with p s \<longleftrightarrow> (\<exists>t. s = p @ t)"
  by (auto simp: starts_with_def) (metis append_take_drop_id)

lemma starts_with_length: "starts_with p s \<Longrightarrow> length p \<le> length s"
  by (auto simp: starts_with_iff)

lemma strcmp_eq_0 [simp]: "strcmp a b = 0 \<longleftrightarrow> a = b"
proof (induction a b rule: strcmp.induct)
  case (4 c cs d ds)
  consider "(of_char c :: nat) < of_char d" | "(of_char d :: nat) < of_char c" | "c = d"
    by (metis linorder_neqE_nat of_char_eq_iff)
  then show ?case by cases (use 4 in auto)
qed auto

lemma length_strncpy [simp]: "length (strncpy dst src n) = max n (length dst)"
  by (simp add: strncpy_def)

lemma strncpy_fits:
  "length src < n \<Longrightarrow> strncpy dst src n = src @ replicate (n - length src) NUL @ drop n dst"
  by (simp add: strncpy_def)

lemma c_str_strncpy [simp]:
  "nul_free src \<Longrightarrow> length src < n \<Longrightarrow> c_str (strncpy dst src n) = src"
  by (cases "n - length src") (simp_all add: strncpy_fits)

lemma strstr_Some_bound: "strstr s nd = Some k \<Longrightarrow> k + length nd \<le> length s"
  by (induction s nd arbitrary: k rule: strstr.induct)
    (auto split: if_splits dest: starts_with_length)

lemma strstr_Some_match: "strstr s nd = Some k \<Longrightarrow> starts_with nd (drop k s)"
  by (induction s nd arbitrary: k rule: strstr.induct) (auto split: if_splits)

lemma strstr_append: "strstr (pre @ nd @ post) nd \<noteq> None"
proof (induction pre)
  case Nil
  have "starts_with nd (nd @ post)" by simp
  then show ?case by (cases "nd @ post") auto
next
  case (Cons c pre)
  then show ?case by auto
qed

lemma strstr_None_iff: "strstr s nd = None \<longleftrightarrow> (\<nexists>pre post. s = pre @ nd @ post)"
proof
  assume none: "strstr s nd = None"
  show "\<nexists>pre post. s = pre @ nd @ post"
  proof
    assume "\<exists>pre post. s = pre @ nd @ post"
    then obtain pre post where "s = pre @ nd @ post" by blast
    with none strstr_append [of pre nd post] show False by simp
  qed
next
  assume no: "\<nexists>pre post. s = pre @ nd @ post"
  show "strstr s nd = None"
  proof (rule ccontr)
    assume "strstr s nd \<noteq> None"
    then obtain k where "strstr s nd = Some k" by blast
    then have "starts_with nd (drop k s)" by (rule strstr_Some_match)
    then obtain t where "drop k s = nd @ t" by (auto simp: starts_with_iff)
    then have "s = take k s @ nd @ t" by (metis append_take_drop_id)
    with no show False by blast
  qed
qed

lemma strchr_None_iff: "strchr s c = None \<longleftrightarrow> c \<notin> set s"
  by (induction s c rule: strchr.induct) auto

lemma strchr_append: "c \<notin> set a \<Longrightarrow> strchr (a @ c # b) c = Some (length a)"
  by (induction a) auto

lemma strrchr_None_iff: "strrchr s c = None \<longleftrightarrow> c \<notin> set s"
proof -
  have "strrchr s c = None \<longleftrightarrow> strchr (rev s) c = None" by (simp add: strrchr_def split: option.split)
  then show ?thesis by (simp add: strchr_None_iff)
qed

lemma strrchr_append: "c \<notin> set b \<Longrightarrow> strrchr (a @ c # b) c = Some (length a)"
  using strchr_append [of c "rev b" "rev a"] by (simp add: strrchr_def)

section \<open>Decimal text (\<open>printf\<close> with \<open>%d\<close>, \<open>strtol\<close>, \<open>atoi\<close>)\<close>

fun dec_digits :: "nat \<Rightarrow> string" where
  "dec_digits n = (if n < 10 then [digit_char n] else dec_digits (n div 10) @ [digit_char (n mod 10)])"

declare dec_digits.simps [simp del]

definition show_int :: "int \<Rightarrow> string" where
  \<comment> \<open>\<open>%d\<close>\<close>
  "show_int i = (if i < 0 then CHR ''-'' # dec_digits (nat (- i)) else dec_digits (nat i))"

definition dec_value :: "string \<Rightarrow> nat" where
  "dec_value ds = foldl (\<lambda>v c. 10 * v + digit_value c) 0 ds"

definition strtol_sign :: "string \<Rightarrow> bool \<times> string" where
  \<comment> \<open>the optional sign: whether it is a minus, and the text after it\<close>
  "strtol_sign s = (case s of [] \<Rightarrow> (False, [])
     | c # cs \<Rightarrow> if c = CHR ''-'' then (True, cs) else if c = CHR ''+'' then (False, cs) else (False, s))"

definition strtol :: "string \<Rightarrow> int \<times> string" where
  \<comment> \<open>\<open>strtol(s, &endptr, 10)\<close> with a 32-bit \<open>long\<close>: the saturated value, and the text at \<open>endptr\<close>\<close>
  "strtol s =
     (let (neg, t) = strtol_sign (dropWhile isspace s);
          ds = takeWhile isdigit t;
          v = (if neg then - int (dec_value ds) else int (dec_value ds))
      in if ds = [] then (0, s) else (max int_min (min int_max v), dropWhile isdigit t))"

definition atoi :: "string \<Rightarrow> int" where
  "atoi s = fst (strtol s)"

lemma dec_digits_nonempty [simp]: "dec_digits n \<noteq> []"
  by (subst dec_digits.simps) simp

lemma dec_digits_digits: "list_all isdigit (dec_digits n)"
proof (induction n rule: dec_digits.induct)
  case (1 n)
  then show ?case by (cases "n < 10") (simp_all add: dec_digits.simps [of n])
qed

lemma dec_digits_isdigit [simp]: "c \<in> set (dec_digits n) \<Longrightarrow> isdigit c"
  using dec_digits_digits [of n] by (simp add: list_all_iff)

lemma dec_value_snoc: "dec_value (ds @ [c]) = 10 * dec_value ds + digit_value c"
  by (simp add: dec_value_def)

lemma dec_value_dec_digits [simp]: "dec_value (dec_digits n) = n"
proof (induction n rule: dec_digits.induct)
  case (1 n)
  show ?case
  proof (cases "n < 10")
    case True
    then show ?thesis by (simp add: dec_digits.simps [of n] dec_value_def)
  next
    case False
    with 1 show ?thesis by (simp add: dec_digits.simps [of n] dec_value_snoc)
  qed
qed

definition no_digit_next :: "string \<Rightarrow> bool" where
  \<comment> \<open>the text does not go on with a digit\<close>
  "no_digit_next t \<longleftrightarrow> (case t of [] \<Rightarrow> True | c # _ \<Rightarrow> \<not> isdigit c)"

lemma no_digit_next_simps [simp]: "no_digit_next []" "no_digit_next (c # t) \<longleftrightarrow> \<not> isdigit c"
  by (simp_all add: no_digit_next_def)

lemma no_digit_next_while:
  "no_digit_next t \<Longrightarrow> takeWhile isdigit t = []" "no_digit_next t \<Longrightarrow> dropWhile isdigit t = t"
  by (cases t; simp)+

lemma dec_digits_Cons: "\<exists>c cs. dec_digits n = c # cs \<and> isdigit c"
  by (cases "dec_digits n") (use dec_digits_isdigit [of _ n] in \<open>auto simp del: dec_digits_isdigit\<close>)

lemma strtol_show_int:
  assumes "c_int i" and "no_digit_next rest"
  shows "strtol (show_int i @ rest) = (i, rest)"
proof (cases "i < 0")
  case True
  have sp: "\<not> isspace (CHR ''-'')" by (simp add: isspace_def)
  from True assms show ?thesis
    by (simp add: strtol_def show_int_def sp strtol_sign_def no_digit_next_while c_int_def)
next
  case False
  obtain c cs where d: "dec_digits (nat i) = c # cs" "isdigit c"
    using dec_digits_Cons by blast
  then have sg: "strtol_sign (dropWhile isspace (dec_digits (nat i) @ rest)) = (False, dec_digits (nat i) @ rest)"
    by (auto simp: isdigit_not_space strtol_sign_def isdigit_def)
  from False assms show ?thesis
    by (simp add: strtol_def show_int_def sg no_digit_next_while c_int_def)
qed

lemma atoi_show_int [simp]: "c_int i \<Longrightarrow> atoi (show_int i) = i"
  using strtol_show_int [of i "[]"] by (simp add: atoi_def)

lemma nul_free_show_int [simp]: "nul_free (show_int i)"
proof -
  have "NUL \<notin> set (dec_digits n)" for n
    using dec_digits_isdigit [of NUL n] by (auto simp: isdigit_def)
  then show ?thesis by (simp add: show_int_def nul_free_iff)
qed

section \<open>Little-endian byte images\<close>

fun le_nat :: "string \<Rightarrow> nat" where
  "le_nat [] = 0"
| "le_nat (c # cs) = of_char c + 256 * le_nat cs"

fun le_bytes :: "nat \<Rightarrow> nat \<Rightarrow> string" where
  "le_bytes 0 n = []"
| "le_bytes (Suc k) n = char_of (n mod 256) # le_bytes k (n div 256)"

lemma length_le_bytes [simp]: "length (le_bytes k n) = k"
  by (induction k arbitrary: n) auto

lemma le_nat_le_bytes [simp]: "le_nat (le_bytes k n) = n mod 256 ^ k"
proof (induction k arbitrary: n)
  case 0
  then show ?case by simp
next
  case (Suc k)
  then show ?case by (simp only: le_bytes.simps le_nat.simps of_char_char_of_small mod_less_divisor
        zero_less_numeral power_Suc mod_mult2_eq)
qed

lemma le_bytes_le_nat: "le_bytes (length bs) (le_nat bs) = bs"
  by (induction bs) auto

section \<open>Lists\<close>

definition nth_opt :: "'a list \<Rightarrow> nat \<Rightarrow> 'a option" where
  "nth_opt xs i = (if i < length xs then Some (xs ! i) else None)"

fun find_index :: "('a \<Rightarrow> bool) \<Rightarrow> 'a list \<Rightarrow> nat option" where
  \<comment> \<open>the first index that satisfies the test: the search loops with \<open>break\<close>\<close>
  "find_index p [] = None"
| "find_index p (x # xs) = (if p x then Some 0 else map_option Suc (find_index p xs))"

definition remove_at :: "nat \<Rightarrow> 'a list \<Rightarrow> 'a list" where
  \<comment> \<open>shifting the elements after \<open>i\<close> one place down\<close>
  "remove_at i xs = take i xs @ drop (Suc i) xs"

lemma find_index_None_iff: "find_index p xs = None \<longleftrightarrow> (\<forall>x \<in> set xs. \<not> p x)"
  by (induction xs) auto

lemma find_index_SomeD:
  "find_index p xs = Some i \<Longrightarrow> i < length xs \<and> p (xs ! i) \<and> (\<forall>j < i. \<not> p (xs ! j))"
proof (induction xs arbitrary: i)
  case Nil
  then show ?case by simp
next
  case (Cons x xs)
  then show ?case
    by (auto split: if_splits simp: nth_Cons' less_Suc_eq_0_disj)
qed

lemma find_index_map: "find_index p (map f xs) = find_index (\<lambda>x. p (f x)) xs"
  by (induction xs) auto

lemma find_index_last: "\<forall>y \<in> set xs. \<not> p y \<Longrightarrow> p x \<Longrightarrow> find_index p (xs @ [x]) = Some (length xs)"
  by (induction xs) auto

lemma find_index_find: "List.find p xs = map_option (\<lambda>i. xs ! i) (find_index p xs)"
  by (induction xs) (auto simp: option.map_comp comp_def)

lemma length_remove_at: "i < length xs \<Longrightarrow> length (remove_at i xs) = length xs - 1"
  by (simp add: remove_at_def)

lemma mset_remove_at: "i < length xs \<Longrightarrow> add_mset (xs ! i) (mset (remove_at i xs)) = mset xs"
  by (simp add: remove_at_def) (metis id_take_nth_drop mset.simps(2) mset_append
      union_mset_add_mset_right)

lemma set_remove_at: "set (remove_at i xs) \<subseteq> set xs"
  by (auto simp: remove_at_def dest: in_set_takeD in_set_dropD)

lemma map_remove_at: "map f (remove_at i xs) = remove_at i (map f xs)"
  by (simp add: remove_at_def take_map drop_map)

lemma distinct_remove_at:
  assumes "distinct xs" and "i < length xs"
  shows "distinct (remove_at i xs)" and "xs ! i \<notin> set (remove_at i xs)"
proof -
  have "xs = take i xs @ xs ! i # drop (Suc i) xs"
    using assms(2) by (rule id_take_nth_drop)
  with assms(1) have d: "distinct (take i xs @ xs ! i # drop (Suc i) xs)" by simp
  then show "distinct (remove_at i xs)" "xs ! i \<notin> set (remove_at i xs)"
    by (auto simp: remove_at_def)
qed

section \<open>Allocation\<close>

type_synonym alloc = "nat \<Rightarrow> bool"
  \<comment> \<open>\<open>ok k\<close>: whether the \<open>k\<close>-th allocation of a call succeeds\<close>

lemma strstr_zero: "strstr s nd = Some 0 \<longleftrightarrow> starts_with nd s"
  by (cases s) (auto simp: starts_with_def)

lemma length_dec_digits: "n < 10 ^ k \<Longrightarrow> 0 < k \<Longrightarrow> length (dec_digits n) \<le> k"
proof (induction n arbitrary: k rule: dec_digits.induct)
  case (1 n)
  show ?case
  proof (cases "n < 10")
    case True
    with 1(3) show ?thesis by (simp add: dec_digits.simps [of n])
  next
    case False
    with 1(2,3) obtain j where k: "k = Suc j" and j: "0 < j" by (cases k; cases "k - 1") auto
    from 1(2) k have "n div 10 < 10 ^ j" by (simp add: less_mult_imp_div_less mult.commute)
    from 1(1) [OF False this j] k False show ?thesis by (simp add: dec_digits.simps [of n])
  qed
qed

lemma length_show_int: "c_int i \<Longrightarrow> length (show_int i) \<le> 11"
proof -
  assume i: "c_int i"
  then have "nat i < 10000000000" "nat (- i) < 10000000000"
    by (auto simp: c_int_def int_min_def int_max_def)
  then have "length (dec_digits (nat i)) \<le> 10" "length (dec_digits (nat (- i))) \<le> 10"
    using length_dec_digits [of "nat i" 10] length_dec_digits [of "nat (- i)" 10] by simp_all
  then show ?thesis by (simp add: show_int_def)
qed

section \<open>Codecs\<close>

text \<open>
  An encoding that its decoder inverts on the valid values: the contract of the text, byte and
  password encodings of the program. Injectivity and the list version follow once for all.
\<close>

locale codec =
  fixes enc :: "'a \<Rightarrow> 'b" and dec :: "'b \<Rightarrow> 'a" and valid :: "'a \<Rightarrow> bool"
  assumes dec_enc: "valid v \<Longrightarrow> dec (enc v) = v"
begin

lemma enc_inj: "valid a \<Longrightarrow> valid b \<Longrightarrow> enc a = enc b \<longleftrightarrow> a = b"
  using dec_enc [of a] dec_enc [of b] by metis

lemma dec_enc_list: "list_all valid vs \<Longrightarrow> map dec (map enc vs) = vs"
  by (induction vs) (simp_all add: dec_enc)

lemma enc_inj_on: "inj_on enc {v. valid v}"
  by (rule inj_onI) (simp add: enc_inj)

end

section \<open>Arrays that grow\<close>

definition store_slot :: "nat \<Rightarrow> 'a \<Rightarrow> 'a list \<Rightarrow> 'a list" where
  \<comment> \<open>a store to slot \<open>n\<close> of an array whose first \<open>n\<close> slots are initialised\<close>
  "store_slot n x xs = take n xs @ x # drop (Suc n) xs"

lemma take_store_slot: "n \<le> length xs \<Longrightarrow> take (Suc n) (store_slot n x xs) = take n xs @ [x]"
  by (simp add: store_slot_def)

end
