(* ===== verification/Lx_Types.thy ===== *)
theory Lx_Types
  imports Lx_Prelude
begin

text \<open>
  The enumerations of \<open>src/src/types.h\<close>, the limits of \<open>src/src/config.h\<close> and
  \<open>src/src/utils.h\<close>, the union \<open>FieldValue\<close> and the structure \<open>Field\<close> of
  \<open>src/src/database.h\<close>, and the conversions between types and their names
  (\<open>field_type_to_string\<close>, \<open>string_to_field_type\<close> in \<open>src/src/database.c\<close>).

  The union is its memory: \<open>MAX_FIELD_LEN\<close> bytes, read and written through its members.
  So a value that is stored through one member and read through another (which the code
  does, since records carry a type beside the union) reads the bytes that are there.
\<close>

section \<open>Enumerations\<close>

datatype ErrorCode = SUCCESS | ERROR_NOT_FOUND | ERROR_DUPLICATE_KEY | ERROR_MEMORY_ALLOCATION
  | ERROR_INVALID_PARAMETER | ERROR_TABLE_FULL | ERROR_TRANSACTION_CONFLICT | ERROR_TYPE_MISMATCH
  | ERROR_CONSTRAINT_VIOLATION | ERROR_INDEX_EXISTS | ERROR_NOT_IMPLEMENTED | ERROR_GENERIC
  | ERROR_INVALID_INPUT | ERROR_IO_OPERATION | ERROR_PERMISSION_DENIED | ERROR_CORRUPT_DATA
  | ERROR_INDEX_NOT_FOUND | ERROR_DEADLOCK_DETECTED | ERROR_TIMEOUT

fun error_value :: "ErrorCode \<Rightarrow> int" where
  "error_value SUCCESS = 0"
| "error_value ERROR_NOT_FOUND = -1"
| "error_value ERROR_DUPLICATE_KEY = -2"
| "error_value ERROR_MEMORY_ALLOCATION = -3"
| "error_value ERROR_INVALID_PARAMETER = -4"
| "error_value ERROR_TABLE_FULL = -5"
| "error_value ERROR_TRANSACTION_CONFLICT = -6"
| "error_value ERROR_TYPE_MISMATCH = -7"
| "error_value ERROR_CONSTRAINT_VIOLATION = -8"
| "error_value ERROR_INDEX_EXISTS = -9"
| "error_value ERROR_NOT_IMPLEMENTED = -10"
| "error_value ERROR_GENERIC = -11"
| "error_value ERROR_INVALID_INPUT = -12"
| "error_value ERROR_IO_OPERATION = -13"
| "error_value ERROR_PERMISSION_DENIED = -14"
| "error_value ERROR_CORRUPT_DATA = -15"
| "error_value ERROR_INDEX_NOT_FOUND = -16"
| "error_value ERROR_DEADLOCK_DETECTED = -17"
| "error_value ERROR_TIMEOUT = -18"

datatype FieldType = TYPE_UNKNOWN | TYPE_INT | TYPE_STRING | TYPE_FLOAT | TYPE_DOUBLE | TYPE_BOOL
  | TYPE_DATETIME | TYPE_BLOB | TYPE_NULL

fun field_type_value :: "FieldType \<Rightarrow> nat" where
  "field_type_value TYPE_UNKNOWN = 0"
| "field_type_value TYPE_INT = 1"
| "field_type_value TYPE_STRING = 2"
| "field_type_value TYPE_FLOAT = 3"
| "field_type_value TYPE_DOUBLE = 4"
| "field_type_value TYPE_BOOL = 5"
| "field_type_value TYPE_DATETIME = 6"
| "field_type_value TYPE_BLOB = 7"
| "field_type_value TYPE_NULL = 8"

datatype IndexType = INDEX_NONE | INDEX_HASH | INDEX_BTREE | INDEX_SKIPLIST | INDEX_BITMAP
  | INDEX_FULLTEXT

lemma error_value_inj: "error_value a = error_value b \<longleftrightarrow> a = b"
  by (cases a; cases b) simp_all

lemma field_type_value_inj: "field_type_value a = field_type_value b \<longleftrightarrow> a = b"
  by (cases a; cases b) simp_all

text \<open>The C enumerations are ordered by their integer values.\<close>

instantiation ErrorCode :: linorder
begin

definition less_eq_ErrorCode :: "ErrorCode \<Rightarrow> ErrorCode \<Rightarrow> bool" where
  "a \<le> b \<longleftrightarrow> error_value a \<le> error_value b"

definition less_ErrorCode :: "ErrorCode \<Rightarrow> ErrorCode \<Rightarrow> bool" where
  "a < b \<longleftrightarrow> error_value a < error_value b"

instance
  by standard (auto simp: less_eq_ErrorCode_def less_ErrorCode_def error_value_inj)

end

instantiation FieldType :: linorder
begin

definition less_eq_FieldType :: "FieldType \<Rightarrow> FieldType \<Rightarrow> bool" where
  "a \<le> b \<longleftrightarrow> field_type_value a \<le> field_type_value b"

definition less_FieldType :: "FieldType \<Rightarrow> FieldType \<Rightarrow> bool" where
  "a < b \<longleftrightarrow> field_type_value a < field_type_value b"

instance
  by standard (auto simp: less_eq_FieldType_def less_FieldType_def field_type_value_inj)

end

section \<open>Limits\<close>

definition MAX_TABLE_NAME :: nat where "MAX_TABLE_NAME = 64"
definition MAX_FIELD_LEN :: nat where "MAX_FIELD_LEN = 256"
definition MAX_TABLES :: nat where "MAX_TABLES = 100"
definition MAX_RECORDS_PER_TABLE :: nat where "MAX_RECORDS_PER_TABLE = 10000"
definition MAX_FIELDS_PER_TABLE :: nat where "MAX_FIELDS_PER_TABLE = 50"
definition MAX_INDEXES_PER_TABLE :: nat where "MAX_INDEXES_PER_TABLE = 10"
definition MAX_TRANSACTION_LEVEL :: int where "MAX_TRANSACTION_LEVEL = 10"
definition BATCH_INSERT_SIZE :: nat where "BATCH_INSERT_SIZE = 100"
definition QUERY_CACHE_SIZE :: nat where "QUERY_CACHE_SIZE = 100"
definition INITIAL_CAPACITY :: nat where "INITIAL_CAPACITY = 100"

lemmas limit_defs = MAX_TABLE_NAME_def MAX_FIELD_LEN_def MAX_TABLES_def MAX_RECORDS_PER_TABLE_def
  MAX_FIELDS_PER_TABLE_def MAX_INDEXES_PER_TABLE_def MAX_TRANSACTION_LEVEL_def
  BATCH_INSERT_SIZE_def QUERY_CACHE_SIZE_def INITIAL_CAPACITY_def

section \<open>Names of the field types\<close>

fun field_type_to_string :: "FieldType \<Rightarrow> string" where
  "field_type_to_string TYPE_INT = ''INT''"
| "field_type_to_string TYPE_STRING = ''STRING''"
| "field_type_to_string TYPE_FLOAT = ''FLOAT''"
| "field_type_to_string TYPE_DOUBLE = ''DOUBLE''"
| "field_type_to_string TYPE_BOOL = ''BOOL''"
| "field_type_to_string TYPE_DATETIME = ''DATETIME''"
| "field_type_to_string TYPE_BLOB = ''BLOB''"
| "field_type_to_string TYPE_NULL = ''NULL''"
| "field_type_to_string TYPE_UNKNOWN = ''UNKNOWN''"

definition string_to_field_type :: "string option \<Rightarrow> FieldType" where
  "string_to_field_type s = (case s of None \<Rightarrow> TYPE_UNKNOWN
     | Some str \<Rightarrow>
         if strcasecmp_eq str ''INTEGER'' \<or> strcasecmp_eq str ''INT'' then TYPE_INT
         else if strcasecmp_eq str ''FLOAT'' then TYPE_FLOAT
         else if strcasecmp_eq str ''STRING'' then TYPE_STRING
         else if strcasecmp_eq str ''BOOLEAN'' \<or> strcasecmp_eq str ''BOOL'' then TYPE_BOOL
         else if strcasecmp_eq str ''DATETIME'' then TYPE_DATETIME
         else if strcasecmp_eq str ''BLOB'' then TYPE_BLOB
         else TYPE_UNKNOWN)"

fun index_type_to_string_simple :: "IndexType \<Rightarrow> string" where
  "index_type_to_string_simple INDEX_HASH = ''HASH''"
| "index_type_to_string_simple INDEX_BTREE = ''BTREE''"
| "index_type_to_string_simple INDEX_SKIPLIST = ''SKIPLIST''"
| "index_type_to_string_simple INDEX_BITMAP = ''BITMAP''"
| "index_type_to_string_simple INDEX_FULLTEXT = ''FULLTEXT''"
| "index_type_to_string_simple INDEX_NONE = ''UNKNOWN''"

lemmas strcasecmp_eval = strcasecmp_eq_def tolower_def isupper_def Let_def

section \<open>The union \<open>FieldValue\<close>\<close>

type_synonym FieldValue = string

definition zero_value :: FieldValue where
  "zero_value = replicate MAX_FIELD_LEN NUL"

definition value_ok :: "FieldValue \<Rightarrow> bool" where
  "value_ok v \<longleftrightarrow> length v = MAX_FIELD_LEN"

definition overwrite :: "string \<Rightarrow> FieldValue \<Rightarrow> FieldValue" where
  \<comment> \<open>a store through a member: its bytes replace the first ones\<close>
  "overwrite bs v = bs @ drop (length bs) v"

definition int_value :: "string \<Rightarrow> int" where
  "int_value v = wrap32 (int (le_nat (take 4 v)))"

definition set_int_value :: "int \<Rightarrow> FieldValue \<Rightarrow> FieldValue" where
  "set_int_value i v = overwrite (le_bytes 4 (nat (i mod 2 ^ 32))) v"

definition string_value :: "string \<Rightarrow> string" where
  "string_value v = c_str v"

definition set_string_value :: "string \<Rightarrow> FieldValue \<Rightarrow> FieldValue" where
  \<comment> \<open>\<open>strncpy(v, s, MAX_FIELD_LEN); v[MAX_FIELD_LEN - 1] = 0\<close>\<close>
  "set_string_value s v = (strncpy v s MAX_FIELD_LEN)[MAX_FIELD_LEN - 1 := NUL]"

definition float_bits :: "string \<Rightarrow> nat" where
  "float_bits v = le_nat (take 4 v)"

definition set_float_bits :: "nat \<Rightarrow> FieldValue \<Rightarrow> FieldValue" where
  "set_float_bits n v = overwrite (le_bytes 4 n) v"

definition double_bits :: "string \<Rightarrow> nat" where
  "double_bits v = le_nat (take 8 v)"

definition set_double_bits :: "nat \<Rightarrow> FieldValue \<Rightarrow> FieldValue" where
  "set_double_bits n v = overwrite (le_bytes 8 n) v"

definition bool_value :: "string \<Rightarrow> bool" where
  "bool_value v \<longleftrightarrow> le_nat (take 1 v) \<noteq> 0"

definition set_bool_value :: "bool \<Rightarrow> FieldValue \<Rightarrow> FieldValue" where
  "set_bool_value b v = overwrite (le_bytes 1 (if b then 1 else 0)) v"

text \<open>
  \<open>==\<close> on \<open>float\<close> and \<open>double\<close> (IEEE 754 binary32 and binary64, given by their bits): a NaN is
  not equal to anything, and the two zeros are equal.
\<close>

definition ieee_eq :: "nat \<Rightarrow> nat \<Rightarrow> nat \<Rightarrow> nat \<Rightarrow> bool" where
  "ieee_eq ebits mbits a b \<longleftrightarrow>
     (let nan = (\<lambda>x. (x div 2 ^ mbits) mod 2 ^ ebits = 2 ^ ebits - 1 \<and> x mod 2 ^ mbits \<noteq> 0);
          zero = (\<lambda>x. x mod 2 ^ (ebits + mbits) = 0)
      in \<not> nan a \<and> \<not> nan b \<and> (a = b \<or> zero a \<and> zero b))"

definition float_eq :: "nat \<Rightarrow> nat \<Rightarrow> bool" where "float_eq = ieee_eq 8 23"
definition double_eq :: "nat \<Rightarrow> nat \<Rightarrow> bool" where "double_eq = ieee_eq 11 52"

lemma length_overwrite: "length bs \<le> length v \<Longrightarrow> length (overwrite bs v) = length v"
  by (simp add: overwrite_def)

lemma value_ok_zero [simp]: "value_ok zero_value"
  by (simp add: value_ok_def zero_value_def)

lemma value_ok_set [simp]:
  "value_ok v \<Longrightarrow> value_ok (set_int_value i v)"
  "value_ok v \<Longrightarrow> value_ok (set_float_bits n v)"
  "value_ok v \<Longrightarrow> value_ok (set_double_bits n v)"
  "value_ok v \<Longrightarrow> value_ok (set_bool_value b v)"
  "value_ok v \<Longrightarrow> value_ok (set_string_value s v)"
  by (simp_all add: value_ok_def set_int_value_def set_float_bits_def set_double_bits_def
      set_bool_value_def set_string_value_def length_overwrite MAX_FIELD_LEN_def)

lemma c_int_int_value [simp]: "c_int (int_value v)"
  by (simp add: int_value_def)

lemma int_value_set [simp]: "int_value (set_int_value i v) = wrap32 i"
proof -
  have "int (nat (i mod 2 ^ 32) mod 256 ^ 4) = i mod 2 ^ 32" by simp
  then show ?thesis
    by (simp add: int_value_def set_int_value_def overwrite_def del: le_bytes.simps)
      (simp add: wrap32_def mod_simps)
qed

lemma bool_value_set [simp]: "bool_value (set_bool_value b v) = b"
  by (simp add: bool_value_def set_bool_value_def overwrite_def)

lemma float_bits_set [simp]: "n < 2 ^ 32 \<Longrightarrow> float_bits (set_float_bits n v) = n"
  by (simp add: float_bits_def set_float_bits_def overwrite_def del: le_bytes.simps)

lemma double_bits_set [simp]: "n < 2 ^ 64 \<Longrightarrow> double_bits (set_double_bits n v) = n"
  by (simp add: double_bits_def set_double_bits_def overwrite_def del: le_bytes.simps)

lemma c_str_take_NUL:
  assumes "nul_free s" and "n \<le> length s" and "n < length b" and "take n b = take n s"
  shows "c_str (b[n := NUL]) = take n s"
proof -
  have "b[n := NUL] = take n s @ NUL # drop (Suc n) b"
    using assms(3,4) by (simp add: upd_conv_take_nth_drop)
  then show ?thesis using assms(1) by (simp add: nul_free_take)
qed

lemma c_str_update_NUL:
  assumes "nul_free s" and "length s \<le> k"
  shows "c_str ((s @ NUL # t)[k := NUL]) = s"
proof -
  have "\<exists>t'. (NUL # t)[j := NUL] = NUL # t'" for j
    by (cases j) auto
  then obtain t' where "(NUL # t)[k - length s := NUL] = NUL # t'" by blast
  with assms show ?thesis by (simp add: list_update_append)
qed

lemma string_value_set [simp]:
  assumes "nul_free s" and "value_ok v"
  shows "string_value (set_string_value s v) = take (MAX_FIELD_LEN - 1) s"
proof (cases "length s < MAX_FIELD_LEN")
  case True
  let ?b = "strncpy v s MAX_FIELD_LEN"
  have b: "?b = s @ NUL # replicate (MAX_FIELD_LEN - length s - 1) NUL @ drop MAX_FIELD_LEN v"
    using True by (simp add: strncpy_fits)
      (metis Suc_diff_Suc Suc_eq_plus1 diff_diff_left replicate_Suc append_Cons)
  have "c_str (?b[MAX_FIELD_LEN - 1 := NUL]) = s"
    using True assms(1) unfolding b by (simp add: c_str_update_NUL)
  with True show ?thesis by (simp add: string_value_def set_string_value_def)
next
  case False
  then have "take (MAX_FIELD_LEN - 1) (strncpy v s MAX_FIELD_LEN) = take (MAX_FIELD_LEN - 1) s"
    by (simp add: strncpy_def MAX_FIELD_LEN_def)
  with False assms show ?thesis
    by (simp add: string_value_def set_string_value_def value_ok_def c_str_take_NUL MAX_FIELD_LEN_def)
qed

section \<open>Fields\<close>

record Field =
  f_name :: string
  f_type :: FieldType
  f_value :: FieldValue

definition zero_field :: Field where
  \<comment> \<open>\<open>Field field = {0}\<close>\<close>
  "zero_field = \<lparr>f_name = [], f_type = TYPE_UNKNOWN, f_value = zero_value\<rparr>"

definition field_ok :: "Field \<Rightarrow> bool" where
  "field_ok f \<longleftrightarrow> value_ok (f_value f)"

end
