(* ===== verification/Lx_Index.thy ===== *)
theory Lx_Index
  imports Lx_Types
begin

text \<open>
  The index registries: the manager of \<open>src/src/index.c\<close> and the simple manager that
  \<open>src/src/database.c\<close> builds on the same structure. Both keep an array of indexes and find
  them by table and field name. The locale \<open>index_registry\<close> states what their clients use;
  both managers interpret it.

  The arrays are lists of slots, of which the first \<open>im_index_count\<close> are live. Allocation
  outcomes are an argument \<open>ok\<close>: \<open>ok k\<close> says whether the \<open>k\<close>-th allocation of the call
  succeeds. A \<open>None\<close> result of \<open>index_manager_add_index\<close> is a store through a NULL array.
\<close>

section \<open>State\<close>

datatype pointer = NullPtr | Allocated | Indeterminate

record Index =
  ix_table_name :: string
  ix_field_name :: string
  ix_type :: IndexType
  ix_size :: "nat option" \<comment> \<open>\<open>None\<close>: not initialised\<close>

record IndexManager =
  im_indexes :: "Index list"
  im_indexes_ptr :: pointer
  im_index_count :: nat
  im_index_capacity :: "nat option"
  im_capacity :: nat
  im_hash_table :: pointer
  im_recent_indexes :: pointer
  im_max_indexes :: "int option"

definition store_name :: "nat \<Rightarrow> string \<Rightarrow> string" where
  \<comment> \<open>\<open>strncpy(name, s, n); name[n - 1] = 0\<close> on a \<open>char name[n]\<close>\<close>
  "store_name n s = c_str ((strncpy (replicate n NUL) s n)[n - 1 := NUL])"

definition index_named :: "string \<Rightarrow> string \<Rightarrow> Index \<Rightarrow> bool" where
  "index_named table_name field_name idx \<longleftrightarrow>
     strcmp (ix_table_name idx) table_name = 0 \<and> strcmp (ix_field_name idx) field_name = 0"

definition live_indexes :: "IndexManager \<Rightarrow> Index list" where
  "live_indexes m = take (im_index_count m) (im_indexes m)"

function shift_down :: "nat \<Rightarrow> nat \<Rightarrow> 'a list \<Rightarrow> 'a list" where
  \<comment> \<open>\<open>for (j = i; j < count - 1; j++) a[j] = a[j + 1]\<close>\<close>
  "shift_down j cnt xs =
     (if Suc j < cnt then shift_down (Suc j) cnt (xs[j := xs ! Suc j]) else xs)"
  by pat_completeness auto
termination
  by (relation "measure (\<lambda>(j, cnt, xs). cnt - j)") auto

declare shift_down.simps [simp del]

lemma length_shift_down [simp]: "length (shift_down j cnt xs) = length xs"
  by (induction j cnt xs rule: shift_down.induct) (subst shift_down.simps, simp)

lemma take_shift_down:
  assumes "i < cnt" and "cnt \<le> length xs"
  shows "take (cnt - 1) (shift_down i cnt xs) = remove_at i (take cnt xs)"
  using assms
proof (induction i cnt xs rule: shift_down.induct)
  case (1 j cnt xs)
  show ?case
  proof (cases "Suc j < cnt")
    case True
    with 1 have "take (cnt - 1) (shift_down j cnt xs) = remove_at (Suc j) (take cnt (xs[j := xs ! Suc j]))"
      by (subst shift_down.simps) simp
    also have "\<dots> = remove_at j (take cnt xs)"
    proof (rule nth_equalityI)
      show "length (remove_at (Suc j) (take cnt (xs[j := xs ! Suc j]))) = length (remove_at j (take cnt xs))"
        using True 1(3) by (simp add: length_remove_at)
    next
      fix k assume "k < length (remove_at (Suc j) (take cnt (xs[j := xs ! Suc j])))"
      then have k: "k < cnt - 1" using True 1(3) by (simp add: length_remove_at)
      then show "remove_at (Suc j) (take cnt (xs[j := xs ! Suc j])) ! k = remove_at j (take cnt xs) ! k"
        using True 1(3) by (auto simp: remove_at_def nth_append nth_list_update min_def less_Suc_eq
            not_less Suc_le_eq le_Suc_eq)
    qed
    finally show ?thesis .
  next
    case False
    with 1(2,3) have c: "cnt = Suc j" and "j < length xs" by auto
    then show ?thesis by (subst shift_down.simps) (simp add: remove_at_def)
  qed
qed

lemma store_name_eq [simp]: "nul_free s \<Longrightarrow> 0 < n \<Longrightarrow> store_name n s = take (n - 1) s"
proof -
  assume nf: "nul_free s" and n: "0 < n"
  show "store_name n s = take (n - 1) s"
  proof (cases "length s < n")
    case True
    then obtain k where "n - length s = Suc k" by (cases "n - length s") auto
    with True have b: "strncpy (replicate n NUL) s n = s @ NUL # replicate k NUL"
      by (simp add: strncpy_fits)
    from True nf n show ?thesis by (simp add: store_name_def b c_str_update_NUL)
  next
    case False
    with nf n show ?thesis
      by (simp add: store_name_def c_str_take_NUL strncpy_def)
  qed
qed

section \<open>The manager of \<open>index.c\<close>\<close>

definition index_manager_create :: "alloc \<Rightarrow> IndexManager option" where
  "index_manager_create ok =
     (if \<not> ok 0 then None
      else Some \<lparr>im_indexes = [], im_indexes_ptr = (if ok 3 then Allocated else NullPtr),
        im_index_count = 0, im_index_capacity = Some 16, im_capacity = 16,
        im_hash_table = (if ok 1 then Allocated else NullPtr),
        im_recent_indexes = (if ok 2 then Allocated else NullPtr),
        im_max_indexes = Some 100\<rparr>)"

definition index_manager_create_ex :: "alloc \<Rightarrow> int \<Rightarrow> IndexManager option" where
  "index_manager_create_ex ok max_indexes =
     (case index_manager_create ok of None \<Rightarrow> None
      | Some manager \<Rightarrow> Some (manager\<lparr>im_max_indexes := Some max_indexes\<rparr>))"

definition index_manager_free :: "IndexManager option \<Rightarrow> bool" where
  \<comment> \<open>whether every pointer given to \<open>free\<close> is NULL or allocated\<close>
  "index_manager_free mp = (case mp of None \<Rightarrow> True
     | Some manager \<Rightarrow> im_indexes_ptr manager \<noteq> Indeterminate \<and>
         im_hash_table manager \<noteq> Indeterminate \<and> im_recent_indexes manager \<noteq> Indeterminate)"

definition index_manager_add_index ::
  "alloc \<Rightarrow> IndexManager \<Rightarrow> Index option \<Rightarrow> (ErrorCode \<times> IndexManager) option" where
  "index_manager_add_index ok manager ip = (case ip of None \<Rightarrow> Some (ERROR_INVALID_PARAMETER, manager)
     | Some index \<Rightarrow>
       (case im_index_capacity manager of None \<Rightarrow> None
        | Some cap \<Rightarrow>
          let n = im_index_count manager in
          if cap \<le> n then
            let new_capacity = (if cap = 0 then 4 else cap * 2) in
            if \<not> ok 0 then Some (ERROR_MEMORY_ALLOCATION, manager)
            else Some (SUCCESS, manager\<lparr>im_indexes := store_slot n index (im_indexes manager),
                   im_indexes_ptr := Allocated, im_index_capacity := Some new_capacity,
                   im_index_count := Suc n\<rparr>)
          else if im_indexes_ptr manager \<noteq> Allocated then None
          else Some (SUCCESS, manager\<lparr>im_indexes := store_slot n index (im_indexes manager),
                 im_index_count := Suc n\<rparr>)))"

definition index_manager_remove_index ::
  "IndexManager \<Rightarrow> string option \<Rightarrow> string option \<Rightarrow> ErrorCode \<times> IndexManager" where
  "index_manager_remove_index manager tn fn = (case (tn, fn) of
     (Some table_name, Some field_name) \<Rightarrow>
       (case find_index (index_named table_name field_name) (live_indexes manager) of
          None \<Rightarrow> (ERROR_NOT_FOUND, manager)
        | Some i \<Rightarrow> (SUCCESS, manager\<lparr>
            im_indexes := shift_down i (im_index_count manager) (im_indexes manager),
            im_index_count := im_index_count manager - 1\<rparr>))
   | _ \<Rightarrow> (ERROR_INVALID_PARAMETER, manager))"

definition index_manager_get_index ::
  "IndexManager option \<Rightarrow> string option \<Rightarrow> string option \<Rightarrow> Index option" where
  "index_manager_get_index mp tn fn = (case (mp, tn, fn) of
     (Some manager, Some table_name, Some field_name) \<Rightarrow>
       map_option (\<lambda>i. im_indexes manager ! i)
         (find_index (index_named table_name field_name) (live_indexes manager))
   | _ \<Rightarrow> None)"

definition index_manager_get_count :: "IndexManager option \<Rightarrow> nat" where
  "index_manager_get_count mp = (case mp of None \<Rightarrow> 0 | Some manager \<Rightarrow> im_index_count manager)"

definition index_create :: "alloc \<Rightarrow> string \<Rightarrow> string \<Rightarrow> IndexType \<Rightarrow> Index option" where
  "index_create ok table_name field_name type =
     (if \<not> ok 0 then None
      else Some \<lparr>ix_table_name = store_name MAX_TABLE_NAME table_name,
        ix_field_name = store_name MAX_FIELD_LEN field_name, ix_type = type, ix_size = Some 0\<rparr>)"

definition index_insert :: "Index option \<Rightarrow> ErrorCode \<times> Index option" where
  "index_insert ip = (case ip of None \<Rightarrow> (ERROR_INVALID_PARAMETER, None)
     | Some index \<Rightarrow> (SUCCESS, Some (index\<lparr>ix_size := map_option Suc (ix_size index)\<rparr>)))"

definition index_search :: "Index option \<Rightarrow> int \<Rightarrow> 'r option" where
  "index_search ip key = None"

definition index_delete :: "Index option \<Rightarrow> ErrorCode \<times> Index option" where
  "index_delete ip = (case ip of None \<Rightarrow> (ERROR_INVALID_PARAMETER, None)
     | Some index \<Rightarrow> (SUCCESS, Some (case ix_size index of
           Some n \<Rightarrow> if 0 < n then index\<lparr>ix_size := Some (n - 1)\<rparr> else index
         | None \<Rightarrow> index)))"

section \<open>The simple manager of \<open>database.c\<close>\<close>

definition create_simple_index_manager :: "alloc \<Rightarrow> IndexManager option" where
  "create_simple_index_manager ok =
     (if \<not> ok 0 then None
      else Some \<lparr>im_indexes = [], im_indexes_ptr = NullPtr, im_index_count = 0,
        im_index_capacity = None, im_capacity = 0, im_hash_table = Indeterminate,
        im_recent_indexes = Indeterminate, im_max_indexes = None\<rparr>)"

definition find_index_in_manager ::
  "IndexManager option \<Rightarrow> string \<Rightarrow> string \<Rightarrow> Index option" where
  "find_index_in_manager mp table_name field_name = (case mp of None \<Rightarrow> None
     | Some manager \<Rightarrow>
         if im_indexes_ptr manager = NullPtr then None
         else map_option (\<lambda>i. im_indexes manager ! i)
           (find_index (index_named table_name field_name) (live_indexes manager)))"

definition add_index_to_manager ::
  "alloc \<Rightarrow> IndexManager \<Rightarrow> Index \<Rightarrow> ErrorCode \<times> IndexManager" where
  "add_index_to_manager ok manager index =
     (let n = im_index_count manager; cap = im_capacity manager in
      if cap \<le> n \<and> \<not> ok 0 then (ERROR_MEMORY_ALLOCATION, manager)
      else (SUCCESS, manager\<lparr>im_indexes := store_slot n index (im_indexes manager),
             im_indexes_ptr := (if cap \<le> n then Allocated else im_indexes_ptr manager),
             im_capacity := (if cap \<le> n then (if cap = 0 then 4 else cap * 2) else cap),
             im_index_count := Suc n\<rparr>))"

definition remove_index_from_manager ::
  "IndexManager option \<Rightarrow> string \<Rightarrow> string \<Rightarrow> ErrorCode \<times> IndexManager option" where
  "remove_index_from_manager mp table_name field_name = (case mp of None \<Rightarrow> (ERROR_NOT_FOUND, None)
     | Some manager \<Rightarrow>
         if im_indexes_ptr manager = NullPtr then (ERROR_NOT_FOUND, Some manager)
         else (case find_index (index_named table_name field_name) (live_indexes manager) of
            None \<Rightarrow> (ERROR_NOT_FOUND, Some manager)
          | Some i \<Rightarrow> (SUCCESS, Some (manager\<lparr>
              im_indexes := shift_down i (im_index_count manager) (im_indexes manager),
              im_index_count := im_index_count manager - 1\<rparr>))))"

definition create_simple_index :: "alloc \<Rightarrow> string \<Rightarrow> string \<Rightarrow> IndexType \<Rightarrow> Index option" where
  "create_simple_index ok table_name field_name type =
     (if \<not> ok 0 then None
      else Some \<lparr>ix_table_name = store_name MAX_TABLE_NAME table_name,
        ix_field_name = store_name MAX_FIELD_LEN field_name, ix_type = type, ix_size = None\<rparr>)"

text \<open>The index operations of \<open>database.c\<close> keep no data: a search never finds anything.\<close>

definition index_search_simple :: "Index \<Rightarrow> int \<Rightarrow> 'r option" where
  "index_search_simple index key = None"

definition index_insert_simple :: "Index \<Rightarrow> int \<Rightarrow> ErrorCode" where
  "index_insert_simple index key = SUCCESS"

definition index_delete_simple :: "Index \<Rightarrow> int \<Rightarrow> ErrorCode" where
  "index_delete_simple index key = SUCCESS"

definition index_update_simple :: "Index \<Rightarrow> int \<Rightarrow> int \<Rightarrow> ErrorCode" where
  "index_update_simple index old_key new_key =
     (let err = index_delete_simple index old_key in
      if err \<noteq> SUCCESS then err else index_insert_simple index new_key)"

section \<open>What clients of a registry rely on\<close>

text \<open>
  \<open>add\<close> appends, \<open>get\<close> finds the first index of a table and field, \<open>remove\<close> takes exactly that
  one away and keeps the order of the others.
\<close>

locale index_registry =
  fixes add :: "'m \<Rightarrow> Index \<Rightarrow> (ErrorCode \<times> 'm) option"
    and remove :: "'m \<Rightarrow> string \<Rightarrow> string \<Rightarrow> ErrorCode \<times> 'm"
    and get :: "'m \<Rightarrow> string \<Rightarrow> string \<Rightarrow> Index option"
    and entries :: "'m \<Rightarrow> Index list"
    and inv :: "'m \<Rightarrow> bool"
  assumes add_defined: "inv m \<Longrightarrow> \<exists>e m'. add m x = Some (e, m')"
    and add_success: "inv m \<Longrightarrow> add m x = Some (SUCCESS, m') \<Longrightarrow> inv m' \<and> entries m' = entries m @ [x]"
    and add_failure: "inv m \<Longrightarrow> add m x = Some (e, m') \<Longrightarrow> e \<noteq> SUCCESS \<Longrightarrow> m' = m"
    and get_find: "inv m \<Longrightarrow> get m t f = List.find (index_named t f) (entries m)"
    and remove_found: "inv m \<Longrightarrow> find_index (index_named t f) (entries m) = Some i \<Longrightarrow>
      \<exists>m'. remove m t f = (SUCCESS, m') \<and> inv m' \<and> entries m' = remove_at i (entries m)"
    and remove_missing: "inv m \<Longrightarrow> find_index (index_named t f) (entries m) = None \<Longrightarrow>
      remove m t f = (ERROR_NOT_FOUND, m)"
begin

lemma add_inv: "inv m \<Longrightarrow> add m x = Some (e, m') \<Longrightarrow> inv m'"
  using add_success [of m x m'] add_failure [of m x e m'] by (cases "e = SUCCESS") auto

lemma remove_inv: "inv m \<Longrightarrow> remove m t f = (e, m') \<Longrightarrow> inv m'"
  using remove_found [of m t f] remove_missing [of m t f]
  by (cases "find_index (index_named t f) (entries m)") fastforce+

lemma find_append: "List.find p (xs @ [x]) = (case List.find p xs of None \<Rightarrow> if p x then Some x else None | r \<Rightarrow> r)"
  by (induction xs) auto

lemma get_after_add:
  assumes "inv m" and "add m x = Some (SUCCESS, m')"
  shows "get m' t f = (case get m t f of None \<Rightarrow> if index_named t f x then Some x else None | r \<Rightarrow> r)"
  using add_success [OF assms] assms(1) by (simp add: get_find find_append)

lemma remove_after_add:
  assumes "inv m" and "get m t f = None" and "index_named t f x" and "add m x = Some (SUCCESS, m1)"
  shows "\<exists>m2. remove m1 t f = (SUCCESS, m2) \<and> entries m2 = entries m"
proof -
  from add_success [OF assms(1,4)] have i1: "inv m1" and e1: "entries m1 = entries m @ [x]" by auto
  have none: "find_index (index_named t f) (entries m) = None"
    using assms(1,2) by (simp add: get_find find_index_find)
  have fi: "find_index p (xs @ [y]) = Some (length xs)" if "find_index p xs = None" "p y"
    for p and xs :: "Index list" and y
    using that by (induction xs) (auto split: if_splits)
  from remove_found [OF i1, of t f "length (entries m)"] e1 fi [OF none assms(3)]
  show ?thesis by (auto simp: remove_at_def)
qed

lemma get_after_remove_other:
  assumes "inv m" and "remove m t f = (SUCCESS, m')" and "t' \<noteq> t \<or> f' \<noteq> f"
  shows "get m' t' f' = get m t' f'"
proof -
  from assms(1,2) obtain i where i: "find_index (index_named t f) (entries m) = Some i"
    using remove_missing [of m t f] by (cases "find_index (index_named t f) (entries m)") auto
  from remove_found [OF assms(1) i] assms(2) have e: "inv m'" "entries m' = remove_at i (entries m)"
    by auto
  have skip: "List.find p (remove_at j xs) = List.find p xs" if "j < length xs" "\<not> p (xs ! j)"
    for p j and xs :: "Index list"
    using that
  proof (induction xs arbitrary: j)
    case Nil
    then show ?case by simp
  next
    case (Cons y xs)
    then show ?case by (cases j) (auto simp: remove_at_def)
  qed
  from find_index_SomeD [OF i] have "i < length (entries m)" "\<not> index_named t' f' (entries m ! i)"
    using assms(3) by (auto simp: index_named_def)
  with skip e assms(1) show ?thesis by (simp add: get_find)
qed

end

section \<open>Both managers provide it\<close>

definition index_manager_ok :: "IndexManager \<Rightarrow> bool" where
  \<comment> \<open>a manager of \<open>index_manager_create\<close> whose index array was allocated\<close>
  "index_manager_ok m \<longleftrightarrow> im_index_count m \<le> length (im_indexes m) \<and>
     im_indexes_ptr m = Allocated \<and> (\<exists>cap. im_index_capacity m = Some cap \<and> im_index_count m \<le> cap)"

definition simple_manager_ok :: "IndexManager \<Rightarrow> bool" where
  \<comment> \<open>a manager of \<open>create_simple_index_manager\<close>\<close>
  "simple_manager_ok m \<longleftrightarrow> im_index_count m \<le> length (im_indexes m) \<and>
     im_index_count m \<le> im_capacity m \<and> (im_indexes_ptr m = NullPtr \<longleftrightarrow> im_capacity m = 0)"

lemma find_live: "map_option (\<lambda>i. im_indexes m ! i) (find_index p (live_indexes m)) = List.find p (live_indexes m)"
proof (cases "find_index p (live_indexes m)")
  case (Some i)
  then have "i < im_index_count m" "i < length (im_indexes m)"
    by (auto dest!: find_index_SomeD simp: live_indexes_def)
  with Some show ?thesis by (simp add: find_index_find live_indexes_def)
qed (simp add: find_index_find)

lemma live_shift_down:
  assumes "im_index_count m \<le> length (im_indexes m)" and "find_index p (live_indexes m) = Some i"
  shows "live_indexes (m\<lparr>im_indexes := shift_down i (im_index_count m) (im_indexes m),
           im_index_count := im_index_count m - 1\<rparr>) = remove_at i (live_indexes m)"
    and "0 < im_index_count m"
  using assms find_index_SomeD [OF assms(2)] take_shift_down [of i "im_index_count m" "im_indexes m"]
  by (auto simp: live_indexes_def)

interpretation im: index_registry
  "\<lambda>m x. index_manager_add_index ok m (Some x)"
  "\<lambda>m t f. index_manager_remove_index m (Some t) (Some f)"
  "\<lambda>m t f. index_manager_get_index (Some m) (Some t) (Some f)"
  live_indexes index_manager_ok
proof
  fix m m' :: IndexManager and x t f i
  assume inv: "index_manager_ok m"
  show "\<exists>e m'. index_manager_add_index ok m (Some x) = Some (e, m')"
    using inv by (auto simp: index_manager_ok_def index_manager_add_index_def Let_def)
  show "index_manager_ok m' \<and> live_indexes m' = live_indexes m @ [x]"
    if "index_manager_add_index ok m (Some x) = Some (SUCCESS, m')"
    using inv that by (auto simp: index_manager_ok_def index_manager_add_index_def Let_def
        live_indexes_def take_store_slot store_slot_def split: if_splits)
  show "index_manager_get_index (Some m) (Some t) (Some f) = List.find (index_named t f) (live_indexes m)"
    by (simp add: index_manager_get_index_def find_live)
  show "\<exists>m'. index_manager_remove_index m (Some t) (Some f) = (SUCCESS, m') \<and> index_manager_ok m' \<and>
      live_indexes m' = remove_at i (live_indexes m)"
    if "find_index (index_named t f) (live_indexes m) = Some i"
    using inv that live_shift_down [OF _ that]
    by (auto simp: index_manager_remove_index_def index_manager_ok_def)
next
  fix m m' :: IndexManager and x e
  assume "index_manager_ok m" "index_manager_add_index ok m (Some x) = Some (e, m')" "e \<noteq> SUCCESS"
  then show "m' = m"
    by (auto simp: index_manager_add_index_def Let_def split: option.splits if_splits)
next
  fix m :: IndexManager and t f
  assume "find_index (index_named t f) (live_indexes m) = None"
  then show "index_manager_remove_index m (Some t) (Some f) = (ERROR_NOT_FOUND, m)"
    by (simp add: index_manager_remove_index_def)
qed

definition simple_remove :: "IndexManager \<Rightarrow> string \<Rightarrow> string \<Rightarrow> ErrorCode \<times> IndexManager" where
  \<comment> \<open>\<open>remove_index_from_manager\<close> on a manager that exists\<close>
  "simple_remove m t f = map_prod id the (remove_index_from_manager (Some m) t f)"

lemma simple_null_no_entries:
  "simple_manager_ok m \<Longrightarrow> im_indexes_ptr m = NullPtr \<Longrightarrow> live_indexes m = []"
  by (simp add: simple_manager_ok_def live_indexes_def)

interpretation sm: index_registry
  "\<lambda>m x. Some (add_index_to_manager ok m x)" simple_remove
  "\<lambda>m t f. find_index_in_manager (Some m) t f" live_indexes simple_manager_ok
proof
  fix m m' :: IndexManager and x t f i
  assume inv: "simple_manager_ok m"
  show "\<exists>e m'. Some (add_index_to_manager ok m x) = Some (e, m')"
    by (cases "add_index_to_manager ok m x") simp
  show "simple_manager_ok m' \<and> live_indexes m' = live_indexes m @ [x]"
    if "Some (add_index_to_manager ok m x) = Some (SUCCESS, m')"
    using inv that by (auto simp: simple_manager_ok_def add_index_to_manager_def Let_def
        live_indexes_def take_store_slot store_slot_def split: if_splits)
  show "find_index_in_manager (Some m) t f = List.find (index_named t f) (live_indexes m)"
    using simple_null_no_entries [OF inv] by (simp add: find_index_in_manager_def find_live)
  show "\<exists>m'. simple_remove m t f = (SUCCESS, m') \<and> simple_manager_ok m' \<and>
      live_indexes m' = remove_at i (live_indexes m)"
    if "find_index (index_named t f) (live_indexes m) = Some i"
    using inv that live_shift_down [OF _ that] simple_null_no_entries [OF inv]
    by (auto simp: simple_remove_def remove_index_from_manager_def simple_manager_ok_def)
next
  fix m m' :: IndexManager and x e
  assume "Some (add_index_to_manager ok m x) = Some (e, m')" "e \<noteq> SUCCESS"
  then show "m' = m"
    by (auto simp: add_index_to_manager_def Let_def split: if_splits)
next
  fix m :: IndexManager and t f
  assume "find_index (index_named t f) (live_indexes m) = None"
  then show "simple_remove m t f = (ERROR_NOT_FOUND, m)"
    by (simp add: simple_remove_def remove_index_from_manager_def)
qed

lemma simple_manager_ok_create: "create_simple_index_manager ok = Some m \<Longrightarrow> simple_manager_ok m \<and> live_indexes m = []"
  by (auto simp: create_simple_index_manager_def simple_manager_ok_def live_indexes_def split: if_splits)

lemma index_manager_ok_create:
  "index_manager_create ok = Some m \<Longrightarrow> ok 3 \<Longrightarrow> index_manager_ok m \<and> live_indexes m = []"
  by (auto simp: index_manager_create_def index_manager_ok_def live_indexes_def split: if_splits)

text \<open>A table's manager never gets two indexes of one field when the client looks before it adds.\<close>

definition distinct_keys :: "Index list \<Rightarrow> bool" where
  "distinct_keys xs \<longleftrightarrow> distinct (map (\<lambda>i. (ix_table_name i, ix_field_name i)) xs)"

lemma distinct_keys_remove_at: "distinct_keys xs \<Longrightarrow> i < length xs \<Longrightarrow> distinct_keys (remove_at i xs)"
  by (simp add: distinct_keys_def map_remove_at distinct_remove_at)

lemma distinct_keys_snoc:
  "distinct_keys xs \<Longrightarrow> List.find (index_named (ix_table_name x) (ix_field_name x)) xs = None \<Longrightarrow>
   distinct_keys (xs @ [x])"
  by (auto simp: distinct_keys_def index_named_def find_None_iff)

section \<open>Properties\<close>

text \<open>In the manager of \<open>index.c\<close>, removing an index that was just added (and was not there
  before) succeeds and leaves the registered indexes as they were, in their order.\<close>

lemma index_manager_add_remove:
  assumes "index_manager_ok m"
    and "index_manager_get_index (Some m) (Some t) (Some f) = None"
    and "index_named t f x"
    and "index_manager_add_index ok m (Some x) = Some (SUCCESS, m1)"
  shows "\<exists>m2. index_manager_remove_index m1 (Some t) (Some f) = (SUCCESS, m2) \<and>
     live_indexes m2 = live_indexes m"
  by (rule im.remove_after_add [OF assms])

definition sample_index :: Index where
  "sample_index = \<lparr>ix_table_name = ''t'', ix_field_name = ''f'', ix_type = INDEX_HASH, ix_size = Some 0\<rparr>"

lemma index_manager_add_remove_example:
  "\<exists>m m1 m2. index_manager_create (\<lambda>_. True) = Some m \<and>
     index_manager_add_index (\<lambda>_. True) m (Some sample_index) = Some (SUCCESS, m1) \<and>
     index_manager_remove_index m1 (Some ''t'') (Some ''f'') = (SUCCESS, m2) \<and> live_indexes m2 = []"
proof -
  obtain m where m: "index_manager_create (\<lambda>_. True) = Some m"
    by (simp add: index_manager_create_def)
  then have ok: "index_manager_ok m" and e: "live_indexes m = []"
    using index_manager_ok_create by auto
  have g: "index_manager_get_index (Some m) (Some ''t'') (Some ''f'') = None"
    by (simp add: index_manager_get_index_def e)
  have n: "index_named ''t'' ''f'' sample_index"
    by (simp add: index_named_def sample_index_def)
  obtain m1 where a: "index_manager_add_index (\<lambda>_. True) m (Some sample_index) = Some (SUCCESS, m1)"
    using m by (auto simp: index_manager_create_def index_manager_add_index_def Let_def)
  from index_manager_add_remove [OF ok g n a] e m a show ?thesis by auto
qed

end
