(* ===== verification/Lx_Table.thy ===== *)
theory Lx_Table
  imports Lx_Index
begin

text \<open>
  Records and tables: the structures \<open>Record\<close>, \<open>Constraint\<close>, \<open>TableStatistics\<close> and \<open>Table\<close> of
  \<open>src/src/database.h\<close>, and the table operations of \<open>src/src/database.c\<close>:
  \<open>generate_record_id\<close>, \<open>table_insert_record\<close>, \<open>table_find_record\<close>, \<open>table_update_record\<close> and
  \<open>table_delete_record\<close>, with the index maintenance they call.

  The linked list of records is the list of its nodes from the head. The counter of
  \<open>generate_record_id\<close> is a C \<open>static\<close>, shared by all tables: operations take its value \<open>gc\<close> and
  return the new one. \<open>now\<close> is the value \<open>time(NULL)\<close> returns. The arrays of a table and the
  array of values given to an operation have at least \<open>field_count\<close> entries: the C code reads
  that many without a check.
\<close>

section \<open>State\<close>

record Constraint =
  c_nullable :: bool
  c_unique :: bool
  c_primary_key :: bool
  c_foreign_key :: bool

record Record =
  r_id :: int
  r_fields :: "Field list"
  r_field_count :: nat
  r_timestamp :: int
  r_version :: int

record TableStatistics =
  ts_records_inserted :: int
  ts_records_updated :: int
  ts_records_deleted :: int
  ts_index_scans :: int
  ts_sequential_scans :: int
  ts_total_size_bytes :: nat

record Table =
  t_name :: string
  t_field_names :: "string list"
  t_field_types :: "FieldType list"
  t_constraints :: "Constraint list"
  t_field_count :: nat
  t_records :: "Record list"
  t_record_count :: nat
  t_capacity :: nat
  t_next_record_id :: int
  t_index_manager :: "IndexManager option"
  t_statistics :: "TableStatistics option"

datatype StatType = STAT_TABLES_CREATED | STAT_RECORDS_INSERTED | STAT_RECORDS_UPDATED
  | STAT_RECORDS_DELETED | STAT_QUERIES_EXECUTED | STAT_CACHE_HITS | STAT_CACHE_MISSES
  | STAT_TRANSACTIONS_STARTED | STAT_TRANSACTIONS_COMMITTED | STAT_TRANSACTIONS_ROLLED_BACK
  | STAT_INDEXES_CREATED | STAT_INDEXES_DROPPED | STAT_VACUUM_OPERATIONS
  | STAT_OPTIMIZATION_OPERATIONS

definition create_simple_table_statistics :: "alloc \<Rightarrow> TableStatistics option" where
  "create_simple_table_statistics ok =
     (if \<not> ok 0 then None
      else Some \<lparr>ts_records_inserted = 0, ts_records_updated = 0, ts_records_deleted = 0,
        ts_index_scans = 0, ts_sequential_scans = 0, ts_total_size_bytes = 0\<rparr>)"

definition update_simple_table_statistics ::
  "TableStatistics option \<Rightarrow> StatType \<Rightarrow> int \<Rightarrow> TableStatistics option" where
  "update_simple_table_statistics sp stat_type v = (case sp of None \<Rightarrow> None
     | Some stats \<Rightarrow> Some (case stat_type of
         STAT_RECORDS_INSERTED \<Rightarrow> stats\<lparr>ts_records_inserted := ts_records_inserted stats + v\<rparr>
       | STAT_RECORDS_UPDATED \<Rightarrow> stats\<lparr>ts_records_updated := ts_records_updated stats + v\<rparr>
       | STAT_RECORDS_DELETED \<Rightarrow> stats\<lparr>ts_records_deleted := ts_records_deleted stats + v\<rparr>
       | _ \<Rightarrow> stats))"

section \<open>Finding records\<close>

fun find_by_index :: "Table \<Rightarrow> int \<Rightarrow> Index list \<Rightarrow> Record option" where
  \<comment> \<open>the loop over the indexes: the first one on \<open>id\<close> (or any, when the first field is the
      primary key) is searched, and then the loop stops\<close>
  "find_by_index t key [] = None"
| "find_by_index t key (index # rest) =
     (if strcmp (ix_field_name index) ''id'' = 0 \<or> c_primary_key (t_constraints t ! 0)
      then index_search_simple index key
      else find_by_index t key rest)"

definition table_find_record :: "Table \<Rightarrow> int \<Rightarrow> Record option" where
  "table_find_record t key =
     (let by_index = (case t_index_manager t of None \<Rightarrow> None
            | Some m \<Rightarrow> if 0 < im_index_count m then find_by_index t key (live_indexes m) else None)
      in case by_index of Some r \<Rightarrow> Some r
         | None \<Rightarrow> List.find (\<lambda>r. r_id r = key) (t_records t))"

definition generate_record_id :: "Table \<Rightarrow> int \<Rightarrow> int \<times> int" where
  \<comment> \<open>the id, and the new value of the static counter\<close>
  "generate_record_id t gc =
     (let max_id = fold (\<lambda>r m. if m < r_id r then r_id r else m) (t_records t) 0;
          next_id = wrap32 (max_id + 1)
      in if gc < next_id then (next_id, gc) else (gc, wrap32 (gc + 1)))"

section \<open>Index maintenance\<close>

datatype IndexCall = IndexInsert Index int | IndexUpdate Index int int | IndexDelete Index int

definition find_field :: "Table \<Rightarrow> string \<Rightarrow> nat option" where
  \<comment> \<open>the first field of that name: the search loop that all operations repeat\<close>
  "find_field t name =
     find_index (\<lambda>n. strcmp n name = 0) (take (t_field_count t) (t_field_names t))"

definition update_indexes_for_record ::
  "Table \<Rightarrow> Record \<Rightarrow> int \<Rightarrow> ErrorCode \<times> IndexCall list" where
  \<comment> \<open>the result, and the calls on index structures it makes, in order\<close>
  "update_indexes_for_record t record old_id = (case t_index_manager t of None \<Rightarrow> (SUCCESS, [])
     | Some manager \<Rightarrow> (SUCCESS, concat (map (\<lambda>index.
         case find_field t (ix_field_name index) of None \<Rightarrow> []
         | Some field_idx \<Rightarrow>
             let field = r_fields record ! field_idx in
             if f_type field \<noteq> TYPE_INT then []
             else if old_id \<noteq> -1 then [IndexUpdate index old_id (int_value (f_value field))]
             else [IndexInsert index (int_value (f_value field))])
         (live_indexes manager))))"

definition remove_indexes_for_record :: "Table \<Rightarrow> int \<Rightarrow> ErrorCode \<times> IndexCall list" where
  "remove_indexes_for_record t record_id = (case t_index_manager t of None \<Rightarrow> (SUCCESS, [])
     | Some manager \<Rightarrow> (SUCCESS, map (\<lambda>index. IndexDelete index record_id) (live_indexes manager)))"

fun run_index_call :: "IndexCall \<Rightarrow> IndexManager option \<Rightarrow> ErrorCode \<times> IndexManager option" where
  \<comment> \<open>an index call reaches no state of the manager\<close>
  "run_index_call (IndexInsert index key) m = (index_insert_simple index key, m)"
| "run_index_call (IndexUpdate index old_key new_key) m = (index_update_simple index old_key new_key, m)"
| "run_index_call (IndexDelete index key) m = (index_delete_simple index key, m)"

definition run_index_calls :: "IndexCall list \<Rightarrow> IndexManager option \<Rightarrow> IndexManager option" where
  "run_index_calls calls m = fold (\<lambda>c m. snd (run_index_call c m)) calls m"

lemma run_index_calls_id [simp]: "run_index_calls calls m = m"
proof -
  have "snd (run_index_call c m) = m" for c m by (cases c) simp_all
  then show ?thesis by (induction calls) (simp_all add: run_index_calls_def)
qed

section \<open>Insertion\<close>

definition pk_record_id :: "Table \<Rightarrow> Field list \<Rightarrow> int" where
  \<comment> \<open>the value of the first integer given for a primary key field, or -1\<close>
  "pk_record_id t vals =
     (case List.find (\<lambda>i. c_primary_key (t_constraints t ! i) \<and> f_type (vals ! i) = TYPE_INT)
             [0..<t_field_count t] of
        None \<Rightarrow> -1 | Some i \<Rightarrow> int_value (f_value (vals ! i)))"

definition not_null_violated :: "Table \<Rightarrow> Field list \<Rightarrow> bool" where
  "not_null_violated t vals \<longleftrightarrow>
     list_ex (\<lambda>i. \<not> c_nullable (t_constraints t ! i) \<and> f_type (vals ! i) = TYPE_NULL)
       [0..<t_field_count t]"

definition copied_fields :: "Table \<Rightarrow> Field list \<Rightarrow> Field list" where
  "copied_fields t vals = map (\<lambda>i. \<lparr>f_name = store_name MAX_FIELD_LEN (t_field_names t ! i),
     f_type = t_field_types t ! i, f_value = f_value (vals ! i)\<rparr>) [0..<t_field_count t]"

definition new_record :: "int \<Rightarrow> Table \<Rightarrow> int \<Rightarrow> Field list \<Rightarrow> Record" where
  "new_record now t record_id vals = \<lparr>r_id = record_id, r_fields = copied_fields t vals,
     r_field_count = t_field_count t, r_timestamp = now, r_version = 1\<rparr>"

definition link_record :: "Table \<Rightarrow> Record \<Rightarrow> Table" where
  \<comment> \<open>the new head of the list, the counters and the statistics\<close>
  "link_record t r = t\<lparr>t_records := r # t_records t,
     t_record_count := Suc (t_record_count t),
     t_next_record_id := (if t_next_record_id t \<le> r_id r then wrap32 (r_id r + 1) else t_next_record_id t),
     t_index_manager := run_index_calls (snd (update_indexes_for_record t r (-1))) (t_index_manager t),
     t_statistics := update_simple_table_statistics (t_statistics t) STAT_RECORDS_INSERTED 1\<rparr>"

definition table_insert_record ::
  "alloc \<Rightarrow> int \<Rightarrow> int \<Rightarrow> Table \<Rightarrow> Field list \<Rightarrow> ErrorCode \<times> int option \<times> int \<times> Table" where
  \<comment> \<open>the result, \<open>*out_id\<close> if it is written, the counter, the table\<close>
  "table_insert_record ok now gc t vals =
     (if MAX_RECORDS_PER_TABLE \<le> t_record_count t then (ERROR_TABLE_FULL, None, gc, t)
      else if f_type (vals ! 0) = TYPE_UNKNOWN then (ERROR_INVALID_INPUT, None, gc, t)
      else if not_null_violated t vals then (ERROR_CONSTRAINT_VIOLATION, None, gc, t)
      else
        let given = pk_record_id t vals;
            (record_id, gc') = (if given = -1 then generate_record_id t gc else (given, gc))
        in if table_find_record t record_id \<noteq> None then (ERROR_DUPLICATE_KEY, None, gc', t)
           else if \<not> ok 0 \<or> \<not> ok 1 then (ERROR_MEMORY_ALLOCATION, None, gc', t)
           else (SUCCESS, Some record_id, gc', link_record t (new_record now t record_id vals)))"

section \<open>Update\<close>

definition pk_conflict :: "Table \<Rightarrow> int \<Rightarrow> Field list \<Rightarrow> nat \<Rightarrow> bool" where
  "pk_conflict t key new_values i \<longleftrightarrow>
     c_primary_key (t_constraints t ! i) \<and> f_type (new_values ! i) \<noteq> TYPE_NULL \<and>
     (let new_id = (if f_type (new_values ! i) = TYPE_INT then int_value (f_value (new_values ! i)) else 0)
      in new_id \<noteq> key \<and> table_find_record t new_id \<noteq> None)"

definition updated_field :: "Field \<Rightarrow> Field \<Rightarrow> Field" where
  "updated_field old new = old\<lparr>f_value := f_value new,
     f_type := (if f_type new \<noteq> TYPE_UNKNOWN then f_type new else f_type old)\<rparr>"

fun update_fields :: "Table \<Rightarrow> int \<Rightarrow> Field list \<Rightarrow> nat list \<Rightarrow> Field list \<Rightarrow> ErrorCode \<times> Field list" where
  \<comment> \<open>the loop over the fields, which writes them in place and stops at a duplicate key\<close>
  "update_fields t key new_values [] fs = (SUCCESS, fs)"
| "update_fields t key new_values (i # is) fs =
     (if pk_conflict t key new_values i then (ERROR_DUPLICATE_KEY, fs)
      else update_fields t key new_values is
             (fs[i := updated_field (fs ! i) (new_values ! i)]))"

definition field_changed :: "Field \<Rightarrow> Field \<Rightarrow> bool" where
  "field_changed old_field new_field = (case f_type old_field of
       TYPE_INT \<Rightarrow> int_value (f_value old_field) \<noteq> int_value (f_value new_field)
     | TYPE_STRING \<Rightarrow> strcmp (string_value (f_value old_field)) (string_value (f_value new_field)) \<noteq> 0
     | TYPE_FLOAT \<Rightarrow> \<not> float_eq (float_bits (f_value old_field)) (float_bits (f_value new_field))
     | _ \<Rightarrow> True)"

definition changed_index_calls :: "Table \<Rightarrow> Field list \<Rightarrow> Field list \<Rightarrow> IndexCall list" where
  \<comment> \<open>the index updates after a change of the fields, in order\<close>
  "changed_index_calls t old_values fs = (case t_index_manager t of None \<Rightarrow> []
     | Some manager \<Rightarrow> concat (map (\<lambda>index.
         case find_field t (ix_field_name index) of None \<Rightarrow> []
         | Some field_idx \<Rightarrow>
             let old_field = old_values ! field_idx; new_field = fs ! field_idx;
                 is_int = (f_type old_field = TYPE_INT);
                 old_key = (if is_int then int_value (f_value old_field) else 0);
                 new_key = (if is_int then int_value (f_value new_field) else 0)
             in if field_changed old_field new_field \<and> (old_key \<noteq> 0 \<or> new_key \<noteq> 0)
                then [IndexUpdate index old_key new_key] else [])
         (live_indexes manager)))"

fun replace_record :: "int \<Rightarrow> Record \<Rightarrow> Record list \<Rightarrow> Record list" where
  \<comment> \<open>a store through the pointer that the search for \<open>key\<close> returned\<close>
  "replace_record key r' [] = []"
| "replace_record key r' (r # rs) = (if r_id r = key then r' # rs else r # replace_record key r' rs)"

definition table_update_record ::
  "int \<Rightarrow> Table \<Rightarrow> int \<Rightarrow> Field list \<Rightarrow> ErrorCode \<times> Table" where
  "table_update_record now t key new_values =
     (case table_find_record t key of
        None \<Rightarrow> (ERROR_NOT_FOUND, t)
      | Some record \<Rightarrow>
          let (err, fs) = update_fields t key new_values [0..<t_field_count t] (r_fields record)
          in if err \<noteq> SUCCESS
             then (err, t\<lparr>t_records := replace_record key (record\<lparr>r_fields := fs\<rparr>) (t_records t)\<rparr>)
             else (SUCCESS, t\<lparr>t_records := replace_record key (record\<lparr>r_fields := fs,
                      r_timestamp := now, r_version := wrap32 (r_version record + 1)\<rparr>) (t_records t),
                    t_index_manager := run_index_calls (changed_index_calls t (r_fields record) fs) (t_index_manager t),
                    t_statistics := update_simple_table_statistics (t_statistics t) STAT_RECORDS_UPDATED 1\<rparr>))"

section \<open>Deletion\<close>

definition table_delete_record :: "Table \<Rightarrow> int \<Rightarrow> ErrorCode \<times> Table" where
  "table_delete_record t key =
     (case find_index (\<lambda>r. r_id r = key) (t_records t) of
        None \<Rightarrow> (ERROR_NOT_FOUND, t)
      | Some k \<Rightarrow> (SUCCESS, t\<lparr>t_records := remove_at k (t_records t),
           t_record_count := t_record_count t - 1,
           t_index_manager := run_index_calls (snd (remove_indexes_for_record t key)) (t_index_manager t),
           t_statistics := update_simple_table_statistics (t_statistics t) STAT_RECORDS_DELETED 1\<rparr>))"

section \<open>Well-formed tables\<close>

definition record_ok :: "nat \<Rightarrow> Record \<Rightarrow> bool" where
  "record_ok n r \<longleftrightarrow> length (r_fields r) = n \<and> r_field_count r = n \<and>
     list_all field_ok (r_fields r) \<and> c_int (r_id r)"

definition manager_ok :: "IndexManager option \<Rightarrow> bool" where
  "manager_ok mp \<longleftrightarrow> (case mp of None \<Rightarrow> True
     | Some m \<Rightarrow> simple_manager_ok m \<and> im_index_count m \<le> MAX_INDEXES_PER_TABLE)"

definition default_constraint :: "nat \<Rightarrow> Constraint" where
  \<comment> \<open>the constraints that \<open>db_add_table\<close> gives the fields; nothing in \<open>database.c\<close> changes them later\<close>
  "default_constraint i =
     \<lparr>c_nullable = True, c_unique = False, c_primary_key = (i = 0), c_foreign_key = False\<rparr>"

definition schema_ok :: "Table \<Rightarrow> bool" where
  "schema_ok t \<longleftrightarrow> length (t_field_names t) = t_field_count t \<and>
     length (t_field_types t) = t_field_count t \<and>
     t_constraints t = map default_constraint [0..<t_field_count t] \<and>
     1 \<le> t_field_count t \<and> t_field_count t \<le> MAX_FIELDS_PER_TABLE"

definition rows_ok :: "Table \<Rightarrow> bool" where
  "rows_ok t \<longleftrightarrow> t_record_count t = length (t_records t) \<and>
     t_record_count t \<le> MAX_RECORDS_PER_TABLE \<and> distinct (map r_id (t_records t)) \<and>
     list_all (record_ok (t_field_count t)) (t_records t)"

definition table_ok :: "Table \<Rightarrow> bool" where
  "table_ok t \<longleftrightarrow> schema_ok t \<and> rows_ok t \<and> manager_ok (t_index_manager t) \<and> c_int (t_next_record_id t)"

definition values_ok :: "Table \<Rightarrow> Field list \<Rightarrow> bool" where
  \<comment> \<open>what the caller provides: \<open>field_count\<close> fields\<close>
  "values_ok t vals \<longleftrightarrow> t_field_count t \<le> length vals \<and> list_all field_ok vals"

lemma find_by_index_None [simp]: "find_by_index t key ixs = None"
  by (induction ixs) (auto simp: index_search_simple_def)

lemma table_find_record_eq: "table_find_record t key = List.find (\<lambda>r. r_id r = key) (t_records t)"
  by (simp add: table_find_record_def split: option.splits)

lemma table_find_record_None: "table_find_record t key = None \<longleftrightarrow> key \<notin> r_id ` set (t_records t)"
  by (auto simp: table_find_record_eq find_None_iff)

lemma table_find_record_SomeD:
  "table_find_record t key = Some r \<Longrightarrow> r \<in> set (t_records t) \<and> r_id r = key"
  by (auto simp: table_find_record_eq find_Some_iff)

lemma find_distinct_id:
  "distinct (map r_id rs) \<Longrightarrow> r \<in> set rs \<Longrightarrow> List.find (\<lambda>x. r_id x = r_id r) rs = Some r"
  by (induction rs) (auto simp: rev_image_eqI)

lemma record_ok_new:
  "values_ok t vals \<Longrightarrow> c_int k \<Longrightarrow> record_ok (t_field_count t) (new_record now t k vals)"
  by (auto simp: record_ok_def new_record_def copied_fields_def values_ok_def list_all_iff field_ok_def)

lemma map_id_replace_record:
  "r_id r' = key \<Longrightarrow> map r_id (replace_record key r' rs) = map r_id rs"
  by (induction rs) auto

lemma length_replace_record [simp]: "length (replace_record key r' rs) = length rs"
  by (induction rs) auto

lemma list_all_replace_record:
  "list_all P rs \<Longrightarrow> P r' \<Longrightarrow> list_all P (replace_record key r' rs)"
  by (induction rs) auto

lemma find_replace_record:
  "r_id r' = key \<Longrightarrow> List.find (\<lambda>r. r_id r = k) (replace_record key r' rs) =
     (if k = key \<and> key \<in> r_id ` set rs then Some r' else List.find (\<lambda>r. r_id r = k) rs)"
  by (induction rs) auto

lemma length_update_fields: "update_fields t key nv is fs = (e, fs') \<Longrightarrow> length fs' = length fs"
  by (induction t key nv "is" fs rule: update_fields.induct) (auto split: if_splits)

lemma update_fields_field_ok:
  assumes "update_fields t key nv is fs = (e, fs')" and "list_all field_ok fs" and "list_all field_ok nv"
    and "\<forall>i \<in> set is. i < length fs \<and> i < length nv"
  shows "list_all field_ok fs'"
  using assms
proof (induction t key nv "is" fs rule: update_fields.induct)
  case (2 t key nv i "is" fs)
  show ?case
  proof (cases "pk_conflict t key nv i")
    case False
    let ?fs = "fs[i := updated_field (fs ! i) (nv ! i)]"
    have "list_all field_ok ?fs"
      using 2(3-5) by (auto simp: list_all_iff updated_field_def field_ok_def
          dest!: set_update_subset_insert [THEN subsetD])
    with False 2(1) [OF False] 2(2,4,5) show ?thesis by simp
  qed (use 2 in auto)
qed auto

lemma update_fields_result: "update_fields t key nv is fs = (e, fs') \<Longrightarrow> e = SUCCESS \<or> e = ERROR_DUPLICATE_KEY"
  by (induction t key nv "is" fs rule: update_fields.induct) (auto split: if_splits)

lemma update_fields_success:
  assumes "update_fields t key nv is fs = (SUCCESS, fs')" and "distinct is"
    and "\<forall>i \<in> set is. i < length fs"
  shows "\<forall>i < length fs. fs' ! i = (if i \<in> set is then updated_field (fs ! i) (nv ! i) else fs ! i)"
    and "\<forall>i \<in> set is. \<not> pk_conflict t key nv i"
  using assms
  by (induction t key nv "is" fs rule: update_fields.induct)
    (auto split: if_splits simp: nth_list_update)

end
