(* ===== verification/Lx_Record_Store.thy ===== *)
theory Lx_Record_Store
  imports Lx_Table
begin

text \<open>
  What a table promises its clients: a finite map from record ids to records. The locale
  \<open>record_store\<close> states the contract of insertion, search and deletion over the list of rows and
  derives the map view once; the table operations of \<open>Lx_Table\<close> interpret it, and so do the
  operations of a database on one of its tables (in \<open>Lx_Database\<close>).
\<close>

section \<open>The contract\<close>

locale record_store =
  fixes insert :: "'s \<Rightarrow> 'v \<Rightarrow> ErrorCode \<times> int option \<times> 's"
    and find :: "'s \<Rightarrow> int \<Rightarrow> Record option"
    and delete :: "'s \<Rightarrow> int \<Rightarrow> ErrorCode \<times> 's"
    and rows :: "'s \<Rightarrow> Record list"
    and inv :: "'s \<Rightarrow> bool"
    and accepts :: "'s \<Rightarrow> 'v \<Rightarrow> bool"
  assumes find_rows: "inv s \<Longrightarrow> find s k = List.find (\<lambda>r. r_id r = k) (rows s)"
    and distinct_rows: "inv s \<Longrightarrow> distinct (map r_id (rows s))"
    and insert_success: "inv s \<Longrightarrow> accepts s v \<Longrightarrow> insert s v = (SUCCESS, out, s') \<Longrightarrow>
      inv s' \<and> (\<exists>r. out = Some (r_id r) \<and> rows s' = r # rows s)"
    and insert_failure: "inv s \<Longrightarrow> insert s v = (e, out, s') \<Longrightarrow> e \<noteq> SUCCESS \<Longrightarrow>
      inv s' \<and> out = None \<and> rows s' = rows s"
    and delete_found: "inv s \<Longrightarrow> k \<in> r_id ` set (rows s) \<Longrightarrow>
      \<exists>s'. delete s k = (SUCCESS, s') \<and> inv s' \<and> rows s' = filter (\<lambda>r. r_id r \<noteq> k) (rows s)"
    and delete_missing: "inv s \<Longrightarrow> k \<notin> r_id ` set (rows s) \<Longrightarrow> fst (delete s k) = ERROR_NOT_FOUND \<and>
      inv (snd (delete s k)) \<and> rows (snd (delete s k)) = rows s"
begin

lemma find_None: "inv s \<Longrightarrow> find s k = None \<longleftrightarrow> k \<notin> r_id ` set (rows s)"
  by (auto simp: find_rows find_None_iff)

lemma insert_inv: "inv s \<Longrightarrow> accepts s v \<Longrightarrow> insert s v = (e, out, s') \<Longrightarrow> inv s'"
  using insert_success [of s v out s'] insert_failure [of s v e out s'] by (cases "e = SUCCESS") auto

lemma delete_inv: "inv s \<Longrightarrow> delete s k = (e, s') \<Longrightarrow> inv s'"
  using delete_found [of s k] delete_missing [of s k] by (cases "k \<in> r_id ` set (rows s)") auto

lemma updated_after_insert:
  assumes "inv s" and "accepts s v" and "insert s v = (SUCCESS, out, s')"
  shows "\<exists>r. out = Some (r_id r) \<and> find s (r_id r) = None \<and> find s' = (find s)(r_id r \<mapsto> r)"
proof -
  from insert_success [OF assms] obtain r
    where r: "inv s'" "out = Some (r_id r)" "rows s' = r # rows s" by auto
  from distinct_rows [OF r(1)] r(3) have "r_id r \<notin> r_id ` set (rows s)" by simp
  then have "find s (r_id r) = None" by (simp add: find_None [OF assms(1)])
  moreover have "find s' = (find s)(r_id r \<mapsto> r)"
    using r assms(1) by (auto simp: fun_eq_iff find_rows)
  ultimately show ?thesis using r(2) by blast
qed

lemma restricted_after_delete:
  assumes "inv s" and "delete s k = (e, s')"
  shows "find s' = (find s)(k := None)" and "e = SUCCESS \<longleftrightarrow> k \<in> dom (find s)"
proof -
  have "find s' = (find s)(k := None) \<and> (e = SUCCESS \<longleftrightarrow> k \<in> dom (find s))"
  proof (cases "k \<in> r_id ` set (rows s)")
    case True
    from delete_found [OF assms(1) this] assms(2)
    have s': "e = SUCCESS" "inv s'" "rows s' = filter (\<lambda>r. r_id r \<noteq> k) (rows s)" by auto
    have "find s' j = (if j = k then None else find s j)" for j
    proof -
      have "List.find (\<lambda>r. r_id r = j) (filter (\<lambda>r. r_id r \<noteq> k) xs) =
          (if j = k then None else List.find (\<lambda>r. r_id r = j) xs)" for xs :: "Record list"
        by (induction xs) auto
      then show ?thesis using s' assms(1) by (simp add: find_rows)
    qed
    then show ?thesis using True s'(1) find_None [OF assms(1), of k] by (auto simp: fun_eq_iff)
  next
    case False
    from delete_missing [OF assms(1) this] assms(2)
    have s': "e = ERROR_NOT_FOUND" "inv s'" "rows s' = rows s" by auto
    with False assms(1) find_None [OF assms(1), of k] show ?thesis
      by (auto simp: fun_eq_iff find_rows)
  qed
  then show "find s' = (find s)(k := None)" "e = SUCCESS \<longleftrightarrow> k \<in> dom (find s)" by auto
qed

lemma delete_inserted:
  assumes "inv s" and "accepts s v" and "insert s v = (SUCCESS, Some k, s1)"
  shows "\<exists>s2. delete s1 k = (SUCCESS, s2) \<and> rows s2 = rows s"
proof -
  from insert_success [OF assms] obtain r
    where r: "inv s1" "k = r_id r" "rows s1 = r # rows s" by auto
  from distinct_rows [OF r(1)] r(3) have "r_id r \<notin> r_id ` set (rows s)" by simp
  then have "filter (\<lambda>x. r_id x \<noteq> k) (rows s1) = rows s"
    using r(2,3) by (simp add: filter_id_conv) (metis image_eqI)
  with delete_found [OF r(1), of k] r(2,3) show ?thesis by auto
qed

end

section \<open>Tables provide it\<close>

definition store_insert ::
  "alloc \<Rightarrow> int \<Rightarrow> int \<times> Table \<Rightarrow> Field list \<Rightarrow> ErrorCode \<times> int option \<times> int \<times> Table" where
  \<comment> \<open>\<open>table_insert_record\<close> on the pair of the id counter and a table\<close>
  "store_insert ok now s vals = table_insert_record ok now (fst s) (snd s) vals"

definition store_delete :: "int \<times> Table \<Rightarrow> int \<Rightarrow> ErrorCode \<times> int \<times> Table" where
  "store_delete s key = (let (e, t) = table_delete_record (snd s) key in (e, fst s, t))"

definition store_inv :: "int \<times> Table \<Rightarrow> bool" where
  "store_inv s \<longleftrightarrow> c_int (fst s) \<and> table_ok (snd s)"

lemma generate_record_id_c_int:
  "c_int gc \<Longrightarrow> generate_record_id t gc = (k, gc') \<Longrightarrow> c_int k \<and> c_int gc'"
  by (auto simp: generate_record_id_def Let_def split: if_splits)

lemma c_int_minus_1 [simp]: "c_int (-1)"
  by (simp add: c_int_def int_min_def int_max_def)

lemma pk_record_id_c_int: "c_int (pk_record_id t vals)"
  by (simp add: pk_record_id_def split: option.split)

lemma table_insert_cases:
  assumes "table_insert_record ok now gc t vals = (e, out, gc', t')"
  obtains (failure) "e \<noteq> SUCCESS" "out = None" "t' = t"
  | (success) k where "e = SUCCESS" "out = Some k" "t' = link_record t (new_record now t k vals)"
      "k \<notin> r_id ` set (t_records t)" "t_record_count t < MAX_RECORDS_PER_TABLE"
      "(if pk_record_id t vals = -1 then generate_record_id t gc else (pk_record_id t vals, gc)) = (k, gc')"
proof (cases "e = SUCCESS")
  case True
  obtain k gc1 where g: "(if pk_record_id t vals = -1 then generate_record_id t gc else (pk_record_id t vals, gc)) = (k, gc1)"
    by fastforce
  from assms True have "gc1 = gc'" "out = Some k" "t' = link_record t (new_record now t k vals)"
    "table_find_record t k = None" "t_record_count t < MAX_RECORDS_PER_TABLE"
    by (simp_all add: table_insert_record_def Let_def g split: if_splits)
  with g True show thesis by (intro success) (simp_all add: table_find_record_None)
next
  case False
  with assms show thesis
    by (intro failure) (simp_all add: table_insert_record_def Let_def split: if_splits prod.splits)
qed

lemma table_insert_counter:
  "table_insert_record ok now gc t vals = (e, out, gc', t') \<Longrightarrow> c_int gc \<Longrightarrow> c_int gc'"
proof -
  assume i: "table_insert_record ok now gc t vals = (e, out, gc', t')" and c: "c_int gc"
  obtain k1 gc1 where g: "generate_record_id t gc = (k1, gc1)" by fastforce
  with c have "c_int gc1" using generate_record_id_c_int by blast
  with i c g show ?thesis by (auto simp: table_insert_record_def Let_def split: if_splits)
qed

lemma rows_ok_link:
  assumes "rows_ok t" and "record_ok (t_field_count t) r" and "r_id r \<notin> r_id ` set (t_records t)"
    and "t_record_count t < MAX_RECORDS_PER_TABLE"
  shows "rows_ok (link_record t r)"
  using assms by (auto simp: rows_ok_def link_record_def)

lemma link_record_frame [simp]:
  "t_name (link_record t r) = t_name t" "t_field_names (link_record t r) = t_field_names t"
  "t_field_types (link_record t r) = t_field_types t" "t_constraints (link_record t r) = t_constraints t"
  "t_field_count (link_record t r) = t_field_count t" "t_index_manager (link_record t r) = t_index_manager t"
  "t_records (link_record t r) = r # t_records t"
  by (simp_all add: link_record_def)

lemma r_id_new_record [simp]: "r_id (new_record now t k vals) = k"
  by (simp add: new_record_def)

lemma table_ok_link:
  assumes "table_ok t" and "record_ok (t_field_count t) r" and "r_id r \<notin> r_id ` set (t_records t)"
    and "t_record_count t < MAX_RECORDS_PER_TABLE"
  shows "table_ok (link_record t r)"
  using assms rows_ok_link [OF _ assms(2,3,4)]
  by (auto simp: table_ok_def schema_ok_def) (auto simp: link_record_def)

lemma table_insert_ok:
  assumes "table_ok t" and "values_ok t vals" and "c_int gc"
    and "table_insert_record ok now gc t vals = (e, out, gc', t')"
  shows "table_ok t'"
  using assms(4)
proof (cases rule: table_insert_cases)
  case (success k)
  have "c_int k"
    using success(6) pk_record_id_c_int [of t vals] generate_record_id_c_int [OF assms(3), of t k gc']
    by (auto split: if_splits)
  with success assms(1,2) show ?thesis by (simp add: table_ok_link record_ok_new)
qed (use assms in simp)

lemma remove_at_filter:
  assumes "distinct (map r_id rs)" and "find_index (\<lambda>r. r_id r = key) rs = Some k"
  shows "remove_at k rs = filter (\<lambda>r. r_id r \<noteq> key) rs"
  using assms
proof (induction rs arbitrary: k)
  case (Cons r rs)
  show ?case
  proof (cases "r_id r = key")
    case True
    with Cons.prems(1) have "filter (\<lambda>r. r_id r \<noteq> key) rs = rs"
      by (simp add: filter_id_conv) (metis image_eqI)
    with True Cons.prems show ?thesis by (simp add: remove_at_def)
  next
    case False
    with Cons.prems obtain j where "find_index (\<lambda>r. r_id r = key) rs = Some j" "k = Suc j" by auto
    with False Cons show ?thesis by (simp add: remove_at_def)
  qed
qed simp

lemma table_delete_found:
  assumes "table_ok t" and "key \<in> r_id ` set (t_records t)"
  shows "\<exists>t'. table_delete_record t key = (SUCCESS, t') \<and> table_ok t' \<and>
     t_records t' = filter (\<lambda>r. r_id r \<noteq> key) (t_records t)"
proof -
  from assms(2) obtain k where k: "find_index (\<lambda>r. r_id r = key) (t_records t) = Some k"
    by (cases "find_index (\<lambda>r. r_id r = key) (t_records t)") (auto simp: find_index_None_iff)
  have d: "distinct (map r_id (t_records t))" using assms(1) by (simp add: table_ok_def rows_ok_def)
  have l: "k < length (t_records t)" using find_index_SomeD [OF k] by simp
  have "distinct (map r_id (remove_at k (t_records t)))"
    using d l by (simp add: map_remove_at distinct_remove_at)
  moreover have "list_all P (remove_at k xs)" if "list_all P xs" for P and xs :: "Record list"
    using that set_remove_at [of k xs] by (auto simp: list_all_iff)
  ultimately have "table_ok (snd (table_delete_record t key))"
    using assms(1) k l
    by (auto simp: table_delete_record_def table_ok_def rows_ok_def schema_ok_def length_remove_at)
  with k remove_at_filter [OF d k] show ?thesis by (simp add: table_delete_record_def)
qed

lemma table_delete_missing:
  "key \<notin> r_id ` set (t_records t) \<Longrightarrow> table_delete_record t key = (ERROR_NOT_FOUND, t)"
proof -
  assume "key \<notin> r_id ` set (t_records t)"
  then have "find_index (\<lambda>r. r_id r = key) (t_records t) = None"
    by (auto simp: find_index_None_iff)
  then show ?thesis by (simp add: table_delete_record_def)
qed

interpretation ts: record_store "store_insert ok now" "\<lambda>s k. table_find_record (snd s) k"
  store_delete "\<lambda>s. t_records (snd s)" store_inv "\<lambda>s vals. values_ok (snd s) vals"
proof
  fix s s' :: "int \<times> Table" and k v out e
  show "table_find_record (snd s) k = List.find (\<lambda>r. r_id r = k) (t_records (snd s))"
    by (rule table_find_record_eq)
  show "distinct (map r_id (t_records (snd s)))" if "store_inv s"
    using that by (simp add: store_inv_def table_ok_def rows_ok_def)
  show "store_inv s' \<and> (\<exists>r. out = Some (r_id r) \<and> t_records (snd s') = r # t_records (snd s))"
    if "store_inv s" "values_ok (snd s) v" "store_insert ok now s v = (SUCCESS, out, s')"
  proof -
    from that(3) have i: "table_insert_record ok now (fst s) (snd s) v = (SUCCESS, out, fst s', snd s')"
      by (simp add: store_insert_def)
    have "store_inv s'"
      using that(1,2) table_insert_ok [OF _ that(2) _ i] table_insert_counter [OF i]
      by (simp add: store_inv_def)
    moreover from i have "\<exists>r. out = Some (r_id r) \<and> t_records (snd s') = r # t_records (snd s)"
      by (cases rule: table_insert_cases) (auto intro!: exI)
    ultimately show ?thesis by blast
  qed
  show "store_inv s' \<and> out = None \<and> t_records (snd s') = t_records (snd s)"
    if "store_inv s" "store_insert ok now s v = (e, out, s')" "e \<noteq> SUCCESS"
  proof -
    from that(2) have i: "table_insert_record ok now (fst s) (snd s) v = (e, out, fst s', snd s')"
      by (simp add: store_insert_def)
    from i that(3) have "out = None \<and> snd s' = snd s" by (cases rule: table_insert_cases) auto
    with that(1) table_insert_counter [OF i] show ?thesis by (simp add: store_inv_def)
  qed
  show "\<exists>s'. store_delete s k = (SUCCESS, s') \<and> store_inv s' \<and>
      t_records (snd s') = filter (\<lambda>r. r_id r \<noteq> k) (t_records (snd s))"
    if "store_inv s" "k \<in> r_id ` set (t_records (snd s))"
    using that table_delete_found [of "snd s" k] by (auto simp: store_delete_def store_inv_def)
  show "fst (store_delete s k) = ERROR_NOT_FOUND \<and> store_inv (snd (store_delete s k)) \<and>
      t_records (snd (snd (store_delete s k))) = t_records (snd s)"
    if "store_inv s" "k \<notin> r_id ` set (t_records (snd s))"
    using that by (simp add: store_delete_def table_delete_missing)
qed

section \<open>Generated ids and the outcome of an insertion\<close>

lemma fold_max_id:
  "(m :: int) \<le> fold (\<lambda>r m. if m < r_id r then r_id r else m) rs m"
  "r \<in> set rs \<Longrightarrow> r_id r \<le> fold (\<lambda>r m. if m < r_id r then r_id r else m) rs m"
  "fold (\<lambda>r m. if m < r_id r then r_id r else m) rs m \<in> insert m (r_id ` set rs)"
proof (induction rs arbitrary: m)
  case (Cons x rs)
  { case 1 show ?case using Cons(1) [of "if m < r_id x then r_id x else m"] by (simp split: if_splits) }
  { case 2 then show ?case
      using Cons(1) [of "if m < r_id x then r_id x else m"] Cons(2) [of "if m < r_id x then r_id x else m"]
      by (auto split: if_splits) }
  { case 3 show ?case using Cons(3) [of "if m < r_id x then r_id x else m"] by (auto split: if_splits) }
qed auto

lemma generate_record_id_fresh:
  assumes "\<forall>r \<in> set (t_records t). c_int (r_id r) \<and> r_id r < int_max" and "generate_record_id t gc = (k, gc')"
  shows "k \<notin> r_id ` set (t_records t) \<and> 0 < k"
proof -
  let ?m = "fold (\<lambda>r m. if m < r_id r then r_id r else m) (t_records t) 0"
  have ge: "r_id r \<le> ?m" if "r \<in> set (t_records t)" for r using that by (rule fold_max_id(2))
  have "0 \<le> ?m" by (rule fold_max_id(1))
  moreover have "?m < int_max"
    using fold_max_id(3) [of "t_records t" 0] assms(1) by (auto simp: int_max_def)
  ultimately have "wrap32 (?m + 1) = ?m + 1" by (simp add: c_int_def int_min_def)
  with assms(2) have "?m < k" by (auto simp: generate_record_id_def Let_def split: if_splits)
  with ge \<open>0 \<le> ?m\<close> show ?thesis by force
qed

lemma schema_constraint [simp]:
  "table_ok t \<Longrightarrow> i < t_field_count t \<Longrightarrow> t_constraints t ! i = default_constraint i"
  by (simp add: table_ok_def schema_ok_def)

lemma pk_record_id_eq:
  assumes "table_ok t"
  shows "pk_record_id t vals = (if f_type (vals ! 0) = TYPE_INT then int_value (f_value (vals ! 0)) else -1)"
proof -
  have "0 < t_field_count t" using assms by (simp add: table_ok_def schema_ok_def)
  then obtain n where n: "[0..<t_field_count t] = 0 # n"
    by (cases "[0..<t_field_count t]") (auto simp: upt_eq_Cons_conv)
  then have "\<forall>i \<in> set n. 0 < i \<and> i < t_field_count t" by (auto simp: upt_eq_Cons_conv)
  then have "List.find (\<lambda>i. c_primary_key (t_constraints t ! i) \<and> f_type (vals ! i) = TYPE_INT) n = None"
    using assms by (auto simp: find_None_iff default_constraint_def)
  with assms \<open>0 < t_field_count t\<close> show ?thesis
    by (simp add: pk_record_id_def n default_constraint_def)
qed

lemma not_null_never: "table_ok t \<Longrightarrow> \<not> not_null_violated t vals"
  by (auto simp: not_null_violated_def list_ex_iff default_constraint_def)

definition insert_outcome :: "alloc \<Rightarrow> Table \<Rightarrow> Field list \<Rightarrow> ErrorCode" where
  \<comment> \<open>the abstract outcome: no mention of the counter, the indexes or the constraint table\<close>
  "insert_outcome ok t vals =
     (let v = vals ! 0; given = (if f_type v = TYPE_INT then int_value (f_value v) else -1) in
      if length (t_records t) \<ge> MAX_RECORDS_PER_TABLE then ERROR_TABLE_FULL
      else if f_type v = TYPE_UNKNOWN then ERROR_INVALID_INPUT
      else if given \<noteq> -1 \<and> given \<in> set (map r_id (t_records t)) then ERROR_DUPLICATE_KEY
      else if \<not> ok 0 \<or> \<not> ok 1 then ERROR_MEMORY_ALLOCATION
      else SUCCESS)"

lemma table_insert_outcome:
  assumes "table_ok t" and "\<forall>r \<in> set (t_records t). r_id r < int_max"
    and "table_insert_record ok now gc t vals = (e, out, gc', t')"
  shows "e = insert_outcome ok t vals"
proof -
  obtain k gc1 where g: "generate_record_id t gc = (k, gc1)" by fastforce
  have "t_record_count t = length (t_records t)" "\<forall>r \<in> set (t_records t). c_int (r_id r) \<and> r_id r < int_max"
    using assms(1,2) by (auto simp: table_ok_def rows_ok_def record_ok_def list_all_iff)
  with generate_record_id_fresh [OF _ g] assms(1,3) show ?thesis
    by (auto simp: table_insert_record_def insert_outcome_def Let_def not_null_never pk_record_id_eq g
        table_find_record_None split: if_splits)
qed

section \<open>The outcome of an update\<close>

definition merged_record :: "int \<Rightarrow> Record \<Rightarrow> Field list \<Rightarrow> Record" where
  \<comment> \<open>every field takes the given value, and the given type unless it is unknown\<close>
  "merged_record now r vals = r\<lparr>r_fields := map (\<lambda>(old, new). updated_field old new) (zip (r_fields r) vals),
     r_timestamp := now, r_version := wrap32 (r_version r + 1)\<rparr>"

definition update_outcome :: "Table \<Rightarrow> int \<Rightarrow> Field list \<Rightarrow> ErrorCode" where
  "update_outcome t key vals =
     (let v = vals ! 0; new_id = (if f_type v = TYPE_INT then int_value (f_value v) else 0) in
      if key \<notin> set (map r_id (t_records t)) then ERROR_NOT_FOUND
      else if f_type v \<noteq> TYPE_NULL \<and> new_id \<noteq> key \<and> new_id \<in> set (map r_id (t_records t))
      then ERROR_DUPLICATE_KEY else SUCCESS)"

lemma update_fields_conflict:
  assumes "\<forall>i \<in> set is. \<not> pk_conflict t key nv i"
  shows "\<exists>fs'. update_fields t key nv is fs = (SUCCESS, fs')"
  using assms by (induction t key nv "is" fs rule: update_fields.induct) auto

lemma pk_conflict_eq:
  assumes "table_ok t" and "i < t_field_count t"
  shows "pk_conflict t key vals i \<longleftrightarrow> i = 0 \<and> f_type (vals ! 0) \<noteq> TYPE_NULL \<and>
     (let new_id = (if f_type (vals ! 0) = TYPE_INT then int_value (f_value (vals ! 0)) else 0)
      in new_id \<noteq> key \<and> new_id \<in> r_id ` set (t_records t))"
  using assms by (auto simp: pk_conflict_def default_constraint_def table_find_record_None Let_def)

lemma update_fields_merged:
  assumes "update_fields t key vals [0..<n] fs = (SUCCESS, fs')" and "length fs = n" and "n \<le> length vals"
  shows "fs' = map (\<lambda>(old, new). updated_field old new) (zip fs vals)"
proof (rule nth_equalityI)
  show "length fs' = length (map (\<lambda>(old, new). updated_field old new) (zip fs vals))"
    using assms length_update_fields [OF assms(1)] by simp
  fix i assume "i < length fs'"
  with assms length_update_fields [OF assms(1)] update_fields_success(1) [OF assms(1)]
  show "fs' ! i = map (\<lambda>(old, new). updated_field old new) (zip fs vals) ! i" by simp
qed

lemma replace_record_same:
  "List.find (\<lambda>r. r_id r = key) rs = Some r \<Longrightarrow> replace_record key r rs = rs"
  by (induction rs) (auto split: if_splits)

lemma table_update_outcome:
  assumes "table_ok t" and "values_ok t vals" and "table_update_record now t key vals = (e, t')"
  shows "e = update_outcome t key vals"
    and "e \<noteq> SUCCESS \<Longrightarrow> t' = t"
    and "e = SUCCESS \<Longrightarrow> \<exists>r. table_find_record t key = Some r \<and>
      table_find_record t' = (table_find_record t)(key \<mapsto> merged_record now r vals)"
proof -
  have n: "0 < t_field_count t" using assms(1) by (simp add: table_ok_def schema_ok_def)
  then obtain js where js: "[0..<t_field_count t] = 0 # js" by (auto simp: upt_eq_Cons_conv)
  then have tl: "\<forall>i \<in> set js. 0 < i \<and> i < t_field_count t" by (auto simp: upt_eq_Cons_conv)
  have key: "table_find_record t key \<noteq> None \<longleftrightarrow> key \<in> r_id ` set (t_records t)"
    by (simp add: table_find_record_None)
  have "e = update_outcome t key vals \<and> (e \<noteq> SUCCESS \<longrightarrow> t' = t) \<and> (e = SUCCESS \<longrightarrow>
      (\<exists>r. table_find_record t key = Some r \<and>
      table_find_record t' = (table_find_record t)(key \<mapsto> merged_record now r vals)))"
  proof (cases "table_find_record t key")
    case None
    with assms(3) key show ?thesis by (auto simp: table_update_record_def update_outcome_def Let_def)
  next
    case (Some r)
    with table_find_record_SomeD [OF this] have r: "r \<in> set (t_records t)" "r_id r = key" by auto
    show ?thesis
    proof (cases "pk_conflict t key vals 0")
      case True
      have "replace_record key (r\<lparr>r_fields := r_fields r\<rparr>) (t_records t) = t_records t"
        using Some by (simp add: table_find_record_eq replace_record_same)
      with True assms(3) Some have "e = ERROR_DUPLICATE_KEY" "t' = t"
        by (auto simp: table_update_record_def js)
      with True assms(1) n Some key show ?thesis
        by (auto simp: update_outcome_def pk_conflict_eq Let_def)
    next
      case False
      with tl assms(1) n have "\<forall>i \<in> set [0..<t_field_count t]. \<not> pk_conflict t key vals i"
        by (auto simp: pk_conflict_eq)
      from update_fields_conflict [OF this] obtain fs where
        u: "update_fields t key vals [0..<t_field_count t] (r_fields r) = (SUCCESS, fs)" by blast
      have "length (r_fields r) = t_field_count t" "t_field_count t \<le> length vals"
        using assms(1,2) r(1) by (auto simp: table_ok_def rows_ok_def list_all_iff record_ok_def values_ok_def)
      from update_fields_merged [OF u this] Some u assms(3)
      have e: "e = SUCCESS" and t': "t_records t' = replace_record key (merged_record now r vals) (t_records t)"
        by (auto simp: table_update_record_def merged_record_def)
      have "r_id (merged_record now r vals) = key" using r(2) by (simp add: merged_record_def)
      from find_replace_record [OF this] r have
        "table_find_record t' = (table_find_record t)(key \<mapsto> merged_record now r vals)"
        by (auto simp: fun_eq_iff table_find_record_eq t')
      with e Some False assms(1) n r show ?thesis
        by (auto simp: update_outcome_def pk_conflict_eq Let_def image_iff)
    qed
  qed
  then show "e = update_outcome t key vals" "e \<noteq> SUCCESS \<Longrightarrow> t' = t"
    "e = SUCCESS \<Longrightarrow> \<exists>r. table_find_record t key = Some r \<and>
      table_find_record t' = (table_find_record t)(key \<mapsto> merged_record now r vals)" by blast+
qed

end
