(* ===== verification/Lx_Database.thy ===== *)
theory Lx_Database
  imports Lx_Record_Store
begin

text \<open>
  The database handle and its operations: the structures \<open>Database\<close>, \<open>DatabaseStatistics\<close>,
  \<open>Cache\<close> and \<open>QueryResult\<close> of \<open>src/src/database.h\<close>, and the functions \<open>db_*\<close> of
  \<open>src/src/database.c\<close> with the static helpers they call.

  The handle is the state that is passed along, so it is never NULL; the other pointers that
  the code compares with NULL are options. A \<open>Table *\<close> is the slot of the table in
  \<open>db->tables\<close>. \<open>ok\<close> gives the outcomes of the allocations of a call in their order, \<open>now\<close> the
  value of \<open>time(NULL)\<close>, \<open>gc\<close> the static id counter. A \<open>const void *value\<close> is the memory it
  points to. Statistics counters are unbounded (\<open>long long\<close> in C, stepped by one).
\<close>

section \<open>State\<close>

record DatabaseStatistics =
  ds_tables_created :: int
  ds_records_inserted :: int
  ds_records_updated :: int
  ds_records_deleted :: int
  ds_queries_executed :: int
  ds_cache_hits :: int
  ds_cache_misses :: int
  ds_transactions_started :: int
  ds_transactions_committed :: int
  ds_transactions_rolled_back :: int
  ds_indexes_created :: int
  ds_indexes_dropped :: int
  ds_vacuum_operations :: int
  ds_optimization_operations :: int

record Cache =
  cache_policy :: nat
  cache_size :: nat

record QueryResult =
  q_row_count :: nat
  q_column_count :: nat
  q_column_names :: "string list"
  q_column_types :: "FieldType list"
  q_rows :: "Field list list"

record Database =
  db_tables :: "Table list"
  db_table_count :: nat
  db_table_capacity :: nat
  db_index_manager :: "IndexManager option"
  db_cache :: "Cache option"
  db_statistics :: "DatabaseStatistics option"
  db_transaction_active :: bool
  db_transaction_level :: int
  db_transaction_start_time :: int

definition zero_statistics :: DatabaseStatistics where
  "zero_statistics = \<lparr>ds_tables_created = 0, ds_records_inserted = 0, ds_records_updated = 0,
     ds_records_deleted = 0, ds_queries_executed = 0, ds_cache_hits = 0, ds_cache_misses = 0,
     ds_transactions_started = 0, ds_transactions_committed = 0, ds_transactions_rolled_back = 0,
     ds_indexes_created = 0, ds_indexes_dropped = 0, ds_vacuum_operations = 0,
     ds_optimization_operations = 0\<rparr>"

definition create_simple_statistics :: "alloc \<Rightarrow> DatabaseStatistics option" where
  "create_simple_statistics ok = (if \<not> ok 0 then None else Some zero_statistics)"

definition create_simple_cache :: "alloc \<Rightarrow> nat \<Rightarrow> nat \<Rightarrow> Cache option" where
  "create_simple_cache ok policy sz =
     (if \<not> ok 0 then None else Some \<lparr>cache_policy = policy, cache_size = sz\<rparr>)"

definition bump_statistics :: "StatType \<Rightarrow> int \<Rightarrow> DatabaseStatistics \<Rightarrow> DatabaseStatistics" where
  "bump_statistics stat_type v s = (case stat_type of
       STAT_TABLES_CREATED \<Rightarrow> s\<lparr>ds_tables_created := ds_tables_created s + v\<rparr>
     | STAT_RECORDS_INSERTED \<Rightarrow> s\<lparr>ds_records_inserted := ds_records_inserted s + v\<rparr>
     | STAT_RECORDS_UPDATED \<Rightarrow> s\<lparr>ds_records_updated := ds_records_updated s + v\<rparr>
     | STAT_RECORDS_DELETED \<Rightarrow> s\<lparr>ds_records_deleted := ds_records_deleted s + v\<rparr>
     | STAT_QUERIES_EXECUTED \<Rightarrow> s\<lparr>ds_queries_executed := ds_queries_executed s + v\<rparr>
     | STAT_CACHE_HITS \<Rightarrow> s\<lparr>ds_cache_hits := ds_cache_hits s + v\<rparr>
     | STAT_CACHE_MISSES \<Rightarrow> s\<lparr>ds_cache_misses := ds_cache_misses s + v\<rparr>
     | STAT_TRANSACTIONS_STARTED \<Rightarrow> s\<lparr>ds_transactions_started := ds_transactions_started s + v\<rparr>
     | STAT_TRANSACTIONS_COMMITTED \<Rightarrow> s\<lparr>ds_transactions_committed := ds_transactions_committed s + v\<rparr>
     | STAT_TRANSACTIONS_ROLLED_BACK \<Rightarrow> s\<lparr>ds_transactions_rolled_back := ds_transactions_rolled_back s + v\<rparr>
     | STAT_INDEXES_CREATED \<Rightarrow> s\<lparr>ds_indexes_created := ds_indexes_created s + v\<rparr>
     | STAT_INDEXES_DROPPED \<Rightarrow> s\<lparr>ds_indexes_dropped := ds_indexes_dropped s + v\<rparr>
     | STAT_VACUUM_OPERATIONS \<Rightarrow> s\<lparr>ds_vacuum_operations := ds_vacuum_operations s + v\<rparr>
     | STAT_OPTIMIZATION_OPERATIONS \<Rightarrow>
         s\<lparr>ds_optimization_operations := ds_optimization_operations s + v\<rparr>)"

definition update_simple_statistics :: "StatType \<Rightarrow> Database \<Rightarrow> Database" where
  \<comment> \<open>\<open>update_simple_statistics(db->statistics, stat_type, 1)\<close>\<close>
  "update_simple_statistics stat_type db =
     db\<lparr>db_statistics := map_option (bump_statistics stat_type 1) (db_statistics db)\<rparr>"

definition shift_alloc :: "nat \<Rightarrow> alloc \<Rightarrow> alloc" where
  "shift_alloc n ok = (\<lambda>k. ok (n + k))"

definition db_create :: "alloc \<Rightarrow> Database option" where
  "db_create ok =
     (if \<not> ok 0 then None
      else Some \<lparr>db_tables = [], db_table_count = 0, db_table_capacity = 0,
        db_index_manager = create_simple_index_manager (shift_alloc 1 ok),
        db_cache = create_simple_cache (shift_alloc 2 ok) 0 QUERY_CACHE_SIZE,
        db_statistics = create_simple_statistics (shift_alloc 3 ok),
        db_transaction_active = False, db_transaction_level = 0, db_transaction_start_time = 0\<rparr>)"

section \<open>Transactions\<close>

definition db_begin_transaction :: "int \<Rightarrow> Database \<Rightarrow> ErrorCode \<times> Database" where
  "db_begin_transaction now db =
     (if db_transaction_active db \<and> MAX_TRANSACTION_LEVEL \<le> db_transaction_level db
      then (ERROR_TRANSACTION_CONFLICT, db)
      else
        let db1 = (if \<not> db_transaction_active db
                   then db\<lparr>db_transaction_active := True, db_transaction_level := 1,
                          db_transaction_start_time := now\<rparr>
                   else db\<lparr>db_transaction_level := db_transaction_level db + 1\<rparr>)
        in (SUCCESS, update_simple_statistics STAT_TRANSACTIONS_STARTED db1))"

definition db_commit_transaction :: "Database \<Rightarrow> ErrorCode \<times> Database" where
  "db_commit_transaction db =
     (if \<not> db_transaction_active db then (ERROR_TRANSACTION_CONFLICT, db)
      else if 1 < db_transaction_level db
      then (SUCCESS, db\<lparr>db_transaction_level := db_transaction_level db - 1\<rparr>)
      else (SUCCESS, update_simple_statistics STAT_TRANSACTIONS_COMMITTED
             (db\<lparr>db_transaction_active := False, db_transaction_level := 0\<rparr>)))"

definition db_rollback_transaction :: "Database \<Rightarrow> ErrorCode \<times> Database" where
  "db_rollback_transaction db =
     (if \<not> db_transaction_active db then (ERROR_TRANSACTION_CONFLICT, db)
      else (SUCCESS, update_simple_statistics STAT_TRANSACTIONS_ROLLED_BACK
             (db\<lparr>db_transaction_active := False, db_transaction_level := 0\<rparr>)))"

definition with_local_transaction ::
  "int \<Rightarrow> Database \<Rightarrow> 'a \<Rightarrow> (Database \<Rightarrow> ErrorCode \<times> 'a \<times> Database) \<Rightarrow> ErrorCode \<times> 'a \<times> Database" where
  \<comment> \<open>the frame that insert, update and delete share: a transaction of their own unless one is active\<close>
  "with_local_transaction now db dflt body =
     (if \<not> db_transaction_active db then
        let (tx_result, db1) = db_begin_transaction now db in
        if tx_result \<noteq> SUCCESS then (tx_result, dflt, db1)
        else
          let (result, x, db2) = body db1 in
          (result, x, snd (if result = SUCCESS then db_commit_transaction db2
                           else db_rollback_transaction db2))
      else body db)"

section \<open>Tables\<close>

definition db_get_table :: "Database \<Rightarrow> string option \<Rightarrow> nat option" where
  "db_get_table db tn = (case tn of None \<Rightarrow> None
     | Some table_name \<Rightarrow>
         find_index (\<lambda>t. strcmp (t_name t) table_name = 0) (take (db_table_count db) (db_tables db)))"

definition put_table :: "Database \<Rightarrow> nat \<Rightarrow> Table \<Rightarrow> Database" where
  \<comment> \<open>a store through the table pointer\<close>
  "put_table db i t = db\<lparr>db_tables := (db_tables db)[i := t]\<rparr>"

definition grow_tables :: "Database \<Rightarrow> Database" where
  "grow_tables db =
     (if db_table_capacity db \<le> db_table_count db
      then db\<lparr>db_table_capacity :=
             min MAX_TABLES (if db_table_capacity db = 0 then 4 else db_table_capacity db * 2)\<rparr>
      else db)"

definition new_table :: "alloc \<Rightarrow> string \<Rightarrow> string list \<Rightarrow> FieldType list \<Rightarrow> nat \<Rightarrow> Table" where
  "new_table ok name field_names types n =
     \<lparr>t_name = store_name MAX_TABLE_NAME name, t_field_names = map (\<lambda>i. field_names ! i) [0..<n],
      t_field_types = map (\<lambda>i. types ! i) [0..<n], t_constraints = map default_constraint [0..<n],
      t_field_count = n, t_records = [], t_record_count = 0, t_capacity = INITIAL_CAPACITY,
      t_next_record_id = 1, t_index_manager = create_simple_index_manager (shift_alloc 5 ok),
      t_statistics = create_simple_table_statistics (shift_alloc 1 ok)\<rparr>"

definition db_add_table ::
  "alloc \<Rightarrow> Database \<Rightarrow> string option \<Rightarrow> string list option \<Rightarrow> FieldType list option \<Rightarrow> int \<Rightarrow>
   ErrorCode \<times> nat option \<times> Database" where
  \<comment> \<open>the result, \<open>*out_table\<close> if it is written, the database\<close>
  "db_add_table ok db np fp tp field_count = (case (np, fp, tp) of
     (Some name, Some field_names, Some types) \<Rightarrow>
       if field_count < 1 \<or> int MAX_FIELDS_PER_TABLE < field_count then (ERROR_INVALID_INPUT, None, db)
       else if list_ex (\<lambda>t. strcmp (t_name t) name = 0) (take (db_table_count db) (db_tables db))
       then (ERROR_DUPLICATE_KEY, None, db)
       else if MAX_TABLES \<le> db_table_count db then (ERROR_TABLE_FULL, None, db)
       else if db_table_capacity db \<le> db_table_count db \<and> \<not> ok 0
       then (ERROR_MEMORY_ALLOCATION, None, db)
       else
         let db1 = grow_tables db; n = nat field_count; slot = db_table_count db1 in
         if \<not> ok 2 \<or> \<not> ok 3 \<or> \<not> ok 4 then (ERROR_MEMORY_ALLOCATION, None, db1)
         else if \<not> ok 5 then (ERROR_MEMORY_ALLOCATION, None, db1)
         else if list_ex (\<lambda>i. \<not> ok (6 + i)) [0..<n] then (ERROR_MEMORY_ALLOCATION, None, db1)
         else (SUCCESS, Some slot, update_simple_statistics STAT_TABLES_CREATED
                (db1\<lparr>db_tables := store_slot slot (new_table ok name field_names types n) (db_tables db1),
                     db_table_count := Suc slot\<rparr>))
   | _ \<Rightarrow> (ERROR_INVALID_INPUT, None, db))"

section \<open>Records\<close>

definition db_insert_record ::
  "alloc \<Rightarrow> int \<Rightarrow> int \<Rightarrow> Database \<Rightarrow> string option \<Rightarrow> Field list option \<Rightarrow>
   ErrorCode \<times> (int option \<times> int) \<times> Database" where
  \<comment> \<open>the result, \<open>*out_id\<close> and the id counter, the database\<close>
  "db_insert_record ok now gc db tn vp = (case (tn, vp) of
     (Some table_name, Some vals) \<Rightarrow>
       (case db_get_table db tn of None \<Rightarrow> (ERROR_NOT_FOUND, (None, gc), db)
        | Some i \<Rightarrow> with_local_transaction now db (None, gc) (\<lambda>db1.
            let (result, out, gc', t) = table_insert_record ok now gc (db_tables db1 ! i) vals
            in (result, (out, gc'), put_table db1 i t)))
   | _ \<Rightarrow> (ERROR_INVALID_INPUT, (None, gc), db))"

fun batch_insert ::
  "alloc \<Rightarrow> int \<Rightarrow> int \<Rightarrow> Table \<Rightarrow> Field list list \<Rightarrow> int list \<Rightarrow> ErrorCode \<times> int list \<times> int \<times> Table" where
  \<comment> \<open>the insertion loop: the result, the ids of the records inserted, the counter, the table\<close>
  "batch_insert ok now gc t [] ids = (SUCCESS, rev ids, gc, t)"
| "batch_insert ok now gc t (vals # rest) ids =
     (case table_insert_record ok now gc t vals of (result, out, gc', t') \<Rightarrow>
        if result = SUCCESS
        then batch_insert (shift_alloc 2 ok) now gc' t' rest ((case out of Some k \<Rightarrow> k | None \<Rightarrow> -1) # ids)
        else (result, rev ids, gc', t'))"

definition db_batch_insert_records ::
  "alloc \<Rightarrow> int \<Rightarrow> int \<Rightarrow> Database \<Rightarrow> string option \<Rightarrow> Field list list option \<Rightarrow> int \<Rightarrow> bool \<Rightarrow>
   ErrorCode \<times> (int list option \<times> int) \<times> Database" where
  \<comment> \<open>\<open>want_ids\<close>: whether \<open>out_ids\<close> is not NULL\<close>
  "db_batch_insert_records ok now gc db tn vp cnt want_ids = (case (tn, vp) of
     (Some table_name, Some values_array) \<Rightarrow>
       if cnt < 1 \<or> int BATCH_INSERT_SIZE < cnt then (ERROR_INVALID_INPUT, (None, gc), db)
       else (case db_get_table db tn of None \<Rightarrow> (ERROR_NOT_FOUND, (None, gc), db)
        | Some i \<Rightarrow>
            if int MAX_RECORDS_PER_TABLE < int (t_record_count (db_tables db ! i)) + cnt
            then (ERROR_TABLE_FULL, (None, gc), db)
            else
              let (tx_result, db1) = db_begin_transaction now db in
              if tx_result \<noteq> SUCCESS then (tx_result, (None, gc), db1)
              else if want_ids \<and> \<not> ok 0
              then (ERROR_MEMORY_ALLOCATION, (None, gc), snd (db_rollback_transaction db1))
              else
                let (result, ids, gc', t) = batch_insert (shift_alloc 1 ok) now gc (db_tables db1 ! i)
                       (take (nat cnt) values_array) [];
                    db2 = put_table db1 i t
                in if result = SUCCESS
                   then (SUCCESS, (if want_ids then Some ids else None, gc'), snd (db_commit_transaction db2))
                   else (result, (None, gc'), snd (db_rollback_transaction db2)))
   | _ \<Rightarrow> (ERROR_INVALID_INPUT, (None, gc), db))"

definition db_find_record :: "Database \<Rightarrow> string option \<Rightarrow> int \<Rightarrow> Record option" where
  "db_find_record db tn key = (case db_get_table db tn of None \<Rightarrow> None
     | Some i \<Rightarrow> table_find_record (db_tables db ! i) key)"

definition field_matches :: "FieldType \<Rightarrow> FieldValue \<Rightarrow> string \<Rightarrow> bool" where
  \<comment> \<open>the comparison of a field with the memory at \<open>value\<close>, read at the given type\<close>
  "field_matches ty v value = (case ty of
       TYPE_INT \<Rightarrow> int_value v = int_value value
     | TYPE_STRING \<Rightarrow> strcmp (string_value v) (string_value value) = 0
     | TYPE_FLOAT \<Rightarrow> float_eq (float_bits v) (float_bits value)
     | TYPE_DOUBLE \<Rightarrow> double_eq (double_bits v) (double_bits value)
     | TYPE_BOOL \<Rightarrow> bool_value v = bool_value value
     | _ \<Rightarrow> False)"

definition db_find_record_by_field ::
  "Database \<Rightarrow> string option \<Rightarrow> string option \<Rightarrow> string option \<Rightarrow> Record option" where
  "db_find_record_by_field db tn fn vp = (case (tn, fn, vp) of
     (Some table_name, Some field_name, Some value) \<Rightarrow>
       (case db_get_table db tn of None \<Rightarrow> None
        | Some i \<Rightarrow>
            let t = db_tables db ! i in
            (case find_field t field_name of None \<Rightarrow> None
             | Some field_idx \<Rightarrow>
                 let by_index = (case find_index_in_manager (t_index_manager t) table_name field_name of
                        None \<Rightarrow> None
                      | Some index \<Rightarrow>
                          let key = (if t_field_types t ! field_idx = TYPE_INT then int_value value else 0)
                          in if key \<noteq> 0 then index_search_simple index key else None)
                 in (case by_index of Some r \<Rightarrow> Some r
                     | None \<Rightarrow> List.find (\<lambda>r. let field = r_fields r ! field_idx in
                         field_matches (f_type field) (f_value field) value) (t_records t))))
   | _ \<Rightarrow> None)"

definition db_find_all_records_by_field ::
  "alloc \<Rightarrow> Database \<Rightarrow> string option \<Rightarrow> string option \<Rightarrow> string option \<Rightarrow> Record list option \<times> nat" where
  \<comment> \<open>the result array (NULL: \<open>None\<close>) and \<open>*out_count\<close>\<close>
  "db_find_all_records_by_field ok db tn fn vp = (case (tn, fn, vp) of
     (Some table_name, Some field_name, Some value) \<Rightarrow>
       (case db_get_table db tn of None \<Rightarrow> (None, 0)
        | Some i \<Rightarrow>
            let t = db_tables db ! i in
            (case find_field t field_name of None \<Rightarrow> (None, 0)
             | Some field_idx \<Rightarrow>
                 if \<not> ok 0 then (None, 0)
                 else
                   let ty = t_field_types t ! field_idx;
                       found = filter (\<lambda>r. field_matches ty (f_value (r_fields r ! field_idx)) value)
                                 (t_records t)
                   in (if 0 < length found then Some found else None, length found)))
   | _ \<Rightarrow> (None, 0))"

definition db_update_record ::
  "int \<Rightarrow> Database \<Rightarrow> string option \<Rightarrow> int \<Rightarrow> Field list option \<Rightarrow> ErrorCode \<times> unit \<times> Database" where
  "db_update_record now db tn key vp = (case (tn, vp) of
     (Some table_name, Some new_values) \<Rightarrow>
       (case db_get_table db tn of None \<Rightarrow> (ERROR_NOT_FOUND, (), db)
        | Some i \<Rightarrow> with_local_transaction now db () (\<lambda>db1.
            let (result, t) = table_update_record now (db_tables db1 ! i) key new_values
            in (result, (), put_table db1 i t)))
   | _ \<Rightarrow> (ERROR_INVALID_INPUT, (), db))"

definition db_delete_record ::
  "int \<Rightarrow> Database \<Rightarrow> string option \<Rightarrow> int \<Rightarrow> ErrorCode \<times> unit \<times> Database" where
  "db_delete_record now db tn key = (case tn of
     Some table_name \<Rightarrow>
       (case db_get_table db tn of None \<Rightarrow> (ERROR_NOT_FOUND, (), db)
        | Some i \<Rightarrow> with_local_transaction now db () (\<lambda>db1.
            let (result, t) = table_delete_record (db_tables db1 ! i) key
            in (result, (), put_table db1 i t)))
   | None \<Rightarrow> (ERROR_INVALID_INPUT, (), db))"

fun delete_matching :: "(Record \<Rightarrow> bool) \<Rightarrow> Record list \<Rightarrow> Record list \<Rightarrow> nat \<Rightarrow> nat \<Rightarrow> Record list \<times> nat \<times> nat" where
  \<comment> \<open>the unlinking loop: \<open>prev\<close> are the records kept so far (reversed); it returns the list, the
      record count and the number of records deleted\<close>
  "delete_matching p prev [] rc deleted = (rev prev, rc, deleted)"
| "delete_matching p prev (r # rs) rc deleted =
     (if p r then delete_matching p prev rs (rc - 1) (Suc deleted)
      else delete_matching p (r # prev) rs rc deleted)"

definition db_delete_records_by_field ::
  "int \<Rightarrow> Database \<Rightarrow> string option \<Rightarrow> string option \<Rightarrow> string option \<Rightarrow> ErrorCode \<times> nat \<times> Database" where
  \<comment> \<open>the result, \<open>*out_count\<close>, the database\<close>
  "db_delete_records_by_field now db tn fn vp = (case (tn, fn, vp) of
     (Some table_name, Some field_name, Some value) \<Rightarrow>
       (case db_get_table db tn of None \<Rightarrow> (ERROR_NOT_FOUND, 0, db)
        | Some i \<Rightarrow>
            (case find_field (db_tables db ! i) field_name of None \<Rightarrow> (ERROR_NOT_FOUND, 0, db)
             | Some field_idx \<Rightarrow>
                 let (tx_result, db1) = db_begin_transaction now db in
                 if tx_result \<noteq> SUCCESS then (tx_result, 0, db1)
                 else
                   let t = db_tables db1 ! i; ty = t_field_types t ! field_idx;
                       (rs, rc, deleted) = delete_matching
                         (\<lambda>r. field_matches ty (f_value (r_fields r ! field_idx)) value)
                         [] (t_records t) (t_record_count t) 0;
                       calls = concat (map (\<lambda>r. snd (remove_indexes_for_record t (r_id r)))
                         (filter (\<lambda>r. field_matches ty (f_value (r_fields r ! field_idx)) value) (t_records t)));
                       db2 = put_table db1 i (t\<lparr>t_records := rs, t_record_count := rc,
                         t_index_manager := run_index_calls calls (t_index_manager t)\<rparr>)
                   in if 0 < deleted then (SUCCESS, deleted, snd (db_commit_transaction db2))
                      else (SUCCESS, 0, snd (db_rollback_transaction db2))))
   | _ \<Rightarrow> (ERROR_INVALID_INPUT, 0, db))"

section \<open>Queries\<close>

definition cache_get_simple :: "Cache \<Rightarrow> string \<Rightarrow> QueryResult option" where
  \<comment> \<open>the cache keeps nothing: always a miss\<close>
  "cache_get_simple c query = None"

record ParsedQuery =
  pq_is_select :: bool
  pq_table_name :: "string option"
  pq_field_name :: "string option"
  pq_condition :: "string option"
  pq_int_value :: int
  pq_string_value :: "string option"

definition parse_simple_query :: "alloc \<Rightarrow> string \<Rightarrow> ParsedQuery option" where
  "parse_simple_query ok query =
     (if \<not> ok 0 then None
      else Some \<lparr>pq_is_select = True, pq_table_name = None, pq_field_name = None,
        pq_condition = None, pq_int_value = 0, pq_string_value = None\<rparr>)"

definition execute_simple_query :: "alloc \<Rightarrow> Database \<Rightarrow> ParsedQuery \<Rightarrow> QueryResult option" where
  "execute_simple_query ok db parsed =
     (if \<not> ok 0 then None
      else Some \<lparr>q_row_count = 0, q_column_count = 0, q_column_names = [], q_column_types = [],
        q_rows = []\<rparr>)"

definition db_execute_query :: "alloc \<Rightarrow> Database \<Rightarrow> string option \<Rightarrow> QueryResult option \<times> Database" where
  "db_execute_query ok db qp = (case qp of None \<Rightarrow> (None, db)
     | Some query \<Rightarrow>
         let cached = (case db_cache db of None \<Rightarrow> None | Some c \<Rightarrow> cache_get_simple c query) in
         (case cached of
            Some result \<Rightarrow> (if ok 0 then Some result else None, update_simple_statistics STAT_CACHE_HITS db)
          | None \<Rightarrow>
              let db1 = (if db_cache db = None then db else update_simple_statistics STAT_CACHE_MISSES db)
              in (case parse_simple_query ok query of
                    None \<Rightarrow> (None, db1)
                  | Some parsed \<Rightarrow> (execute_simple_query (shift_alloc 1 ok) db1 parsed,
                      update_simple_statistics STAT_QUERIES_EXECUTED db1))))"

section \<open>Indexes\<close>

definition index_population :: "Table \<Rightarrow> nat \<Rightarrow> Index \<Rightarrow> IndexCall list" where
  \<comment> \<open>the calls that fill a new index from the existing records\<close>
  "index_population t field_idx index = concat (map (\<lambda>r.
     let field = r_fields r ! field_idx; key = int_value (f_value field) in
     if f_type field = TYPE_INT \<and> key \<noteq> 0 then [IndexInsert index key] else []) (t_records t))"

definition db_create_index ::
  "alloc \<Rightarrow> Database \<Rightarrow> string option \<Rightarrow> string option \<Rightarrow> IndexType \<Rightarrow> (ErrorCode \<times> Database) option" where
  \<comment> \<open>\<open>None\<close>: a NULL index manager is dereferenced\<close>
  "db_create_index ok db tn fn type = (case (tn, fn) of
     (Some table_name, Some field_name) \<Rightarrow>
       (case db_get_table db tn of None \<Rightarrow> Some (ERROR_NOT_FOUND, db)
        | Some i \<Rightarrow>
            let t = db_tables db ! i in
            (case find_field t field_name of None \<Rightarrow> Some (ERROR_NOT_FOUND, db)
             | Some field_idx \<Rightarrow>
                 if find_index_in_manager (t_index_manager t) table_name field_name \<noteq> None
                 then Some (ERROR_INDEX_EXISTS, db)
                 else (case t_index_manager t of None \<Rightarrow> None
                  | Some m \<Rightarrow>
                      if MAX_INDEXES_PER_TABLE \<le> im_index_count m then Some (ERROR_TABLE_FULL, db)
                      else (case create_simple_index ok table_name field_name type of
                          None \<Rightarrow> Some (ERROR_MEMORY_ALLOCATION, db)
                        | Some index \<Rightarrow>
                            let (result, m') = add_index_to_manager (shift_alloc 1 ok) m index in
                            if result \<noteq> SUCCESS then Some (result, db)
                            else Some (SUCCESS, update_simple_statistics STAT_INDEXES_CREATED
                                   (put_table db i (t\<lparr>t_index_manager := Some m'\<rparr>)))))))
   | _ \<Rightarrow> Some (ERROR_INVALID_INPUT, db))"

definition db_drop_index ::
  "Database \<Rightarrow> string option \<Rightarrow> string option \<Rightarrow> ErrorCode \<times> Database" where
  "db_drop_index db tn fn = (case (tn, fn) of
     (Some table_name, Some field_name) \<Rightarrow>
       (case db_get_table db tn of None \<Rightarrow> (ERROR_NOT_FOUND, db)
        | Some i \<Rightarrow>
            let t = db_tables db ! i;
                (result, m') = remove_index_from_manager (t_index_manager t) table_name field_name;
                db1 = put_table db i (t\<lparr>t_index_manager := m'\<rparr>)
            in (result, if result = SUCCESS then update_simple_statistics STAT_INDEXES_DROPPED db1 else db1))
   | _ \<Rightarrow> (ERROR_INVALID_INPUT, db))"

section \<open>Statistics and maintenance\<close>

definition db_get_statistics :: "Database \<Rightarrow> DatabaseStatistics option" where
  "db_get_statistics db = db_statistics db"

definition db_get_table_statistics :: "Database \<Rightarrow> string option \<Rightarrow> TableStatistics option" where
  "db_get_table_statistics db tn = (case db_get_table db tn of None \<Rightarrow> None
     | Some i \<Rightarrow> t_statistics (db_tables db ! i))"

definition db_reset_statistics :: "Database \<Rightarrow> ErrorCode \<times> Database" where
  "db_reset_statistics db =
     (SUCCESS, db\<lparr>db_statistics := map_option (\<lambda>_. zero_statistics) (db_statistics db),
        db_tables := map (\<lambda>t. t\<lparr>t_statistics := map_option
            (\<lambda>_. \<lparr>ts_records_inserted = 0, ts_records_updated = 0, ts_records_deleted = 0,
                  ts_index_scans = 0, ts_sequential_scans = 0, ts_total_size_bytes = 0\<rparr>) (t_statistics t)\<rparr>)
          (take (db_table_count db) (db_tables db)) @ drop (db_table_count db) (db_tables db)\<rparr>)"

definition db_vacuum :: "Database \<Rightarrow> ErrorCode \<times> Database" where
  "db_vacuum db = (SUCCESS, update_simple_statistics STAT_VACUUM_OPERATIONS db)"

definition db_optimize :: "Database \<Rightarrow> ErrorCode \<times> Database" where
  "db_optimize db = (SUCCESS, update_simple_statistics STAT_OPTIMIZATION_OPERATIONS db)"

definition db_get_table_count :: "Database option \<Rightarrow> nat" where
  "db_get_table_count dbp = (case dbp of None \<Rightarrow> 0 | Some db \<Rightarrow> db_table_count db)"

definition db_get_record_count :: "Database \<Rightarrow> string option \<Rightarrow> nat" where
  "db_get_record_count db tn = (case db_get_table db tn of None \<Rightarrow> 0
     | Some i \<Rightarrow> t_record_count (db_tables db ! i))"

definition db_list_tables :: "alloc \<Rightarrow> Database \<Rightarrow> string list option \<times> nat" where
  "db_list_tables ok db =
     (if db_table_count db = 0 then (None, 0)
      else if \<not> ok 0 then (None, 0)
      else if list_ex (\<lambda>i. \<not> ok (1 + i)) [0..<db_table_count db] then (None, 0)
      else (Some (map t_name (take (db_table_count db) (db_tables db))), db_table_count db))"

text \<open>The operations that the code declares but does not provide.\<close>

definition db_drop_table :: "Database \<Rightarrow> string \<Rightarrow> ErrorCode \<times> Database" where
  "db_drop_table db table_name = (ERROR_NOT_IMPLEMENTED, db)"

definition db_truncate_table :: "Database \<Rightarrow> string \<Rightarrow> ErrorCode \<times> Database" where
  "db_truncate_table db table_name = (ERROR_NOT_IMPLEMENTED, db)"

definition db_alter_table_rename_column ::
  "Database \<Rightarrow> string \<Rightarrow> string \<Rightarrow> string \<Rightarrow> ErrorCode \<times> Database" where
  "db_alter_table_rename_column db table_name old_name new_name = (ERROR_NOT_IMPLEMENTED, db)"

definition db_check_integrity :: "Database \<Rightarrow> bool \<Rightarrow> ErrorCode \<times> Database" where
  "db_check_integrity db repair = (ERROR_NOT_IMPLEMENTED, db)"

end
