(* ===== verification/Lx_Database_Inv.thy ===== *)
theory Lx_Database_Inv
  imports Lx_Database
begin

text \<open>
  The invariant of a database and its preservation: the nesting level of transactions agrees
  with the active flag and stays within \<open>MAX_TRANSACTION_LEVEL\<close>, the table array is within its
  capacity and \<open>MAX_TABLES\<close>, and every table is well formed. \<open>db_call\<close> names the calls of the
  interface, \<open>perform\<close> runs one, and \<open>reachable\<close> are the states that sequences of calls lead to
  from \<open>db_create\<close>.
\<close>

section \<open>The invariant\<close>

definition txn_ok :: "Database \<Rightarrow> bool" where
  "txn_ok db \<longleftrightarrow> 0 \<le> db_transaction_level db \<and> db_transaction_level db \<le> MAX_TRANSACTION_LEVEL \<and>
     (db_transaction_active db \<longleftrightarrow> 0 < db_transaction_level db)"

definition tables_ok :: "Database \<Rightarrow> bool" where
  "tables_ok db \<longleftrightarrow> db_table_count db = length (db_tables db) \<and>
     db_table_count db \<le> db_table_capacity db \<and> db_table_capacity db \<le> MAX_TABLES \<and>
     list_all (\<lambda>t. table_ok t \<and> t_index_manager t \<noteq> None) (db_tables db)"

definition db_ok :: "Database \<Rightarrow> bool" where
  "db_ok db \<longleftrightarrow> txn_ok db \<and> tables_ok db"

lemma bump_frame [simp]:
  "db_tables (update_simple_statistics st db) = db_tables db"
  "db_table_count (update_simple_statistics st db) = db_table_count db"
  "db_table_capacity (update_simple_statistics st db) = db_table_capacity db"
  "db_cache (update_simple_statistics st db) = db_cache db"
  "db_transaction_active (update_simple_statistics st db) = db_transaction_active db"
  "db_transaction_level (update_simple_statistics st db) = db_transaction_level db"
  "txn_ok (update_simple_statistics st db) = txn_ok db"
  "tables_ok (update_simple_statistics st db) = tables_ok db"
  "db_get_table (update_simple_statistics st db) tn = db_get_table db tn"
  by (simp_all add: update_simple_statistics_def txn_ok_def tables_ok_def db_get_table_def
      cong: option.case_cong)

lemma put_table_frame [simp]:
  "db_tables (put_table db i t) = (db_tables db)[i := t]"
  "db_table_count (put_table db i t) = db_table_count db"
  "db_table_capacity (put_table db i t) = db_table_capacity db"
  "db_transaction_active (put_table db i t) = db_transaction_active db"
  "db_transaction_level (put_table db i t) = db_transaction_level db"
  "txn_ok (put_table db i t) = txn_ok db"
  by (simp_all add: put_table_def txn_ok_def)

lemma tables_ok_put_table:
  "tables_ok db \<Longrightarrow> table_ok t \<Longrightarrow> t_index_manager t \<noteq> None \<Longrightarrow> tables_ok (put_table db i t)"
  by (auto simp: tables_ok_def list_all_iff dest!: set_update_subset_insert [THEN subsetD])

lemma db_get_table_SomeD:
  "db_get_table db tn = Some i \<Longrightarrow> i < db_table_count db \<and> i < length (db_tables db) \<and>
     tn = Some (t_name (db_tables db ! i))"
  by (auto simp: db_get_table_def split: option.splits dest!: find_index_SomeD)

lemma tables_ok_nth:
  "tables_ok db \<Longrightarrow> db_get_table db tn = Some i \<Longrightarrow>
     table_ok (db_tables db ! i) \<and> t_index_manager (db_tables db ! i) \<noteq> None"
  by (auto simp: tables_ok_def list_all_length dest!: db_get_table_SomeD)

section \<open>Transactions keep it\<close>

lemma db_begin_ok: "txn_ok db \<Longrightarrow> db_begin_transaction now db = (e, db') \<Longrightarrow>
    txn_ok db' \<and> db_tables db' = db_tables db \<and> db_table_count db' = db_table_count db \<and>
    db_table_capacity db' = db_table_capacity db"
  by (auto simp: db_begin_transaction_def Let_def txn_ok_def MAX_TRANSACTION_LEVEL_def split: if_splits)

lemma db_commit_ok: "txn_ok db \<Longrightarrow> db_commit_transaction db = (e, db') \<Longrightarrow>
    txn_ok db' \<and> db_tables db' = db_tables db \<and> db_table_count db' = db_table_count db \<and>
    db_table_capacity db' = db_table_capacity db"
  by (auto simp: db_commit_transaction_def txn_ok_def MAX_TRANSACTION_LEVEL_def split: if_splits)

lemma db_rollback_ok: "txn_ok db \<Longrightarrow> db_rollback_transaction db = (e, db') \<Longrightarrow>
    txn_ok db' \<and> db_tables db' = db_tables db \<and> db_table_count db' = db_table_count db \<and>
    db_table_capacity db' = db_table_capacity db"
  by (auto simp: db_rollback_transaction_def txn_ok_def MAX_TRANSACTION_LEVEL_def split: if_splits)

lemma tables_ok_cong:
  "tables_ok db \<Longrightarrow> db_tables db' = db_tables db \<Longrightarrow> db_table_count db' = db_table_count db \<Longrightarrow>
   db_table_capacity db' = db_table_capacity db \<Longrightarrow> tables_ok db'"
  by (simp add: tables_ok_def)

definition same_frame :: "Database \<Rightarrow> Database \<Rightarrow> bool" where
  \<comment> \<open>nothing but table contents, statistics and the start time differs\<close>
  "same_frame db db' \<longleftrightarrow> db_table_count db' = db_table_count db \<and>
     db_table_capacity db' = db_table_capacity db \<and> db_cache db' = db_cache db \<and>
     db_index_manager db' = db_index_manager db \<and>
     db_transaction_active db' = db_transaction_active db \<and>
     db_transaction_level db' = db_transaction_level db"

lemma same_frame_txn_ok: "same_frame db db' \<Longrightarrow> txn_ok db' = txn_ok db"
  by (simp add: same_frame_def txn_ok_def)

text \<open>
  The frame of the record operations: whatever an operation does to its table, the transaction
  state is the one before the call, because a transaction of its own is closed again.
\<close>

lemma with_local_transaction_table:
  assumes "txn_ok db"
    and "\<And>db1. db_tables db1 = db_tables db \<Longrightarrow> body db1 = (r, x, put_table db1 i t)"
  shows "\<exists>db'. with_local_transaction now db d body = (r, x, db') \<and>
         db_tables db' = (db_tables db)[i := t] \<and> same_frame db db'"
proof (cases "db_transaction_active db")
  case True
  with assms(2) [of db] show ?thesis
    by (simp add: with_local_transaction_def same_frame_def put_table_def)
next
  case False
  let ?db1 = "snd (db_begin_transaction now db)"
  from False assms(1) have "db_tables ?db1 = db_tables db"
    by (simp add: db_begin_transaction_def Let_def)
  from assms(2) [OF this] False assms(1) show ?thesis
    by (auto simp: with_local_transaction_def db_begin_transaction_def db_commit_transaction_def
        db_rollback_transaction_def Let_def same_frame_def txn_ok_def put_table_def
        update_simple_statistics_def)
qed

lemma db_insert_record_step:
  assumes "txn_ok db" and "db_get_table db (Some nm) = Some i"
    and "table_insert_record ok now gc (db_tables db ! i) vals = (e, out, gc', t)"
  shows "\<exists>db'. db_insert_record ok now gc db (Some nm) (Some vals) = (e, (out, gc'), db') \<and>
    db_tables db' = (db_tables db)[i := t] \<and> same_frame db db'"
  unfolding db_insert_record_def assms(2) option.case prod.case
  by (rule with_local_transaction_table) (simp_all add: assms)

lemma db_update_record_step:
  assumes "txn_ok db" and "db_get_table db (Some nm) = Some i"
    and "table_update_record now (db_tables db ! i) key vals = (e, t)"
  shows "\<exists>db'. db_update_record now db (Some nm) key (Some vals) = (e, (), db') \<and>
    db_tables db' = (db_tables db)[i := t] \<and> same_frame db db'"
  unfolding db_update_record_def assms(2) option.case prod.case
  by (rule with_local_transaction_table) (simp_all add: assms)

lemma db_delete_record_step:
  assumes "txn_ok db" and "db_get_table db (Some nm) = Some i"
    and "table_delete_record (db_tables db ! i) key = (e, t)"
  shows "\<exists>db'. db_delete_record now db (Some nm) key = (e, (), db') \<and>
    db_tables db' = (db_tables db)[i := t] \<and> same_frame db db'"
  unfolding db_delete_record_def assms(2) option.case prod.case
  by (rule with_local_transaction_table) (simp_all add: assms)

lemma db_ok_frame:
  assumes "db_ok db" and "same_frame db db'" and "db_tables db' = (db_tables db)[i := t]"
    and "table_ok t" and "t_index_manager t \<noteq> None"
  shows "db_ok db'"
proof -
  have "tables_ok (put_table db i t)" using assms(1,4,5) by (simp add: db_ok_def tables_ok_put_table)
  with assms show ?thesis
    by (simp add: db_ok_def tables_ok_def same_frame_def txn_ok_def)
qed

section \<open>Tables keep their own invariant\<close>

lemma table_update_ok:
  assumes "table_ok t" and "values_ok t vals" and "table_update_record now t key vals = (e, t')"
  shows "table_ok t'"
proof (cases "table_find_record t key")
  case None
  with assms show ?thesis by (simp add: table_update_record_def)
next
  case (Some r)
  obtain err fs where u: "update_fields t key vals [0..<t_field_count t] (r_fields r) = (err, fs)"
    by fastforce
  from table_find_record_SomeD [OF Some] have r: "r \<in> set (t_records t)" "r_id r = key" by auto
  with assms(1) have rok: "record_ok (t_field_count t) r"
    by (auto simp: table_ok_def rows_ok_def list_all_iff)
  have "list_all field_ok fs"
    using update_fields_field_ok [OF u] rok assms(2)
    by (auto simp: record_ok_def values_ok_def)
  with rok length_update_fields [OF u]
  have ok: "record_ok (t_field_count t) (r\<lparr>r_fields := fs\<rparr>)"
    "record_ok (t_field_count t) (r\<lparr>r_fields := fs, r_timestamp := now, r_version := wrap32 (r_version r + 1)\<rparr>)"
    by (simp_all add: record_ok_def)
  from assms(1,3) Some u r ok show ?thesis
    by (auto simp: table_update_record_def table_ok_def rows_ok_def schema_ok_def
        map_id_replace_record list_all_replace_record split: if_splits)
qed

lemma table_update_manager: "table_update_record now t key vals = (e, t') \<Longrightarrow>
    t_index_manager t' = t_index_manager t"
  by (auto simp: table_update_record_def Let_def split: option.splits prod.splits if_splits)

lemma table_delete_ok:
  "table_ok t \<Longrightarrow> table_delete_record t key = (e, t') \<Longrightarrow> table_ok t' \<and> t_index_manager t' = t_index_manager t"
  using table_delete_found [of t key] table_delete_missing [of key t]
  by (cases "key \<in> r_id ` set (t_records t)")
    (auto simp: table_delete_record_def split: option.splits)

lemma table_insert_manager: "table_insert_record ok now gc t vals = (e, out, gc', t') \<Longrightarrow>
    t_index_manager t' = t_index_manager t"
  by (auto elim!: table_insert_cases)

lemma batch_insert_ok:
  assumes "batch_insert ok now gc t rows ids = (e, ids', gc', t')" and "table_ok t" and "c_int gc"
    and "list_all (values_ok t) rows"
  shows "table_ok t' \<and> c_int gc' \<and> t_index_manager t' = t_index_manager t"
  using assms
proof (induction ok now gc t rows ids rule: batch_insert.induct)
  case (2 ok now gc t vals rest ids)
  obtain e1 out gc1 t1 where i: "table_insert_record ok now gc t vals = (e1, out, gc1, t1)"
    using prod_cases4 by blast
  have t1: "table_ok t1" "c_int gc1" "t_index_manager t1 = t_index_manager t"
    using table_insert_ok [OF 2(3) _ 2(4) i] table_insert_counter [OF i] table_insert_manager [OF i] 2(4,5)
    by auto
  have "values_ok t1 = values_ok t"
    using i by (cases rule: table_insert_cases) (auto simp: fun_eq_iff values_ok_def)
  with 2 i t1 show ?case by (cases "e1 = SUCCESS") auto
qed auto

lemma delete_matching_eq:
  "delete_matching p prev rs rc d =
     (rev prev @ filter (\<lambda>r. \<not> p r) rs, rc - length (filter p rs), d + length (filter p rs))"
  by (induction p prev rs rc d rule: delete_matching.induct) auto

lemma table_ok_filter:
  assumes "table_ok t"
  shows "table_ok (t\<lparr>t_records := filter (\<lambda>r. \<not> p r) (t_records t),
     t_record_count := t_record_count t - length (filter p (t_records t))\<rparr>)"
proof -
  have "length (filter p xs) + length (filter (\<lambda>r. \<not> p r) xs) = length xs" for xs :: "Record list"
    by (rule sum_length_filter_compl)
  then have "t_record_count t - length (filter p (t_records t)) = length (filter (\<lambda>r. \<not> p r) (t_records t))"
    using assms by (simp add: table_ok_def rows_ok_def) (metis diff_add_inverse)
  moreover have "distinct (map r_id (filter (\<lambda>r. \<not> p r) (t_records t)))"
    using assms by (simp add: table_ok_def rows_ok_def distinct_map_filter)
  moreover have "list_all Q (filter (\<lambda>r. \<not> p r) xs)" if "list_all Q xs" for Q and xs :: "Record list"
    using that by (auto simp: list_all_iff)
  ultimately show ?thesis
    using assms by (auto simp: table_ok_def rows_ok_def schema_ok_def)
qed

section \<open>The calls of the interface\<close>

datatype db_call =
    Begin int
  | Commit
  | Rollback
  | AddTable alloc "string option" "string list option" "FieldType list option" int
  | InsertRecord alloc int "string option" "Field list option"
  | BatchInsert alloc int "string option" "Field list list option" int bool
  | UpdateRecord int "string option" int "Field list option"
  | DeleteRecord int "string option" int
  | DeleteByField int "string option" "string option" "string option"
  | ExecuteQuery alloc "string option"
  | CreateIndex alloc "string option" "string option" IndexType
  | DropIndex "string option" "string option"
  | ResetStatistics
  | Vacuum
  | Optimize
  | DropTable string
  | TruncateTable string
  | RenameColumn string string string
  | CheckIntegrity bool

type_synonym db_state = "int \<times> Database"
  \<comment> \<open>the id counter of \<open>generate_record_id\<close> and the database\<close>

fun perform :: "db_call \<Rightarrow> db_state \<Rightarrow> (ErrorCode \<times> db_state) option" where
  \<comment> \<open>one call; \<open>None\<close>: it dereferences a NULL pointer\<close>
  "perform (Begin now) (gc, db) = (let (e, db') = db_begin_transaction now db in Some (e, gc, db'))"
| "perform Commit (gc, db) = (let (e, db') = db_commit_transaction db in Some (e, gc, db'))"
| "perform Rollback (gc, db) = (let (e, db') = db_rollback_transaction db in Some (e, gc, db'))"
| "perform (AddTable ok np fp tp n) (gc, db) =
     (let (e, out, db') = db_add_table ok db np fp tp n in Some (e, gc, db'))"
| "perform (InsertRecord ok now tn vp) (gc, db) =
     (let (e, (out, gc'), db') = db_insert_record ok now gc db tn vp in Some (e, gc', db'))"
| "perform (BatchInsert ok now tn vp n want_ids) (gc, db) =
     (let (e, (ids, gc'), db') = db_batch_insert_records ok now gc db tn vp n want_ids in Some (e, gc', db'))"
| "perform (UpdateRecord now tn key vp) (gc, db) =
     (let (e, u, db') = db_update_record now db tn key vp in Some (e, gc, db'))"
| "perform (DeleteRecord now tn key) (gc, db) =
     (let (e, u, db') = db_delete_record now db tn key in Some (e, gc, db'))"
| "perform (DeleteByField now tn fn vp) (gc, db) =
     (let (e, n, db') = db_delete_records_by_field now db tn fn vp in Some (e, gc, db'))"
| "perform (ExecuteQuery ok qp) (gc, db) =
     (let (r, db') = db_execute_query ok db qp in Some (SUCCESS, gc, db'))"
| "perform (CreateIndex ok tn fn type) (gc, db) =
     map_option (\<lambda>(e, db'). (e, gc, db')) (db_create_index ok db tn fn type)"
| "perform (DropIndex tn fn) (gc, db) = (let (e, db') = db_drop_index db tn fn in Some (e, gc, db'))"
| "perform ResetStatistics (gc, db) = (let (e, db') = db_reset_statistics db in Some (e, gc, db'))"
| "perform Vacuum (gc, db) = (let (e, db') = db_vacuum db in Some (e, gc, db'))"
| "perform Optimize (gc, db) = (let (e, db') = db_optimize db in Some (e, gc, db'))"
| "perform (DropTable nm) (gc, db) = (let (e, db') = db_drop_table db nm in Some (e, gc, db'))"
| "perform (TruncateTable nm) (gc, db) = (let (e, db') = db_truncate_table db nm in Some (e, gc, db'))"
| "perform (RenameColumn nm a b) (gc, db) =
     (let (e, db') = db_alter_table_rename_column db nm a b in Some (e, gc, db'))"
| "perform (CheckIntegrity repair) (gc, db) =
     (let (e, db') = db_check_integrity db repair in Some (e, gc, db'))"

definition named_table :: "Database \<Rightarrow> string option \<Rightarrow> Table option" where
  "named_table db tn = map_option (\<lambda>i. db_tables db ! i) (db_get_table db tn)"

definition given_ok :: "Database \<Rightarrow> string option \<Rightarrow> Field list \<Rightarrow> bool" where
  \<comment> \<open>the array of values has an entry for every field of the table\<close>
  "given_ok db tn vals = (case named_table db tn of None \<Rightarrow> True | Some t \<Rightarrow> values_ok t vals)"

fun call_ok :: "Database \<Rightarrow> db_call \<Rightarrow> bool" where
  \<comment> \<open>what the caller owes: arrays as long as announced\<close>
  "call_ok db (AddTable ok np fp tp n) =
     ((case np of None \<Rightarrow> True | Some name \<Rightarrow> nul_free name) \<and>
      (case fp of None \<Rightarrow> True | Some fs \<Rightarrow> n \<le> int (length fs)) \<and>
      (case tp of None \<Rightarrow> True | Some ts \<Rightarrow> n \<le> int (length ts)))"
| "call_ok db (InsertRecord ok now tn vp) = (case vp of None \<Rightarrow> True | Some vals \<Rightarrow> given_ok db tn vals)"
| "call_ok db (BatchInsert ok now tn vp n want_ids) =
     (case vp of None \<Rightarrow> True | Some vs \<Rightarrow> n \<le> int (length vs) \<and> list_all (given_ok db tn) vs)"
| "call_ok db (UpdateRecord now tn key vp) = (case vp of None \<Rightarrow> True | Some vals \<Rightarrow> given_ok db tn vals)"
| "call_ok db _ = True"

inductive reachable :: "db_state \<Rightarrow> bool" where
  created: "db_create ok = Some db \<Longrightarrow> reachable (1000, db)"
| called: "reachable s \<Longrightarrow> call_ok (snd s) c \<Longrightarrow> perform c s = Some (e, s') \<Longrightarrow> reachable s'"

definition state_ok :: "db_state \<Rightarrow> bool" where
  "state_ok s \<longleftrightarrow> c_int (fst s) \<and> db_ok (snd s)"

section \<open>Every call keeps the invariant\<close>

lemma db_create_ok: "db_create ok = Some db \<Longrightarrow> db_ok db"
  by (auto simp: db_create_def db_ok_def txn_ok_def tables_ok_def MAX_TRANSACTION_LEVEL_def
      split: if_splits)

lemma grow_tables_frame [simp]:
  "db_tables (grow_tables db) = db_tables db" "db_table_count (grow_tables db) = db_table_count db"
  "db_transaction_active (grow_tables db) = db_transaction_active db"
  "db_transaction_level (grow_tables db) = db_transaction_level db"
  "txn_ok (grow_tables db) = txn_ok db"
  by (simp_all add: grow_tables_def txn_ok_def)

lemma grow_tables_ok: "tables_ok db \<Longrightarrow> tables_ok (grow_tables db)"
  by (auto simp: tables_ok_def grow_tables_def)

lemma grow_tables_room: "tables_ok db \<Longrightarrow> db_table_count db < MAX_TABLES \<Longrightarrow>
    Suc (db_table_count db) \<le> db_table_capacity (grow_tables db)"
  by (auto simp: tables_ok_def grow_tables_def)

lemma new_table_ok:
  assumes "ok 5" and "1 \<le> n" and "n \<le> MAX_FIELDS_PER_TABLE"
  shows "table_ok (new_table ok name fs ts n) \<and> t_index_manager (new_table ok name fs ts n) \<noteq> None"
  using assms
  by (auto simp: table_ok_def schema_ok_def rows_ok_def manager_ok_def new_table_def c_int_def
      int_min_def int_max_def create_simple_index_manager_def shift_alloc_def simple_manager_ok_def)

lemma db_add_table_cases:
  assumes "db_add_table ok db np fp tp n = (e, out, db')"
  obtains (unchanged) "e \<noteq> SUCCESS" "out = None" "db' = db"
  | (no_memory) "e = ERROR_MEMORY_ALLOCATION" "out = None" "db' = grow_tables db"
  | (added) name fs ts where "np = Some name" "fp = Some fs" "tp = Some ts" "e = SUCCESS"
      "out = Some (db_table_count db)" "1 \<le> n" "n \<le> int MAX_FIELDS_PER_TABLE"
      "db_table_count db < MAX_TABLES" "ok 5"
      "db_get_table db np = None"
      "db' = update_simple_statistics STAT_TABLES_CREATED ((grow_tables db)\<lparr>
         db_tables := store_slot (db_table_count db) (new_table ok name fs ts (nat n)) (db_tables db),
         db_table_count := Suc (db_table_count db)\<rparr>)"
proof (cases "e = SUCCESS")
  case True
  with assms obtain name fs ts where p: "np = Some name" "fp = Some fs" "tp = Some ts"
    by (cases np; cases fp; cases tp) (auto simp: db_add_table_def)
  with assms True show thesis
    by (intro added [of name fs ts])
      (auto simp: db_add_table_def Let_def db_get_table_def find_index_None_iff list_ex_iff split: if_splits)
next
  case False
  show thesis
  proof (cases "db' = db")
    case True
    with assms False show thesis
      by (intro unchanged) (auto simp: db_add_table_def Let_def split: option.splits if_splits)
  next
    case neq: False
    with assms False show thesis
      by (intro no_memory) (auto simp: db_add_table_def Let_def split: option.splits if_splits)
  qed
qed

lemma db_add_table_ok:
  assumes "db_ok db" and "db_add_table ok db np fp tp n = (e, out, db')"
  shows "db_ok db'"
  using assms(2)
proof (cases rule: db_add_table_cases)
  case (added name fs ts)
  let ?t = "new_table ok name fs ts (nat n)"
  have t: "table_ok ?t \<and> t_index_manager ?t \<noteq> None"
    using added by (intro new_table_ok) auto
  have "db_table_count db = length (db_tables db)" using assms(1) by (simp add: db_ok_def tables_ok_def)
  with t added grow_tables_room [of db] grow_tables_ok [of db] assms(1) show ?thesis
    by (auto simp: db_ok_def tables_ok_def store_slot_def txn_ok_def)
qed (use assms grow_tables_ok in \<open>auto simp: db_ok_def\<close>)

lemma named_tableE:
  assumes "db_ok db" and "db_get_table db tn = Some i"
  shows "named_table db tn = Some (db_tables db ! i)" and "table_ok (db_tables db ! i)"
    and "t_index_manager (db_tables db ! i) \<noteq> None"
  using assms tables_ok_nth [of db tn i] by (auto simp: named_table_def db_ok_def)

lemma db_insert_record_ok:
  assumes "state_ok (gc, db)" and "call_ok db (InsertRecord ok now tn vp)"
    and "db_insert_record ok now gc db tn vp = (e, (out, gc'), db')"
  shows "state_ok (gc', db')"
proof (cases "\<exists>nm vals i. tn = Some nm \<and> vp = Some vals \<and> db_get_table db tn = Some i")
  case True
  then obtain nm vals i where p: "tn = Some nm" "vp = Some vals" "db_get_table db (Some nm) = Some i" by auto
  obtain e1 out1 gc1 t1 where ins: "table_insert_record ok now gc (db_tables db ! i) vals = (e1, out1, gc1, t1)"
    using prod_cases4 by blast
  have db: "db_ok db" "txn_ok db" "c_int gc" using assms(1) by (auto simp: state_ok_def db_ok_def)
  note t = named_tableE [OF db(1) p(3)]
  have "values_ok (db_tables db ! i) vals"
    using assms(2) p t(1) by (simp add: given_ok_def)
  then have t1: "table_ok t1" "c_int gc1" "t_index_manager t1 \<noteq> None"
    using table_insert_ok [OF t(2) _ db(3) ins] table_insert_counter [OF ins db(3)]
      table_insert_manager [OF ins] t(3) by auto
  from db_insert_record_step [OF db(2) p(3) ins] assms(3) p
  have "gc' = gc1" "db_tables db' = (db_tables db)[i := t1]" "same_frame db db'" by auto
  with db_ok_frame [OF db(1) _ _ t1(1,3)] t1(2) show ?thesis by (simp add: state_ok_def)
next
  case False
  with assms(1,3) show ?thesis
    by (auto simp: db_insert_record_def split: option.splits)
qed

lemma db_update_record_ok:
  assumes "db_ok db" and "call_ok db (UpdateRecord now tn key vp)"
    and "db_update_record now db tn key vp = (e, u, db')"
  shows "db_ok db'"
proof (cases "\<exists>nm vals i. tn = Some nm \<and> vp = Some vals \<and> db_get_table db tn = Some i")
  case True
  then obtain nm vals i where p: "tn = Some nm" "vp = Some vals" "db_get_table db (Some nm) = Some i" by auto
  obtain e1 t1 where up: "table_update_record now (db_tables db ! i) key vals = (e1, t1)" by fastforce
  note t = named_tableE [OF assms(1) p(3)]
  have "values_ok (db_tables db ! i) vals"
    using assms(2) p t(1) by (simp add: given_ok_def)
  then have t1: "table_ok t1" "t_index_manager t1 \<noteq> None"
    using table_update_ok [OF t(2) _ up] table_update_manager [OF up] t(3) by auto
  have "txn_ok db" using assms(1) by (simp add: db_ok_def)
  from db_update_record_step [OF this p(3) up] assms(3) p
  have "db_tables db' = (db_tables db)[i := t1]" "same_frame db db'" by auto
  with db_ok_frame [OF assms(1) _ _ t1] show ?thesis by simp
next
  case False
  with assms(1,3) show ?thesis
    by (auto simp: db_update_record_def split: option.splits)
qed

lemma db_delete_record_ok:
  assumes "db_ok db" and "db_delete_record now db tn key = (e, u, db')"
  shows "db_ok db'"
proof (cases "\<exists>nm i. tn = Some nm \<and> db_get_table db tn = Some i")
  case True
  then obtain nm i where p: "tn = Some nm" "db_get_table db (Some nm) = Some i" by auto
  obtain e1 t1 where del: "table_delete_record (db_tables db ! i) key = (e1, t1)" by fastforce
  note t = named_tableE [OF assms(1) p(2)]
  from table_delete_ok [OF t(2) del] t(3) have t1: "table_ok t1" "t_index_manager t1 \<noteq> None" by auto
  have "txn_ok db" using assms(1) by (simp add: db_ok_def)
  from db_delete_record_step [OF this p(2) del, of now] assms(2) p
  have "db_tables db' = (db_tables db)[i := t1]" "same_frame db db'" by auto
  with db_ok_frame [OF assms(1) _ _ t1] show ?thesis by simp
next
  case False
  with assms show ?thesis
    by (auto simp: db_delete_record_def split: option.splits)
qed

lemma db_begin_db_ok: "db_ok db \<Longrightarrow> db_ok (snd (db_begin_transaction now db))"
  using db_begin_ok [of db now "fst (db_begin_transaction now db)" "snd (db_begin_transaction now db)"]
  by (auto simp: db_ok_def intro: tables_ok_cong)

lemma db_commit_db_ok: "db_ok db \<Longrightarrow> db_ok (snd (db_commit_transaction db))"
  using db_commit_ok [of db "fst (db_commit_transaction db)" "snd (db_commit_transaction db)"]
  by (auto simp: db_ok_def intro: tables_ok_cong)

lemma db_rollback_db_ok: "db_ok db \<Longrightarrow> db_ok (snd (db_rollback_transaction db))"
  using db_rollback_ok [of db "fst (db_rollback_transaction db)" "snd (db_rollback_transaction db)"]
  by (auto simp: db_ok_def intro: tables_ok_cong)

lemmas txn_db_ok = db_begin_db_ok db_commit_db_ok db_rollback_db_ok

lemma db_begin_tables [simp]: "db_tables (snd (db_begin_transaction now db)) = db_tables db"
  by (simp add: db_begin_transaction_def Let_def)

lemma db_commit_tables [simp]: "db_tables (snd (db_commit_transaction db)) = db_tables db"
  by (simp add: db_commit_transaction_def)

lemma db_rollback_tables [simp]: "db_tables (snd (db_rollback_transaction db)) = db_tables db"
  by (simp add: db_rollback_transaction_def)

lemma db_ok_put_table:
  "db_ok db \<Longrightarrow> table_ok t \<Longrightarrow> t_index_manager t \<noteq> None \<Longrightarrow> db_ok (put_table db i t)"
  by (simp add: db_ok_def tables_ok_put_table)

lemma db_batch_insert_ok:
  assumes "state_ok (gc, db)" and "call_ok db (BatchInsert ok now tn vp n want_ids)"
    and "db_batch_insert_records ok now gc db tn vp n want_ids = (e, (ids, gc'), db')"
  shows "state_ok (gc', db')"
proof (cases "\<exists>nm vs i. tn = Some nm \<and> vp = Some vs \<and> db_get_table db tn = Some i")
  case True
  then obtain nm vs i where p: "tn = Some nm" "vp = Some vs" "db_get_table db (Some nm) = Some i" by auto
  let ?t0 = "db_tables db ! i"
  obtain tx db1 where b: "db_begin_transaction now db = (tx, db1)" by fastforce
  obtain e1 ids1 gc1 t1 where ins:
    "batch_insert (shift_alloc 1 ok) now gc ?t0 (take (nat n) vs) [] = (e1, ids1, gc1, t1)"
    using prod_cases4 by blast
  have db: "db_ok db" "c_int gc" using assms(1) by (auto simp: state_ok_def)
  note t = named_tableE [OF db(1) p(3)]
  from assms(2) p t(1) have "list_all (values_ok ?t0) vs" by (auto simp: given_ok_def list_all_iff)
  then have "list_all (values_ok ?t0) (take (nat n) vs)"
    by (auto simp: list_all_iff dest: in_set_takeD)
  from batch_insert_ok [OF ins t(2) db(2) this] t(3)
  have t1: "table_ok t1" "c_int gc1" "t_index_manager t1 \<noteq> None" by auto
  from b have db1: "db_ok db1" "db_tables db1 = db_tables db"
    using db_begin_db_ok [OF db(1), of now] db_begin_tables [of now db] by auto
  from assms(3) p b ins db1 show ?thesis
    using db t1 db_ok_put_table [OF db1(1) t1(1,3), of i]
    by (auto simp: db_batch_insert_records_def Let_def state_ok_def txn_db_ok split: if_splits)
next
  case False
  with assms(1,3) show ?thesis
    by (auto simp: db_batch_insert_records_def split: option.splits if_splits)
qed

lemma db_delete_by_field_ok:
  assumes "db_ok db" and "db_delete_records_by_field now db tn fn vp = (e, k, db')"
  shows "db_ok db'"
proof (cases "\<exists>nm fd v i. tn = Some nm \<and> fn = Some fd \<and> vp = Some v \<and> db_get_table db tn = Some i \<and>
    find_field (db_tables db ! i) fd \<noteq> None")
  case True
  then obtain nm fd v i j where p: "tn = Some nm" "fn = Some fd" "vp = Some v"
    "db_get_table db (Some nm) = Some i" "find_field (db_tables db ! i) fd = Some j" by auto
  let ?t0 = "db_tables db ! i"
  let ?p = "\<lambda>r. field_matches (t_field_types ?t0 ! j) (f_value (r_fields r ! j)) v"
  let ?t1 = "?t0\<lparr>t_records := filter (\<lambda>r. \<not> ?p r) (t_records ?t0),
     t_record_count := t_record_count ?t0 - length (filter ?p (t_records ?t0))\<rparr>"
  obtain tx db1 where b: "db_begin_transaction now db = (tx, db1)" by fastforce
  note t = named_tableE [OF assms(1) p(4)]
  have t1: "table_ok ?t1" "t_index_manager ?t1 \<noteq> None"
    using table_ok_filter [OF t(2), of ?p] t(3) by simp_all
  from b have db1: "db_ok db1" "db_tables db1 = db_tables db"
    using db_begin_db_ok [OF assms(1), of now] db_begin_tables [of now db] by auto
  have "db_ok (put_table db1 i ?t1)" by (rule db_ok_put_table [OF db1(1) t1])
  with assms(2) p b db1 show ?thesis
    by (auto simp: db_delete_records_by_field_def Let_def delete_matching_eq txn_db_ok split: if_splits)
next
  case False
  with assms show ?thesis
    by (auto simp: db_delete_records_by_field_def split: option.splits)
qed

lemma bump_db_ok [simp]: "db_ok (update_simple_statistics st db) = db_ok db"
  by (simp add: db_ok_def)

lemma db_execute_query_ok: "db_ok db \<Longrightarrow> db_execute_query ok db qp = (r, db') \<Longrightarrow> db_ok db'"
  by (auto simp: db_execute_query_def Let_def split: option.splits if_splits)

lemma add_index_manager_ok:
  assumes "manager_ok (Some m)" and "im_index_count m < MAX_INDEXES_PER_TABLE"
    and "add_index_to_manager ok m x = (SUCCESS, m')"
  shows "manager_ok (Some m')"
  using sm.add_inv [of m ok x SUCCESS m'] assms
  by (auto simp: manager_ok_def add_index_to_manager_def Let_def split: if_splits)

lemma remove_index_manager_ok:
  assumes "manager_ok mp" and "remove_index_from_manager mp tn fn = (e, mp')"
  shows "manager_ok mp' \<and> (mp' = None \<longleftrightarrow> mp = None)"
proof (cases mp)
  case None
  with assms show ?thesis by (simp add: remove_index_from_manager_def)
next
  case (Some m)
  with assms(2) obtain m' where m': "mp' = Some m'" and cnt: "im_index_count m' \<le> im_index_count m"
    by (auto simp: remove_index_from_manager_def split: if_splits option.splits)
  with assms Some have "simple_remove m tn fn = (e, m')" by (simp add: simple_remove_def)
  with sm.remove_inv [of m tn fn e m'] assms(1) Some m' cnt show ?thesis
    by (simp add: manager_ok_def)
qed

lemma table_ok_manager:
  "table_ok t \<Longrightarrow> manager_ok mp \<Longrightarrow> table_ok (t\<lparr>t_index_manager := mp\<rparr>)"
  by (auto simp: table_ok_def schema_ok_def rows_ok_def)

lemma db_create_index_ok:
  assumes "db_ok db"
  shows "\<exists>e db'. db_create_index ok db tn fn type = Some (e, db') \<and> db_ok db'"
proof (cases "\<exists>nm fd i. tn = Some nm \<and> fn = Some fd \<and> db_get_table db tn = Some i \<and>
    find_field (db_tables db ! i) fd \<noteq> None")
  case True
  then obtain nm fd i j where p: "tn = Some nm" "fn = Some fd"
    "db_get_table db (Some nm) = Some i" "find_field (db_tables db ! i) fd = Some j" by auto
  let ?t = "db_tables db ! i"
  note t = named_tableE [OF assms p(3)]
  from t(3) obtain m where m: "t_index_manager ?t = Some m" by auto
  with t(2) have mok: "manager_ok (Some m)" by (simp add: table_ok_def)
  show ?thesis
  proof (cases "im_index_count m < MAX_INDEXES_PER_TABLE \<and> ok 0")
    case True
    then obtain x where x: "create_simple_index ok nm fd type = Some x" by (simp add: create_simple_index_def)
    obtain e m' where a: "add_index_to_manager (shift_alloc 1 ok) m x = (e, m')" by fastforce
    have "db_ok (put_table db i (?t\<lparr>t_index_manager := Some m'\<rparr>))" if "e = SUCCESS"
      using add_index_manager_ok [OF mok] True a that table_ok_manager [OF t(2)]
      by (intro db_ok_put_table [OF assms]) auto
    with True p m x a assms show ?thesis by (auto simp: db_create_index_def Let_def)
  next
    case False
    with p m assms show ?thesis
      by (auto simp: db_create_index_def Let_def create_simple_index_def)
  qed
next
  case False
  with assms show ?thesis by (auto simp: db_create_index_def Let_def split: option.splits)
qed

lemma db_drop_index_ok:
  assumes "db_ok db" and "db_drop_index db tn fn = (e, db')"
  shows "db_ok db'"
proof (cases "\<exists>nm fd i. tn = Some nm \<and> fn = Some fd \<and> db_get_table db tn = Some i")
  case True
  then obtain nm fd i where p: "tn = Some nm" "fn = Some fd" "db_get_table db (Some nm) = Some i" by auto
  let ?t = "db_tables db ! i"
  note t = named_tableE [OF assms(1) p(3)]
  obtain e1 mp where r: "remove_index_from_manager (t_index_manager ?t) nm fd = (e1, mp)" by fastforce
  have "manager_ok mp \<and> mp \<noteq> None"
    using remove_index_manager_ok [OF _ r] t(2,3) by (auto simp: table_ok_def)
  with table_ok_manager [OF t(2)] have "db_ok (put_table db i (?t\<lparr>t_index_manager := mp\<rparr>))"
    by (intro db_ok_put_table [OF assms(1)]) auto
  with assms(2) p r show ?thesis by (auto simp: db_drop_index_def Let_def split: if_splits)
next
  case False
  with assms show ?thesis by (auto simp: db_drop_index_def split: option.splits)
qed

lemma db_reset_statistics_ok:
  assumes "db_ok db" and "db_reset_statistics db = (e, db')"
  shows "db_ok db'"
proof -
  have "table_ok (t\<lparr>t_statistics := st\<rparr>) = table_ok t" for t st
    by (simp add: table_ok_def schema_ok_def rows_ok_def)
  with assms show ?thesis
    by (auto simp: db_reset_statistics_def db_ok_def txn_ok_def tables_ok_def list_all_iff)
qed

lemma perform_defined: "state_ok s \<Longrightarrow> \<exists>e s'. perform c s = Some (e, s')"
proof -
  assume "state_ok s"
  obtain gc db where s: "s = (gc, db)" by fastforce
  with \<open>state_ok s\<close> have "db_ok db" by (simp add: state_ok_def)
  with s show ?thesis
    using db_create_index_ok [of db]
    by (cases c) (auto split: prod.splits, fastforce)
qed

lemma txn_step_ok:
  assumes "db_ok db"
  shows "db_begin_transaction now db = (e, db') \<Longrightarrow> db_ok db'"
    and "db_commit_transaction db = (e, db') \<Longrightarrow> db_ok db'"
    and "db_rollback_transaction db = (e, db') \<Longrightarrow> db_ok db'"
  using txn_db_ok [OF assms] by (metis snd_conv)+

lemma perform_ok:
  assumes "state_ok s" and "call_ok (snd s) c" and "perform c s = Some (e, s')"
  shows "state_ok s'"
proof -
  obtain gc db where s: "s = (gc, db)" by fastforce
  with assms(1) have db: "db_ok db" and gc: "c_int gc" by (auto simp: state_ok_def)
  show ?thesis
  proof (cases c)
    case (InsertRecord ok now tn vp)
    with assms s show ?thesis
      using db_insert_record_ok [of gc db ok now tn vp] by (auto split: prod.splits)
  next
    case (BatchInsert ok now tn vp n w)
    with assms s show ?thesis
      using db_batch_insert_ok [of gc db ok now tn vp n w] by (auto split: prod.splits)
  next
    case (CreateIndex ok tn fn ty)
    with assms s db gc show ?thesis
      using db_create_index_ok [OF db, of ok tn fn ty] by (auto simp: state_ok_def)
  next
    case (UpdateRecord now tn key vp)
    with assms s db gc show ?thesis
      using db_update_record_ok [OF db, of now tn key vp] by (auto simp: state_ok_def split: prod.splits)
  qed (use assms(3) s db gc in
      \<open>auto simp: state_ok_def db_vacuum_def db_optimize_def db_drop_table_def db_truncate_table_def
        db_alter_table_rename_column_def db_check_integrity_def
        dest: txn_step_ok [OF db] db_add_table_ok [OF db] db_delete_record_ok [OF db] db_delete_by_field_ok [OF db]
          db_execute_query_ok [OF db] db_drop_index_ok [OF db] db_reset_statistics_ok [OF db]
        split: prod.splits\<close>)
qed

lemma reachable_state_ok: "reachable s \<Longrightarrow> state_ok s"
proof (induction rule: reachable.induct)
  case (created ok db)
  then show ?case using db_create_ok by (simp add: state_ok_def c_int_def int_min_def int_max_def)
qed (use perform_ok in blast)

end
