(* ===== verification/Lx_Database_Store.thy ===== *)
theory Lx_Database_Store
  imports Lx_Database_Inv
begin

text \<open>
  A named table of a database keeps the contract of \<open>record_store\<close>: \<open>db_insert_record\<close>,
  \<open>db_find_record\<close> and \<open>db_delete_record\<close> interpret the locale, whether or not a transaction is
  active. The theory also holds the frame facts that the properties of the database use.
\<close>

section \<open>Frames\<close>

lemma db_get_table_names:
  "db_get_table db (Some nm) = find_index (\<lambda>x. x = nm) (take (db_table_count db) (map t_name (db_tables db)))"
  by (simp add: db_get_table_def take_map find_index_map)

lemma db_get_table_cong:
  assumes "db_table_count db' = db_table_count db" and "map t_name (db_tables db') = map t_name (db_tables db)"
  shows "db_get_table db' tn = db_get_table db tn"
  using assms by (cases tn) (simp_all add: db_get_table_names, simp add: db_get_table_def)

lemma db_get_table_frame:
  assumes "same_frame db db'" and "db_tables db' = (db_tables db)[i := t]"
    and "t_name t = t_name (db_tables db ! i)"
  shows "db_get_table db' tn = db_get_table db tn"
proof (rule db_get_table_cong)
  show "db_table_count db' = db_table_count db" using assms(1) by (simp add: same_frame_def)
  show "map t_name (db_tables db') = map t_name (db_tables db)"
    using assms(2,3) by (simp add: map_update) (metis list_update_id map_update)
qed

lemma named_table_frame:
  assumes "db_get_table db (Some nm) = Some i" and "same_frame db db'"
    and "db_tables db' = (db_tables db)[i := t]" and "t_name t = t_name (db_tables db ! i)"
  shows "named_table db' (Some nm) = Some t"
    and "nm' \<noteq> nm \<Longrightarrow> named_table db' (Some nm') = named_table db (Some nm')"
proof -
  from db_get_table_SomeD [OF assms(1)] have i: "i < length (db_tables db)" "nm = t_name (db_tables db ! i)"
    by auto
  note g = db_get_table_frame [OF assms(2-4)]
  show "named_table db' (Some nm) = Some t"
    using assms(1,3) i(1) by (simp add: named_table_def g)
  show "named_table db' (Some nm') = named_table db (Some nm')" if "nm' \<noteq> nm"
  proof (cases "db_get_table db (Some nm')")
    case (Some j)
    with db_get_table_SomeD [OF Some] i(2) that have "j \<noteq> i" by auto
    with Some assms(3) show ?thesis by (simp add: named_table_def g)
  qed (simp add: named_table_def g)
qed

lemma table_insert_name: "table_insert_record ok now gc t vals = (e, out, gc', t') \<Longrightarrow> t_name t' = t_name t"
  by (auto elim!: table_insert_cases)

lemma table_update_name: "table_update_record now t key vals = (e, t') \<Longrightarrow> t_name t' = t_name t"
  by (auto simp: table_update_record_def Let_def split: option.splits prod.splits if_splits)

lemma table_delete_name: "table_delete_record t key = (e, t') \<Longrightarrow> t_name t' = t_name t"
  by (auto simp: table_delete_record_def split: option.splits)

section \<open>The interpretation\<close>

definition db_store_insert ::
  "alloc \<Rightarrow> int \<Rightarrow> string \<Rightarrow> db_state \<Rightarrow> Field list \<Rightarrow> ErrorCode \<times> int option \<times> db_state" where
  "db_store_insert ok now nm s vals =
     (let (e, (out, gc'), db') = db_insert_record ok now (fst s) (snd s) (Some nm) (Some vals)
      in (e, out, gc', db'))"

definition db_store_delete :: "int \<Rightarrow> string \<Rightarrow> db_state \<Rightarrow> int \<Rightarrow> ErrorCode \<times> db_state" where
  "db_store_delete now nm s key =
     (let (e, u, db') = db_delete_record now (snd s) (Some nm) key in (e, fst s, db'))"

definition table_rows :: "string \<Rightarrow> db_state \<Rightarrow> Record list" where
  "table_rows nm s = (case named_table (snd s) (Some nm) of None \<Rightarrow> [] | Some t \<Rightarrow> t_records t)"

definition db_store_inv :: "string \<Rightarrow> db_state \<Rightarrow> bool" where
  "db_store_inv nm s \<longleftrightarrow> state_ok s \<and> named_table (snd s) (Some nm) \<noteq> None"

lemma db_store_invE:
  assumes "db_store_inv nm (gc, db)"
  obtains i where "db_get_table db (Some nm) = Some i" "db_ok db" "txn_ok db" "c_int gc"
    "named_table db (Some nm) = Some (db_tables db ! i)" "table_ok (db_tables db ! i)"
    "t_index_manager (db_tables db ! i) \<noteq> None"
proof -
  from assms obtain i where i: "db_get_table db (Some nm) = Some i"
    by (auto simp: db_store_inv_def named_table_def)
  from assms have db: "db_ok db" "c_int gc" by (auto simp: db_store_inv_def state_ok_def)
  from that [OF i db(1) _ db(2) named_tableE [OF db(1) i]] db(1) show thesis by (simp add: db_ok_def)
qed

lemma db_store_inv_frame:
  assumes "db_get_table db (Some nm) = Some i" and "db_ok db" and "c_int gc'"
    and "same_frame db db'" and "db_tables db' = (db_tables db)[i := t]"
    and "t_name t = t_name (db_tables db ! i)" and "table_ok t" and "t_index_manager t \<noteq> None"
  shows "db_store_inv nm (gc', db')" and "table_rows nm (gc', db') = t_records t"
    and "nm' \<noteq> nm \<Longrightarrow> table_rows nm' (gc', db') = table_rows nm' (gc, db)"
  using db_ok_frame [OF assms(2,4,5,7,8)] named_table_frame [OF assms(1,4,5,6)] assms(3)
  by (simp_all add: db_store_inv_def state_ok_def table_rows_def)

lemma db_store_insert_step:
  assumes "db_store_inv nm s" and "db_store_insert ok now nm s v = (e, out, s')"
  obtains i gc' t where "db_get_table (snd s) (Some nm) = Some i"
    "table_insert_record ok now (fst s) (db_tables (snd s) ! i) v = (e, out, gc', t)"
    "fst s' = gc'" "db_tables (snd s') = (db_tables (snd s))[i := t]" "same_frame (snd s) (snd s')"
    "t_name t = t_name (db_tables (snd s) ! i)"
    "t_index_manager t = t_index_manager (db_tables (snd s) ! i)"
proof -
  obtain gc db where s: "s = (gc, db)" by fastforce
  from assms(1) s obtain i where i: "db_get_table db (Some nm) = Some i" "txn_ok db"
    by (auto elim: db_store_invE)
  obtain e1 out1 gc1 t1 where ins: "table_insert_record ok now gc (db_tables db ! i) v = (e1, out1, gc1, t1)"
    using prod_cases4 by blast
  from db_insert_record_step [OF i(2,1) ins] obtain db' where
    "db_insert_record ok now gc db (Some nm) (Some v) = (e1, (out1, gc1), db')"
    "db_tables db' = (db_tables db)[i := t1]" "same_frame db db'" by auto
  with assms(2) s i ins table_insert_name [OF ins] table_insert_manager [OF ins] show thesis
    by (intro that [of i gc1 t1]) (auto simp: db_store_insert_def)
qed

lemma db_store_delete_step:
  assumes "db_store_inv nm s"
  obtains i e t db' where "db_get_table (snd s) (Some nm) = Some i"
    "table_delete_record (db_tables (snd s) ! i) key = (e, t)"
    "db_store_delete now nm s key = (e, fst s, db')"
    "db_tables db' = (db_tables (snd s))[i := t]" "same_frame (snd s) db'"
    "t_name t = t_name (db_tables (snd s) ! i)"
    "t_index_manager t = t_index_manager (db_tables (snd s) ! i)"
proof -
  obtain gc db where s: "s = (gc, db)" by fastforce
  from assms s obtain i where i: "db_get_table db (Some nm) = Some i" "txn_ok db" "table_ok (db_tables db ! i)"
    by (auto elim: db_store_invE)
  obtain e t where del: "table_delete_record (db_tables db ! i) key = (e, t)" by fastforce
  from db_delete_record_step [OF i(2,1) del, of now] obtain db' where
    "db_delete_record now db (Some nm) key = (e, (), db')"
    "db_tables db' = (db_tables db)[i := t]" "same_frame db db'" by auto
  with s i del table_delete_name [OF del] table_delete_ok [OF i(3) del] show thesis
    by (intro that [of i e t db']) (auto simp: db_store_delete_def)
qed

interpretation ds: record_store "db_store_insert ok now nm" "\<lambda>s k. db_find_record (snd s) (Some nm) k"
  "db_store_delete later nm" "table_rows nm" "db_store_inv nm" "\<lambda>s v. given_ok (snd s) (Some nm) v"
proof
  fix s s' :: db_state and k v out e
  assume inv: "db_store_inv nm s"
  obtain gc db where s: "s = (gc, db)" by fastforce
  from inv s obtain i where i: "db_get_table db (Some nm) = Some i" "db_ok db" "c_int gc"
    "named_table db (Some nm) = Some (db_tables db ! i)" "table_ok (db_tables db ! i)"
    "t_index_manager (db_tables db ! i) \<noteq> None" by (auto elim: db_store_invE)
  have rows: "table_rows nm s = t_records (db_tables db ! i)" using s i by (simp add: table_rows_def)
  show "db_find_record (snd s) (Some nm) k = List.find (\<lambda>r. r_id r = k) (table_rows nm s)"
    using s i rows by (simp add: db_find_record_def table_find_record_eq)
  show "distinct (map r_id (table_rows nm s))"
    using i(5) rows by (simp add: table_ok_def rows_ok_def)
  show "db_store_inv nm s' \<and> (\<exists>r. out = Some (r_id r) \<and> table_rows nm s' = r # table_rows nm s)"
    if "given_ok (snd s) (Some nm) v" "db_store_insert ok now nm s v = (SUCCESS, out, s')"
  proof -
    obtain gc' db' where s': "s' = (gc', db')" by fastforce
    from db_store_insert_step [OF inv that(2)] s i(1) s' obtain t where
      ins: "table_insert_record ok now gc (db_tables db ! i) v = (SUCCESS, out, gc', t)" and
      db': "db_tables db' = (db_tables db)[i := t]" "same_frame db db'"
      "t_name t = t_name (db_tables db ! i)" "t_index_manager t = t_index_manager (db_tables db ! i)"
      by auto
    from that(1) s i(4) have "values_ok (db_tables db ! i) v" by (simp add: given_ok_def)
    from table_insert_ok [OF i(5) this i(3) ins] table_insert_counter [OF ins i(3)]
    have "table_ok t" "c_int gc'" by auto
    from db_store_inv_frame [OF i(1,2) this(2) db'(2,1,3) this(1)] db'(4) i(6) s'
    have "db_store_inv nm s'" "table_rows nm s' = t_records t" by auto
    moreover from ins have "\<exists>r. out = Some (r_id r) \<and> t_records t = r # t_records (db_tables db ! i)"
      by (cases rule: table_insert_cases) (auto intro!: exI)
    ultimately show ?thesis using rows by auto
  qed
  show "db_store_inv nm s' \<and> out = None \<and> table_rows nm s' = table_rows nm s"
    if "db_store_insert ok now nm s v = (e, out, s')" "e \<noteq> SUCCESS"
  proof -
    obtain gc' db' where s': "s' = (gc', db')" by fastforce
    from db_store_insert_step [OF inv that(1)] s i(1) s' obtain t where
      ins: "table_insert_record ok now gc (db_tables db ! i) v = (e, out, gc', t)" and
      db': "db_tables db' = (db_tables db)[i := t]" "same_frame db db'"
      by auto
    from ins that(2) have t: "out = None \<and> t = db_tables db ! i" by (cases rule: table_insert_cases) auto
    with db_store_inv_frame [OF i(1,2) table_insert_counter [OF ins i(3)] db'(2,1)] i(5,6) s' rows
    show ?thesis by auto
  qed
  obtain e1 t db' where del: "table_delete_record (db_tables db ! i) k = (e1, t)"
    "db_store_delete later nm s k = (e1, gc, db')" and
    db': "db_tables db' = (db_tables db)[i := t]" "same_frame db db'"
    "t_name t = t_name (db_tables db ! i)"
    by (rule db_store_delete_step [OF inv, of k later]) (use s i(1) in auto)
  have "table_ok t" "t_index_manager t \<noteq> None" using table_delete_ok [OF i(5) del(1)] i(6) by auto
  note after = db_store_inv_frame [OF i(1,2,3) db'(2,1,3) this]
  show "\<exists>s'. db_store_delete later nm s k = (SUCCESS, s') \<and> db_store_inv nm s' \<and>
      table_rows nm s' = filter (\<lambda>r. r_id r \<noteq> k) (table_rows nm s)"
    if "k \<in> r_id ` set (table_rows nm s)"
    using that table_delete_found [OF i(5), of k] del after(1,2) rows by auto
  show "fst (db_store_delete later nm s k) = ERROR_NOT_FOUND \<and> db_store_inv nm (snd (db_store_delete later nm s k)) \<and>
      table_rows nm (snd (db_store_delete later nm s k)) = table_rows nm s"
    if "k \<notin> r_id ` set (table_rows nm s)"
    using that table_delete_missing [of k "db_tables db ! i"] del after(1,2) rows by auto
qed

lemma db_store_insert_named:
  assumes "db_store_inv nm (gc, db)" and "named_table db (Some nm) = Some t"
    and "db_insert_record ok now gc db (Some nm) (Some v) = (e, (out, gc'), db')"
  obtains t' where "table_insert_record ok now gc t v = (e, out, gc', t')"
    "named_table db' (Some nm) = Some t'" "same_frame db db'"
    "\<And>nm'. nm' \<noteq> nm \<Longrightarrow> named_table db' (Some nm') = named_table db (Some nm')"
proof -
  have ins: "db_store_insert ok now nm (gc, db) v = (e, out, (gc', db'))"
    using assms(3) by (simp add: db_store_insert_def)
  show thesis
  proof (rule db_store_insert_step [OF assms(1) ins])
    fix i gc1 t'
    assume i: "db_get_table (snd (gc, db)) (Some nm) = Some i"
      and t': "table_insert_record ok now (fst (gc, db)) (db_tables (snd (gc, db)) ! i) v = (e, out, gc1, t')"
        "fst (gc', db') = gc1"
      and f: "db_tables (snd (gc', db')) = (db_tables (snd (gc, db)))[i := t']"
        "same_frame (snd (gc, db)) (snd (gc', db'))" "t_name t' = t_name (db_tables (snd (gc, db)) ! i)"
    from i assms(2) have "db_tables db ! i = t" by (simp add: named_table_def)
    with t' f named_table_frame [of db nm i db' t'] i show thesis by (intro that [of t']) auto
  qed
qed

lemma db_update_record_named:
  assumes "db_store_inv nm (gc, db)" and "named_table db (Some nm) = Some t"
    and "db_update_record now db (Some nm) key (Some v) = (e, u, db')"
  obtains t' where "table_update_record now t key v = (e, t')" "named_table db' (Some nm) = Some t'"
    "same_frame db db'" "\<And>nm'. nm' \<noteq> nm \<Longrightarrow> named_table db' (Some nm') = named_table db (Some nm')"
proof -
  from assms(1) obtain i where i: "db_get_table db (Some nm) = Some i" "txn_ok db"
    "named_table db (Some nm) = Some (db_tables db ! i)" by (auto elim: db_store_invE)
  with assms(2) have t: "db_tables db ! i = t" by simp
  obtain e1 t' where up: "table_update_record now (db_tables db ! i) key v = (e1, t')" by fastforce
  from db_update_record_step [OF i(2,1) up] assms(3)
  have f: "e = e1" "db_tables db' = (db_tables db)[i := t']" "same_frame db db'" by auto
  from up t f named_table_frame [OF i(1) f(3,2) table_update_name [OF up]] show thesis
    by (intro that [of t']) auto
qed

lemma batch_insert_prefix:
  assumes "batch_insert ok now gc t rows ids = (e, ids', gc', t')"
  shows "\<exists>news. t_records t' = news @ t_records t \<and> ids' = rev ids @ rev (map r_id news) \<and>
     length news \<le> length rows \<and> (e = SUCCESS \<longleftrightarrow> length news = length rows) \<and> t_name t' = t_name t"
  using assms
proof (induction ok now gc t rows ids rule: batch_insert.induct)
  case (1 ok now gc t ids)
  then show ?case by (intro exI [of _ "[]"]) simp
next
  case (2 ok now gc t vals rest ids)
  obtain e1 out gc1 t1 where i: "table_insert_record ok now gc t vals = (e1, out, gc1, t1)"
    using prod_cases4 by blast
  from i show ?case
  proof (cases rule: table_insert_cases)
    case failure
    with 2(2) i show ?thesis by (intro exI [of _ "[]"]) auto
  next
    case (success k)
    let ?r = "new_record now t k vals"
    from 2(1) [OF i [symmetric] refl refl success(1)] 2(2) i success obtain news where
      "t_records t' = news @ t_records t1" "ids' = rev (k # ids) @ rev (map r_id news)"
      "length news \<le> length rest" "e = SUCCESS \<longleftrightarrow> length news = length rest" "t_name t' = t_name t1" by auto
    then show ?thesis using success(3) by (intro exI [of _ "news @ [?r]"]) simp
  qed
qed

lemma named_table_tables:
  assumes "db_tables db' = db_tables db" and "db_table_count db' = db_table_count db"
  shows "named_table db' tn = named_table db tn"
  using db_get_table_cong [of db' db tn] assms by (simp add: named_table_def)

lemma db_txn_table_count [simp]:
  "db_table_count (snd (db_begin_transaction now db)) = db_table_count db"
  "db_table_count (snd (db_commit_transaction db)) = db_table_count db"
  "db_table_count (snd (db_rollback_transaction db)) = db_table_count db"
  by (simp_all add: db_begin_transaction_def db_commit_transaction_def db_rollback_transaction_def Let_def)

lemma named_table_txn [simp]:
  "named_table (snd (db_begin_transaction now db)) tn = named_table db tn"
  "named_table (snd (db_commit_transaction db)) tn = named_table db tn"
  "named_table (snd (db_rollback_transaction db)) tn = named_table db tn"
  by (rule named_table_tables; simp)+

lemma named_table_put:
  assumes "db_get_table db (Some nm) = Some i" and "t_name t = t_name (db_tables db ! i)"
  shows "named_table (put_table db i t) (Some nm) = Some t"
  by (rule named_table_frame(1) [OF assms(1) _ _ assms(2)]) (simp_all add: same_frame_def put_table_def)

lemma db_insert_found:
  assumes "db_store_inv nm (gc, db)" and "named_table db (Some nm) = Some t"
    and "db_insert_record ok now gc db (Some nm) (Some v) = (SUCCESS, (out, gc'), db')"
  shows "\<exists>k. out = Some k \<and> db_find_record db' (Some nm) k = Some (new_record now t k v) \<and>
     named_table db' (Some nm) = Some (link_record t (new_record now t k v))"
proof -
  from db_store_insert_named [OF assms] obtain t' where
    t': "table_insert_record ok now gc t v = (SUCCESS, out, gc', t')" "named_table db' (Some nm) = Some t'" .
  from t'(1) obtain k where k: "out = Some k" "t' = link_record t (new_record now t k v)"
    by (cases rule: table_insert_cases) auto
  with t'(2) have "db_find_record db' (Some nm) k = Some (new_record now t k v)"
    by (auto simp: db_find_record_def named_table_def table_find_record_eq)
  with k t'(2) show ?thesis by simp
qed

section \<open>New tables and indexes\<close>

lemma find_index_snoc: "find_index p (xs @ [y]) =
    (case find_index p xs of None \<Rightarrow> if p y then Some (length xs) else None | Some i \<Rightarrow> Some i)"
  by (induction xs) (auto split: option.splits)

lemma named_table_append:
  assumes "tables_ok db" and "db_tables db' = db_tables db @ [t]" and "db_table_count db' = Suc (db_table_count db)"
  shows "named_table db' (Some nm) = (case named_table db (Some nm) of
     None \<Rightarrow> if t_name t = nm then Some t else None | Some t' \<Rightarrow> Some t')"
proof -
  have "db_table_count db = length (db_tables db)" using assms(1) by (simp add: tables_ok_def)
  with assms(2,3) show ?thesis
    by (auto simp: named_table_def db_get_table_names find_index_snoc nth_append dest!: find_index_SomeD
        split: option.splits)
qed

lemma db_add_table_named:
  assumes "db_ok db" and "db_add_table ok db (Some name) (Some fs) (Some ts) n = (SUCCESS, out, db')"
  shows "named_table db (Some name) = None"
    and "named_table db' (Some nm) = (case named_table db (Some nm) of
       None \<Rightarrow> if t_name (new_table ok name fs ts (nat n)) = nm then Some (new_table ok name fs ts (nat n)) else None
     | Some t' \<Rightarrow> Some t')"
  using assms(2)
proof (atomize (full), cases rule: db_add_table_cases)
  case (added name' fs' ts')
  let ?t = "new_table ok name fs ts (nat n)"
  from assms(1) have t: "tables_ok db" "db_table_count db = length (db_tables db)"
    by (auto simp: db_ok_def tables_ok_def)
  have d: "db_tables db' = db_tables db @ [?t]" "db_table_count db' = Suc (db_table_count db)"
    using added t(2) by (auto simp: store_slot_def)
  from added have "named_table db (Some name) = None" by (simp add: named_table_def)
  then show "named_table db (Some name) = None \<and> named_table db' (Some nm) = (case named_table db (Some nm) of
       None \<Rightarrow> if t_name ?t = nm then Some ?t else None | Some t' \<Rightarrow> Some t')"
    using named_table_append [OF t(1) d, of nm] by simp
qed auto

lemma db_create_index_cases:
  assumes "db_create_index ok db (Some nm) (Some fd) ty = Some (SUCCESS, db')"
    and "named_table db (Some nm) = Some t" and "manager_ok (t_index_manager t)"
  obtains i j m x m' where "db_get_table db (Some nm) = Some i" "db_tables db ! i = t"
    "find_field t fd = Some j" "t_index_manager t = Some m" "simple_manager_ok m"
    "find_index_in_manager (Some m) nm fd = None"
    "create_simple_index ok nm fd ty = Some x"
    "add_index_to_manager (shift_alloc 1 ok) m x = (SUCCESS, m')" "simple_manager_ok m'"
    "db' = update_simple_statistics STAT_INDEXES_CREATED (put_table db i (t\<lparr>t_index_manager := Some m'\<rparr>))"
proof -
  from assms(2) obtain i where i: "db_get_table db (Some nm) = Some i" "db_tables db ! i = t"
    by (auto simp: named_table_def)
  with assms(1) obtain j where j: "find_field t fd = Some j"
    by (auto simp: db_create_index_def Let_def split: option.splits)
  from assms(1) i j obtain m where m: "t_index_manager t = Some m"
    by (auto simp: db_create_index_def Let_def split: option.splits if_splits)
  from assms(1) i j m obtain x where x: "create_simple_index ok nm fd ty = Some x"
    by (auto simp: db_create_index_def Let_def split: option.splits if_splits)
  obtain e m' where a: "add_index_to_manager (shift_alloc 1 ok) m x = (e, m')" by fastforce
  have "simple_manager_ok m" using assms(3) m by (simp add: manager_ok_def)
  moreover from assms(1) i j m x a have "e = SUCCESS" "find_index_in_manager (Some m) nm fd = None"
    "db' = update_simple_statistics STAT_INDEXES_CREATED (put_table db i (t\<lparr>t_index_manager := Some m'\<rparr>))"
    by (auto simp: db_create_index_def Let_def split: if_splits)
  moreover from this(2) sm.add_inv [OF \<open>simple_manager_ok m\<close>, of "shift_alloc 1 ok" x e m'] a
  have "simple_manager_ok m'" by simp
  ultimately show thesis using i j m x a by (intro that [of i j m x m']) auto
qed

end
