(* ===== verification/Lx_Database_Props.thy ===== *)
theory Lx_Database_Props
  imports Lx_Database_Store
begin

text \<open>
  The properties of the database interface: safety of every call on reachable states, the map
  view of a table, id generation, updates, transactions, batches, deletion by field, table and
  index names. Each property is followed by an application at a concrete database.
\<close>

section \<open>A concrete database\<close>

abbreviation all_ok :: alloc where "all_ok \<equiv> \<lambda>_. True"

definition sample_empty :: Database where
  "sample_empty = the (db_create all_ok)"

definition sample_db :: Database where
  \<comment> \<open>one table \<open>users\<close> with an integer primary key and a name\<close>
  "sample_db = snd (snd (db_add_table all_ok sample_empty (Some ''users'')
     (Some [''id'', ''name'']) (Some [TYPE_INT, TYPE_STRING]) 2))"

definition sample_value :: "FieldType \<Rightarrow> FieldValue \<Rightarrow> Field" where
  "sample_value ty v = \<lparr>f_name = [], f_type = ty, f_value = v\<rparr>"

definition sample_row :: "int \<Rightarrow> string \<Rightarrow> Field list" where
  "sample_row k nm = [sample_value TYPE_INT (set_int_value k zero_value),
     sample_value TYPE_STRING (set_string_value nm zero_value)]"

definition sample_table :: Table where
  "sample_table = new_table all_ok ''users'' [''id'', ''name''] [TYPE_INT, TYPE_STRING] 2"

lemma sample_db_tables: "db_tables sample_db = [sample_table]" "db_table_count sample_db = 1"
  "db_transaction_active sample_db = False" "db_transaction_level sample_db = 0"
  by (simp_all add: sample_db_def sample_empty_def sample_table_def db_create_def db_add_table_def
      Let_def MAX_TABLES_def MAX_FIELDS_PER_TABLE_def list_ex_iff store_slot_def update_simple_statistics_def grow_tables_def)

lemma sample_table_fields: "t_name sample_table = ''users''" "t_field_count sample_table = 2"
  "t_field_names sample_table = [''id'', ''name'']" "t_field_types sample_table = [TYPE_INT, TYPE_STRING]"
  "t_constraints sample_table = [default_constraint 0, default_constraint 1]"
  "t_records sample_table = []" "t_record_count sample_table = 0"
  by (simp_all add: sample_table_def new_table_def MAX_TABLE_NAME_def upt_rec numeral_2_eq_2)

lemma reachable_empty: "reachable (1000, sample_empty)"
  by (rule reachable.created [of all_ok]) (simp add: sample_empty_def db_create_def)

lemma reachable_sample: "reachable (1000, sample_db)"
proof (rule reachable.called [OF reachable_empty])
  show "call_ok (snd (1000, sample_empty)) (AddTable all_ok (Some ''users'') (Some [''id'', ''name''])
      (Some [TYPE_INT, TYPE_STRING]) 2)" by simp
  show "perform (AddTable all_ok (Some ''users'') (Some [''id'', ''name'']) (Some [TYPE_INT, TYPE_STRING]) 2)
      (1000, sample_empty) = Some (SUCCESS, 1000, sample_db)"
    by (simp add: sample_db_def sample_empty_def db_create_def db_add_table_def Let_def MAX_TABLES_def
        MAX_FIELDS_PER_TABLE_def list_ex_iff)
qed

lemma sample_get_table: "db_get_table sample_db (Some ''users'') = Some 0"
  by (simp add: db_get_table_def sample_db_tables sample_table_fields)

lemma sample_named_table: "named_table sample_db (Some ''users'') = Some sample_table"
  by (simp add: named_table_def sample_get_table sample_db_tables)

lemma sample_row_ok: "values_ok sample_table (sample_row k nm)"
  by (simp add: values_ok_def sample_row_def sample_table_fields sample_value_def field_ok_def)

lemma sample_given_ok: "given_ok sample_db (Some ''users'') (sample_row k nm)"
  by (simp add: given_ok_def sample_named_table sample_row_ok)

lemma sample_store_inv: "db_store_inv ''users'' (1000, sample_db)"
  using reachable_state_ok [OF reachable_sample] by (simp add: db_store_inv_def sample_named_table)

definition sample_one :: Database where
  \<comment> \<open>\<open>sample_db\<close> after the row \<open>(7, 'Ada')\<close> was inserted\<close>
  "sample_one = snd (snd (db_insert_record all_ok 0 1000 sample_db (Some ''users'') (Some (sample_row 7 ''Ada''))))"

lemma sample_insert_table:
  assumes "c_int k" and "k \<noteq> -1"
  shows "table_insert_record all_ok now gc sample_table (sample_row k nm) =
     (SUCCESS, Some k, gc, link_record sample_table (new_record now sample_table k (sample_row k nm)))"
proof -
  have "pk_record_id sample_table (sample_row k nm) = k"
    using assms by (simp add: pk_record_id_def sample_table_fields sample_row_def sample_value_def
        upt_rec numeral_2_eq_2 default_constraint_def)
  with assms show ?thesis
    by (simp add: table_insert_record_def sample_table_fields table_find_record_eq MAX_RECORDS_PER_TABLE_def
        not_null_violated_def sample_row_def sample_value_def upt_rec numeral_2_eq_2 default_constraint_def)
qed

lemma sample_insert:
  assumes "c_int k" and "k \<noteq> -1"
  shows "\<exists>db'. db_insert_record all_ok now gc sample_db (Some ''users'') (Some (sample_row k nm)) =
      (SUCCESS, (Some k, gc), db') \<and> same_frame sample_db db' \<and>
     db_tables db' = [link_record sample_table (new_record now sample_table k (sample_row k nm))]"
proof -
  have "txn_ok sample_db" using reachable_state_ok [OF reachable_sample] by (simp add: state_ok_def db_ok_def)
  moreover have "table_insert_record all_ok now gc (db_tables sample_db ! 0) (sample_row k nm) =
      (SUCCESS, Some k, gc, link_record sample_table (new_record now sample_table k (sample_row k nm)))"
    by (simp add: sample_db_tables sample_insert_table [OF assms])
  ultimately show ?thesis
    using db_insert_record_step [OF _ sample_get_table] by (fastforce simp: sample_db_tables)
qed

lemma sample_one: "db_insert_record all_ok 0 1000 sample_db (Some ''users'') (Some (sample_row 7 ''Ada'')) =
     (SUCCESS, (Some 7, 1000), sample_one)"
  using sample_insert [of 7 0 1000 "''Ada''"] by (auto simp: sample_one_def c_int_def int_min_def int_max_def)

lemma sample_one_facts: "same_frame sample_db sample_one"
  "db_tables sample_one = [link_record sample_table (new_record 0 sample_table 7 (sample_row 7 ''Ada''))]"
  using sample_insert [of 7 0 1000 "''Ada''"] sample_one by (auto simp: c_int_def int_min_def int_max_def)

lemma reachable_sample_one: "reachable (1000, sample_one)"
proof (rule reachable.called [OF reachable_sample])
  show "call_ok (snd (1000, sample_db)) (InsertRecord all_ok 0 (Some ''users'') (Some (sample_row 7 ''Ada'')))"
    by (simp add: sample_given_ok)
  show "perform (InsertRecord all_ok 0 (Some ''users'') (Some (sample_row 7 ''Ada''))) (1000, sample_db) =
      Some (SUCCESS, 1000, sample_one)"
    by (simp add: sample_one)
qed

lemma sample_one_named: "named_table sample_one (Some ''users'') =
    Some (link_record sample_table (new_record 0 sample_table 7 (sample_row 7 ''Ada'')))"
  using named_table_frame(1) [OF sample_get_table sample_one_facts(1)]
  by (simp add: sample_one_facts(2) sample_db_tables)

lemma sample_one_store_inv: "db_store_inv ''users'' (1000, sample_one)"
  using reachable_state_ok [OF reachable_sample_one] by (simp add: db_store_inv_def sample_one_named)

lemma reachable_db_ok_txn: "reachable (gc, db) \<Longrightarrow> txn_ok db"
  by (drule reachable_state_ok) (simp add: state_ok_def db_ok_def)

section \<open>Safety\<close>

text \<open>C1: whatever calls a program makes after \<open>db_create\<close>, the database stays well formed: the
  nesting level of transactions is between 0 and \<open>MAX_TRANSACTION_LEVEL\<close> and positive exactly when
  a transaction is active, the table array is within its capacity and \<open>MAX_TABLES\<close>, every table's
  record count is the length of its list and within \<open>MAX_RECORDS_PER_TABLE\<close>, record ids are
  distinct, and every record has a value for every field.\<close>

theorem reachable_db_ok:
  assumes "reachable (gc, db)"
  shows "db_ok db \<and> c_int gc"
  using reachable_state_ok [OF assms] by (simp add: state_ok_def)

lemma reachable_db_ok_witness: "db_ok sample_one \<and> c_int 1000 \<and> db_tables sample_one \<noteq> []"
  using reachable_db_ok [OF reachable_sample_one] by (simp add: sample_one_facts)

text \<open>C2: no call of the interface dereferences a NULL index manager on a reachable database: every
  call returns an error code.\<close>

theorem reachable_call_returns:
  assumes "reachable s"
  shows "\<exists>e s'. perform c s = Some (e, s')"
  by (rule perform_defined [OF reachable_state_ok [OF assms]])

lemma reachable_call_returns_witness:
  "\<exists>e s'. perform (CreateIndex all_ok (Some ''users'') (Some ''id'') INDEX_HASH) (1000, sample_db) = Some (e, s')"
  by (rule reachable_call_returns [OF reachable_sample])
section \<open>A table is a finite map\<close>

text \<open>C3: a successful \<open>db_insert_record\<close> reports the id of the new record, which no record of the
  table had, and changes the view through \<open>db_find_record\<close> in that one place, whether or not a
  transaction is active.\<close>

theorem insert_is_map_update:
  assumes "reachable (gc, db)" and "named_table db (Some nm) = Some t" and "values_ok t vals"
    and "db_insert_record ok now gc db (Some nm) (Some vals) = (SUCCESS, (out, gc'), db')"
  shows "\<exists>r. out = Some (r_id r) \<and> db_find_record db (Some nm) (r_id r) = None \<and>
     db_find_record db' (Some nm) = (db_find_record db (Some nm))(r_id r \<mapsto> r)"
proof -
  have "db_store_inv nm (gc, db)"
    using reachable_state_ok [OF assms(1)] assms(2) by (simp add: db_store_inv_def)
  from ds.updated_after_insert [OF this, of vals ok now out "(gc', db')"] assms(2-4)
  show ?thesis by (simp add: given_ok_def db_store_insert_def)
qed

lemma insert_is_map_update_witness:
  "\<exists>r. Some (7 :: int) = Some (r_id r) \<and> db_find_record sample_db (Some ''users'') (r_id r) = None \<and>
     db_find_record sample_one (Some ''users'') = (db_find_record sample_db (Some ''users''))(r_id r \<mapsto> r)"
  by (rule insert_is_map_update [OF reachable_sample sample_named_table sample_row_ok sample_one])



text \<open>Deleting the record just inserted succeeds and restores the rows of the table exactly.\<close>

lemma delete_after_insert:
  assumes "reachable (gc, db)" and "named_table db (Some nm) = Some t" and "values_ok t vals"
    and "db_insert_record ok now gc db (Some nm) (Some vals) = (SUCCESS, (Some k, gc'), db1)"
  shows "\<exists>db2. db_delete_record now' db1 (Some nm) k = (SUCCESS, (), db2) \<and>
     map_option t_records (named_table db2 (Some nm)) = Some (t_records t)"
proof -
  have inv: "db_store_inv nm (gc, db)"
    using reachable_state_ok [OF assms(1)] assms(2) by (simp add: db_store_inv_def)
  have ins: "db_store_insert ok now nm (gc, db) vals = (SUCCESS, Some k, (gc', db1))"
    using assms(4) by (simp add: db_store_insert_def)
  from ds.delete_inserted [OF inv _ ins, of now'] assms(2,3) obtain s2 where
    d: "db_store_delete now' nm (gc', db1) k = (SUCCESS, s2)" "table_rows nm s2 = table_rows nm (gc, db)"
    by (auto simp: given_ok_def)
  have inv1: "db_store_inv nm (gc', db1)"
    using ds.insert_success [OF inv _ ins] assms(2,3) by (simp add: given_ok_def)
  from ds.delete_inv [OF inv1 d(1)] have "named_table (snd s2) (Some nm) \<noteq> None"
    by (simp add: db_store_inv_def)
  with d assms(2) show ?thesis
    by (auto simp: table_rows_def db_store_delete_def split: prod.splits)
qed

lemma delete_after_insert_example:
  "\<exists>db2. db_delete_record 5 sample_one (Some ''users'') 7 = (SUCCESS, (), db2) \<and>
     map_option t_records (named_table db2 (Some ''users'')) = Some (t_records sample_table)"
  by (rule delete_after_insert [OF reachable_sample sample_named_table sample_row_ok sample_one])

text \<open>C10: \<open>db_delete_record\<close> removes exactly the record of the id given; it succeeds when there is
  one and answers \<open>ERROR_NOT_FOUND\<close> when there is none.\<close>

theorem delete_is_map_restrict:
  assumes "reachable (gc, db)" and "named_table db (Some nm) = Some t"
    and "db_delete_record now db (Some nm) key = (e, u, db')"
  shows "db_find_record db' (Some nm) = (db_find_record db (Some nm))(key := None) \<and>
     e = (if db_find_record db (Some nm) key = None then ERROR_NOT_FOUND else SUCCESS)"
proof -
  have inv: "db_store_inv nm (gc, db)"
    using reachable_state_ok [OF assms(1)] assms(2) by (simp add: db_store_inv_def)
  have d: "db_store_delete now nm (gc, db) key = (e, (gc, db'))"
    using assms(3) by (simp add: db_store_delete_def)
  from ds.restricted_after_delete(1) [OF inv d]
  have "db_find_record db' (Some nm) = (db_find_record db (Some nm))(key := None)" by simp
  moreover have "e = (if db_find_record db (Some nm) key = None then ERROR_NOT_FOUND else SUCCESS)"
    using ds.restricted_after_delete(2) [OF inv d] ds.delete_missing [OF inv, of key now]
      ds.find_None [OF inv, of key] d by auto
  ultimately show ?thesis by blast
qed

lemma delete_is_map_restrict_witness:
  "\<exists>db'. db_delete_record 0 sample_db (Some ''users'') 3 = (ERROR_NOT_FOUND, (), db') \<and>
     db_find_record db' (Some ''users'') = (db_find_record sample_db (Some ''users''))(3 := None)"
proof -
  obtain e db' where d: "db_delete_record 0 sample_db (Some ''users'') 3 = (e, (), db')"
    by (metis prod_cases3 old.unit.exhaust)
  have "db_find_record sample_db (Some ''users'') 3 = None"
    by (simp add: db_find_record_def sample_get_table sample_db_tables table_find_record_eq sample_table_fields)
  with delete_is_map_restrict [OF reachable_sample sample_named_table d] d show ?thesis by simp
qed

section \<open>Outcomes\<close>



text \<open>C15: \<open>db_update_record\<close> answers \<open>ERROR_NOT_FOUND\<close> for an unknown id and \<open>ERROR_DUPLICATE_KEY\<close> when
  the new key value is the id of another record, and then changes nothing; otherwise it succeeds
  and replaces, under the same id, the values, the timestamp and the version of that record only.\<close>

theorem update_outcome_spec:
  assumes "reachable (gc, db)" and "named_table db (Some nm) = Some t" and "values_ok t vals"
    and "db_update_record now db (Some nm) key (Some vals) = (e, u, db')"
  shows "e = update_outcome t key vals \<and> (e \<noteq> SUCCESS \<longrightarrow> named_table db' (Some nm) = Some t) \<and>
     (e = SUCCESS \<longrightarrow> (\<exists>r. db_find_record db (Some nm) key = Some r \<and>
        db_find_record db' (Some nm) = (db_find_record db (Some nm))(key \<mapsto> merged_record now r vals)))"
proof -
  have inv: "db_store_inv nm (gc, db)"
    using reachable_state_ok [OF assms(1)] assms(2) by (simp add: db_store_inv_def)
  then have t: "table_ok t" using assms(2) by (auto elim: db_store_invE)
  from db_update_record_named [OF inv assms(2,4)] obtain t' where
    t': "table_update_record now t key vals = (e, t')" "named_table db' (Some nm) = Some t'" .
  have find: "db_find_record d (Some nm) = table_find_record x" if "named_table d (Some nm) = Some x" for d x
    using that by (auto simp: fun_eq_iff db_find_record_def named_table_def)
  from table_update_outcome [OF t assms(3) t'(1)] t'(2) show ?thesis
    by (simp add: find [OF assms(2)] find [OF t'(2)])
qed

lemma update_outcome_spec_witness:
  "\<exists>db'. db_update_record 3 sample_one (Some ''users'') 7 (Some (sample_row 8 ''Bob'')) = (SUCCESS, (), db') \<and>
     (\<exists>r. db_find_record sample_one (Some ''users'') 7 = Some r \<and>
        db_find_record db' (Some ''users'') =
          (db_find_record sample_one (Some ''users''))(7 \<mapsto> merged_record 3 r (sample_row 8 ''Bob'')))"
proof -
  let ?t = "link_record sample_table (new_record 0 sample_table 7 (sample_row 7 ''Ada''))"
  obtain e db' where up: "db_update_record 3 sample_one (Some ''users'') 7 (Some (sample_row 8 ''Bob'')) = (e, (), db')"
    by (metis prod_cases3 old.unit.exhaust)
  have ok: "values_ok ?t (sample_row 8 ''Bob'')"
    using sample_row_ok [of 8 "''Bob''"] by (simp add: values_ok_def)
  have "update_outcome ?t 7 (sample_row 8 ''Bob'') = SUCCESS"
    by (simp add: update_outcome_def sample_table_fields sample_row_def sample_value_def c_int_def
        int_min_def int_max_def)
  with update_outcome_spec [OF reachable_sample_one sample_one_named ok up] up show ?thesis by auto
qed


lemma sample_duplicate:
  "table_insert_record ok now gc (link_record sample_table (new_record 0 sample_table 7 (sample_row 7 ''Ada'')))
     (sample_row 7 nm) =
   (ERROR_DUPLICATE_KEY, None, gc, link_record sample_table (new_record 0 sample_table 7 (sample_row 7 ''Ada'')))"
proof -
  let ?t = "link_record sample_table (new_record 0 sample_table 7 (sample_row 7 ''Ada''))"
  have t: "table_ok ?t" "t_record_count ?t < MAX_RECORDS_PER_TABLE"
    using reachable_state_ok [OF reachable_sample_one]
    by (auto simp: state_ok_def db_ok_def tables_ok_def sample_one_facts MAX_RECORDS_PER_TABLE_def link_record_def sample_table_fields)
  then have "pk_record_id ?t (sample_row 7 nm) = 7"
    by (simp add: pk_record_id_eq sample_row_def sample_value_def c_int_def int_min_def int_max_def)
  with t not_null_never [OF t(1)] show ?thesis
    by (simp add: table_insert_record_def Let_def table_find_record_eq sample_row_def sample_value_def)
qed

lemma sample_batch:
  "\<exists>gc' db'. db_batch_insert_records all_ok 0 1000 sample_db (Some ''users'')
     (Some [sample_row 7 ''Ada'', sample_row 7 ''Bob'']) 2 True = (ERROR_DUPLICATE_KEY, (None, gc'), db')"
proof -
  have "\<not> db_transaction_active sample_db" by (simp add: sample_db_tables)
  then have "fst (db_begin_transaction 0 sample_db) = SUCCESS"
    by (simp add: db_begin_transaction_def Let_def)
  then obtain db1 where b: "db_begin_transaction 0 sample_db = (SUCCESS, db1)"
    by (metis fst_conv surj_pair)
  then have "db_tables db1 = [sample_table]"
    using db_begin_tables [of 0 sample_db] by (simp add: sample_db_tables)
  moreover have "c_int 7" by (simp add: c_int_def int_min_def int_max_def)
  ultimately show ?thesis
    by (simp add: db_batch_insert_records_def BATCH_INSERT_SIZE_def sample_get_table sample_db_tables
        sample_table_fields MAX_RECORDS_PER_TABLE_def b sample_insert_table sample_duplicate
        shift_alloc_def)
qed


section \<open>Deletion and search by field\<close>

definition matching :: "Table \<Rightarrow> nat \<Rightarrow> string \<Rightarrow> Record list" where
  \<comment> \<open>the records whose field \<open>j\<close>, read at the type of the schema, equals the given memory\<close>
  "matching t j v = filter (\<lambda>r. field_matches (t_field_types t ! j) (f_value (r_fields r ! j)) v) (t_records t)"

text \<open>C21: \<open>db_delete_records_by_field\<close> deletes exactly the matching records and reports how many they
  were; it keeps the transaction state if it deleted any, but if it deleted none its rollback also
  ends a transaction that the caller had open.\<close>

theorem delete_by_field_spec:
  assumes "reachable (gc, db)" and "named_table db (Some nm) = Some t" and "find_field t fd = Some j"
    and "db_transaction_level db < MAX_TRANSACTION_LEVEL"
  shows "\<exists>db' t'. db_delete_records_by_field now db (Some nm) (Some fd) (Some v) =
       (SUCCESS, length (matching t j v), db') \<and> named_table db' (Some nm) = Some t' \<and>
     t_records t' = filter (\<lambda>r. r \<notin> set (matching t j v)) (t_records t) \<and>
     (db_transaction_active db', db_transaction_level db') =
       (if matching t j v = [] then (False, 0) else (db_transaction_active db, db_transaction_level db))"
proof -
  from assms(2) obtain i where i: "db_get_table db (Some nm) = Some i" "db_tables db ! i = t"
    by (auto simp: named_table_def)
  have txn: "txn_ok db" by (rule reachable_db_ok_txn [OF assms(1)])
  obtain db1 where b: "db_begin_transaction now db = (SUCCESS, db1)"
    and b_tables: "db_tables db1 = db_tables db" and b_count: "db_table_count db1 = db_table_count db"
    and b_state: "db_transaction_active db1" "db_transaction_level db1 = db_transaction_level db + 1"
    using assms(4) txn by (auto simp: db_begin_transaction_def Let_def txn_ok_def)
  let ?p = "\<lambda>r. field_matches (t_field_types t ! j) (f_value (r_fields r ! j)) v"
  let ?t1 = "t\<lparr>t_records := filter (\<lambda>r. \<not> ?p r) (t_records t), t_record_count := t_record_count t - length (matching t j v)\<rparr>"
  let ?db2 = "put_table db1 i ?t1"
  have g1: "db_get_table db1 (Some nm) = Some i"
    using db_get_table_cong [of db1 db "Some nm"] b_tables b_count i(1) by simp
  have named: "named_table ?db2 (Some nm) = Some ?t1"
    using named_table_put [OF g1, of ?t1] b_tables i(2) by simp
  have rest: "filter (\<lambda>r. \<not> ?p r) (t_records t) = filter (\<lambda>r. r \<notin> set (matching t j v)) (t_records t)"
    by (auto simp: matching_def intro: filter_cong)
  let ?db3 = "snd (if matching t j v = [] then db_rollback_transaction ?db2 else db_commit_transaction ?db2)"
  have l: "(0 < length (matching t j v)) = (matching t j v \<noteq> [])" by simp
  have "delete_matching ?p [] (t_records t) (t_record_count t) 0 =
      (t_records ?t1, t_record_count ?t1, length (matching t j v))"
    by (simp add: delete_matching_eq matching_def)
  then have "db_delete_records_by_field now db (Some nm) (Some fd) (Some v) = (SUCCESS, length (matching t j v), ?db3)"
    using i b b_tables assms(3) by (simp add: db_delete_records_by_field_def l)
  moreover have "named_table ?db3 (Some nm) = Some ?t1"
  proof -
    have "named_table (snd (if b then db_rollback_transaction d else db_commit_transaction d)) tn =
        named_table d tn" for b d tn by simp
    from this [of "matching t j v = []" ?db2 "Some nm"] named show ?thesis by (simp only:)
  qed
  moreover have "(db_transaction_active ?db3, db_transaction_level ?db3) =
      (if matching t j v = [] then (False, 0) else (db_transaction_active db, db_transaction_level db))"
    using b_state txn by (auto simp: db_rollback_transaction_def db_commit_transaction_def txn_ok_def)
  ultimately show ?thesis using rest by (intro exI [of _ ?db3] exI [of _ ?t1]) simp
qed

lemma delete_by_field_spec_witness:
  "\<exists>db' t'. db_delete_records_by_field 0 sample_one (Some ''users'') (Some ''id'') (Some (set_int_value 7 zero_value)) =
       (SUCCESS, Suc 0, db') \<and> named_table db' (Some ''users'') = Some t' \<and> t_records t' = []"
proof -
  let ?t = "link_record sample_table (new_record 0 sample_table 7 (sample_row 7 ''Ada''))"
  have f: "find_field ?t ''id'' = Some 0"
    by (simp add: find_field_def sample_table_fields numeral_2_eq_2)
  have "db_transaction_level sample_one < MAX_TRANSACTION_LEVEL"
    using sample_one_facts(1) by (simp add: same_frame_def sample_db_tables MAX_TRANSACTION_LEVEL_def)
  moreover have m: "matching ?t 0 (set_int_value 7 zero_value) = t_records ?t"
    by (simp add: matching_def sample_table_fields field_matches_def new_record_def copied_fields_def
        sample_row_def sample_value_def upt_rec numeral_2_eq_2)
  ultimately show ?thesis
    using delete_by_field_spec [OF reachable_sample_one sample_one_named f, of 0 "set_int_value 7 zero_value"]
    by (auto simp: sample_table_fields)
qed

text \<open>\<open>db_find_record_by_field\<close> returns the first of the records that
  \<open>db_find_all_records_by_field\<close> collects, when the stored values have the type of the schema.\<close>

lemma find_by_field_first_of_all:
  assumes "named_table db (Some nm) = Some t" and "find_field t fd = Some j"
    and "\<forall>r \<in> set (t_records t). f_type (r_fields r ! j) = t_field_types t ! j" and "ok 0"
  shows "db_find_record_by_field db (Some nm) (Some fd) (Some v) =
     (case fst (db_find_all_records_by_field ok db (Some nm) (Some fd) (Some v)) of
        None \<Rightarrow> None | Some rs \<Rightarrow> Some (hd rs))"
proof -
  from assms(1) obtain i where i: "db_get_table db (Some nm) = Some i" "db_tables db ! i = t"
    by (auto simp: named_table_def)
  have hd: "List.find p xs = (case filter p xs of [] \<Rightarrow> None | y # ys \<Rightarrow> Some y)" for p and xs :: "Record list"
    by (induction xs) auto
  have "List.find (\<lambda>r. field_matches (f_type (r_fields r ! j)) (f_value (r_fields r ! j)) v) (t_records t) =
      List.find (\<lambda>r. field_matches (t_field_types t ! j) (f_value (r_fields r ! j)) v) (t_records t)"
    using assms(3) by (intro find_cong) auto
  with i assms show ?thesis
    by (simp add: db_find_record_by_field_def db_find_all_records_by_field_def Let_def hd index_search_simple_def
        split: option.split list.split)
qed

lemma find_by_field_first_of_all_example:
  "db_find_record_by_field sample_one (Some ''users'') (Some ''id'') (Some (set_int_value 7 zero_value)) =
     (case fst (db_find_all_records_by_field all_ok sample_one (Some ''users'') (Some ''id'')
        (Some (set_int_value 7 zero_value))) of None \<Rightarrow> None | Some rs \<Rightarrow> Some (hd rs))"
  by (rule find_by_field_first_of_all [OF sample_one_named, of _ 0])
    (simp_all add: find_field_def sample_table_fields numeral_2_eq_2 new_record_def copied_fields_def upt_rec)

section \<open>Transactions\<close>

text \<open>A rollback undoes nothing: a record inserted since the transaction began is still found
  after \<open>db_rollback_transaction\<close>, which leaves every table as it is and only ends the transaction,
  at all its levels.\<close>

lemma rollback_keeps_insert:
  assumes "reachable (gc, db)" and "named_table db (Some nm) = Some t"
    and "db_begin_transaction now db = (SUCCESS, db1)"
    and "db_insert_record ok now gc db1 (Some nm) (Some vals) = (SUCCESS, (Some k, gc'), db2)"
    and "db_rollback_transaction db2 = (e, db3)"
  shows "e = SUCCESS \<and> \<not> db_transaction_active db3 \<and> db_transaction_level db3 = 0 \<and>
     db_tables db3 = db_tables db2 \<and> (\<exists>r. db_find_record db3 (Some nm) k = Some r)"
proof -
  have r1: "reachable (gc, db1)"
    by (rule reachable.called [OF assms(1), of "Begin now" SUCCESS]) (simp_all add: assms(3))
  have n1: "named_table db1 (Some nm) = Some t"
    using assms(2,3) named_table_txn(1) [of now db "Some nm"] by simp
  have inv: "db_store_inv nm (gc, db1)"
    using reachable_state_ok [OF r1] n1 by (simp add: db_store_inv_def)
  from db_store_insert_named [OF inv n1 assms(4)] have f: "same_frame db1 db2" by blast
  have "db_transaction_active db1"
    using assms(3) by (auto simp: db_begin_transaction_def Let_def update_simple_statistics_def split: if_splits)
  with f have active: "db_transaction_active db2" by (simp add: same_frame_def)
  with assms(5) have e: "e = SUCCESS" "\<not> db_transaction_active db3" "db_transaction_level db3 = 0"
    by (auto simp: db_rollback_transaction_def)
  have same: "named_table db3 (Some nm) = named_table db2 (Some nm)" "db_tables db3 = db_tables db2"
    using assms(5) named_table_txn(3) [of db2 "Some nm"] db_rollback_tables [of db2] by auto
  from db_insert_found [OF inv n1 assms(4)] same(1)
  have "\<exists>r. db_find_record db3 (Some nm) k = Some r"
    by (auto simp: db_find_record_def named_table_def split: option.splits)
  with e same(2) show ?thesis by blast
qed

definition sample_txn :: Database where
  \<comment> \<open>\<open>sample_db\<close> with a transaction begun at time 0\<close>
  "sample_txn = snd (db_begin_transaction 0 sample_db)"

lemma sample_txn: "db_begin_transaction 0 sample_db = (SUCCESS, sample_txn)"
  by (simp add: sample_txn_def db_begin_transaction_def Let_def sample_db_tables)

lemma sample_txn_insert:
  "\<exists>db2. db_insert_record all_ok 0 1000 sample_txn (Some ''users'') (Some (sample_row 7 ''Ada'')) =
     (SUCCESS, (Some 7, 1000), db2)"
proof -
  have "db_ok sample_txn"
    using db_begin_db_ok [of sample_db 0] reachable_state_ok [OF reachable_sample]
    by (simp add: sample_txn_def state_ok_def)
  moreover have g: "db_get_table sample_txn (Some ''users'') = Some 0"
    using db_get_table_cong [of sample_txn sample_db] by (simp add: sample_txn_def sample_get_table)
  moreover have "db_tables sample_txn ! 0 = sample_table" by (simp add: sample_txn_def sample_db_tables)
  moreover have "c_int 7" by (simp add: c_int_def int_min_def int_max_def)
  ultimately show ?thesis
    using db_insert_record_step [of sample_txn "''users''" 0 all_ok 0 1000 "sample_row 7 ''Ada''" SUCCESS "Some 7" 1000]
      sample_insert_table [of 7 0 1000 "''Ada''"] by (auto simp: db_ok_def)
qed

lemma rollback_keeps_insert_example:
  "\<exists>db2 db3. db_insert_record all_ok 0 1000 sample_txn (Some ''users'') (Some (sample_row 7 ''Ada'')) =
      (SUCCESS, (Some 7, 1000), db2) \<and> db_rollback_transaction db2 = (SUCCESS, db3) \<and>
     (\<exists>r. db_find_record db3 (Some ''users'') 7 = Some r)"
proof -
  obtain db2 where i: "db_insert_record all_ok 0 1000 sample_txn (Some ''users'') (Some (sample_row 7 ''Ada'')) =
     (SUCCESS, (Some 7, 1000), db2)" using sample_txn_insert by blast
  obtain e db3 where r: "db_rollback_transaction db2 = (e, db3)" by fastforce
  from rollback_keeps_insert [OF reachable_sample sample_named_table sample_txn i r] i r show ?thesis by auto
qed

definition begins :: "int \<Rightarrow> nat \<Rightarrow> Database \<Rightarrow> Database" where
  "begins now n db = ((snd \<circ> db_begin_transaction now) ^^ n) db"

definition commits :: "nat \<Rightarrow> Database \<Rightarrow> Database" where
  "commits n db = ((snd \<circ> db_commit_transaction) ^^ n) db"

lemma begins_level:
  assumes "txn_ok db" and "\<not> db_transaction_active db" and "int n \<le> MAX_TRANSACTION_LEVEL"
  shows "txn_ok (begins now n db) \<and> db_transaction_level (begins now n db) = int n"
  using assms(3)
proof (induction n)
  case 0
  then show ?case using assms(1,2) by (simp add: begins_def txn_ok_def)
next
  case (Suc n)
  let ?d = "begins now n db"
  from Suc have ih: "txn_ok ?d" "db_transaction_level ?d = int n" by auto
  have s: "begins now (Suc n) db = snd (db_begin_transaction now ?d)" by (simp add: begins_def)
  from ih Suc.prems have "db_transaction_level (snd (db_begin_transaction now ?d)) = int n + 1"
    by (auto simp: db_begin_transaction_def Let_def update_simple_statistics_def txn_ok_def)
  moreover have "txn_ok (snd (db_begin_transaction now ?d))"
    using db_begin_ok [OF ih(1), of now] by (metis prod.collapse)
  ultimately show ?case by (simp add: s)
qed

lemma commits_level:
  assumes "txn_ok db" and "int n \<le> db_transaction_level db"
  shows "txn_ok (commits n db) \<and> db_transaction_level (commits n db) = db_transaction_level db - int n"
  using assms(2)
proof (induction n)
  case 0
  then show ?case using assms(1) by (simp add: commits_def)
next
  case (Suc n)
  let ?d = "commits n db"
  from Suc have ih: "txn_ok ?d" "db_transaction_level ?d = db_transaction_level db - int n" by auto
  have s: "commits (Suc n) db = snd (db_commit_transaction ?d)" by (simp add: commits_def)
  from ih Suc.prems have "db_transaction_level (snd (db_commit_transaction ?d)) = db_transaction_level ?d - 1"
    by (auto simp: db_commit_transaction_def update_simple_statistics_def txn_ok_def)
  moreover have "txn_ok (snd (db_commit_transaction ?d))"
    using db_commit_ok [OF ih(1)] by (metis prod.collapse)
  ultimately show ?case using ih(2) by (simp add: s)
qed

text \<open>C23: transactions nest to at most \<open>MAX_TRANSACTION_LEVEL\<close> levels: from an inactive database,
  \<open>n\<close> begins reach level \<open>n\<close>, one more is refused with \<open>ERROR_TRANSACTION_CONFLICT\<close> exactly at the
  maximum, \<open>n\<close> commits end the transaction and not fewer, but a single rollback always does.\<close>

theorem transaction_nesting:
  assumes "reachable (gc, db)" and "\<not> db_transaction_active db" and "int n \<le> MAX_TRANSACTION_LEVEL"
  shows "db_transaction_level (begins now n db) = int n \<and>
     fst (db_begin_transaction now (begins now n db)) =
       (if int n = MAX_TRANSACTION_LEVEL then ERROR_TRANSACTION_CONFLICT else SUCCESS) \<and>
     (\<forall>k \<le> n. db_transaction_active (commits k (begins now n db)) \<longleftrightarrow> k < n) \<and>
     \<not> db_transaction_active (snd (db_rollback_transaction (begins now n db)))"
proof -
  let ?d = "begins now n db"
  have "txn_ok db" using reachable_db_ok_txn [OF assms(1)] .
  from begins_level [OF this assms(2,3), of now] have d: "txn_ok ?d" "db_transaction_level ?d = int n" by auto
  then have "fst (db_begin_transaction now ?d) =
       (if int n = MAX_TRANSACTION_LEVEL then ERROR_TRANSACTION_CONFLICT else SUCCESS)"
    using assms(3) by (auto simp: db_begin_transaction_def Let_def txn_ok_def MAX_TRANSACTION_LEVEL_def)
  moreover have "db_transaction_active (commits k ?d) \<longleftrightarrow> k < n" if "k \<le> n" for k
    using commits_level [OF d(1), of k] d(2) that by (auto simp: txn_ok_def)
  moreover have "\<not> db_transaction_active (snd (db_rollback_transaction ?d))"
    by (simp add: db_rollback_transaction_def update_simple_statistics_def)
  ultimately show ?thesis using d(2) by blast
qed

lemma transaction_nesting_witness:
  "db_transaction_level (begins 0 10 sample_db) = 10 \<and>
   fst (db_begin_transaction 0 (begins 0 10 sample_db)) = ERROR_TRANSACTION_CONFLICT"
  using transaction_nesting [OF reachable_sample, of 10 0] by (simp add: sample_db_tables MAX_TRANSACTION_LEVEL_def)

section \<open>Tables and indexes by name\<close>

text \<open>A table that \<open>db_add_table\<close> created is found under its name, with the schema given and
  without records, if the name fits its 64-byte buffer; a longer name is stored cut and finds
  nothing, so no operation reaches the table by the name it was created with. Tables that exist
  keep their place.\<close>

lemma added_table_found:
  assumes "reachable (gc, db)" and "nul_free name"
    and "db_add_table ok db (Some name) (Some fs) (Some ts) n = (SUCCESS, out, db')"
  shows "named_table db (Some name) = None \<and>
     named_table db' (Some name) =
       (if length name < MAX_TABLE_NAME then Some (new_table ok name fs ts (nat n)) else None) \<and>
     (\<forall>nm t. named_table db (Some nm) = Some t \<longrightarrow> named_table db' (Some nm) = Some t)"
proof -
  have "db_ok db" using reachable_state_ok [OF assms(1)] by (simp add: state_ok_def)
  note a = db_add_table_named [OF this assms(3)]
  have "t_name (new_table ok name fs ts (nat n)) = take 63 name"
    using assms(2) by (simp add: new_table_def MAX_TABLE_NAME_def)
  with a show ?thesis by (auto simp: MAX_TABLE_NAME_def)
qed

definition long_name :: string where
  "long_name = replicate 64 (CHR ''n'')"

lemma added_table_found_example:
  "\<exists>out db'. db_add_table all_ok sample_empty (Some long_name) (Some [''id'']) (Some [TYPE_INT]) 1 = (SUCCESS, out, db') \<and>
     named_table db' (Some long_name) = None"
proof -
  obtain out db' where a: "db_add_table all_ok sample_empty (Some long_name) (Some [''id'']) (Some [TYPE_INT]) 1 =
      (SUCCESS, out, db')"
    by (simp add: sample_empty_def db_create_def db_add_table_def Let_def MAX_TABLES_def
        MAX_FIELDS_PER_TABLE_def list_ex_iff)
  have "nul_free long_name" by (simp add: long_name_def nul_free_iff)
  from added_table_found [OF reachable_empty this a] a show ?thesis
    by (simp add: long_name_def MAX_TABLE_NAME_def)
qed

text \<open>After \<open>db_create_index\<close> succeeded, a second index of the same field is refused and
  \<open>db_drop_index\<close> removes exactly the new one, for names that fit their buffers.\<close>

lemma index_create_drop:
  assumes "reachable (gc, db)" and "named_table db (Some nm) = Some t"
    and "nul_free nm" and "length nm < MAX_TABLE_NAME" and "nul_free fd" and "length fd < MAX_FIELD_LEN"
    and "db_create_index ok db (Some nm) (Some fd) ty = Some (SUCCESS, db1)"
  shows "db_create_index ok' db1 (Some nm) (Some fd) ty' = Some (ERROR_INDEX_EXISTS, db1) \<and>
     (\<exists>db2 t2. db_drop_index db1 (Some nm) (Some fd) = (SUCCESS, db2) \<and>
        named_table db2 (Some nm) = Some t2 \<and>
        map_option live_indexes (t_index_manager t2) = map_option live_indexes (t_index_manager t))"
proof -
  have "db_store_inv nm (gc, db)"
    using reachable_state_ok [OF assms(1)] assms(2) by (simp add: db_store_inv_def)
  then have "manager_ok (t_index_manager t)" using assms(2) by (auto elim: db_store_invE simp: table_ok_def)
  from db_create_index_cases [OF assms(7,2) this] obtain i j m x m' where
    c: "db_get_table db (Some nm) = Some i" "db_tables db ! i = t" "find_field t fd = Some j"
    "t_index_manager t = Some m" "simple_manager_ok m" "find_index_in_manager (Some m) nm fd = None"
    "create_simple_index ok nm fd ty = Some x" "add_index_to_manager (shift_alloc 1 ok) m x = (SUCCESS, m')"
    "simple_manager_ok m'"
    "db1 = update_simple_statistics STAT_INDEXES_CREATED (put_table db i (t\<lparr>t_index_manager := Some m'\<rparr>))" .
  let ?t1 = "t\<lparr>t_index_manager := Some m'\<rparr>"
  have i: "i < length (db_tables db)" using db_get_table_SomeD [OF c(1)] by simp
  have g: "db_get_table (put_table db i s) (Some nm) = Some i" if "t_name s = t_name t" for s
    using db_get_table_frame [of db "put_table db i s" i s "Some nm"] c(1,2) that
    by (simp add: same_frame_def put_table_def)
  have g1: "db_get_table db1 (Some nm) = Some i" "db_tables db1 ! i = ?t1"
    using c(10) g [of ?t1] i by simp_all
  have x: "index_named nm fd x"
    using c(7) assms(3-6) by (auto simp: create_simple_index_def index_named_def MAX_TABLE_NAME_def
        MAX_FIELD_LEN_def split: if_splits)
  have "find_index_in_manager (Some m') nm fd = Some x"
    using sm.get_after_add [OF c(5), of "shift_alloc 1 ok" x m' nm fd] c(6,8) x by simp
  moreover have "find_field ?t1 fd = Some j" using c(3) by (simp add: find_field_def)
  ultimately have again: "db_create_index ok' db1 (Some nm) (Some fd) ty' = Some (ERROR_INDEX_EXISTS, db1)"
    using g1 by (simp add: db_create_index_def)
  from sm.remove_after_add [OF c(5,6) x, of "shift_alloc 1 ok" m'] c(8) obtain m2 where
    m2: "simple_remove m' nm fd = (SUCCESS, m2)" "live_indexes m2 = live_indexes m" by auto
  then have r: "remove_index_from_manager (Some m') nm fd = (SUCCESS, Some m2)"
    by (auto simp: simple_remove_def remove_index_from_manager_def split: option.splits if_splits)
  let ?t2 = "?t1\<lparr>t_index_manager := Some m2\<rparr>"
  let ?db2 = "update_simple_statistics STAT_INDEXES_DROPPED (put_table db1 i ?t2)"
  have "db_drop_index db1 (Some nm) (Some fd) = (SUCCESS, ?db2)"
    using g1 r by (simp add: db_drop_index_def)
  moreover have "named_table ?db2 (Some nm) = Some ?t2"
    using named_table_put [OF g1(1), of ?t2] g1(2) by (simp add: named_table_def)
  ultimately show ?thesis using again m2(2) c(4) by auto
qed

lemma index_create_drop_example:
  "\<exists>db1 db2. db_create_index all_ok sample_db (Some ''users'') (Some ''id'') INDEX_HASH = Some (SUCCESS, db1) \<and>
     db_create_index all_ok db1 (Some ''users'') (Some ''id'') INDEX_HASH = Some (ERROR_INDEX_EXISTS, db1) \<and>
     db_drop_index db1 (Some ''users'') (Some ''id'') = (SUCCESS, db2)"
proof -
  have f: "find_field sample_table ''id'' = Some 0"
    by (simp add: find_field_def sample_table_fields numeral_2_eq_2)
  have "\<exists>db1. db_create_index all_ok sample_db (Some ''users'') (Some ''id'') INDEX_HASH = Some (SUCCESS, db1)"
    by (simp add: db_create_index_def sample_get_table sample_db_tables f)
      (simp add: sample_table_def new_table_def create_simple_index_manager_def shift_alloc_def
        find_index_in_manager_def create_simple_index_def add_index_to_manager_def Let_def MAX_INDEXES_PER_TABLE_def)
  then obtain db1 where c: "db_create_index all_ok sample_db (Some ''users'') (Some ''id'') INDEX_HASH = Some (SUCCESS, db1)" ..
  from index_create_drop [OF reachable_sample sample_named_table _ _ _ _ c] c show ?thesis
    by (force simp: MAX_TABLE_NAME_def MAX_FIELD_LEN_def)
qed

end
