(* ===== verification/Lx_Strings.thy ===== *)
theory Lx_Strings
  imports Lx_Prelude
begin

text \<open>
  The string utilities of \<open>src/src/utils.c\<close>. A \<open>char *\<close> argument that the code compares with NULL
  is an option; functions that work in place return the new contents. Where a loop may not end the
  definition is a \<open>partial_function (option)\<close> and \<open>None\<close> is a call that never returns.
\<close>

section \<open>Trimming\<close>

fun last_nonspace :: "string \<Rightarrow> nat \<Rightarrow> nat" where
  \<comment> \<open>\<open>while (end > str && isspace(*end)) end--;\<close>\<close>
  "last_nonspace s 0 = 0"
| "last_nonspace s (Suc e) = (if isspace (s ! Suc e) then last_nonspace s e else Suc e)"

definition trim_whitespace :: "string option \<Rightarrow> string option" where
  "trim_whitespace sp = (case sp of None \<Rightarrow> None
     | Some str0 \<Rightarrow>
         let str = dropWhile isspace str0 in
         if str = [] then Some str
         else Some (take (last_nonspace str (length str - 1) + 1) str))"

fun chop_spaces :: "string \<Rightarrow> nat \<Rightarrow> nat" where
  \<comment> \<open>\<open>while (len > 0 && isspace(str[len - 1])) str[--len] = 0;\<close>\<close>
  "chop_spaces s 0 = 0"
| "chop_spaces s (Suc n) = (if isspace (s ! n) then chop_spaces s n else Suc n)"

definition trim_string :: "string option \<Rightarrow> string option" where
  "trim_string sp = (case sp of None \<Rightarrow> None
     | Some str \<Rightarrow> Some (dropWhile isspace (take (chop_spaces str (length str)) str)))"

definition trim :: "string \<Rightarrow> string" where
  \<comment> \<open>the specification: no white space at either end\<close>
  "trim s = rev (dropWhile isspace (rev (dropWhile isspace s)))"

lemma chop_spaces_le: "chop_spaces s n \<le> n"
  by (induction s n rule: chop_spaces.induct) auto

lemma take_chop_spaces: "n \<le> length s \<Longrightarrow> take (chop_spaces s n) s = rev (dropWhile isspace (rev (take n s)))"
  by (induction s n rule: chop_spaces.induct) (auto simp: take_Suc_conv_app_nth)

lemma last_nonspace_chop: "\<not> isspace (s ! 0) \<Longrightarrow> Suc (last_nonspace s n) = chop_spaces s (Suc n)"
  by (induction n) auto

lemma dropWhile_rev_commute:
  "dropWhile P (rev (dropWhile P (rev s))) = rev (dropWhile P (rev (dropWhile P s)))"
proof (cases "\<forall>c \<in> set s. P c")
  case True
  then have "dropWhile P s = []" "dropWhile P (rev s) = []" by (simp_all add: dropWhile_eq_Nil_conv)
  then show ?thesis by (simp only: rev.simps dropWhile.simps)
next
  case False
  then obtain c where c: "c \<in> set s" "\<not> P c" by blast
  then have "dropWhile P s \<noteq> []" by (auto simp: dropWhile_eq_Nil_conv)
  have "s = takeWhile P s @ dropWhile P s" by simp
  then have "rev s = rev (dropWhile P s) @ rev (takeWhile P s)" by (metis rev_append)
  moreover have "\<exists>x \<in> set (rev (dropWhile P s)). \<not> P x"
    using \<open>dropWhile P s \<noteq> []\<close> hd_dropWhile [OF \<open>dropWhile P s \<noteq> []\<close>] by (metis hd_in_set set_rev)
  ultimately have "dropWhile P (rev s) = dropWhile P (rev (dropWhile P s)) @ rev (takeWhile P s)"
    by (metis dropWhile_append1)
  then have e: "rev (dropWhile P (rev s)) = takeWhile P s @ rev (dropWhile P (rev (dropWhile P s)))" by simp
  have "dropWhile P (rev (dropWhile P (rev (dropWhile P s)))) = rev (dropWhile P (rev (dropWhile P s)))"
  proof (cases "rev (dropWhile P (rev (dropWhile P s)))")
    case (Cons x xs)
    have "\<exists>ys. dropWhile P s = rev (dropWhile P (rev (dropWhile P s))) @ ys"
      by (metis rev_append rev_rev_ident takeWhile_dropWhile_id)
    with Cons have "hd (dropWhile P s) = x" by (metis append_Cons list.sel(1))
    with hd_dropWhile [OF \<open>dropWhile P s \<noteq> []\<close>] Cons show ?thesis by simp
  next
    case Nil
    show ?thesis unfolding Nil by (rule dropWhile.simps)
  qed
  with e show ?thesis by (metis dropWhile_append2 set_takeWhileD)
qed

lemma trim_whitespace_trim: "trim_whitespace sp = map_option trim sp"
proof (cases sp)
  case (Some s)
  show ?thesis
  proof (cases "dropWhile isspace s")
    case Nil
    show ?thesis
      by (simp add: trim_whitespace_def trim_def Some Nil del: dropWhile_eq_Nil_conv)
  next
    case (Cons c cs)
    then have "\<not> isspace ((c # cs) ! 0)" using hd_dropWhile [of isspace s] by simp
    from last_nonspace_chop [OF this, of "length cs"] take_chop_spaces [of "Suc (length cs)" "c # cs"] Cons Some
    show ?thesis by (simp add: trim_whitespace_def trim_def)
  qed
qed (simp add: trim_whitespace_def)

lemma trim_string_trim: "trim_string sp = map_option trim sp"
  by (cases sp) (simp_all add: trim_string_def trim_def take_chop_spaces dropWhile_rev_commute)

lemma trim_ends: "trim s = [] \<or> \<not> isspace (hd (trim s)) \<and> \<not> isspace (last (trim s))"
proof (cases "trim s = []")
  case False
  then have "dropWhile isspace (rev (dropWhile isspace s)) \<noteq> []" by (simp add: trim_def)
  from hd_dropWhile [OF this] False have l: "\<not> isspace (last (trim s))"
    by (simp add: trim_def last_rev)
  have t: "trim s = dropWhile isspace (rev (dropWhile isspace (rev s)))"
    by (simp add: trim_def dropWhile_rev_commute)
  with False have "dropWhile isspace (rev (dropWhile isspace (rev s))) \<noteq> []" by simp
  from hd_dropWhile [OF this] l t show ?thesis by simp
qed simp

lemma trim_id: "s = [] \<or> \<not> isspace (hd s) \<and> \<not> isspace (last s) \<Longrightarrow> trim s = s"
proof (cases s)
  case (Cons c cs)
  assume "s = [] \<or> \<not> isspace (hd s) \<and> \<not> isspace (last s)"
  with Cons have "\<not> isspace c" "\<not> isspace (last s)" by auto
  then have "dropWhile isspace s = s" "dropWhile isspace (rev s) = rev s"
    using Cons by simp (metis Cons dropWhile_eq_self_iff hd_rev \<open>\<not> isspace (last s)\<close>)
  then show ?thesis by (simp add: trim_def)
qed (simp add: trim_def)

lemma trim_space_left: "isspace c \<Longrightarrow> trim (c # s) = trim s"
  by (simp add: trim_def)

lemma trim_space_right: "isspace c \<Longrightarrow> trim (s @ [c]) = trim s"
  unfolding trim_def dropWhile_rev_commute [symmetric] by simp

lemma trim_trim [simp]: "trim (trim s) = trim s"
  by (rule trim_id) (rule trim_ends)

lemma trim_infix: "\<exists>pre post. s = pre @ trim s @ post \<and> list_all isspace pre \<and> list_all isspace post"
proof -
  let ?d = "dropWhile isspace s"
  have "s = takeWhile isspace s @ ?d" by simp
  moreover have "?d = trim s @ rev (takeWhile isspace (rev ?d))"
    unfolding trim_def by (metis rev_append rev_rev_ident takeWhile_dropWhile_id)
  moreover have "list_all isspace (takeWhile isspace xs)" for xs
    by (induction xs) auto
  ultimately show ?thesis by (metis list_all_rev)
qed

section \<open>Case\<close>

definition to_lower_case :: "string option \<Rightarrow> string option" where
  "to_lower_case sp = map_option (map tolower) sp"

definition to_upper_case :: "string option \<Rightarrow> string option" where
  "to_upper_case sp = map_option (map toupper) sp"

section \<open>Prefixes, suffixes, substrings\<close>

definition string_starts_with :: "string option \<Rightarrow> string option \<Rightarrow> bool" where
  "string_starts_with sp pp = (case (sp, pp) of
     (Some str, Some prefix) \<Rightarrow>
       if length str < length prefix then False else take (length prefix) str = take (length prefix) prefix
   | _ \<Rightarrow> False)"

definition string_ends_with :: "string option \<Rightarrow> string option \<Rightarrow> bool" where
  "string_ends_with sp pp = (case (sp, pp) of
     (Some str, Some suffix) \<Rightarrow>
       if length str < length suffix then False
       else strcmp (drop (length str - length suffix) str) suffix = 0
   | _ \<Rightarrow> False)"

definition string_contains :: "string option \<Rightarrow> string option \<Rightarrow> bool" where
  "string_contains sp pp = (case (sp, pp) of
     (Some str, Some substring) \<Rightarrow> strstr str substring \<noteq> None
   | _ \<Rightarrow> False)"

lemma string_affix_spec:
  "string_starts_with (Some s) (Some p) \<longleftrightarrow> (\<exists>t. s = p @ t)"
  "string_ends_with (Some s) (Some p) \<longleftrightarrow> (\<exists>t. s = t @ p)"
  "string_contains (Some s) (Some p) \<longleftrightarrow> (\<exists>pre post. s = pre @ p @ post)"
proof -
  show "string_starts_with (Some s) (Some p) \<longleftrightarrow> (\<exists>t. s = p @ t)"
    by (auto simp: string_starts_with_def) (metis append_take_drop_id)
  have "drop (length s - length p) s = p \<Longrightarrow> \<exists>t. s = t @ p" by (metis append_take_drop_id)
  then show "string_ends_with (Some s) (Some p) \<longleftrightarrow> (\<exists>t. s = t @ p)"
    by (auto simp: string_ends_with_def)
  show "string_contains (Some s) (Some p) \<longleftrightarrow> (\<exists>pre post. s = pre @ p @ post)"
    by (simp add: string_contains_def strstr_None_iff)
qed

section \<open>Replacing\<close>

partial_function (option) replace_count ::
  "string \<Rightarrow> string \<Rightarrow> nat \<Rightarrow> nat \<Rightarrow> (nat \<times> nat) option" where
  \<comment> \<open>the counting loop: the final \<open>i\<close> and \<open>count\<close>; an empty \<open>old\<close> leaves \<open>i\<close> where it is\<close>
  [code]: "replace_count str old i cnt =
     (if length str \<le> i then Some (i, cnt)
      else if strstr (drop i str) old = Some 0 then replace_count str old (i + length old) (cnt + 1)
      else replace_count str old (i + 1) cnt)"

partial_function (option) replace_write :: "string \<Rightarrow> string \<Rightarrow> string \<Rightarrow> string \<Rightarrow> string option" where
  \<comment> \<open>the writing loop: \<open>out\<close> is what \<open>result\<close> holds before index \<open>i\<close>\<close>
  [code]: "replace_write str old new out =
     (if str = [] then Some out
      else if strstr str old = Some 0 then replace_write (drop (length old) str) old new (out @ new)
      else replace_write (tl str) old new (out @ [hd str]))"

definition replace_capacity :: "string \<Rightarrow> string \<Rightarrow> string \<Rightarrow> nat option" where
  \<comment> \<open>the number of bytes allocated for the result, in 32-bit \<open>size_t\<close> arithmetic\<close>
  "replace_capacity str old new = do {
     (i, cnt) \<leftarrow> replace_count str old 0 0;
     Some (size_of_int (int i + int cnt * (int (length new) - int (length old)) + 1)) }"

definition string_replace ::
  "alloc \<Rightarrow> string option \<Rightarrow> string option \<Rightarrow> string option \<Rightarrow> string option option" where
  \<comment> \<open>the outer \<open>None\<close>: the call does not return; the inner: NULL\<close>
  "string_replace ok sp op np = (case (sp, op, np) of
     (Some str, Some old, Some new) \<Rightarrow> do {
       cap \<leftarrow> replace_capacity str old new;
       if \<not> ok 0 then Some None
       else do { r \<leftarrow> replace_write str old new []; Some (Some r) } }
   | _ \<Rightarrow> Some None)"

function replace_all :: "string \<Rightarrow> string \<Rightarrow> string \<Rightarrow> string" where
  \<comment> \<open>the specification: occurrences from the left, none inside another\<close>
  "replace_all old new [] = []"
| "replace_all old new (c # s) =
     (if old \<noteq> [] \<and> starts_with old (c # s) then new @ replace_all old new (drop (length old) (c # s))
      else c # replace_all old new s)"
  by pat_completeness auto
termination
  by (relation "measure (\<lambda>(old, new, s). length s)") auto

fun occurrences :: "string \<Rightarrow> string \<Rightarrow> nat" where
  \<comment> \<open>how many of them there are\<close>
  "occurrences old [] = 0"
| "occurrences old (c # s) =
     (if old \<noteq> [] \<and> starts_with old (c # s) then Suc (occurrences old (drop (length old - 1) s))
      else occurrences old s)"

lemma replace_count_eq:
  assumes "old \<noteq> []" and "i \<le> length str"
  shows "replace_count str old i cnt = Some (length str, cnt + occurrences old (drop i str))"
  using assms(2)
proof (induction "length str - i" arbitrary: i cnt rule: less_induct)
  case less
  show ?case
  proof (cases "i < length str")
    case False
    with less.prems show ?thesis by (subst replace_count.simps) simp
  next
    case True
    then have d: "drop i str = str ! i # drop (Suc i) str" by (simp add: Cons_nth_drop_Suc)
    show ?thesis
    proof (cases "starts_with old (drop i str)")
      case True
      with starts_with_length [OF True] assms(1) less(1) [of "i + length old" "cnt + 1"] \<open>i < length str\<close>
      show ?thesis
        by (subst replace_count.simps) (cases old; simp add: strstr_zero d add.commute)
    next
      case False
      with less(1) [of "i + 1" cnt] \<open>i < length str\<close> show ?thesis
        by (subst replace_count.simps) (simp add: strstr_zero d)
    qed
  qed
qed

lemma replace_write_eq:
  assumes "old \<noteq> []"
  shows "replace_write str old new out = Some (out @ replace_all old new str)"
proof (induction "length str" arbitrary: str out rule: less_induct)
  case less
  show ?case
  proof (cases str)
    case Nil
    then show ?thesis by (subst replace_write.simps) simp
  next
    case (Cons c s)
    with assms less [of "drop (length old) str"] less [of s] show ?thesis
      by (subst replace_write.simps) (simp add: strstr_zero)
  qed
qed

lemma length_replace_all:
  "old \<noteq> [] \<Longrightarrow> int (length (replace_all old new s)) =
     int (length s) + int (occurrences old s) * (int (length new) - int (length old))"
proof (induction old new s rule: replace_all.induct)
  case (2 old new c s)
  then show ?case
    using starts_with_length [of old "c # s"] by (cases old) (auto simp: algebra_simps)
qed simp

lemma replace_all_char: "replace_all [c] new s = concat (map (\<lambda>x. if x = c then new else [x]) s)"
  by (induction s) (auto simp: starts_with_def)

lemma replace_count_returns:
  assumes "replace_count str old i cnt = Some r"
  shows "old \<noteq> [] \<or> length str \<le> i"
proof (rule replace_count.raw_induct [where ?P = "\<lambda>str old i cnt r. old \<noteq> [] \<or> length str \<le> i", OF _ assms])
  fix rc :: "string \<Rightarrow> string \<Rightarrow> nat \<Rightarrow> nat \<Rightarrow> (nat \<times> nat) option" and str old :: string and i cnt r
  assume ih: "\<And>str old i cnt r. rc str old i cnt = Some r \<Longrightarrow> old \<noteq> [] \<or> length str \<le> i"
    and body: "(if length str \<le> i then Some (i, cnt)
      else if strstr (drop i str) old = Some 0 then rc str old (i + length old) (cnt + 1)
      else rc str old (i + 1) cnt) = Some r"
  show "old \<noteq> [] \<or> length str \<le> i"
  proof (rule ccontr)
    assume "\<not> (old \<noteq> [] \<or> length str \<le> i)"
    then have e: "old = []" "\<not> length str \<le> i" by auto
    with body have "rc str [] i (cnt + 1) = Some r" by (simp add: strstr_zero)
    from ih [OF this] e show False by simp
  qed
qed

lemma replace_count_empty: "str \<noteq> [] \<Longrightarrow> replace_count str [] 0 cnt = None"
  using replace_count_returns [of str "[]" 0 cnt] by (cases "replace_count str [] 0 cnt") auto

text \<open>C27: \<open>string_replace\<close> returns exactly when the text searched for is not empty (or the string is):
  an empty one never advances the counting loop. When it returns and memory suffices, the result is
  the replacement of every occurrence from the left, and the allocation fits it and its NUL exactly,
  provided the result is shorter than the address space.\<close>

theorem string_replace_spec:
  "(string_replace ok (Some s) (Some old) (Some new) = None \<longleftrightarrow> old = [] \<and> s \<noteq> []) \<and>
   (old \<noteq> [] \<and> ok 0 \<longrightarrow>
      string_replace ok (Some s) (Some old) (Some new) = Some (Some (replace_all old new s))) \<and>
   (old \<noteq> [] \<and> length (replace_all old new s) + 1 < 2 ^ 32 \<longrightarrow>
      replace_capacity s old new = Some (length (replace_all old new s) + 1))"
proof (cases "old = []")
  case True
  show ?thesis
  proof (cases "s = []")
    case True
    have "replace_count [] old 0 0 = Some (0, 0)" by (subst replace_count.simps) simp
    moreover have "replace_write [] old new [] = Some []" by (subst replace_write.simps) simp
    ultimately show ?thesis using True \<open>old = []\<close> by (simp add: string_replace_def replace_capacity_def)
  next
    case False
    with True show ?thesis by (simp add: string_replace_def replace_capacity_def replace_count_empty)
  qed
next
  case False
  have c: "replace_count s old 0 0 = Some (length s, occurrences old s)"
    using replace_count_eq [OF False, of 0 s 0] by simp
  then have "replace_capacity s old new = Some (size_of_int (int (length (replace_all old new s)) + 1))"
    using length_replace_all [OF False, of new s] by (simp add: replace_capacity_def)
  with replace_write_eq [OF False, of s new "[]"] False c show ?thesis
    by (auto simp: string_replace_def)
qed

lemma string_replace_spec_witness:
  "string_replace (\<lambda>_. True) (Some ''10:30:00'') (Some '':'') (Some ''-'') = Some (Some ''10-30-00'') \<and>
   replace_capacity ''10:30:00'' '':'' ''-'' = Some 9 \<and>
   string_replace (\<lambda>_. True) (Some ''x'') (Some []) (Some ''-'') = None"
  using string_replace_spec [of "\<lambda>_. True" "''10:30:00''" "'':''" "''-''"]
    string_replace_spec [of "\<lambda>_. True" "''x''" "[]" "''-''"]
  by (simp add: replace_all_char del: replace_all.simps)

section \<open>Splitting and joining\<close>

definition string_split ::
  "alloc \<Rightarrow> string option \<Rightarrow> string option \<Rightarrow> string list option \<times> nat" where
  \<comment> \<open>the array (NULL: \<open>None\<close>) and \<open>*count\<close>; the allocations after the array are unchecked\<close>
  "string_split ok sp dp = (case (sp, dp) of
     (Some str, Some delimiter) \<Rightarrow>
       if \<not> ok 0 then (None, 0)
       else
         let cnt = length (strtok delimiter str []) in
         if cnt = 0 then (None, 0)
         else if \<not> ok 1 then (None, cnt)
         else (Some (map trim (strtok delimiter str [])), cnt)
   | _ \<Rightarrow> (None, 0))"

fun join_loop :: "string list \<Rightarrow> string \<Rightarrow> string" where
  \<comment> \<open>the appending loop: the delimiter follows every string but the last\<close>
  "join_loop [] delimiter = []"
| "join_loop [s] delimiter = s"
| "join_loop (s # t # rest) delimiter = s @ delimiter @ join_loop (t # rest) delimiter"

definition join_capacity :: "string list \<Rightarrow> string \<Rightarrow> nat" where
  "join_capacity strings delimiter =
     size_of_int (int (foldl (\<lambda>n s. n + length s + length delimiter) 0 strings) + 1)"

definition join_strings :: "alloc \<Rightarrow> string list option \<Rightarrow> int \<Rightarrow> string \<Rightarrow> string option" where
  "join_strings ok sp cnt delimiter = (case sp of
     None \<Rightarrow> if ok 0 then Some [] else None
   | Some strings \<Rightarrow>
       if cnt \<le> 0 then (if ok 0 then Some [] else None)
       else if \<not> ok 0 then None else Some (join_loop (take (nat cnt) strings) delimiter))"

definition token_ok :: "string \<Rightarrow> string \<Rightarrow> bool" where
  \<comment> \<open>not empty, no delimiter inside, no white space at the ends\<close>
  "token_ok delims t \<longleftrightarrow> t \<noteq> [] \<and> set t \<inter> set delims = {} \<and> \<not> isspace (hd t) \<and> \<not> isspace (last t)"

lemma strtok_prefix:
  "set t \<inter> set ds = {} \<Longrightarrow> strtok ds (t @ s) acc = strtok ds s (rev t @ acc)"
  by (induction t arbitrary: acc) auto

lemma strtok_delims: "set d \<subseteq> set ds \<Longrightarrow> strtok ds (d @ s) [] = strtok ds s []"
  by (induction d) auto

lemma strtok_join:
  assumes "list_all (token_ok d) ts" and "d \<noteq> []"
  shows "strtok d (join_loop ts d) [] = ts"
  using assms
proof (induction ts d rule: join_loop.induct)
  case (2 s d)
  then have "strtok d (s @ []) [] = [s]"
    using strtok_prefix [of s d "[]" "[]"] by (simp add: token_ok_def)
  then show ?case by simp
next
  case (3 s t rest d)
  obtain x d' where d: "d = x # d'" using 3(3) by (cases d) auto
  have "strtok d (s @ d @ join_loop (t # rest) d) [] = strtok d (d @ join_loop (t # rest) d) (rev s)"
    using strtok_prefix [of s d "d @ join_loop (t # rest) d" "[]"] 3(2) by (simp add: token_ok_def)
  also have "\<dots> = s # strtok d (d' @ join_loop (t # rest) d) []"
    using 3(2) by (simp add: d token_ok_def)
  also have "\<dots> = s # strtok d (join_loop (t # rest) d) []"
    using strtok_delims [of d' d] by (simp add: d subset_insertI)
  finally show ?case using 3 by simp
qed simp

lemma length_join_loop: "length (join_loop ts d) \<le> foldl (\<lambda>n s. n + length s + length d) 0 ts"
proof -
  have acc: "foldl (\<lambda>n s. n + length s + length d) k ts = k + foldl (\<lambda>n s. n + length s + length d) 0 ts"
    for k d and ts :: "string list"
  proof (induction ts arbitrary: k)
    case (Cons t ts)
    from Cons [of "k + length t + length d"] Cons [of "length t + length d"] show ?case by simp
  qed simp
  show ?thesis
  proof (induction ts d rule: join_loop.induct)
    case (3 s t rest d)
    then show ?case
      using acc [of d "length s + length d + length t + length d" rest] acc [of d "length t + length d" rest]
      by simp
  qed simp_all
qed

text \<open>\<open>string_split\<close> gives back what \<open>join_strings\<close> joined, for tokens that are not empty, do not
  contain a character of the delimiter and have no white space at their ends; and the buffer of
  \<open>join_strings\<close> is large enough for every result whose length estimate fits \<open>size_t\<close>.\<close>

lemma split_join:
  assumes "list_all (token_ok d) ts" and "ts \<noteq> []" and "d \<noteq> []" and "ok 0" and "ok 1"
    and "foldl (\<lambda>n s. n + length s + length d) 0 ts + 1 < 2 ^ 32"
  shows "\<exists>s. join_strings ok (Some ts) (int (length ts)) d = Some s \<and>
     string_split ok (Some s) (Some d) = (Some ts, length ts) \<and> length s < join_capacity ts d"
proof -
  have "map trim ts = ts"
    using assms(1) by (induction ts) (auto simp: token_ok_def intro!: trim_id)
  moreover have "join_capacity ts d = foldl (\<lambda>n s. n + length s + length d) 0 ts + 1"
    using assms(6) by (simp add: join_capacity_def nat_add_distrib)
  ultimately show ?thesis
    using assms strtok_join [OF assms(1,3)] length_join_loop [of ts d]
    by (simp add: join_strings_def string_split_def)
qed

lemma split_join_example:
  "\<exists>s. join_strings (\<lambda>_. True) (Some [''a'', ''bc'']) 2 '', '' = Some s \<and>
     string_split (\<lambda>_. True) (Some s) (Some '', '') = (Some [''a'', ''bc''], Suc (Suc 0)) \<and>
     length s < join_capacity [''a'', ''bc''] '', ''"
  using split_join [of "'', ''" "[''a'', ''bc'']" "\<lambda>_. True"] by (simp add: token_ok_def isspace_def)

section \<open>File names\<close>

type_synonym malloc = "nat \<Rightarrow> bool"
  \<comment> \<open>whether an allocation of that many bytes succeeds\<close>

definition get_file_extension :: "alloc \<Rightarrow> string option \<Rightarrow> string option" where
  "get_file_extension ok fp = (case fp of None \<Rightarrow> None
     | Some filename \<Rightarrow>
         (case strrchr filename (CHR ''.'') of None \<Rightarrow> None
          | Some dot \<Rightarrow> if dot = 0 then None
              else if ok 0 then Some (drop (dot + 1) filename) else None))"

definition last_slash :: "string \<Rightarrow> nat option" where
  "last_slash filename = (case strrchr filename (CHR ''/'') of
     Some k \<Rightarrow> Some k | None \<Rightarrow> strrchr filename (CHR 0x5C))"

definition stem_bytes :: "string \<Rightarrow> nat" where
  \<comment> \<open>the size asked of \<open>malloc\<close> when there is a dot and a slash: \<open>len + 1\<close>, \<open>len = dot - slash - 1\<close>\<close>
  "stem_bytes filename = (case (strrchr filename (CHR ''.''), last_slash filename) of
     (Some dot, Some slash) \<Rightarrow> size_of_int (int dot - int slash)
   | (Some dot, None) \<Rightarrow> size_of_int (int dot + 1)
   | (None, _) \<Rightarrow> length filename + 1)"

definition get_filename_without_extension :: "malloc \<Rightarrow> string option \<Rightarrow> string option" where
  "get_filename_without_extension alloc fp = (case fp of None \<Rightarrow> None
     | Some filename \<Rightarrow>
         if \<not> alloc (stem_bytes filename) then None
         else (case (strrchr filename (CHR ''.''), last_slash filename) of
             (None, _) \<Rightarrow> Some filename
           | (Some dot, Some slash) \<Rightarrow>
               Some (take (size_of_int (int dot - int slash - 1)) (drop (slash + 1) filename))
           | (Some dot, None) \<Rightarrow> Some (take dot filename)))"

section \<open>Conversions\<close>

definition is_integer :: "string option \<Rightarrow> bool" where
  "is_integer sp = (case sp of None \<Rightarrow> False
     | Some str \<Rightarrow> if str = [] then False else snd (strtol str) = [])"

definition is_float :: "(string \<Rightarrow> 'd \<times> string) \<Rightarrow> string option \<Rightarrow> bool" where
  \<comment> \<open>\<open>strtod\<close>: the value and the text at \<open>endptr\<close>\<close>
  "is_float strtod sp = (case sp of None \<Rightarrow> False
     | Some str \<Rightarrow> if str = [] then False else snd (strtod str) = [])"

definition is_boolean :: "string option \<Rightarrow> bool" where
  "is_boolean sp = (case sp of None \<Rightarrow> False
     | Some str \<Rightarrow> map tolower str \<in> {''true'', ''false'', ''1'', ''0'', ''yes'', ''no''})"

definition is_date :: "string option \<Rightarrow> bool" where
  "is_date sp = (case sp of None \<Rightarrow> False
     | Some str \<Rightarrow>
         if length str \<noteq> 10 then False
         else if str ! 4 \<noteq> CHR ''-'' \<or> str ! 7 \<noteq> CHR ''-'' then False
         else list_all (\<lambda>i. i = 4 \<or> i = 7 \<or> isdigit (str ! i)) [0..<10])"

definition string_to_int :: "string option \<Rightarrow> bool \<times> int option" where
  \<comment> \<open>the return value, and \<open>*result\<close> if it is written\<close>
  "string_to_int sp = (case sp of None \<Rightarrow> (False, None)
     | Some str \<Rightarrow>
         let (value, endptr) = strtol str in
         if endptr \<noteq> [] then (False, None) else (True, Some value))"

definition string_to_double :: "(string \<Rightarrow> 'd \<times> string) \<Rightarrow> string option \<Rightarrow> bool \<times> 'd option" where
  "string_to_double strtod sp = (case sp of None \<Rightarrow> (False, None)
     | Some str \<Rightarrow>
         let (value, endptr) = strtod str in
         if endptr \<noteq> [] then (False, None) else (True, Some value))"

definition string_to_bool :: "string option \<Rightarrow> bool" where
  "string_to_bool sp = (case sp of None \<Rightarrow> False
     | Some str \<Rightarrow> map tolower str \<in> {''true'', ''1'', ''yes''})"

definition serialize_int :: "alloc \<Rightarrow> int \<Rightarrow> string option" where
  \<comment> \<open>\<open>snprintf(buffer, 16, ...)\<close>\<close>
  "serialize_int ok value = (if \<not> ok 0 then None else Some (take 15 (show_int value)))"

definition serialize_bool :: "alloc \<Rightarrow> int \<Rightarrow> string option" where
  "serialize_bool ok value =
     (if \<not> ok 0 then None else Some (if value \<noteq> 0 then ''true'' else ''false''))"

definition deserialize_int :: "string option \<Rightarrow> int" where
  "deserialize_int sp = (case sp of None \<Rightarrow> 0 | Some str \<Rightarrow> atoi str)"

definition deserialize_bool :: "string option \<Rightarrow> int" where
  "deserialize_bool sp = (case sp of None \<Rightarrow> 0
     | Some str \<Rightarrow> if strcmp str ''true'' = 0 \<or> strcmp str ''1'' = 0 then 1 else 0)"

section \<open>Identifiers\<close>

definition reserved_keywords :: "string list" where
  "reserved_keywords = [''SELECT'', ''INSERT'', ''UPDATE'', ''DELETE'', ''CREATE'', ''DROP'',
     ''ALTER'', ''TABLE'', ''INDEX'', ''DATABASE'', ''FROM'', ''WHERE'',
     ''AND'', ''OR'', ''NOT'', ''NULL'', ''TRUE'', ''FALSE'', ''INT'',
     ''FLOAT'', ''STRING'', ''BOOL'', ''DATE'', ''PRIMARY'', ''KEY'',
     ''FOREIGN'', ''REFERENCES'', ''UNIQUE'', ''CHECK'', ''DEFAULT'']"

definition MAX_TABLE_NAME_LEN :: nat where "MAX_TABLE_NAME_LEN = 64"

definition validate_table_name :: "string option \<Rightarrow> bool" where
  "validate_table_name np = (case np of None \<Rightarrow> False
     | Some name \<Rightarrow>
         if length name = 0 then False
         else if MAX_TABLE_NAME_LEN < length name then False
         else if \<not> isalpha (name ! 0) \<and> name ! 0 \<noteq> CHR ''_'' then False
         else if list_ex (\<lambda>i. \<not> isalnum (name ! i) \<and> name ! i \<noteq> CHR ''_'') [1..<length name] then False
         else \<not> list_ex (\<lambda>k. strcmp (map toupper name) k = 0) reserved_keywords)"

definition validate_column_name :: "string option \<Rightarrow> bool" where
  "validate_column_name name = validate_table_name name"

definition validate_database_name :: "string option \<Rightarrow> bool" where
  "validate_database_name name = validate_table_name name"

definition validate_sql_identifier :: "string option \<Rightarrow> bool" where
  "validate_sql_identifier identifier = validate_table_name identifier"

section \<open>Hashing and comparison\<close>

definition schar :: "char \<Rightarrow> int" where
  \<comment> \<open>a plain \<open>char\<close>, which is signed on the target\<close>
  "schar c = (let n = (of_char c :: nat) in if n < 128 then int n else int n - 256)"

fun hash_loop :: "32 word \<Rightarrow> string \<Rightarrow> 32 word" where
  "hash_loop hash [] = hash"
| "hash_loop hash (c # str) = hash_loop ((push_bit 5 hash + hash) + word_of_int (schar c)) str"

definition hash_string :: "string option \<Rightarrow> 32 word" where
  "hash_string sp = (case sp of None \<Rightarrow> 0 | Some str \<Rightarrow> hash_loop 5381 str)"

definition compare_strings :: "string option \<Rightarrow> string option \<Rightarrow> int" where
  "compare_strings ap bp = (case (ap, bp) of
     (None, None) \<Rightarrow> 0 | (None, Some b) \<Rightarrow> -1 | (Some a, None) \<Rightarrow> 1 | (Some a, Some b) \<Rightarrow> strcmp a b)"

definition compare_ints :: "int \<Rightarrow> int \<Rightarrow> int" where
  "compare_ints int_a int_b = (if int_a < int_b then -1 else if int_b < int_a then 1 else 0)"

definition compare_doubles :: "('d \<Rightarrow> 'd \<Rightarrow> bool) \<Rightarrow> 'd \<Rightarrow> 'd \<Rightarrow> int" where
  \<comment> \<open>\<open>lt\<close>: the comparison \<open><\<close> of \<open>double\<close>\<close>
  "compare_doubles lt a b = (if lt a b then -1 else if lt b a then 1 else 0)"

section \<open>Properties of the conversions\<close>

interpretation int_text: codec "\<lambda>v. serialize_int ok v" deserialize_int "\<lambda>v. ok 0 \<and> c_int v"
proof
  fix v assume v: "ok 0 \<and> c_int v"
  then have "take 15 (show_int v) = show_int v" using length_show_int [of v] by simp
  with v show "deserialize_int (serialize_int ok v) = v" by (simp add: serialize_int_def deserialize_int_def)
qed

interpretation bool_text: codec "\<lambda>v. serialize_bool ok v" deserialize_bool "\<lambda>v. ok 0 \<and> v \<in> {0, 1}"
  by unfold_locales (auto simp: serialize_bool_def deserialize_bool_def)

text \<open>Deserializing a serialized \<open>int\<close> gives it back, for every value of the type: the 16-byte
  buffer cuts none; serializing is therefore injective.\<close>

lemma int_text_roundtrip:
  assumes "ok 0" and "c_int a" and "c_int b"
  shows "deserialize_int (serialize_int ok a) = a \<and> (serialize_int ok a = serialize_int ok b \<longleftrightarrow> a = b)"
  using int_text.dec_enc [of ok a] int_text.enc_inj [of ok a b] assms by simp

lemma int_text_roundtrip_example:
  "deserialize_int (serialize_int (\<lambda>_. True) (- 2147483648)) = - 2147483648 \<and>
   (serialize_int (\<lambda>_. True) (- 2147483648) = serialize_int (\<lambda>_. True) 7 \<longleftrightarrow> (- 2147483648 :: int) = 7)"
  by (rule int_text_roundtrip) (simp_all add: c_int_def int_min_def int_max_def)

text \<open>Both trimming functions of \<open>utils.c\<close> compute the same string: the argument without white
  space at either end, although one moves a pointer and cuts and the other cuts and moves bytes.\<close>

lemma trim_equivalence:
  "trim_whitespace sp = trim_string sp \<and> trim_whitespace sp = map_option trim sp \<and>
   trim_whitespace (trim_whitespace sp) = trim_whitespace sp \<and>
   (\<exists>pre post. s = pre @ trim s @ post \<and> list_all isspace pre \<and> list_all isspace post)"
  using trim_infix [of s] by (simp add: trim_whitespace_trim trim_string_trim option.map_comp comp_def)

text \<open>\<open>string_to_int\<close> accepts what \<open>is_integer\<close> accepts, and the empty string too, for which it
  reports success with the value 0.\<close>

lemma string_to_int_accepts:
  "(fst (string_to_int (Some s)) \<longleftrightarrow> is_integer (Some s) \<or> s = []) \<and>
   string_to_int (Some []) = (True, Some 0) \<and> \<not> is_integer (Some []) \<and>
   (c_int i \<longrightarrow> string_to_int (Some (show_int i)) = (True, Some i))"
proof -
  have "strtol [] = (0, [])" by (simp add: strtol_def strtol_sign_def)
  then show ?thesis
    using strtol_show_int [of i "[]"]
    by (auto simp: string_to_int_def is_integer_def split: prod.splits)
qed

lemma string_to_int_minus_12: "string_to_int (Some (show_int (- 12))) = (True, Some (- 12))"
  using string_to_int_accepts [of "[]" "- 12"] by (simp add: c_int_def int_min_def int_max_def)

definition djb2 :: "int \<Rightarrow> string \<Rightarrow> int" where
  \<comment> \<open>the hash without overflow\<close>
  "djb2 h s = foldl (\<lambda>h c. 33 * h + schar c) h s"

lemma hash_loop_djb2: "hash_loop (word_of_int h) s = word_of_int (djb2 h s)"
proof (induction s arbitrary: h)
  case (Cons c s)
  have "push_bit 5 (word_of_int h :: 32 word) + word_of_int h = word_of_int (33 * h)"
    by (simp add: push_bit_eq_mult algebra_simps)
  with Cons [of "33 * h + schar c"] show ?case by (simp add: djb2_def)
qed (simp add: djb2_def)

text \<open>The shift-and-add loop of \<open>hash_string\<close> computes the polynomial hash with factor 33 and
  start 5381 over signed characters, reduced modulo \<open>2 ^ 32\<close>, and the hash of an extended string
  continues from the hash of its prefix.\<close>

lemma hash_string_polynomial:
  "uint (hash_string (Some s)) = djb2 5381 s mod 2 ^ 32 \<and>
   hash_string (Some (s @ t)) = hash_loop (hash_string (Some s)) t"
proof -
  have "hash_loop h (a @ b) = hash_loop (hash_loop h a) b" for h a b
    by (induction a arbitrary: h) auto
  then show ?thesis
    using hash_loop_djb2 [of 5381 s] by (simp add: hash_string_def uint_word_of_int)
qed

text \<open>For a path \<open>dir/stem.ext\<close> the two file name functions return \<open>stem\<close> and \<open>ext\<close>, and the
  buffer for the stem has one byte more than it needs for the text; but when the last dot stands
  before the last slash the length is negative, and the size asked of \<open>malloc\<close> wraps to within the
  length of the path from \<open>2 ^ 32\<close>.\<close>

lemma file_name_parts:
  "(set stem \<inter> {CHR ''/'', CHR 0x5C} = {} \<and> set ext \<inter> {CHR ''/'', CHR 0x5C, CHR ''.''} = {} \<and>
    length stem + 1 < 2 ^ 32 \<longrightarrow>
      get_filename_without_extension (\<lambda>n. n = length stem + 1) (Some (dir @ ''/'' @ stem @ ''.'' @ ext)) = Some stem \<and>
      get_file_extension (\<lambda>_. True) (Some (dir @ ''/'' @ stem @ ''.'' @ ext)) = Some ext) \<and>
   (set nm \<inter> {CHR ''/'', CHR 0x5C, CHR ''.''} = {} \<and> set rest \<inter> {CHR ''/'', CHR ''.''} = {} \<and>
    length rest + 1 < 2 ^ 32 \<longrightarrow>
      stem_bytes (dir @ ''.'' @ rest @ ''/'' @ nm) = 2 ^ 32 - (length rest + 1))"
proof (intro conjI impI; (elim conjE)?)
  assume a: "set stem \<inter> {CHR ''/'', CHR 0x5C} = {}" "set ext \<inter> {CHR ''/'', CHR 0x5C, CHR ''.''} = {}"
    "length stem + 1 < 2 ^ 32"
  let ?p = "dir @ ''/'' @ stem @ ''.'' @ ext"
  have dot: "strrchr ?p (CHR ''.'') = Some (length dir + 1 + length stem)"
    using strrchr_append [of "CHR ''.''" ext "dir @ ''/'' @ stem"] a by simp
  have slash: "last_slash ?p = Some (length dir)"
    using strrchr_append [of "CHR ''/''" "stem @ ''.'' @ ext" dir] a by (simp add: last_slash_def)
  have "size_of_int (int (length stem) + 1) = length stem + 1" "size_of_int (int (length stem)) = length stem"
    using a(3) by (simp_all add: nat_add_distrib)
  with dot slash show "get_filename_without_extension (\<lambda>n. n = length stem + 1) (Some ?p) = Some stem"
    by (simp add: get_filename_without_extension_def stem_bytes_def algebra_simps)
  from dot show "get_file_extension (\<lambda>_. True) (Some ?p) = Some ext"
    by (simp add: get_file_extension_def)
next
  assume a: "set nm \<inter> {CHR ''/'', CHR 0x5C, CHR ''.''} = {}" "set rest \<inter> {CHR ''/'', CHR ''.''} = {}"
    "length rest + 1 < 2 ^ 32"
  let ?p = "dir @ ''.'' @ rest @ ''/'' @ nm"
  have dot: "strrchr ?p (CHR ''.'') = Some (length dir)"
    using strrchr_append [of "CHR ''.''" "rest @ ''/'' @ nm" dir] a by simp
  have slash: "last_slash ?p = Some (length dir + 1 + length rest)"
    using strrchr_append [of "CHR ''/''" nm "dir @ ''.'' @ rest"] a by (simp add: last_slash_def)
  have "(- 1 - int (length rest)) mod 2 ^ 32 = 2 ^ 32 - int (length rest + 1)"
  proof -
    have "(- 1 - int (length rest)) mod 2 ^ 32 = (- 1 - int (length rest) + 2 ^ 32) mod 2 ^ 32"
      by (rule mod_add_self2 [symmetric])
    also have "\<dots> = - 1 - int (length rest) + 2 ^ 32" using a(3) by (intro mod_pos_pos_trivial) auto
    finally show ?thesis by simp
  qed
  with dot slash show "stem_bytes ?p = 2 ^ 32 - (length rest + 1)"
    using a(3) by (simp add: stem_bytes_def size_of_int_def algebra_simps nat_diff_distrib)
qed

lemma file_name_parts_example:
  "get_filename_without_extension (\<lambda>n. n = length ''users'' + 1) (Some (''data'' @ ''/'' @ ''users'' @ ''.'' @ ''json'')) =
     Some ''users'' \<and>
   stem_bytes (''data'' @ ''.'' @ ''d'' @ ''/'' @ ''users'') = 2 ^ 32 - (length ''d'' + 1)"
  using file_name_parts [of "''users''" "''json''" "''data''" "''users''" "''d''"] by simp

lemma validate_table_name_iff:
  "validate_table_name (Some s) \<longleftrightarrow>
     s \<noteq> [] \<and> length s \<le> 64 \<and> \<not> isdigit (hd s) \<and> list_all (\<lambda>c. isalnum c \<or> c = CHR ''_'') s \<and>
     map toupper s \<notin> set reserved_keywords"
proof (cases s)
  case (Cons c cs)
  have "list_ex (\<lambda>i. \<not> isalnum (s ! i) \<and> s ! i \<noteq> CHR ''_'') [1..<length s] \<longleftrightarrow>
      \<not> list_all (\<lambda>c. isalnum c \<or> c = CHR ''_'') cs"
  proof -
    have "list_ex P [1..<length s] \<longleftrightarrow> (\<exists>n < length cs. P (Suc n))" for P
    proof
      assume "list_ex P [1..<length s]"
      then obtain x where "1 \<le> x" "x < length s" "P x" by (auto simp: list_ex_iff)
      then show "\<exists>n < length cs. P (Suc n)" by (intro exI [of _ "x - 1"]) (simp add: Cons)
    next
      assume "\<exists>n < length cs. P (Suc n)"
      then obtain n where "n < length cs" "P (Suc n)" by blast
      then show "list_ex P [1..<length s]" unfolding list_ex_iff by (intro bexI [of _ "Suc n"]) (auto simp: Cons)
    qed
    then show ?thesis by (simp add: Cons list_all_length)
  qed
  moreover have "isalpha c \<or> c = CHR ''_'' \<longleftrightarrow> (isalnum c \<or> c = CHR ''_'') \<and> \<not> isdigit c"
    by (auto simp: char_class_defs)
  ultimately show ?thesis
    by (auto simp: validate_table_name_def MAX_TABLE_NAME_LEN_def Cons list_ex_iff)
qed (simp add: validate_table_name_def)

text \<open>\<open>validate_table_name\<close> accepts exactly the identifiers of 1 to 64 letters, digits and
  underscores that do not begin with a digit and are no reserved word in any mix of cases; they
  contain no NUL, slash, quote or white space.\<close>

lemma validate_table_name_spec:
  "validate_table_name (Some s) \<longleftrightarrow>
     s \<noteq> [] \<and> length s \<le> 64 \<and> \<not> isdigit (hd s) \<and> list_all (\<lambda>c. isalnum c \<or> c = CHR ''_'') s \<and>
     map toupper s \<notin> set reserved_keywords"
  by (rule validate_table_name_iff)

end
