(* ===== verification/Lx_Parser.thy ===== *)
theory Lx_Parser
  imports Lx_Strings
begin

text \<open>
  The query parser of \<open>src/src/parser.c\<close>: \<open>trim_spaces\<close>, \<open>extract_token\<close>, \<open>parse_condition\<close> and
  \<open>parse_query\<close>. The allocation of the result is checked by the code and is the argument \<open>ok\<close>; the
  allocations of the small strings are taken to succeed.
\<close>

section \<open>Tokens\<close>

datatype QueryType = QUERY_SELECT | QUERY_INSERT | QUERY_UPDATE | QUERY_DELETE
  | QUERY_CREATE_TABLE | QUERY_DROP_TABLE | QUERY_CREATE_INDEX | QUERY_DROP_INDEX

record Condition =
  c_field :: string
  c_op :: string
  c_value :: string

record Query =
  q_type :: QueryType
  q_table :: "string option"
  q_fields :: "string list option"
  q_field_count :: nat
  q_conditions :: "Condition option"
  q_condition_count :: nat

definition trim_spaces :: "string option \<Rightarrow> string option" where
  "trim_spaces sp = (case sp of None \<Rightarrow> None
     | Some str0 \<Rightarrow>
         let str = dropWhile isspace str0 in
         if str = [] then Some []
         else Some (take (last_nonspace str (length str - 1) + 1) str))"

lemma trim_spaces_trim [simp]: "trim_spaces sp = map_option trim sp"
proof -
  have "trim_spaces sp = trim_whitespace sp"
    by (cases sp) (simp_all add: trim_spaces_def trim_whitespace_def Let_def del: dropWhile_eq_Nil_conv)
  then show ?thesis by (simp add: trim_whitespace_trim)
qed

definition extract_token :: "string \<Rightarrow> string \<Rightarrow> string \<Rightarrow> string option" where
  "extract_token str start_keyword end_characters =
     (let lower_str = map tolower str; lower_kw = map tolower start_keyword in
      case strstr lower_str lower_kw of None \<Rightarrow> None
      | Some pos \<Rightarrow>
          let start_idx = pos + length start_keyword;
              actual_start = dropWhile isspace (drop start_idx str);
              token = takeWhile (\<lambda>c. c \<notin> set end_characters) actual_start
          in trim_spaces (Some token))"

section \<open>Conditions\<close>

definition condition_ops :: "string list" where
  "condition_ops = [''!='', ''>='', ''<='', ''='', ''>'', ''<'']"

fun find_op :: "string \<Rightarrow> string list \<Rightarrow> (string \<times> nat) option" where
  \<comment> \<open>the first operator of the list that occurs anywhere, with its position\<close>
  "find_op cond_str [] = None"
| "find_op cond_str (o1 # ops) =
     (case strstr cond_str o1 of Some k \<Rightarrow> Some (o1, k) | None \<Rightarrow> find_op cond_str ops)"

definition strip_quotes :: "string \<Rightarrow> string" where
  "strip_quotes v =
     (if v \<noteq> [] \<and> (hd v = CHR 0x27 \<or> hd v = CHR 0x22) \<and> 2 \<le> length v \<and> last v = hd v
      then butlast (tl v) else v)"

definition parse_condition :: "alloc \<Rightarrow> string option \<Rightarrow> Condition option" where
  "parse_condition ok sp = (case sp of None \<Rightarrow> None
     | Some cond_str \<Rightarrow>
         if \<not> ok 0 then None
         else (case find_op cond_str condition_ops of None \<Rightarrow> None
           | Some (o1, op_pos) \<Rightarrow> Some \<lparr>c_field = trim (take op_pos cond_str), c_op = o1,
               c_value = strip_quotes (trim (drop (op_pos + length o1) cond_str))\<rparr>))"

section \<open>Queries\<close>

definition blanks :: string where
  \<comment> \<open>space, tab, carriage return, line feed\<close>
  "blanks = [CHR '' '', CHR 0x09, CHR 0x0D, CHR 0x0A]"

definition select_fields :: "string \<Rightarrow> string list option \<times> nat" where
  \<comment> \<open>the field list of a SELECT: the text up to the first F or f, split at commas\<close>
  "select_fields query_str = (case extract_token query_str ''select'' ''Ff'' of
     None \<Rightarrow> (None, 0)
   | Some fields_token \<Rightarrow>
       let toks = strtok '','' fields_token [] in
       if 0 < length toks then (Some (map trim toks), length toks) else (None, 0))"

definition with_table :: "QueryType \<Rightarrow> string option \<Rightarrow> Query" where
  "with_table type table = \<lparr>q_type = type, q_table = table, q_fields = None, q_field_count = 0,
     q_conditions = None, q_condition_count = 0\<rparr>"

definition parse_head :: "string \<Rightarrow> Query" where
  "parse_head query_str =
     (let lower_query = map tolower query_str in
      if take 6 lower_query = ''select'' then
        (let (fs, n) = select_fields query_str in
         (with_table QUERY_SELECT (extract_token query_str ''from'' (blanks @ ''(Ww'')))
           \<lparr>q_fields := fs, q_field_count := n\<rparr>)
      else if take 6 lower_query = ''insert'' then
        with_table QUERY_INSERT (extract_token query_str ''into'' (blanks @ ''(''))
      else if take 6 lower_query = ''update'' then
        with_table QUERY_UPDATE (extract_token query_str ''update'' (blanks @ ''S''))
      else if take 6 lower_query = ''delete'' then
        with_table QUERY_DELETE (extract_token query_str ''from'' (blanks @ ''W''))
      else if take 6 lower_query = ''create'' then
        with_table QUERY_CREATE_TABLE (extract_token query_str ''table'' (blanks @ ''(''))
      else if take 4 lower_query = ''drop'' then
        with_table QUERY_DROP_TABLE (extract_token query_str ''table'' (blanks @ '';''))
      else with_table QUERY_SELECT None)"

definition parse_query :: "alloc \<Rightarrow> string option \<Rightarrow> Query option" where
  "parse_query ok sp = (case sp of None \<Rightarrow> None
     | Some str0 \<Rightarrow>
         if \<not> ok 0 then None
         else
           let query_str = dropWhile isspace str0 in
           if \<not> ok 1 then None
           else
             let query = parse_head query_str in
             (case strstr (map tolower query_str) ''where'' of
                None \<Rightarrow> Some query
              | Some p \<Rightarrow>
                  (case parse_condition (\<lambda>k. ok (2 + k)) (Some (dropWhile isspace (drop (p + 5) query_str))) of
                     None \<Rightarrow> Some query
                   | Some cond \<Rightarrow> Some (query\<lparr>q_conditions := Some cond, q_condition_count := 1\<rparr>))))"

section \<open>Properties\<close>

definition word_ok :: "string \<Rightarrow> string \<Rightarrow> bool" where
  \<comment> \<open>an identifier without the given characters\<close>
  "word_ok bad s \<longleftrightarrow> s \<noteq> [] \<and> list_all (\<lambda>c. (isalnum c \<or> c = CHR ''_'') \<and> c \<notin> set bad) s"

lemma word_ok_chars:
  assumes "word_ok bad s"
  shows "s \<noteq> []" and "c \<in> set s \<Longrightarrow> \<not> isspace c \<and> c \<noteq> CHR ''!'' \<and> c \<noteq> CHR ''='' \<and> c \<noteq> CHR ''<'' \<and> c \<noteq> CHR ''>'' \<and>
    c \<noteq> CHR 0x27 \<and> c \<noteq> CHR 0x22 \<and> c \<noteq> CHR ''('' \<and> c \<noteq> CHR '';'' \<and> c \<notin> set bad"
proof -
  show "s \<noteq> []" using assms by (simp add: word_ok_def)
  assume "c \<in> set s"
  with assms have "isalnum c \<or> c = CHR ''_''" "c \<notin> set bad" by (auto simp: word_ok_def list_all_iff)
  then show "\<not> isspace c \<and> c \<noteq> CHR ''!'' \<and> c \<noteq> CHR ''='' \<and> c \<noteq> CHR ''<'' \<and> c \<noteq> CHR ''>'' \<and>
    c \<noteq> CHR 0x27 \<and> c \<noteq> CHR 0x22 \<and> c \<noteq> CHR ''('' \<and> c \<noteq> CHR '';'' \<and> c \<notin> set bad"
    by (auto simp: char_class_defs)
qed

lemma word_ok_blanks: "word_ok bad s \<Longrightarrow> c \<in> set s \<Longrightarrow> c \<notin> set blanks"
proof
  assume "word_ok bad s" "c \<in> set s" "c \<in> set blanks"
  moreover from this(3) have "isspace c" by (auto simp: blanks_def isspace_def)
  ultimately show False using word_ok_chars(2) [of bad s c] by blast
qed

lemma word_ok_trim [simp]: "word_ok bad s \<Longrightarrow> trim s = s"
proof -
  assume w: "word_ok bad s"
  note word_ok_chars [OF w]
  then show ?thesis by (intro trim_id) auto
qed

lemma strstr_None_char: "c \<in> set nd \<Longrightarrow> c \<notin> set s \<Longrightarrow> strstr s nd = None"
  by (auto simp: strstr_None_iff)

lemma strstr_first:
  assumes "nd \<noteq> []" and "hd nd \<notin> set pre"
  shows "strstr (pre @ nd @ post) nd = Some (length pre)"
  using assms(2)
proof (induction pre)
  case Nil
  then show ?case using starts_with_refl [of nd post] by (simp add: strstr_zero)
next
  case (Cons c pre)
  then have "\<not> starts_with nd ((c # pre) @ nd @ post)"
    using assms(1) by (cases nd) (auto simp: starts_with_def)
  with Cons show ?case by simp
qed

definition op_free :: "string \<Rightarrow> bool" where
  "op_free s \<longleftrightarrow> set s \<inter> set ''!=<>'' = {}"

lemma word_ok_op_free: "word_ok bad s \<Longrightarrow> op_free s"
  using word_ok_chars(2) [of bad s] unfolding op_free_def by force

lemma find_op_parts:
  assumes "op \<in> set condition_ops" and "op_free f" and "op_free w"
  shows "find_op (f @ op @ w) condition_ops = Some (op, length f)"
proof -
  have "op \<noteq> []" using assms(1) by (auto simp: condition_ops_def)
  moreover have "hd op \<notin> set f" using assms(1,2) unfolding condition_ops_def op_free_def by force
  ultimately have at: "strstr (f @ op @ w) op = Some (length f)" by (rule strstr_first)
  have no: "strstr (f @ op @ w) o2 = None" if "c \<in> set o2" "c \<in> set ''!=<>''" "c \<notin> set op" for o2 c
  proof -
    have "c \<notin> set f" "c \<notin> set w" using that(2) assms(2,3) by (auto simp only: op_free_def)
    with that(3) have "c \<notin> set (f @ op @ w)" by simp
    with that(1) show ?thesis by (rule strstr_None_char)
  qed
  from assms(1) consider "op = ''!=''" | "op = ''>=''" | "op = ''<=''" | "op = ''=''" | "op = ''>''" | "op = ''<''"
    by (auto simp: condition_ops_def)
  then show ?thesis
  proof cases
    case 1 then show ?thesis using at by (simp add: condition_ops_def)
  next
    case 2 then show ?thesis using at no [of "CHR ''!''" "''!=''"] by (simp add: condition_ops_def)
  next
    case 3 then show ?thesis
      using at no [of "CHR ''!''" "''!=''"] no [of "CHR ''>''" "''>=''"] by (simp add: condition_ops_def)
  next
    case 4 then show ?thesis
      using at no [of "CHR ''!''" "''!=''"] no [of "CHR ''>''" "''>=''"] no [of "CHR ''<''" "''<=''"]
      by (simp add: condition_ops_def)
  next
    case 5 then show ?thesis
      using at no [of "CHR ''!''" "''!=''"] no [of "CHR ''=''" "''>=''"] no [of "CHR ''<''" "''<=''"]
        no [of "CHR ''=''" "''=''"] by (simp add: condition_ops_def)
  next
    case 6 then show ?thesis
      using at no [of "CHR ''!''" "''!=''"] no [of "CHR ''>''" "''>=''"] no [of "CHR ''=''" "''<=''"]
        no [of "CHR ''=''" "''=''"] no [of "CHR ''>''" "''>''"] by (simp add: condition_ops_def)
  qed
qed

lemma parse_condition_both:
  assumes "word_ok [] f" and "word_ok [] v" and "op \<in> set condition_ops" and "ok 0"
  shows "parse_condition ok (Some (f @ '' '' @ op @ '' '' @ v)) = Some \<lparr>c_field = f, c_op = op, c_value = v\<rparr> \<and>
    parse_condition ok (Some (f @ '' '' @ op @ '' '' @ [CHR 0x27] @ v @ [CHR 0x27])) =
      Some \<lparr>c_field = f, c_op = op, c_value = v\<rparr>"
proof -
  have "op_free f" "op_free v" using assms(1,2) word_ok_op_free by auto
  then have free: "op_free (f @ '' '')" "op_free ('' '' @ v)" "op_free ('' '' @ [CHR 0x27] @ v @ [CHR 0x27])"
    by (auto simp: op_free_def)
  note fo = find_op_parts [OF assms(3) free(1) free(2)] find_op_parts [OF assms(3) free(1) free(3)]
  have space: "isspace (CHR '' '')" by (simp add: isspace_def)
  have "trim (f @ '' '') = f" using trim_space_right [OF space, of f] assms(1) by simp
  moreover have "trim (CHR '' '' # v) = v" using trim_space_left [OF space, of v] assms(2) by simp
  moreover have "trim (CHR '' '' # CHR 0x27 # v @ [CHR 0x27]) = CHR 0x27 # v @ [CHR 0x27]"
    unfolding trim_space_left [OF space] by (rule trim_id) (simp add: isspace_def)
  moreover have "strip_quotes v = v"
  proof -
    have "hd v \<in> set v" using word_ok_chars(1) [OF assms(2)] by simp
    from word_ok_chars(2) [OF assms(2) this] show ?thesis by (simp add: strip_quotes_def)
  qed
  moreover have "strip_quotes (CHR 0x27 # v @ [CHR 0x27]) = v" by (simp add: strip_quotes_def)
  ultimately show ?thesis
    using fo assms(4) by (simp add: parse_condition_def)
qed

text \<open>A condition \<open>field op value\<close> of plain words is parsed into its parts, and quotes around the
  value are removed.\<close>

lemma parse_condition_parts:
  assumes "word_ok [] f" and "word_ok [] v" and "op \<in> set condition_ops" and "ok 0"
  shows "parse_condition ok (Some (f @ '' '' @ op @ '' '' @ v)) = Some \<lparr>c_field = f, c_op = op, c_value = v\<rparr> \<and>
    parse_condition ok (Some (f @ '' '' @ op @ '' '' @ [CHR 0x27] @ v @ [CHR 0x27])) =
      Some \<lparr>c_field = f, c_op = op, c_value = v\<rparr>"
  by (rule parse_condition_both [of f v op ok, OF assms])
lemma parse_condition_parts_example:
  "parse_condition (\<lambda>_. True) (Some (''age'' @ '' '' @ ''>='' @ '' '' @ ''18'')) =
     Some \<lparr>c_field = ''age'', c_op = ''>='', c_value = ''18''\<rparr>"
  using parse_condition_parts [of "''age''" "''18''" "''>=''" "\<lambda>_. True"]
  by (simp add: word_ok_def char_class_defs condition_ops_def)

text \<open>The operator of a condition is chosen by the order of the list, not by its place: as soon as
  \<open>!=\<close> occurs anywhere, the text before it is the field, and in a plain comparison chain \<open>>=\<close> wins
  over an earlier \<open>=\<close>.\<close>

lemma parse_condition_priority:
  assumes "ok 0" and "CHR ''!'' \<notin> set a"
  shows "parse_condition ok (Some (a @ ''!='' @ b)) =
      Some \<lparr>c_field = trim a, c_op = ''!='', c_value = strip_quotes (trim b)\<rparr> \<and>
    (parse_condition ok (Some s) = None \<longleftrightarrow> (\<forall>c \<in> {CHR ''='', CHR ''<'', CHR ''>''}. c \<notin> set s))"
proof -
  have "strstr (a @ ''!='' @ b) ''!='' = Some (length a)" using assms(2) by (intro strstr_first) auto
  then have "parse_condition ok (Some (a @ ''!='' @ b)) =
      Some \<lparr>c_field = trim a, c_op = ''!='', c_value = strip_quotes (trim b)\<rparr>"
    using assms(1) by (simp add: parse_condition_def condition_ops_def)
  moreover have "find_op s condition_ops = None \<longleftrightarrow> (\<forall>c \<in> {CHR ''='', CHR ''<'', CHR ''>''}. c \<notin> set s)"
  proof -
    have single: "strstr s [c] = None \<longleftrightarrow> c \<notin> set s" for c
      by (auto simp: strstr_None_iff in_set_conv_decomp)
    have pair: "strstr s [c, d] = None" if "d \<notin> set s" for c d using that by (intro strstr_None_char [of d]) auto
    have all: "find_op s ops = None \<longleftrightarrow> (\<forall>o1 \<in> set ops. strstr s o1 = None)" for ops
      by (induction ops) (auto split: option.split)
    show ?thesis using pair unfolding all by (auto simp: condition_ops_def single)
  qed
  moreover have "parse_condition ok (Some s) = None \<longleftrightarrow> find_op s condition_ops = None"
    using assms(1) by (auto simp: parse_condition_def split: option.splits)
  ultimately show ?thesis by simp
qed

lemma parse_condition_priority_example:
  "parse_condition (\<lambda>_. True) (Some (''x = 1 AND y '' @ ''!='' @ '' 2'')) =
     Some \<lparr>c_field = ''x = 1 AND y'', c_op = ''!='', c_value = ''2''\<rparr>"
  using parse_condition_priority [of "\<lambda>_. True" "''x = 1 AND y ''" "'' 2''"]
  by (simp add: trim_def isspace_def strip_quotes_def)

lemma tolower_eq_lower: "tolower c = CHR ''w'' \<longleftrightarrow> c = CHR ''w'' \<or> c = CHR ''W''"
  "tolower c = CHR ''f'' \<longleftrightarrow> c = CHR ''f'' \<or> c = CHR ''F''"
proof -
  have "tolower c = char_of n \<longleftrightarrow> c = char_of n \<or> c = char_of (n - 32)" if "n = 119 \<or> n = 102" for n :: nat
  proof (cases "isupper c")
    case True
    then have "(of_char c :: nat) + 32 < 256" by (simp add: isupper_def Let_def)
    with True that show ?thesis
      by (auto simp: tolower_def char_eq_of_char isupper_def Let_def simp del: of_char_eq_iff)
  next
    case False
    with that show ?thesis by (auto simp: tolower_def isupper_def Let_def)
  qed
  moreover have "char_of (119 :: nat) = CHR ''w''" "char_of (87 :: nat) = CHR ''W''"
    "char_of (102 :: nat) = CHR ''f''" "char_of (70 :: nat) = CHR ''F''" by code_simp+
  moreover note calculation(1) [of 119] calculation(1) [of 102]
  ultimately show
    "tolower c = CHR ''w'' \<longleftrightarrow> c = CHR ''w'' \<or> c = CHR ''W''"
    "tolower c = CHR ''f'' \<longleftrightarrow> c = CHR ''f'' \<or> c = CHR ''F''" by simp_all
qed

lemma lower_no_w: "word_ok ''Ww'' t \<Longrightarrow> CHR ''w'' \<notin> set (map tolower t)"
proof
  assume w: "word_ok ''Ww'' t" and "CHR ''w'' \<in> set (map tolower t)"
  then obtain c where "c \<in> set t" "tolower c = CHR ''w''" by auto
  with w show False by (simp add: tolower_eq_lower word_ok_def list_all_iff)
qed

lemma takeWhile_stop: "(\<And>c. c \<in> set t \<Longrightarrow> P c) \<Longrightarrow> \<not> P d \<Longrightarrow> takeWhile P (t @ d # s) = t"
  by (subst takeWhile_append2) auto

lemma extract_token_result:
  assumes "strstr (map tolower q) (map tolower kw) = Some p"
    and "dropWhile isspace (drop (p + length kw) q) = s"
    and "takeWhile (\<lambda>c. c \<notin> set ends) s = t" and "trim t = t"
  shows "extract_token q kw ends = Some t"
  using assms by (simp add: extract_token_def)

lemma parse_head_delete: "take 6 (map tolower q) = ''delete'' \<Longrightarrow>
    parse_head q = with_table QUERY_DELETE (extract_token q ''from'' (blanks @ ''W''))"
  by (simp add: parse_head_def Let_def)

lemma parse_head_select: "take 6 (map tolower q) = ''select'' \<Longrightarrow>
    q_table (parse_head q) = extract_token q ''from'' (blanks @ ''(Ww'')"
  by (simp add: parse_head_def Let_def with_table_def prod.case_eq_if)

lemma parse_query_where:
  assumes "dropWhile isspace q = q" and "strstr (map tolower q) ''where'' = Some p"
    and "dropWhile isspace (drop (p + 5) q) = r" and "parse_condition (\<lambda>_. True) (Some r) = Some c"
  shows "parse_query (\<lambda>_. True) (Some q) = Some ((parse_head q)\<lparr>q_conditions := Some c, q_condition_count := 1\<rparr>)"
  using assms by (simp add: parse_query_def Let_def)

lemma parse_query_table: "dropWhile isspace q = q \<Longrightarrow>
    map_option q_table (parse_query (\<lambda>_. True) (Some q)) = Some (q_table (parse_head q))"
  by (simp add: parse_query_def Let_def split: option.split)

lemma drop_prefix: "n = length xs \<Longrightarrow> drop n (xs @ ys) = ys"
  by simp

lemma lower_literals: "map tolower ''DELETE FROM '' = ''delete from ''" "map tolower '' WHERE '' = '' where ''"
  "map tolower ''SELECT '' = ''select ''" "map tolower '' FROM '' = '' from ''" "map tolower ''from'' = ''from''"
  "map tolower ''select'' = ''select''"
  by code_simp+

text \<open>\<open>parse_query\<close> reads the table and the condition of a DELETE statement, for a table name
  without the letter W (at which the token ends) and plain words in the condition.\<close>

lemma parse_delete:
  assumes "word_ok ''Ww'' t" and "word_ok [] f" and "word_ok [] v"
  shows "parse_query (\<lambda>_. True) (Some (''DELETE FROM '' @ t @ '' WHERE '' @ f @ '' = '' @ v)) =
    Some \<lparr>q_type = QUERY_DELETE, q_table = Some t, q_fields = None, q_field_count = 0,
      q_conditions = Some \<lparr>c_field = f, c_op = ''='', c_value = v\<rparr>, q_condition_count = 1\<rparr>"
proof -
  let ?rest = "f @ '' = '' @ v"
  let ?q = "''DELETE FROM '' @ t @ '' WHERE '' @ ?rest"
  let ?l = "''delete from '' @ map tolower t @ '' where '' @ map tolower ?rest"
  have lower: "map tolower ?q = ?l" by (simp only: map_append lower_literals)
  have nb: "dropWhile isspace ?q = ?q" by (simp add: isspace_def)
  have "strstr (''delete '' @ ''from'' @ ('' '' @ map tolower t @ '' where '' @ map tolower ?rest)) ''from'' = Some (length ''delete '')"
    by (rule strstr_first) auto
  then have fr: "strstr ?l ''from'' = Some 7" by simp
  have wt: "CHR ''w'' \<notin> set (''delete from '' @ map tolower t @ '' '')" using lower_no_w [OF assms(1)] by simp
  have "strstr ((''delete from '' @ map tolower t @ '' '') @ ''where'' @ ('' '' @ map tolower ?rest)) ''where'' =
      Some (length (''delete from '' @ map tolower t @ '' ''))"
    by (rule strstr_first) (use wt in auto)
  then have wh: "strstr ?l ''where'' = Some (length t + 13)" by simp
  note tc = word_ok_chars [OF assms(1)] and fc = word_ok_chars [OF assms(2)]
  have sp: "isspace (CHR '' '')" by (simp add: isspace_def)
  have d1: "dropWhile isspace (drop 11 ?q) = t @ '' WHERE '' @ ?rest"
    using tc(1) tc(2) [of "hd t"] sp by (cases t) simp_all
  have "drop (length t + 13 + 5) ((''DELETE FROM '' @ t @ '' WHERE'') @ '' '' @ ?rest) = '' '' @ ?rest"
    by (rule drop_prefix) simp
  moreover have "dropWhile isspace ('' '' @ ?rest) = ?rest"
    using fc(1) fc(2) [of "hd f"] sp by (cases f) simp_all
  ultimately have d2: "dropWhile isspace (drop (length t + 13 + 5) ?q) = ?rest" by simp
  have "takeWhile (\<lambda>c. c \<notin> set (blanks @ ''W'')) (t @ CHR '' '' # (''WHERE '' @ ?rest)) = t"
  proof (rule takeWhile_stop)
    show "c \<notin> set (blanks @ ''W'')" if "c \<in> set t" for c
      using word_ok_blanks [OF assms(1) that] tc(2) [OF that] by simp
    show "\<not> CHR '' '' \<notin> set (blanks @ ''W'')" by (simp add: blanks_def)
  qed
  moreover have "dropWhile isspace (drop (7 + length ''from'') ?q) = t @ CHR '' '' # (''WHERE '' @ ?rest)"
    using d1 by (simp del: drop_append)
  moreover have "strstr (map tolower ?q) (map tolower ''from'') = Some 7" using fr by (simp only: lower lower_literals)
  ultimately have "extract_token ?q ''from'' (blanks @ ''W'') = Some t"
    by (intro extract_token_result) (simp_all only: word_ok_trim [OF assms(1)])
  moreover have "take 6 (map tolower ?q) = ''delete''" unfolding lower by simp
  ultimately have h: "parse_head ?q = with_table QUERY_DELETE (Some t)"
    using parse_head_delete [of ?q] by (simp only:)
  have "parse_condition (\<lambda>_. True) (Some (f @ '' '' @ ''='' @ '' '' @ v)) = Some \<lparr>c_field = f, c_op = ''='', c_value = v\<rparr>"
    using parse_condition_both [OF assms(2,3), of "''=''" "\<lambda>_. True"] by (simp add: condition_ops_def)
  then have "parse_condition (\<lambda>_. True) (Some ?rest) = Some \<lparr>c_field = f, c_op = ''='', c_value = v\<rparr>" by simp
  from parse_query_where [OF nb _ d2 this] wh
  have "parse_query (\<lambda>_. True) (Some ?q) =
      Some ((with_table QUERY_DELETE (Some t))\<lparr>q_conditions := Some \<lparr>c_field = f, c_op = ''='', c_value = v\<rparr>, q_condition_count := 1\<rparr>)"
    by (simp only: lower h)
  then show ?thesis by (simp only: with_table_def) simp
qed

lemma parse_delete_example:
  "parse_query (\<lambda>_. True) (Some (''DELETE FROM '' @ ''users'' @ '' WHERE '' @ ''id'' @ '' = '' @ ''7'')) =
    Some \<lparr>q_type = QUERY_DELETE, q_table = Some ''users'', q_fields = None, q_field_count = 0,
      q_conditions = Some \<lparr>c_field = ''id'', c_op = ''='', c_value = ''7''\<rparr>, q_condition_count = 1\<rparr>"
  by (rule parse_delete) (simp_all add: word_ok_def char_class_defs)

text \<open>The table of a SELECT statement is cut at its first w, in either case: the characters that
  should end the token at the word WHERE end it anywhere.\<close>

lemma parse_select_table_cut:
  assumes "word_ok [] t" and "list_all (\<lambda>c. c \<noteq> CHR ''f'' \<and> c \<noteq> CHR ''F'') fl" and "t' = takeWhile (\<lambda>c. c \<notin> set ''Ww'') t"
  shows "map_option q_table (parse_query (\<lambda>_. True) (Some (''SELECT '' @ fl @ '' FROM '' @ t))) = Some (Some t')"
proof -
  let ?q = "''SELECT '' @ fl @ '' FROM '' @ t"
  let ?l = "''select '' @ map tolower fl @ '' from '' @ map tolower t"
  have lower: "map tolower ?q = ?l" by (simp only: map_append lower_literals)
  have nb: "dropWhile isspace ?q = ?q" by (simp add: isspace_def)
  have "CHR ''f'' \<notin> set (''select '' @ map tolower fl @ '' '')"
  proof
    assume "CHR ''f'' \<in> set (''select '' @ map tolower fl @ '' '')"
    then obtain c where "c \<in> set fl" "tolower c = CHR ''f''" by auto
    with assms(2) show False by (simp add: tolower_eq_lower list_all_iff)
  qed
  then have "strstr ((''select '' @ map tolower fl @ '' '') @ ''from'' @ '' '' @ map tolower t) ''from'' =
      Some (length (''select '' @ map tolower fl @ '' ''))" by (intro strstr_first) auto
  then have fr: "strstr ?l ''from'' = Some (length fl + 8)" by simp
  note tc = word_ok_chars [OF assms(1)]
  have sp: "isspace (CHR '' '')" by (simp add: isspace_def)
  have d: "dropWhile isspace (drop (length fl + 8 + 4) ?q) = t"
  proof -
    have "drop (length fl + 8 + 4) ((''SELECT '' @ fl @ '' FROM'') @ '' '' @ t) = '' '' @ t"
      by (rule drop_prefix) simp
    moreover have "dropWhile isspace ('' '' @ t) = t" using tc(1) tc(2) [of "hd t"] sp by (cases t) simp_all
    ultimately show ?thesis by simp
  qed
  have "takeWhile (\<lambda>c. c \<notin> set (blanks @ ''(Ww'')) t = t'"
    unfolding assms(3)
  proof (rule takeWhile_cong)
    show "(c \<notin> set (blanks @ ''(Ww'')) = (c \<notin> set ''Ww'')" if "c \<in> set t" for c
      using word_ok_blanks [OF assms(1) that] tc(2) [OF that] by simp
  qed simp
  moreover have "trim t' = t'"
  proof (rule trim_id)
    have "\<not> isspace c" if "c \<in> set t'" for c
      using that set_takeWhileD [of c] tc(2) unfolding assms(3) by blast
    from this [of "hd t'"] this [of "last t'"]
    show "t' = [] \<or> \<not> isspace (hd t') \<and> \<not> isspace (last t')" by (cases "t' = []") simp_all
  qed
  moreover have "strstr (map tolower ?q) (map tolower ''from'') = Some (length fl + 8)"
    using fr by (simp only: lower lower_literals)
  moreover have "dropWhile isspace (drop (length fl + 8 + length ''from'') ?q) = t" using d by (simp del: drop_append)
  ultimately have "extract_token ?q ''from'' (blanks @ ''(Ww'') = Some t'" by (intro extract_token_result)
  moreover have "take 6 (map tolower ?q) = ''select''" unfolding lower by simp
  ultimately have "q_table (parse_head ?q) = Some t'" using parse_head_select [of ?q] by (simp only:)
  with parse_query_table [OF nb] show ?thesis by (simp only:)
qed

lemma parse_select_table_cut_example:
  "map_option q_table (parse_query (\<lambda>_. True) (Some (''SELECT '' @ ''*'' @ '' FROM '' @ ''new_users''))) = Some (Some ''ne'') \<and>
   map_option q_table (parse_query (\<lambda>_. True) (Some (''SELECT '' @ ''*'' @ '' FROM '' @ ''users''))) = Some (Some ''users'')"
  using parse_select_table_cut [of "''new_users''" "''*''" "''ne''"] parse_select_table_cut [of "''users''" "''*''" "''users''"]
  by (simp add: word_ok_def char_class_defs)

end
