(* ===== verification/Lx_Config.thy ===== *)
theory Lx_Config
  imports Lx_Strings
begin

text \<open>
  The configuration file and the growing array of \<open>src/src/utils.c\<close>: \<open>load_config\<close>,
  \<open>create_default_config\<close>, \<open>save_config\<close>, and \<open>create_dynamic_array\<close>, \<open>dynamic_array_push\<close>,
  \<open>dynamic_array_get\<close>.

  The file system is a map from names to contents. \<open>fgets\<close> and \<open>sscanf\<close> are modelled as the code
  uses them: lines of at most 255 bytes, a key of at most 63 and a value of at most 127.
\<close>

section \<open>The configuration file\<close>

record Config =
  default_database_path :: string
  auto_save :: int
  auto_backup :: int
  max_history_size :: int
  enable_colors :: int
  log_level :: int
  max_cache_size :: int

type_synonym file_system = "string \<rightharpoonup> string"

definition default_config :: Config where
  "default_config = \<lparr>default_database_path = ''./databases'', auto_save = 1, auto_backup = 1,
     max_history_size = 100, enable_colors = 1, log_level = 1, max_cache_size = 1000\<rparr>"

definition create_default_config :: "alloc \<Rightarrow> Config option" where
  "create_default_config ok = (if \<not> ok 0 then None else Some default_config)"

definition newline :: char where "newline = CHR 0x0A"

definition fgets_chunk :: "string \<Rightarrow> string" where
  \<comment> \<open>what \<open>fgets(line, 256, file)\<close> reads: to the first newline, at most 255 bytes\<close>
  "fgets_chunk s = (let l = takeWhile (\<lambda>c. c \<noteq> newline) s in
     if length l < 255 then take (length l + 1) s else take 255 s)"

lemma fgets_chunk_nonempty: "s \<noteq> [] \<Longrightarrow> 0 < length (fgets_chunk s)"
  by (cases s) (auto simp: fgets_chunk_def Let_def)

function fgets_lines :: "string \<Rightarrow> string list" where
  "fgets_lines s = (if s = [] then [] else fgets_chunk s # fgets_lines (drop (length (fgets_chunk s)) s))"
  by pat_completeness auto
termination
  by (relation "measure length") (use fgets_chunk_nonempty in auto)

declare fgets_lines.simps [simp del]

definition sscanf_key_value :: "string \<Rightarrow> (string \<times> string) option" where
  \<comment> \<open>\<open>sscanf(s, "%63[^=]=%127[^\n]", key, value) == 2\<close>\<close>
  "sscanf_key_value s =
     (let key = take 63 (takeWhile (\<lambda>c. c \<noteq> CHR ''='') s) in
      if key = [] then None
      else (case drop (length key) s of
          [] \<Rightarrow> None
        | c # t \<Rightarrow>
            let value = take 127 (takeWhile (\<lambda>c. c \<noteq> newline) t) in
            if c \<noteq> CHR ''='' \<or> value = [] then None else Some (key, value)))"

definition set_option :: "string \<Rightarrow> string \<Rightarrow> Config \<Rightarrow> Config" where
  "set_option key value config =
     (if strcmp key ''default_database_path'' = 0 then config\<lparr>default_database_path := value\<rparr>
      else if strcmp key ''auto_save'' = 0 then config\<lparr>auto_save := atoi value\<rparr>
      else if strcmp key ''auto_backup'' = 0 then config\<lparr>auto_backup := atoi value\<rparr>
      else if strcmp key ''max_history_size'' = 0 then config\<lparr>max_history_size := atoi value\<rparr>
      else if strcmp key ''enable_colors'' = 0 then config\<lparr>enable_colors := atoi value\<rparr>
      else if strcmp key ''log_level'' = 0 then config\<lparr>log_level := atoi value\<rparr>
      else if strcmp key ''max_cache_size'' = 0 then config\<lparr>max_cache_size := atoi value\<rparr>
      else config)"

definition config_line :: "string \<Rightarrow> Config \<Rightarrow> Config" where
  \<comment> \<open>one turn of the reading loop\<close>
  "config_line line config =
     (let trimmed = trim (takeWhile (\<lambda>c. c \<noteq> newline) (c_str line)) in
      if trimmed = [] \<or> hd trimmed = CHR ''#'' then config
      else (case sscanf_key_value trimmed of
          None \<Rightarrow> config
        | Some (key, value) \<Rightarrow> set_option (trim key) (trim value) config))"

definition load_config :: "alloc \<Rightarrow> file_system \<Rightarrow> string option \<Rightarrow> Config option" where
  "load_config ok files fp = (case fp of
     None \<Rightarrow> create_default_config ok
   | Some filename \<Rightarrow> (case files filename of
         None \<Rightarrow> create_default_config ok
       | Some contents \<Rightarrow>
           if \<not> ok 0 then None else Some (fold config_line (fgets_lines contents) default_config)))"

definition config_pairs :: "Config \<Rightarrow> (string \<times> string) list" where
  "config_pairs config =
     [(''default_database_path'', default_database_path config),
      (''auto_save'', show_int (auto_save config)),
      (''auto_backup'', show_int (auto_backup config)),
      (''max_history_size'', show_int (max_history_size config)),
      (''enable_colors'', show_int (enable_colors config)),
      (''log_level'', show_int (log_level config)),
      (''max_cache_size'', show_int (max_cache_size config))]"

definition config_text :: "Config \<Rightarrow> string list" where
  \<comment> \<open>the lines that \<open>save_config\<close> prints\<close>
  "config_text config =
     [''# Database Configuration File'', []] @ map (\<lambda>(k, v). k @ '' = '' @ v) (config_pairs config)"

definition save_config ::
  "bool \<Rightarrow> file_system \<Rightarrow> string option \<Rightarrow> Config option \<Rightarrow> bool \<times> file_system" where
  \<comment> \<open>\<open>can_write\<close>: whether \<open>fopen(filename, "w")\<close> succeeds\<close>
  "save_config can_write files fp cp = (case (fp, cp) of
     (Some filename, Some config) \<Rightarrow>
       if \<not> can_write then (False, files)
       else (True, files(filename \<mapsto> concat (map (\<lambda>l. l @ [newline]) (config_text config))))
   | _ \<Rightarrow> (False, files))"

section \<open>Reading back what was saved\<close>

lemma fgets_lines_lines:
  assumes "list_all (\<lambda>l. newline \<notin> set l \<and> length l < 255) ls"
  shows "fgets_lines (concat (map (\<lambda>l. l @ [newline]) ls)) = map (\<lambda>l. l @ [newline]) ls"
  using assms
proof (induction ls)
  case Nil
  then show ?case by (simp add: fgets_lines.simps)
next
  case (Cons l ls)
  let ?s = "(l @ [newline]) @ concat (map (\<lambda>l. l @ [newline]) ls)"
  have "takeWhile (\<lambda>c. c \<noteq> newline) ?s = l"
    using Cons(2) by (simp, subst takeWhile_append2) auto
  then have "fgets_chunk ?s = l @ [newline]" using Cons(2) by (simp add: fgets_chunk_def)
  with Cons show ?case by (subst fgets_lines.simps) simp
qed

definition plain_word :: "string \<Rightarrow> bool" where
  \<comment> \<open>a value that survives: not empty, on one line, without white space at its ends\<close>
  "plain_word v \<longleftrightarrow> v \<noteq> [] \<and> newline \<notin> set v \<and> nul_free v \<and> \<not> isspace (hd v) \<and> \<not> isspace (last v)"

lemma config_line_option:
  assumes "k \<noteq> []" and "list_all (\<lambda>c. isalnum c \<or> c = CHR ''_'') k" and "length k < 63"
    and "plain_word v" and "length v < 127"
  shows "config_line (k @ '' = '' @ v @ [newline]) config = set_option k v config"
proof -
  have kc: "c \<noteq> newline \<and> c \<noteq> NUL \<and> c \<noteq> CHR ''='' \<and> c \<noteq> CHR ''#'' \<and> \<not> isspace c" if "c \<in> set k" for c
  proof -
    from assms(2) that have "isalnum c \<or> c = CHR ''_''" by (auto simp: list_all_iff)
    then show ?thesis by (auto simp: char_class_defs newline_def)
  qed
  have nf: "nul_free (k @ '' = '' @ v @ [newline])"
    using kc assms(4) by (auto simp: nul_free_iff plain_word_def newline_def)
  have line: "takeWhile (\<lambda>c. c \<noteq> newline) (k @ '' = '' @ v @ [newline]) = k @ '' = '' @ v"
  proof -
    have "takeWhile (\<lambda>c. c \<noteq> newline) ((k @ '' = '' @ v) @ [newline]) = k @ '' = '' @ v"
      using kc assms(4) by (subst takeWhile_append2) (auto simp: plain_word_def newline_def)
    then show ?thesis by simp
  qed
  have t: "trim (k @ '' = '' @ v) = k @ '' = '' @ v"
    using kc [of "hd k"] assms(1,4) by (intro trim_id) (auto simp: plain_word_def)
  have "takeWhile (\<lambda>c. c \<noteq> CHR ''='') ((k @ '' '') @ CHR ''='' # (CHR '' '' # v)) = k @ '' ''"
    using kc by (subst takeWhile_append2) auto
  moreover have "take 127 (takeWhile (\<lambda>c. c \<noteq> newline) (CHR '' '' # v)) = CHR '' '' # v"
  proof -
    have "takeWhile (\<lambda>c. c \<noteq> newline) (CHR '' '' # v) = CHR '' '' # v"
      using assms(4) by (subst takeWhile_eq_all_conv) (auto simp: plain_word_def newline_def)
    with assms(5) show ?thesis by simp
  qed
  ultimately have sc: "sscanf_key_value (k @ '' = '' @ v) = Some (k @ '' '', CHR '' '' # v)"
    using assms(3) by (simp add: sscanf_key_value_def Let_def newline_def)
  have space: "isspace (CHR '' '')" by (simp add: isspace_def)
  have "trim (k @ '' '') = trim k" "trim (CHR '' '' # v) = trim v"
    using kc [of "hd k"] assms(1) space by (cases k; simp add: trim_def)+
  moreover have "trim k = k" "trim v = v"
    using kc [of "hd k"] kc [of "last k"] assms(1,4) by (auto intro!: trim_id simp: plain_word_def)
  ultimately show ?thesis
    using assms(1) kc [of "hd k"] line nf t sc by (cases k) (simp_all add: config_line_def Let_def)
qed
lemma plain_word_show_int [simp]: "plain_word (show_int i)"
proof -
  have ends: "d \<noteq> newline \<and> \<not> isspace d" if "d \<in> set (dec_digits n)" for d n
    using dec_digits_isdigit [OF that] by (auto simp: char_class_defs newline_def)
  have "hd (dec_digits n) \<in> set (dec_digits n)" "last (dec_digits n) \<in> set (dec_digits n)" for n by simp_all
  with ends have "newline \<notin> set (dec_digits n)" "\<not> isspace (hd (dec_digits n))" "\<not> isspace (last (dec_digits n))" for n
    by blast+
  then show ?thesis
    using nul_free_show_int [of i] by (auto simp: plain_word_def show_int_def newline_def isspace_def)
qed

definition config_ok :: "Config \<Rightarrow> bool" where
  "config_ok c \<longleftrightarrow> plain_word (default_database_path c) \<and> length (default_database_path c) < 127 \<and>
     c_int (auto_save c) \<and> c_int (auto_backup c) \<and> c_int (max_history_size c) \<and>
     c_int (enable_colors c) \<and> c_int (log_level c) \<and> c_int (max_cache_size c)"

lemma config_text_short:
  assumes "config_ok c"
  shows "list_all (\<lambda>l. newline \<notin> set l \<and> length l < 255) (config_text c)"
proof -
  have "newline \<notin> set (show_int i)" for i using plain_word_show_int [of i] by (simp add: plain_word_def)
  with assms show ?thesis
    using length_show_int by (force simp: config_text_def config_pairs_def config_ok_def plain_word_def newline_def)
qed

lemma config_lines:
  assumes "list_all (\<lambda>(k, v). k \<noteq> [] \<and> list_all (\<lambda>c. isalnum c \<or> c = CHR ''_'') k \<and> length k < 63 \<and>
    plain_word v \<and> length v < 127) kvs"
  shows "fold config_line (map (\<lambda>l. l @ [newline]) (map (\<lambda>(k, v). k @ '' = '' @ v) kvs)) d =
    fold (\<lambda>(k, v). set_option k v) kvs d"
  using assms
proof (induction kvs arbitrary: d)
  case (Cons kv kvs)
  obtain k v where kv: "kv = (k, v)" by fastforce
  with Cons(2) config_line_option [of k v d] have "config_line ((k @ '' = '' @ v) @ [newline]) d = set_option k v d"
    by simp
  with Cons kv show ?case by simp
qed simp

text \<open>C28: a configuration that \<open>save_config\<close> wrote is read back by \<open>load_config\<close> unchanged, if its path
  is not empty, has no line break, no white space at its ends and at most 126 bytes (the field holds
  255: a longer path comes back cut).\<close>

theorem config_save_load:
  assumes "config_ok c" and "save_config True files (Some f) (Some c) = (True, files')" and "ok 0"
  shows "load_config ok files' (Some f) = Some c"
proof -
  have blank: "config_line [newline] d = d" for d
    by (simp add: config_line_def newline_def c_str_def trim_def)
  have comment: "config_line (''# Database Configuration File'' @ [newline]) d = d" for d
    by (simp add: config_line_def newline_def c_str_def trim_def isspace_def)
  from assms(1) have ok: "plain_word (default_database_path c)" "length (default_database_path c) < 127"
    "c_int (auto_save c)" "c_int (auto_backup c)" "c_int (max_history_size c)"
    "c_int (enable_colors c)" "c_int (log_level c)" "c_int (max_cache_size c)"
    by (auto simp: config_ok_def)
  have short: "length (show_int i) < 127" if "c_int i" for i using length_show_int [OF that] by simp
  have "list_all (\<lambda>(k, v). k \<noteq> [] \<and> list_all (\<lambda>c. isalnum c \<or> c = CHR ''_'') k \<and> length k < 63 \<and>
    plain_word v \<and> length v < 127) (config_pairs c)"
    using ok short by (simp add: config_pairs_def) (simp add: char_class_defs)
  from config_lines [OF this] have
    "fold config_line (map (\<lambda>l. l @ [newline]) (config_text c)) default_config =
     fold (\<lambda>(k, v). set_option k v) (config_pairs c) default_config"
    using comment by (simp add: config_text_def blank)
  also have "\<dots> = c" using ok by (simp add: config_pairs_def set_option_def)
  finally have "fold config_line (map (\<lambda>l. l @ [newline]) (config_text c)) default_config = c" .
  with fgets_lines_lines [OF config_text_short [OF assms(1)]] assms(2,3) show ?thesis
    by (auto simp: load_config_def save_config_def)
qed

definition sample_config :: Config where
  "sample_config = default_config\<lparr>default_database_path := ''/var/lib/luminix'', log_level := 3\<rparr>"

lemma config_save_load_witness:
  "\<exists>files'. save_config True Map.empty (Some ''luminix.conf'') (Some sample_config) = (True, files') \<and>
     load_config (\<lambda>_. True) files' (Some ''luminix.conf'') = Some sample_config"
proof -
  have "config_ok sample_config"
    by (simp add: sample_config_def default_config_def config_ok_def plain_word_def newline_def isspace_def
        c_int_def int_min_def int_max_def)
  from config_save_load [OF this, of Map.empty "''luminix.conf''" _ "\<lambda>_. True"] show ?thesis
    by (simp add: save_config_def)
qed

section \<open>The growing array\<close>

record DynamicArray =
  da_slots :: "string list" \<comment> \<open>the elements written so far\<close>
  da_element_size :: nat
  da_size :: nat
  da_capacity :: nat

definition create_dynamic_array :: "alloc \<Rightarrow> nat \<Rightarrow> DynamicArray option" where
  "create_dynamic_array ok element_size =
     (if \<not> ok 0 \<or> \<not> ok 1 then None
      else Some \<lparr>da_slots = [], da_element_size = element_size, da_size = 0, da_capacity = 100\<rparr>)"

definition dynamic_array_push ::
  "alloc \<Rightarrow> DynamicArray option \<Rightarrow> string option \<Rightarrow> DynamicArray option option" where
  \<comment> \<open>the outer \<open>None\<close>: a store through the NULL that an unchecked \<open>realloc\<close> returned\<close>
  "dynamic_array_push ok ap ep = (case (ap, ep) of
     (Some array, Some element) \<Rightarrow>
       let full = da_capacity array \<le> da_size array in
       if full \<and> \<not> ok 0 then None
       else Some (Some (array\<lparr>
         da_capacity := (if full then da_capacity array * 2 else da_capacity array),
         da_slots := store_slot (da_size array) (take (da_element_size array) element) (da_slots array),
         da_size := Suc (da_size array)\<rparr>))
   | _ \<Rightarrow> Some ap)"

definition dynamic_array_get :: "DynamicArray option \<Rightarrow> nat \<Rightarrow> string option" where
  "dynamic_array_get ap index = (case ap of None \<Rightarrow> None
     | Some array \<Rightarrow> if da_size array \<le> index then None else Some (da_slots array ! index))"

definition array_ok :: "DynamicArray \<Rightarrow> bool" where
  "array_ok a \<longleftrightarrow> da_size a = length (da_slots a) \<and> da_size a \<le> da_capacity a \<and> 0 < da_capacity a"

fun push_all :: "DynamicArray option \<Rightarrow> string list \<Rightarrow> DynamicArray option option" where
  "push_all a [] = Some a"
| "push_all a (e # es) = (case dynamic_array_push (\<lambda>_. True) a (Some e) of None \<Rightarrow> None | Some a' \<Rightarrow> push_all a' es)"

lemma push_ok:
  assumes "array_ok a" and "length e = da_element_size a"
  shows "\<exists>a'. dynamic_array_push (\<lambda>_. True) (Some a) (Some e) = Some (Some a') \<and> array_ok a' \<and>
    da_slots a' = da_slots a @ [e] \<and> da_element_size a' = da_element_size a"
  using assms by (auto simp: dynamic_array_push_def array_ok_def Let_def store_slot_def)

text \<open>After any number of elements was pushed to a new array, \<open>dynamic_array_get\<close> returns the
  \<open>i\<close>-th of them for every \<open>i\<close> below their number and NULL above, and the size never exceeds the
  capacity.\<close>

lemma dynamic_array_elements:
  assumes "create_dynamic_array ok n = Some a" and "list_all (\<lambda>e. length e = n) es"
  shows "\<exists>a'. push_all (Some a) es = Some (Some a') \<and> array_ok a' \<and>
     (\<forall>i. dynamic_array_get (Some a') i = nth_opt es i)"
proof -
  have gen: "\<exists>a'. push_all (Some b) xs = Some (Some a') \<and> array_ok a' \<and> da_slots a' = da_slots b @ xs"
    if "array_ok b" "list_all (\<lambda>e. length e = da_element_size b) xs" for b xs
    using that
  proof (induction xs arbitrary: b)
    case (Cons e xs)
    then obtain b' where "dynamic_array_push (\<lambda>_. True) (Some b) (Some e) = Some (Some b')" "array_ok b'"
      "da_slots b' = da_slots b @ [e]" "da_element_size b' = da_element_size b"
      using push_ok [of b e] by auto
    with Cons(1) [of b'] Cons(3) show ?case by simp
  qed simp
  from assms(1) have "array_ok a" "da_slots a = []" "da_element_size a = n"
    by (auto simp: create_dynamic_array_def array_ok_def split: if_splits)
  with gen [of a es] assms(2) obtain a' where "push_all (Some a) es = Some (Some a')" "array_ok a'" "da_slots a' = es"
    by auto
  then show ?thesis by (auto simp: dynamic_array_get_def array_ok_def nth_opt_def)
qed

lemma dynamic_array_elements_example:
  "\<exists>a a'. create_dynamic_array (\<lambda>_. True) 2 = Some a \<and> push_all (Some a) [''ab'', ''cd''] = Some (Some a') \<and>
     dynamic_array_get (Some a') 1 = Some ''cd''"
proof -
  obtain a where a: "create_dynamic_array (\<lambda>_. True) 2 = Some a" by (simp add: create_dynamic_array_def)
  from dynamic_array_elements [OF a, of "[''ab'', ''cd'']"] a show ?thesis by (auto simp: nth_opt_def)
qed

end
