(* ===== verification/Lx_Query.thy ===== *)
theory Lx_Query
  imports Lx_Database Lx_Parser Lx_Config
begin

text \<open>
  The query engine of \<open>src/src/query_engine.c\<close> and the command line of \<open>src/src/cli.c\<close>. The global
  \<open>g_database\<close> is an option that is passed along; what the CLI prints is a list of outputs. The
  allocation of the engine's result is the argument \<open>ok\<close>, those of the parser and of the database
  \<open>okp\<close> and \<open>okd\<close>; the \<open>strdup\<close> of the fixed messages is taken to succeed.
\<close>

section \<open>The engine\<close>

record EngineQueryResult =
  er_success :: bool
  er_message :: string
  er_row_count :: nat
  er_affected_rows :: nat

definition engine_result :: "bool \<Rightarrow> string \<Rightarrow> EngineQueryResult" where
  "engine_result success message =
     \<lparr>er_success = success, er_message = message, er_row_count = 0, er_affected_rows = 0\<rparr>"

definition first_word :: "string \<Rightarrow> string" where
  \<comment> \<open>the first word in lower case, at most 15 characters of it\<close>
  "first_word query = map tolower (take 15 (takeWhile (\<lambda>c. \<not> isspace c) (dropWhile isspace query)))"

definition query_validate :: "string option \<Rightarrow> bool" where
  "query_validate qp = (case qp of None \<Rightarrow> False
     | Some query \<Rightarrow> list_ex (\<lambda>w. strcmp (first_word query) w = 0)
         [''select'', ''insert'', ''update'', ''delete'', ''create'', ''drop''])"

definition query_execute ::
  "alloc \<Rightarrow> alloc \<Rightarrow> alloc \<Rightarrow> Database option \<Rightarrow> string option \<Rightarrow> EngineQueryResult option \<times> Database option" where
  "query_execute ok okp okd g_database qp =
     (if \<not> ok 0 then (None, g_database)
      else if qp = None \<or> qp = Some [] then (Some (engine_result False ''Query is empty''), g_database)
      else if \<not> query_validate qp
      then (Some (engine_result False ''Query syntax validation failed''), g_database)
      else (case parse_query okp qp of
          None \<Rightarrow> (Some (engine_result False ''Failed to parse query''), g_database)
        | Some parsed \<Rightarrow> (case g_database of
            None \<Rightarrow> (Some (engine_result True
                ''Query validated and parsed (No active database connection)''), g_database)
          | Some db \<Rightarrow> (case db_execute_query okd db qp of
              (Some db_res, db') \<Rightarrow> (Some ((engine_result True ''Query executed successfully on active database'')
                  \<lparr>er_row_count := q_row_count db_res, er_affected_rows := q_row_count db_res\<rparr>), Some db')
            | (None, db') \<Rightarrow> (Some (engine_result False ''Database failed to execute query''), Some db')))))"

section \<open>The command line\<close>

datatype cli_output = CliHelp | CliStatus nat | CliDisconnected | CliNoDatabase
  | CliResult string QueryResult | CliFailed string | CliUnknown string

definition starts_with_case :: "string \<Rightarrow> string \<Rightarrow> bool" where
  "starts_with_case str prefix \<longleftrightarrow>
     length prefix \<le> length str \<and> map tolower (take (length prefix) str) = map tolower prefix"

definition cli_handle_command ::
  "alloc \<Rightarrow> Database option \<Rightarrow> string option \<Rightarrow> cli_output list \<times> Database option" where
  "cli_handle_command okd g_database cp =
     (if cp = None \<or> cp = Some [] then ([], g_database)
      else
        let command = dropWhile isspace (the cp) in
        if starts_with_case command ''help'' then ([CliHelp], g_database)
        else if starts_with_case command ''status'' then
          ([case g_database of Some db \<Rightarrow> CliStatus (db_get_table_count (Some db)) | None \<Rightarrow> CliDisconnected], g_database)
        else if list_ex (starts_with_case command) [''select'', ''insert'', ''update'', ''delete'', ''create'', ''drop'']
        then (case g_database of
            None \<Rightarrow> ([CliNoDatabase], None)
          | Some db \<Rightarrow> (case db_execute_query okd db (Some command) of
              (Some result, db') \<Rightarrow> ([CliResult command result], Some db')
            | (None, db') \<Rightarrow> ([CliFailed command], Some db')))
        else ([CliUnknown command], g_database))"

definition cli_input :: "string \<Rightarrow> string" where
  \<comment> \<open>\<open>input[strcspn(input, "\n")] = 0\<close>\<close>
  "cli_input line = takeWhile (\<lambda>c. c \<noteq> newline) (c_str line)"

fun cli_run :: "alloc \<Rightarrow> Database option \<Rightarrow> string list \<Rightarrow> cli_output list \<times> Database option" where
  \<comment> \<open>the loop over the lines that \<open>fgets\<close> reads\<close>
  "cli_run okd g [] = ([], g)"
| "cli_run okd g (line # rest) =
     (let input = cli_input line in
      if strcmp input ''exit'' = 0 \<or> strcmp input ''quit'' = 0 then ([], g)
      else
        let (out, g1) = cli_handle_command okd g (Some input);
            (outs, g2) = cli_run okd g1 rest
        in (out @ outs, g2))"

section \<open>Properties\<close>

lemma db_execute_query_result:
  "db_execute_query okd db (Some q) = (r, db') \<Longrightarrow>
     db_tables db' = db_tables db \<and> db_table_count db' = db_table_count db \<and>
     db_transaction_level db' = db_transaction_level db \<and>
     (r = None \<longleftrightarrow> \<not> (okd 0 \<and> okd 1)) \<and> (\<forall>x. r = Some x \<longrightarrow> q_row_count x = 0 \<and> q_rows x = [])"
  by (auto simp: db_execute_query_def cache_get_simple_def parse_simple_query_def execute_simple_query_def
      shift_alloc_def update_simple_statistics_def Let_def split: option.splits if_splits)

lemma parse_query_defined: "(parse_query okp (Some q) = None) = (\<not> (okp 0 \<and> okp 1))"
  by (auto simp: parse_query_def Let_def split: option.split)

text \<open>The engine succeeds exactly when the query begins with one of its six keywords and memory
  suffices, and it never does anything to the data: no query returns or affects a row, and the
  tables are those before the call.\<close>

lemma query_execute_effect:
  assumes "ok 0" and "query_execute ok okp okd g (Some q) = (Some r, g')"
  shows "er_success r = (query_validate (Some q) \<and> q \<noteq> [] \<and> okp 0 \<and> okp 1 \<and> (g = None \<or> okd 0 \<and> okd 1)) \<and>
     er_row_count r = 0 \<and> er_affected_rows r = 0 \<and>
     map_option db_tables g' = map_option db_tables g \<and>
     map_option db_transaction_level g' = map_option db_transaction_level g"
proof (cases g)
  case None
  with assms parse_query_defined [of okp q] show ?thesis
    by (auto simp: query_execute_def engine_result_def split: if_splits option.splits)
next
  case (Some db)
  obtain x db' where e: "db_execute_query okd db (Some q) = (x, db')" by fastforce
  note f = db_execute_query_result [OF e]
  show ?thesis
  proof (cases "q \<noteq> [] \<and> query_validate (Some q) \<and> parse_query okp (Some q) \<noteq> None")
    case True
    with assms Some e f parse_query_defined [of okp q] show ?thesis
      by (cases x) (auto simp: query_execute_def engine_result_def)
  next
    case False
    with assms Some parse_query_defined [of okp q] show ?thesis
      by (auto simp: query_execute_def engine_result_def split: if_splits option.splits)
  qed
qed

definition empty_db :: Database where
  "empty_db = the (db_create (\<lambda>_. True))"

lemma query_execute_effect_example:
  "\<exists>r g'. query_execute (\<lambda>_. True) (\<lambda>_. True) (\<lambda>_. True) (Some empty_db) (Some ''select * from users'') = (Some r, g') \<and>
     er_success r \<and> er_row_count r = 0"
proof -
  have v: "query_validate (Some ''select * from users'')"
    by (simp add: query_validate_def first_word_def isspace_def tolower_def isupper_def)
  obtain parsed where p: "parse_query (\<lambda>_. True) (Some ''select * from users'') = Some parsed"
    using parse_query_defined [of "\<lambda>_. True" "''select * from users''"] by auto
  obtain x db' where d: "db_execute_query (\<lambda>_. True) empty_db (Some ''select * from users'') = (x, db')"
    by fastforce
  obtain y where x: "x = Some y"
    using db_execute_query_result [OF d] by auto
  obtain r g' where e: "query_execute (\<lambda>_. True) (\<lambda>_. True) (\<lambda>_. True) (Some empty_db)
      (Some ''select * from users'') = (Some r, g')"
    using v p d x by (simp add: query_execute_def)
  from query_execute_effect [OF _ e] v e show ?thesis by auto
qed
end
