(* ===== verification/Lx_Values.thy ===== *)
theory Lx_Values
  imports Lx_Types
begin

text \<open>
  Reading field values from text: \<open>validate_field_value\<close> and \<open>string_to_field_value\<close> of
  \<open>src/src/database.c\<close>.

  The decimal conversions of the C library to binary floating point are a parameter, as bit
  patterns: \<open>fl_strtod\<close> and \<open>fl_strtof\<close> give the value and the text at \<open>endptr\<close>, \<open>fl_to_float\<close> converts
  a \<open>double\<close> to a \<open>float\<close>.
\<close>

record float_lib =
  fl_strtod :: "string \<Rightarrow> nat \<times> string"
  fl_strtof :: "string \<Rightarrow> nat \<times> string"
  fl_to_float :: "nat \<Rightarrow> nat"

definition atof :: "float_lib \<Rightarrow> string \<Rightarrow> nat" where
  "atof lib s = fst (fl_strtod lib s)"

definition at_end :: "string \<Rightarrow> bool" where
  \<comment> \<open>\<open>*endptr == 0 || *endptr == '\n'\<close>\<close>
  "at_end endptr \<longleftrightarrow> (case endptr of [] \<Rightarrow> True | c # _ \<Rightarrow> c = CHR 0x0A)"

definition bool_words :: "string list" where
  "bool_words = [''true'', ''false'', ''1'', ''0'', ''yes'', ''no'']"

definition validate_field_value :: "float_lib \<Rightarrow> alloc \<Rightarrow> FieldType \<Rightarrow> string option \<Rightarrow> ErrorCode" where
  "validate_field_value lib ok type sp = (case sp of None \<Rightarrow> ERROR_INVALID_INPUT
     | Some value_str \<Rightarrow> (case type of
         TYPE_INT \<Rightarrow> if \<not> at_end (snd (strtol value_str)) then ERROR_TYPE_MISMATCH else SUCCESS
       | TYPE_FLOAT \<Rightarrow> if \<not> at_end (snd (fl_strtof lib value_str)) then ERROR_TYPE_MISMATCH else SUCCESS
       | TYPE_DOUBLE \<Rightarrow> if \<not> at_end (snd (fl_strtod lib value_str)) then ERROR_TYPE_MISMATCH else SUCCESS
       | TYPE_BOOL \<Rightarrow>
           if \<not> ok 0 then ERROR_MEMORY_ALLOCATION
           else if \<not> list_ex (\<lambda>w. strcmp (map tolower value_str) w = 0) bool_words
           then ERROR_TYPE_MISMATCH else SUCCESS
       | TYPE_STRING \<Rightarrow> SUCCESS
       | TYPE_DATETIME \<Rightarrow> if length value_str < 19 then ERROR_TYPE_MISMATCH else SUCCESS
       | TYPE_BLOB \<Rightarrow> SUCCESS
       | TYPE_NULL \<Rightarrow> SUCCESS
       | TYPE_UNKNOWN \<Rightarrow> ERROR_TYPE_MISMATCH))"

definition store_text :: "float_lib \<Rightarrow> string \<Rightarrow> Field \<Rightarrow> Field" where
  \<comment> \<open>the assignment that the type of the field selects\<close>
  "store_text lib value_str field = field\<lparr>f_value := (case f_type field of
       TYPE_INT \<Rightarrow> set_int_value (atoi value_str) (f_value field)
     | TYPE_STRING \<Rightarrow> set_string_value value_str (f_value field)
     | TYPE_FLOAT \<Rightarrow> set_float_bits (fl_to_float lib (atof lib value_str)) (f_value field)
     | TYPE_DOUBLE \<Rightarrow> set_double_bits (atof lib value_str) (f_value field)
     | TYPE_BOOL \<Rightarrow> set_bool_value (strcasecmp_eq value_str ''true'' \<or> strcasecmp_eq value_str ''1'' \<or>
         strcasecmp_eq value_str ''yes'') (f_value field)
     | TYPE_DATETIME \<Rightarrow> set_string_value value_str (f_value field)
     | TYPE_BLOB \<Rightarrow> set_string_value value_str (f_value field)
     | TYPE_NULL \<Rightarrow> set_int_value 0 (f_value field)
     | TYPE_UNKNOWN \<Rightarrow> f_value field)\<rparr>"

definition string_to_field_value ::
  "float_lib \<Rightarrow> alloc \<Rightarrow> Field option \<Rightarrow> string option \<Rightarrow> ErrorCode \<times> Field option" where
  "string_to_field_value lib ok fp sp = (case (fp, sp) of
     (Some field, Some value_str) \<Rightarrow>
       let validation = validate_field_value lib ok (f_type field) (Some value_str) in
       if validation \<noteq> SUCCESS then (validation, Some field)
       else (SUCCESS, Some (store_text lib value_str field))
   | _ \<Rightarrow> (ERROR_INVALID_INPUT, fp))"

section \<open>Properties\<close>

definition text_of_bool :: "bool \<Rightarrow> string" where
  "text_of_bool b = (if b then ''true'' else ''false'')"

lemma bool_text [simp]: "list_ex ((=) (map tolower (text_of_bool b))) bool_words"
  "strcasecmp_eq (text_of_bool b) ''true'' \<or> strcasecmp_eq (text_of_bool b) ''1'' \<or>
     strcasecmp_eq (text_of_bool b) ''yes'' \<longleftrightarrow> b"
  by (simp_all add: bool_words_def text_of_bool_def strcasecmp_eq_def tolower_def isupper_def)

text \<open>\<open>string_to_field_value\<close> stores the number that a decimal text denotes in an INT field, the
  truth value in a BOOL field, and the first 255 bytes of the text in a STRING field; a text that
  is refused leaves the field as it was. It also accepts the empty text for an INT, as 0.\<close>

lemma string_to_field_value_spec:
  assumes "field_ok f" and "ok 0"
  shows "(f_type f = TYPE_INT \<and> c_int i \<longrightarrow>
       (\<exists>f'. string_to_field_value lib ok (Some f) (Some (show_int i)) = (SUCCESS, Some f') \<and> int_value (f_value f') = i)) \<and>
    (f_type f = TYPE_BOOL \<longrightarrow>
       (\<exists>f'. string_to_field_value lib ok (Some f) (Some (text_of_bool b)) = (SUCCESS, Some f') \<and> bool_value (f_value f') = b)) \<and>
    (f_type f = TYPE_STRING \<and> nul_free s \<longrightarrow>
       (\<exists>f'. string_to_field_value lib ok (Some f) (Some s) = (SUCCESS, Some f') \<and> string_value (f_value f') = take 255 s)) \<and>
    (string_to_field_value lib ok (Some f) (Some s) = (e, f') \<and> e \<noteq> SUCCESS \<longrightarrow> f' = Some f) \<and>
    (f_type f = TYPE_INT \<longrightarrow>
       (\<exists>f'. string_to_field_value lib ok (Some f) (Some []) = (SUCCESS, Some f') \<and> int_value (f_value f') = 0))"
proof -
  have v: "value_ok (f_value f)" using assms(1) by (simp add: field_ok_def)
  have empty: "strtol [] = (0, [])" by (simp add: strtol_def strtol_sign_def)
  have "string_to_field_value lib ok (Some f) (Some s) = (e, f') \<Longrightarrow> e \<noteq> SUCCESS \<Longrightarrow> f' = Some f"
    by (auto simp: string_to_field_value_def Let_def split: if_splits)
  moreover have "c_int i \<Longrightarrow> strtol (show_int i) = (i, [])" using strtol_show_int [of i "[]"] by simp
  ultimately show ?thesis
    using v assms(2)
    by (auto simp: string_to_field_value_def validate_field_value_def store_text_def at_end_def empty
        MAX_FIELD_LEN_def atoi_def c_int_def int_min_def int_max_def)
qed

definition no_floats :: float_lib where
  \<comment> \<open>a library that converts nothing\<close>
  "no_floats = \<lparr>fl_strtod = (\<lambda>s. (0, s)), fl_strtof = (\<lambda>s. (0, s)), fl_to_float = (\<lambda>_. 0)\<rparr>"

lemma string_to_field_value_spec_example:
  "\<exists>f'. string_to_field_value no_floats (\<lambda>_. True) (Some (zero_field\<lparr>f_type := TYPE_INT\<rparr>)) (Some (show_int 42)) =
     (SUCCESS, Some f') \<and> int_value (f_value f') = 42"
  using string_to_field_value_spec [of "zero_field\<lparr>f_type := TYPE_INT\<rparr>" "\<lambda>_. True" 42 no_floats]
  by (simp add: field_ok_def zero_field_def c_int_def int_min_def int_max_def)

text \<open>The name that \<open>field_type_to_string\<close> prints is read back by \<open>string_to_field_type\<close> for every
  type but DOUBLE and NULL, which come back as unknown.\<close>

lemma field_type_name_roundtrip:
  "string_to_field_type (Some (field_type_to_string ty)) =
     (if ty \<in> {TYPE_DOUBLE, TYPE_NULL} then TYPE_UNKNOWN else ty)"
  by (cases ty) (simp_all add: string_to_field_type_def strcasecmp_eval)

end
