(* ===== verification/Lx_Security.thy ===== *)
theory Lx_Security
  imports Lx_Strings
begin

text \<open>
  The functions of \<open>src/src/security.c\<close>: the reversible encoding of passwords
  (\<open>security_encrypt\<close>, \<open>security_decrypt\<close>), \<open>security_hash\<close> and \<open>security_validate_token\<close>.

  An output buffer is the list of its \<open>max_len\<close> bytes; \<open>write_string\<close> is a \<open>sprintf\<close> at an index
  and is undefined (\<open>None\<close>) when the text and its NUL do not fit. The \<open>unsigned long\<close> of
  \<open>security_hash\<close> has 32 bits: \<open>src/Makefile\<close> builds with the compiler of mingw32.
\<close>

unbundle bit_operations_syntax

section \<open>Hexadecimal text\<close>

definition hex_char :: "nat \<Rightarrow> nat \<Rightarrow> char" where
  \<comment> \<open>a digit, with the letters from \<open>base\<close> (65 upper case, 97 lower case)\<close>
  "hex_char base d = (if d < 10 then char_of (48 + d) else char_of (base + (d - 10)))"

definition isxdigit :: "char \<Rightarrow> bool" where
  "isxdigit c \<longleftrightarrow> (let n = (of_char c :: nat) in 48 \<le> n \<and> n \<le> 57 \<or> 65 \<le> n \<and> n \<le> 70 \<or> 97 \<le> n \<and> n \<le> 102)"

definition xdigit_value :: "char \<Rightarrow> nat" where
  "xdigit_value c = (let n = of_char c in if n \<le> 57 then n - 48 else if n \<le> 70 then n - 55 else n - 87)"

definition hex2 :: "nat \<Rightarrow> string" where
  \<comment> \<open>\<open>%02X\<close> of a byte\<close>
  "hex2 b = [hex_char 65 (b div 16), hex_char 65 (b mod 16)]"

fun hex_pad :: "nat \<Rightarrow> nat \<Rightarrow> string" where
  \<comment> \<open>the last \<open>k\<close> hexadecimal digits, lower case\<close>
  "hex_pad 0 n = []"
| "hex_pad (Suc k) n = hex_pad k (n div 16) @ [hex_char 97 (n mod 16)]"

definition scan_hex2 :: "string \<Rightarrow> nat option" where
  \<comment> \<open>\<open>sscanf(hex, "%2X", &val)\<close>: white space is skipped, a sign counts, the value is unsigned\<close>
  "scan_hex2 hex =
     (let t = take 2 (dropWhile isspace hex);
          (neg, u) = strtol_sign t;
          ds = takeWhile isxdigit u;
          v = foldl (\<lambda>v c. 16 * v + xdigit_value c) 0 ds
      in if ds = [] \<or> (ds = ''0'' \<and> (u = ''0x'' \<or> u = ''0X'')) then None
         else Some (if neg then nat ((- int v) mod 2 ^ 32) else v))"

section \<open>Encryption\<close>

definition key_byte :: nat where "key_byte = 0x5A"

definition xor_byte :: "nat \<Rightarrow> nat \<Rightarrow> nat" where
  \<comment> \<open>exclusive or, as an unsigned char\<close>
  "xor_byte a b = unsigned ((word_of_nat a :: 8 word) XOR word_of_nat b)"

definition write_string :: "string \<Rightarrow> nat \<Rightarrow> string \<Rightarrow> string option" where
  "write_string buf i s =
     (if i + length s < length buf
      then Some (take i buf @ s @ [NUL] @ drop (i + length s + 1) buf) else None)"

fun encrypt_loop :: "string \<Rightarrow> nat \<Rightarrow> string \<Rightarrow> string option" where
  "encrypt_loop [] i buf = Some buf"
| "encrypt_loop (c # cs) i buf =
     (case write_string buf (i * 2) (hex2 (xor_byte (of_char c) key_byte)) of
        None \<Rightarrow> None | Some buf' \<Rightarrow> encrypt_loop cs (Suc i) buf')"

definition security_encrypt :: "string option \<Rightarrow> string option \<Rightarrow> (int \<times> string option) option" where
  \<comment> \<open>the return value and the buffer, whose length is \<open>max_len\<close>\<close>
  "security_encrypt ip op = (case (ip, op) of
     (Some input, Some buf) \<Rightarrow>
       if buf = [] then Some (-1, op)
       else if length buf \<le> length input * 2 then Some (-1, op)
       else (case encrypt_loop input 0 buf of
           None \<Rightarrow> None
         | Some out \<Rightarrow> Some (0, Some (out[length input * 2 := NUL])))
   | _ \<Rightarrow> Some (-1, op))"

fun decrypt_loop :: "string \<Rightarrow> nat \<Rightarrow> string \<Rightarrow> int \<times> string" where
  \<comment> \<open>the loop over pairs; a pair that is no number ends the call with -1\<close>
  "decrypt_loop (a # b # cs) i buf =
     (case scan_hex2 [a, b] of
        None \<Rightarrow> (-1, buf)
      | Some val \<Rightarrow> decrypt_loop cs (Suc i) (buf[i := char_of (xor_byte (val mod 256) key_byte)]))"
| "decrypt_loop _ i buf = (0, buf[i := NUL])"

definition security_decrypt :: "string option \<Rightarrow> string option \<Rightarrow> int \<times> string option" where
  "security_decrypt ip op = (case (ip, op) of
     (Some input, Some buf) \<Rightarrow>
       if buf = [] then (-1, op)
       else if odd (length input) \<or> length buf \<le> length input div 2 then (-1, op)
       else (let (r, out) = decrypt_loop input 0 buf in (r, Some out))
   | _ \<Rightarrow> (-1, op))"

section \<open>Hash and tokens\<close>

fun uhash_loop :: "32 word \<Rightarrow> string \<Rightarrow> 32 word" where
  "uhash_loop hash [] = hash"
| "uhash_loop hash (c # str) = uhash_loop ((push_bit 5 hash + hash) + word_of_nat (of_char c)) str"

definition security_hash :: "string option \<Rightarrow> string option \<Rightarrow> int \<times> string option" where
  "security_hash ip op = (case (ip, op) of
     (Some input, Some buf) \<Rightarrow>
       if buf = [] then (-1, op)
       else
         let s = take (length buf - 1) (hex_pad 16 (unat (uhash_loop 5381 input)))
         in (0, Some (s @ [NUL] @ drop (length s + 1) buf))
   | _ \<Rightarrow> (-1, op))"

definition security_validate_token :: "string option \<Rightarrow> bool" where
  "security_validate_token tp = (case tp of None \<Rightarrow> False
     | Some token \<Rightarrow>
         if take 12 token = ''admin_token_'' then
           12 < length token \<and> list_all isxdigit (drop 12 token)
         else False)"

section \<open>Properties\<close>

lemma isxdigit_hex_char: "d < 16 \<Longrightarrow> base = 65 \<or> base = 97 \<Longrightarrow> isxdigit (hex_char base d)"
  by (auto simp: hex_char_def isxdigit_def)

lemma xdigit_value_hex_char: "d < 16 \<Longrightarrow> base = 65 \<or> base = 97 \<Longrightarrow> xdigit_value (hex_char base d) = d"
  by (auto simp: hex_char_def xdigit_value_def)

lemma scan_hex2_hex2: "b < 256 \<Longrightarrow> scan_hex2 (hex2 b) = Some b"
proof -
  assume b: "b < 256"
  let ?h = "hex_char 65 (b div 16)" and ?l = "hex_char 65 (b mod 16)"
  have d: "b div 16 < 16" "b mod 16 < 16" using b by auto
  have x: "isxdigit ?h" "isxdigit ?l" using d by (auto intro: isxdigit_hex_char)
  have ns: "\<not> isspace c \<and> c \<noteq> CHR ''-'' \<and> c \<noteq> CHR ''+'' \<and> c \<noteq> CHR ''x'' \<and> c \<noteq> CHR ''X''" if "isxdigit c" for c
    using that by (auto simp: isxdigit_def isspace_def Let_def)
  show ?thesis
    using x ns [OF x(1)] ns [OF x(2)] d
    by (simp add: scan_hex2_def hex2_def strtol_sign_def xdigit_value_hex_char Let_def)
qed

lemma xor_byte_less: "xor_byte a b < 256"
  unfolding xor_byte_def using unsigned_less [of "(word_of_nat a :: 8 word) XOR word_of_nat b", where ?'a = nat] by simp

lemma xor_byte_xor_byte: "a < 256 \<Longrightarrow> xor_byte (xor_byte a k) k = a"
  by (simp add: xor_byte_def xor.assoc unsigned_of_nat take_bit_eq_mod)

lemma length_encrypt_loop: "encrypt_loop cs i buf = Some out \<Longrightarrow> length out = length buf"
  by (induction cs i buf rule: encrypt_loop.induct) (auto simp: write_string_def split: option.splits if_splits)

lemma length_hex2 [simp]: "length (hex2 b) = 2"
  by (simp add: hex2_def)

lemma encrypt_loop_result:
  assumes "2 * i + 2 * length cs < length buf"
  shows "\<exists>out. encrypt_loop cs i buf = Some out \<and>
    take (2 * i + 2 * length cs) out =
      take (2 * i) buf @ concat (map (\<lambda>c. hex2 (xor_byte (of_char c) key_byte)) cs)"
  using assms
proof (induction cs arbitrary: i buf)
  case (Cons c cs)
  let ?h = "hex2 (xor_byte (of_char c) key_byte)"
  have l: "length ?h = 2" by (simp add: hex2_def)
  let ?o = "take (i * 2) buf @ ?h @ [NUL] @ drop (i * 2 + 3) buf"
  have w: "write_string buf (i * 2) ?h = Some ?o"
    using Cons(2) l by (simp add: write_string_def numeral_3_eq_3)
  have "2 * Suc i + 2 * length cs < length ?o" using Cons(2) by auto
  from Cons(1) [OF this] obtain out where
    "encrypt_loop cs (Suc i) ?o = Some out"
    "take (2 * Suc i + 2 * length cs) out =
       take (2 * Suc i) ?o @ concat (map (\<lambda>c. hex2 (xor_byte (of_char c) key_byte)) cs)" by auto
  with w l Cons(2) show ?case by (simp add: mult.commute)
qed simp
definition hex_text :: "string \<Rightarrow> string" where
  \<comment> \<open>the encoding: two digits for every byte\<close>
  "hex_text s = concat (map (\<lambda>c. hex2 (xor_byte (of_char c) key_byte)) s)"

lemma hex_text_simps: "hex_text [] = []"
  "hex_text (c # cs) = hex2 (xor_byte (of_char c) key_byte) @ hex_text cs"
  by (simp_all add: hex_text_def)

lemma length_hex_text [simp]: "length (hex_text s) = 2 * length s"
  by (induction s) (simp_all add: hex_text_simps hex2_def)

lemma hex_text_digits: "list_all isxdigit (hex_text s)"
proof (induction s)
  case (Cons c cs)
  have "xor_byte (of_char c) key_byte < 16 * 16" using xor_byte_less by simp
  then have "xor_byte (of_char c) key_byte div 16 < 16" by (rule less_mult_imp_div_less)
  with Cons show ?case by (simp add: hex_text_simps hex2_def isxdigit_hex_char)
qed (simp add: hex_text_simps)

lemma isxdigit_not_NUL: "isxdigit c \<Longrightarrow> c \<noteq> NUL"
  by (auto simp: isxdigit_def)

lemma nul_free_hex_text [simp]: "nul_free (hex_text s)"
proof -
  have "list_all P xs \<Longrightarrow> (\<And>x. P x \<Longrightarrow> Q x) \<Longrightarrow> list_all Q xs" for P Q and xs :: string
    by (auto simp: list_all_iff)
  from this [OF hex_text_digits isxdigit_not_NUL] show ?thesis by (simp add: nul_free_def)
qed

lemma c_str_cut: "nul_free s \<Longrightarrow> take (length s) b = s \<Longrightarrow> length s < length b \<Longrightarrow> c_str (b[length s := NUL]) = s"
  by (simp add: c_str_take_NUL_at)

lemma decrypt_loop_hex_text:
  assumes "i + length s < length buf" and "take i buf = pre" and "length pre = i" and "nul_free (pre @ s)"
  shows "\<exists>out. decrypt_loop (hex_text s) i buf = (0, out) \<and> c_str out = pre @ s \<and> length out = length buf"
  using assms
proof (induction s arbitrary: i buf pre)
  case Nil
  then show ?case
    using c_str_cut [of pre buf] by (simp add: hex_text_simps)
next
  case (Cons c cs)
  let ?b = "buf[i := c]"
  have x: "char_of (xor_byte (xor_byte (of_char c) key_byte mod 256) key_byte) = c"
    using xor_byte_less [of "of_char c" key_byte] by (simp add: xor_byte_xor_byte)
  have "take (Suc i) ?b = pre @ [c]" using Cons.prems by (simp add: take_Suc_conv_app_nth)
  then obtain out where "decrypt_loop (hex_text cs) (Suc i) ?b = (0, out)" "c_str out = (pre @ [c]) @ cs"
    "length out = length buf"
    using Cons.IH [of "Suc i" ?b "pre @ [c]"] Cons.prems by auto
  then show ?case
    using scan_hex2_hex2 [OF xor_byte_less, of "of_char c" key_byte] x
    by (simp add: hex_text_simps hex2_def)
qed

lemma encrypt_result:
  assumes "2 * length s < length buf"
  shows "\<exists>out. security_encrypt (Some s) (Some buf) = Some (0, Some out) \<and> c_str out = hex_text s \<and>
     length out = length buf"
proof -
  from encrypt_loop_result [of 0 s buf] assms obtain out where
    o: "encrypt_loop s 0 buf = Some out" "take (2 * length s) out = hex_text s"
    by (auto simp: hex_text_def)
  from length_encrypt_loop [OF o(1)] assms o(2)
  have "c_str (out[length (hex_text s) := NUL]) = hex_text s" by (intro c_str_cut) auto
  with o assms length_encrypt_loop [OF o(1)] show ?thesis
    by (auto simp: security_encrypt_def mult.commute)
qed

lemma decrypt_result:
  assumes "nul_free s" and "length s < length buf"
  shows "\<exists>out. security_decrypt (Some (hex_text s)) (Some buf) = (0, Some out) \<and> c_str out = s"
proof -
  from decrypt_loop_hex_text [of 0 s buf "[]"] assms obtain out where
    "decrypt_loop (hex_text s) 0 buf = (0, out)" "c_str out = s" by auto
  with assms show ?thesis by (auto simp: security_decrypt_def)
qed

definition encrypted :: "string \<Rightarrow> string" where
  \<comment> \<open>what \<open>security_encrypt\<close> leaves in a buffer of just the size it needs\<close>
  "encrypted s = (case security_encrypt (Some s) (Some (replicate (2 * length s + 1) NUL)) of
     Some (_, Some out) \<Rightarrow> c_str out | _ \<Rightarrow> [])"

definition decrypted :: "string \<Rightarrow> string" where
  "decrypted s = (case security_decrypt (Some s) (Some (replicate (length s div 2 + 1) NUL)) of
     (_, Some out) \<Rightarrow> c_str out | _ \<Rightarrow> [])"

lemma encrypted_hex_text: "encrypted s = hex_text s"
  using encrypt_result [of s "replicate (2 * length s + 1) NUL"] by (auto simp: encrypted_def)

interpretation password: codec encrypted decrypted nul_free
proof
  fix s assume "nul_free s"
  then show "decrypted (encrypted s) = s"
    using decrypt_result [of s "replicate (length s + 1) NUL"] by (auto simp: encrypted_hex_text decrypted_def)
qed



text \<open>A token is accepted exactly when it is \<open>admin_token_\<close> followed by at least one hexadecimal
  digit and nothing else: no secret is involved.\<close>

lemma validate_token_spec:
  "security_validate_token (Some t) \<longleftrightarrow>
     (\<exists>h. t = ''admin_token_'' @ h \<and> h \<noteq> [] \<and> list_all isxdigit h)"
proof
  assume "security_validate_token (Some t)"
  then have "take 12 t = ''admin_token_''" "12 < length t" "list_all isxdigit (drop 12 t)"
    by (auto simp: security_validate_token_def split: if_splits)
  then show "\<exists>h. t = ''admin_token_'' @ h \<and> h \<noteq> [] \<and> list_all isxdigit h"
    by (intro exI [of _ "drop 12 t"]) (metis append_take_drop_id drop_eq_Nil not_le)
qed (auto simp: security_validate_token_def)

lemma hex_pad_digits: "list_all isxdigit (hex_pad k n) \<and> length (hex_pad k n) = k"
  by (induction k arbitrary: n) (simp_all add: isxdigit_hex_char)

lemma uhash_loop_ascii:
  "list_all (\<lambda>c. (of_char c :: nat) < 128) s \<Longrightarrow> uhash_loop h s = hash_loop h s"
proof (induction s arbitrary: h)
  case (Cons c s)
  have "schar c = int (of_char c)" using Cons(2) by (simp add: schar_def Let_def)
  with Cons show ?case by simp
qed simp

text \<open>\<open>security_hash\<close> writes 16 lower case hexadecimal digits when the buffer has 17 bytes or more,
  always terminated within the buffer, and they are those of \<open>hash_string\<close> of \<open>utils.c\<close> for an ASCII
  string: the two differ only on bytes above 127.\<close>

lemma security_hash_spec:
  assumes "buf \<noteq> []"
  shows "\<exists>out. security_hash (Some s) (Some buf) = (0, Some out) \<and> (17 \<le> length buf \<longrightarrow> length out = length buf \<and>
     c_str out = hex_pad 16 (unat (uhash_loop 5381 s)) \<and> length (c_str out) = 16) \<and>
     length (c_str out) < length buf \<and>
     (list_all (\<lambda>c. (of_char c :: nat) < 128) s \<longrightarrow> uhash_loop 5381 s = hash_string (Some s))"
proof -
  let ?h = "hex_pad 16 (unat (uhash_loop 5381 s))"
  let ?s = "take (length buf - 1) ?h"
  have "nul_free ?h"
    using hex_pad_digits [of 16 "unat (uhash_loop 5381 s)"] isxdigit_not_NUL by (auto simp: nul_free_iff list_all_iff)
  then have "nul_free ?s" by (rule nul_free_take)
  then have "c_str (?s @ NUL # drop (length ?s + 1) buf) = ?s" by simp
  moreover have "length ?s < length buf" using assms by (cases buf) auto
  moreover have "17 \<le> length buf \<Longrightarrow> ?s = ?h \<and> length ?h = 16" using hex_pad_digits by simp
  moreover have "security_hash (Some s) (Some buf) = (0, Some (?s @ NUL # drop (length ?s + 1) buf))"
    using assms by (simp add: security_hash_def Let_def)
  ultimately show ?thesis
    using uhash_loop_ascii by (auto simp: hash_string_def)
qed

lemma security_hash_spec_example:
  "\<exists>out. security_hash (Some ''admin'') (Some (replicate 17 NUL)) = (0, Some out) \<and> length (c_str out) = 16 \<and>
     uhash_loop 5381 ''admin'' = hash_string (Some ''admin'')"
  using security_hash_spec [of "replicate 17 NUL" "''admin''"] by auto

end
