(* ===== verification/Lx_Storage.thy ===== *)
theory Lx_Storage
  imports Lx_Config
begin

text \<open>
  Files: the storage layer of \<open>src/src/storage.c\<close> and the backups of \<open>src/src/backup.c\<close>, over a file
  system that maps paths to contents, with \<open>copy_file\<close> of \<open>src/src/utils.c\<close>.

  The outcome of a system call is an argument: \<open>fd\<close> is what \<open>open\<close> returns, \<open>done\<close> what \<open>write\<close>
  returns (-1, or the number of bytes taken), \<open>fw k\<close> how many bytes of its \<open>k\<close>-th block \<open>fwrite\<close>
  takes. A \<open>read\<close> of a regular file returns what is there.
\<close>

section \<open>Storage\<close>

record Storage =
  st_path :: "string option"
  st_fd :: int
  st_size :: nat

definition storage_init ::
  "alloc \<Rightarrow> int \<Rightarrow> bool \<Rightarrow> file_system \<Rightarrow> Storage option \<Rightarrow> string option \<Rightarrow> int \<times> file_system \<times> Storage option" where
  "storage_init ok fd fstat_ok files sp pp = (case (sp, pp) of
     (Some storage, Some path) \<Rightarrow>
       if \<not> ok 0 then (-1, files, Some (storage\<lparr>st_path := None\<rparr>))
       else if fd < 0 then (-1, files, Some (storage\<lparr>st_path := None, st_fd := fd\<rparr>))
       else
         let files' = (case files path of None \<Rightarrow> files(path \<mapsto> []) | Some _ \<Rightarrow> files) in
         (0, files', Some (storage\<lparr>st_path := Some path, st_fd := fd,
            st_size := (if fstat_ok then length (the (files' path)) else 0)\<rparr>))
   | _ \<Rightarrow> (-1, files, sp))"

definition storage_read :: "string \<Rightarrow> Storage option \<Rightarrow> nat \<Rightarrow> int \<Rightarrow> int \<times> string" where
  \<comment> \<open>\<open>contents\<close>: those of the file behind the descriptor; the return value and the bytes read\<close>
  "storage_read contents sp sz offset = (case sp of None \<Rightarrow> (-1, [])
     | Some storage \<Rightarrow>
         if st_fd storage < 0 then (-1, [])
         else if offset < 0 then (-1, [])
         else let bs = take sz (drop (nat offset) contents) in (int (length bs), bs))"

definition overlay :: "string \<Rightarrow> nat \<Rightarrow> string \<Rightarrow> string" where
  \<comment> \<open>the contents after a write at an offset; a hole is filled with zero bytes\<close>
  "overlay contents offset bs =
     take offset (contents @ replicate (offset - length contents) NUL) @ bs @ drop (offset + length bs) contents"

definition storage_write ::
  "int \<Rightarrow> string \<Rightarrow> Storage option \<Rightarrow> string option \<Rightarrow> nat \<Rightarrow> int \<Rightarrow> int \<times> string \<times> Storage option" where
  "storage_write done contents sp dp sz offset = (case (sp, dp) of
     (Some storage, Some data) \<Rightarrow>
       if st_fd storage < 0 then (-1, contents, sp)
       else if offset < 0 then (-1, contents, sp)
       else if 0 < done then
         (done, overlay contents (nat offset) (take (nat done) data),
          Some (if int (st_size storage) < offset + done
                then storage\<lparr>st_size := nat (offset + done)\<rparr> else storage))
       else (done, contents, sp)
   | _ \<Rightarrow> (-1, contents, sp))"

definition storage_close :: "Storage option \<Rightarrow> Storage option" where
  "storage_close sp = (case sp of None \<Rightarrow> None
     | Some storage \<Rightarrow> Some \<lparr>st_path = None,
         st_fd = (if 0 \<le> st_fd storage then -1 else st_fd storage), st_size = 0\<rparr>)"

section \<open>Random access\<close>

text \<open>
  What a client of a byte store relies on: a write is seen by a read of the same place and by no
  other read. Last-write-wins and the independence of disjoint writes follow.
\<close>

locale random_access =
  fixes rd :: "'s \<Rightarrow> nat \<Rightarrow> nat \<Rightarrow> string" \<comment> \<open>state, offset, size\<close>
    and wr :: "'s \<Rightarrow> nat \<Rightarrow> string \<Rightarrow> 's"
    and inv :: "'s \<Rightarrow> bool"
  assumes wr_inv: "inv s \<Longrightarrow> inv (wr s i bs)"
    and read_written: "inv s \<Longrightarrow> rd (wr s i bs) i (length bs) = bs"
    and read_before: "inv s \<Longrightarrow> length (rd s j n) = n \<Longrightarrow> j + n \<le> i \<Longrightarrow> rd (wr s i bs) j n = rd s j n"
    and read_after: "inv s \<Longrightarrow> i + length bs \<le> j \<Longrightarrow> rd (wr s i bs) j n = rd s j n"
begin

lemma last_write_wins: "inv s \<Longrightarrow> length as = length bs \<Longrightarrow> rd (wr (wr s i as) i bs) i (length as) = bs"
  using read_written [of "wr s i as" i bs] wr_inv by simp

lemma disjoint_writes:
  assumes "inv s" and "i + length as \<le> j"
  shows "rd (wr (wr s i as) j bs) i (length as) = as" and "rd (wr (wr s j bs) i as) j (length bs) = bs"
proof -
  have "rd (wr s i as) i (length as) = as" using assms(1) by (rule read_written)
  with read_before [of "wr s i as" i "length as" j bs] assms show "rd (wr (wr s i as) j bs) i (length as) = as"
    by (simp add: wr_inv)
  show "rd (wr (wr s j bs) i as) j (length bs) = bs"
    using read_after [of "wr s j bs" i as j "length bs"] read_written [OF assms(1), of j bs] assms
    by (simp add: wr_inv)
qed

end

lemma take_drop_overlay:
  "take (length bs) (drop i (overlay c i bs)) = bs"
  "length (take n (drop j c)) = n \<Longrightarrow> j + n \<le> i \<Longrightarrow> take n (drop j (overlay c i bs)) = take n (drop j c)"
  "i + length bs \<le> j \<Longrightarrow> drop j (overlay c i bs) = drop j c"
proof -
  let ?p = "take i (c @ replicate (i - length c) NUL)"
  have p: "length ?p = i" by simp
  then have "drop i (overlay c i bs) = bs @ drop (i + length bs) c"
    by (simp add: overlay_def del: take_append)
  then show "take (length bs) (drop i (overlay c i bs)) = bs" by simp
  show "take n (drop j (overlay c i bs)) = take n (drop j c)"
    if "length (take n (drop j c)) = n" "j + n \<le> i"
  proof (cases "n = 0")
    case False
    with that have "j + n \<le> length c" by (auto simp: min_def split: if_splits)
    then have "take (n + j) (c @ replicate (i - length c) NUL) = take (n + j) c" by simp
    moreover have "take (n + j) (?p @ xs) = take (n + j) (c @ replicate (i - length c) NUL)" for xs
      using that(2) p by (simp only: take_append length_take) (simp add: min_def)
    ultimately have "take (n + j) (overlay c i bs) = take (n + j) c" by (simp only: overlay_def)
    then show ?thesis by (simp add: take_drop)
  qed simp
  show "drop j (overlay c i bs) = drop j c" if "i + length bs \<le> j"
    using that p by (simp add: overlay_def del: take_append)
qed

lemma length_overlay: "bs \<noteq> [] \<Longrightarrow> length (overlay c i bs) = max (length c) (i + length bs)"
  by (auto simp: overlay_def)

definition file_store :: "string \<times> Storage \<Rightarrow> bool" where
  \<comment> \<open>an open file whose recorded size is its length\<close>
  "file_store s \<longleftrightarrow> 0 \<le> st_fd (snd s) \<and> st_size (snd s) = length (fst s)"

definition file_read :: "string \<times> Storage \<Rightarrow> nat \<Rightarrow> nat \<Rightarrow> string" where
  "file_read s offset sz = snd (storage_read (fst s) (Some (snd s)) sz (int offset))"

definition file_write :: "string \<times> Storage \<Rightarrow> nat \<Rightarrow> string \<Rightarrow> string \<times> Storage" where
  \<comment> \<open>a write that the system carries out completely\<close>
  "file_write s offset bs = (case storage_write (int (length bs)) (fst s) (Some (snd s)) (Some bs) (length bs) (int offset) of
     (r, c, Some st) \<Rightarrow> (c, st) | (r, c, None) \<Rightarrow> s)"

lemma file_write_eq:
  assumes "file_store s"
  shows "file_write s i bs = (if bs = [] then s else (overlay (fst s) i bs,
    (snd s)\<lparr>st_size := max (st_size (snd s)) (i + length bs)\<rparr>))"
  using assms by (auto simp: file_write_def storage_write_def file_store_def max_def)

interpretation fs: random_access file_read file_write file_store
proof
  fix s i bs j n assume s: "file_store s"
  note w = file_write_eq [OF s]
  show inv: "file_store (file_write s i bs)"
    using s by (auto simp: w file_store_def length_overlay)
  from s inv have fd: "0 \<le> st_fd (snd s)" "0 \<le> st_fd (snd (file_write s i bs))" by (auto simp: file_store_def)
  then have r: "file_read s k m = take m (drop k (fst s))"
    "file_read (file_write s i bs) k m = take m (drop k (fst (file_write s i bs)))" for k m
    by (simp_all add: file_read_def storage_read_def)
  show "file_read (file_write s i bs) i (length bs) = bs"
    unfolding r by (simp add: w take_drop_overlay(1))
  show "file_read (file_write s i bs) j n = file_read s j n" if "length (file_read s j n) = n" "j + n \<le> i"
    using that unfolding r by (simp add: w take_drop_overlay(2))
  show "file_read (file_write s i bs) j n = file_read s j n" if "i + length bs \<le> j"
    using that unfolding r by (simp add: w take_drop_overlay(3))
qed

text \<open>C32: in a storage file, a complete write is read back at its offset, a later write elsewhere does
  not change it, the last write to a place wins, and the recorded size stays the length of the
  file.\<close>

theorem storage_read_write:
  assumes "file_store s" and "i + length as \<le> j" and "length as = length cs"
  shows "file_read (file_write (file_write s i as) j bs) i (length as) = as \<and>
     file_read (file_write (file_write s j bs) i as) j (length bs) = bs \<and>
     file_read (file_write (file_write s i as) i cs) i (length as) = cs \<and>
     file_store (file_write s i as)"
  using fs.disjoint_writes [OF assms(1,2)] fs.last_write_wins [OF assms(1,3)] fs.wr_inv [OF assms(1)] by simp

lemma storage_read_write_witness:
  "\<exists>files st. storage_init (\<lambda>_. True) 3 True Map.empty (Some \<lparr>st_path = None, st_fd = -1, st_size = 0\<rparr>) (Some ''db'') =
      (0, files, Some st) \<and>
     file_read (file_write (file_write (the (files ''db''), st) 4 ''page'') 100 ''x'') 4 4 = ''page''"
proof -
  let ?st = "\<lparr>st_path = Some ''db'', st_fd = 3, st_size = 0\<rparr>"
  have "file_store ([], ?st)" by (simp add: file_store_def)
  from storage_read_write [OF this, of 4 "''page''" 100 "''page''" "''x''"] show ?thesis
    by (simp add: storage_init_def numeral_eq_Suc)
qed
section \<open>Backups\<close>

fun copy_blocks :: "(nat \<Rightarrow> nat) \<Rightarrow> nat \<Rightarrow> nat \<Rightarrow> string \<Rightarrow> string" where
  \<comment> \<open>\<open>while ((bytes = fread(buffer, 1, 4096, src)) > 0) fwrite(buffer, 1, bytes, dest)\<close>; the first
      argument says how much of each block is written, the third counts the blocks left\<close>
  "copy_blocks fw k 0 src = []"
| "copy_blocks fw k (Suc n) src =
     (if src = [] then []
      else take (fw k) (take 4096 src) @ copy_blocks fw (Suc k) n (drop 4096 src))"

definition copy_file ::
  "bool \<Rightarrow> (nat \<Rightarrow> nat) \<Rightarrow> file_system \<Rightarrow> string \<Rightarrow> string \<Rightarrow> int \<times> file_system" where
  \<comment> \<open>opening the destination for writing empties it before the source is read\<close>
  "copy_file can_write fw files src_path dest_path = (case files src_path of
     None \<Rightarrow> (-1, files)
   | Some _ \<Rightarrow>
       if \<not> can_write then (-1, files)
       else
         let files1 = files(dest_path \<mapsto> []); src = the (files1 src_path) in
         (0, files1(dest_path \<mapsto> copy_blocks fw 0 (length src) src)))"

definition utils_copy_file ::
  "bool \<Rightarrow> (nat \<Rightarrow> nat) \<Rightarrow> file_system \<Rightarrow> string option \<Rightarrow> string option \<Rightarrow> int \<times> file_system" where
  \<comment> \<open>the one of \<open>utils.c\<close>, which returns 1 for success\<close>
  "utils_copy_file can_write fw files sp dp = (case (sp, dp) of
     (Some source, Some destination) \<Rightarrow>
       (let (r, files') = copy_file can_write fw files source destination in (if r = 0 then 1 else 0, files'))
   | _ \<Rightarrow> (0, files))"

record tm =
  tm_year :: nat
  tm_mon :: nat
  tm_mday :: nat
  tm_hour :: nat
  tm_min :: nat
  tm_sec :: nat

definition pad_int :: "nat \<Rightarrow> nat \<Rightarrow> string" where
  \<comment> \<open>\<open>%0kd\<close>\<close>
  "pad_int k n = replicate (k - length (dec_digits n)) (CHR ''0'') @ dec_digits n"

definition backup_name :: "tm \<Rightarrow> string" where
  "backup_name t = ''backup_'' @ pad_int 4 (tm_year t + 1900) @ pad_int 2 (tm_mon t + 1) @ pad_int 2 (tm_mday t) @
     ''_'' @ pad_int 2 (tm_hour t) @ pad_int 2 (tm_min t) @ pad_int 2 (tm_sec t) @ ''.db''"

definition backup_create ::
  "bool \<Rightarrow> (nat \<Rightarrow> nat) \<Rightarrow> tm \<Rightarrow> file_system \<Rightarrow> string option \<Rightarrow> string option \<Rightarrow> int \<times> file_system" where
  \<comment> \<open>\<open>snprintf\<close> cuts the path to 511 bytes\<close>
  "backup_create can_write fw t files sp dp = (case (sp, dp) of
     (Some source_path, Some backup_dir) \<Rightarrow>
       (let (res, files') = copy_file can_write fw files source_path
              (take 511 (backup_dir @ ''/'' @ backup_name t))
        in (if res = 0 then 0 else -1, files'))
   | _ \<Rightarrow> (-1, files))"

definition backup_restore ::
  "bool \<Rightarrow> (nat \<Rightarrow> nat) \<Rightarrow> file_system \<Rightarrow> string option \<Rightarrow> string option \<Rightarrow> int \<times> file_system" where
  "backup_restore can_write fw files bp tp = (case (bp, tp) of
     (Some backup_path, Some target_path) \<Rightarrow>
       (let (res, files') = copy_file can_write fw files backup_path target_path
        in (if res = 0 then 0 else -1, files'))
   | _ \<Rightarrow> (-1, files))"

definition backup_listed :: "string list \<Rightarrow> string list" where
  \<comment> \<open>the directory entries that \<open>backup_list\<close> prints\<close>
  "backup_listed entries = filter (\<lambda>d. take 7 d = ''backup_'' \<and> strstr d ''.db'' \<noteq> None) entries"

lemma copy_blocks_all:
  assumes "\<forall>k. fw k = 4096" and "length src \<le> n"
  shows "copy_blocks fw k n src = src"
  using assms(2)
proof (induction n arbitrary: k src)
  case (Suc n)
  show ?case
  proof (cases src)
    case (Cons c cs)
    with Suc(2) have "length (drop 4096 src) \<le> n" by simp
    from Suc(1) [OF this, of "Suc k"] assms(1) Cons show ?thesis by (simp add: append_take_drop_id)
  qed simp
qed simp

lemma copy_file_result:
  assumes "files p = Some c" and "q \<noteq> p" and "\<forall>k. fw k = 4096"
  shows "copy_file True fw files p q = (0, files(q \<mapsto> c))"
  using assms(1,2) copy_blocks_all [OF assms(3), of c "length c" 0] by (simp add: copy_file_def)

text \<open>C33: a backup can be restored: \<open>backup_restore\<close> from the file that \<open>backup_create\<close> wrote gives the
  target the contents of the source, whatever happened to the source since, if all blocks were
  written. But a file restored onto itself is emptied, with the success result.\<close>

theorem backup_then_restore:
  assumes "files src = Some c" and "\<forall>k. fw k = 4096" and "length dir + 27 < 511"
    and "src \<noteq> dir @ ''/'' @ backup_name t" and "target \<noteq> dir @ ''/'' @ backup_name t"
    and "length (backup_name t) = 25"
    and "backup_create True fw t files (Some src) (Some dir) = (r, files1)"
  shows "r = 0 \<and> backup_restore True fw (files1(src := x)) (Some (dir @ ''/'' @ backup_name t)) (Some target) =
       (0, files1(src := x, target \<mapsto> c)) \<and>
     backup_restore True fw files (Some src) (Some src) = (0, files(src \<mapsto> []))"
proof -
  let ?b = "dir @ ''/'' @ backup_name t"
  have cut: "take 511 ?b = ?b" using assms(3,6) by simp
  have f1: "r = 0" "files1 = files(?b \<mapsto> c)"
    using assms(7) copy_file_result [of files src c ?b fw] assms(1,2,4) cut
    by (simp_all add: backup_create_def)
  have "(files1(src := x)) ?b = Some c" using f1 assms(4) by simp
  note restored = copy_file_result [of "files1(src := x)" ?b c target fw, OF this assms(5,2)]
  from restored f1(1) assms(1)
  show ?thesis by (simp add: backup_restore_def copy_file_def)
qed

definition sample_tm :: tm where
  "sample_tm = \<lparr>tm_year = 124, tm_mon = 4, tm_mday = 1, tm_hour = 9, tm_min = 30, tm_sec = 0\<rparr>"

lemma backup_then_restore_witness:
  "\<exists>files1. backup_create True (\<lambda>_. 4096) sample_tm
       [''db'' \<mapsto> ''data''] (Some ''db'') (Some ''b'') = (0, files1) \<and>
     backup_restore True (\<lambda>_. 4096) (files1(''db'' := None)) (Some ''b/backup_20240501_093000.db'') (Some ''db'') =
       (0, files1(''db'' \<mapsto> ''data''))"
proof -
  have n: "backup_name sample_tm = ''backup_20240501_093000.db''"
    by code_simp
  obtain r files1 where b: "backup_create True (\<lambda>_. 4096) sample_tm [''db'' \<mapsto> ''data''] (Some ''db'') (Some ''b'') = (r, files1)"
    by fastforce
  from backup_then_restore [OF _ _ _ _ _ _ b, of "''data''" "''db''" None] b show ?thesis by (simp add: n)
qed

end
