(* ===== verification/Lx_Txn.thy ===== *)
theory Lx_Txn
  imports Lx_Prelude
begin

text \<open>
  The transaction objects of \<open>src/src/transaction.c\<close>: \<open>transaction_begin\<close>, \<open>transaction_commit\<close>,
  \<open>transaction_rollback\<close> and \<open>transaction_free\<close>, as a state machine with the log of the operation
  blocks that \<open>free\<close> is called on. The id counter is a C \<open>static\<close> and is passed along; its mutex
  makes \<open>generate_txn_id\<close> one step.
\<close>

section \<open>Operations\<close>

datatype TransactionState = TXN_ACTIVE | TXN_COMMITTED | TXN_ABORTED

record Transaction =
  txn_id :: int
  txn_state :: TransactionState
  txn_operations :: "nat option list option" \<comment> \<open>addresses of operation blocks; NULL entries are \<open>None\<close>\<close>
  txn_op_count :: nat

definition generate_txn_id :: "int \<Rightarrow> int \<times> int" where
  "generate_txn_id next_id = (next_id, wrap32 (next_id + 1))"

definition transaction_begin :: "alloc \<Rightarrow> int \<Rightarrow> Transaction option \<times> int" where
  "transaction_begin ok next_id =
     (if \<not> ok 0 then (None, next_id)
      else let (k, next_id') = generate_txn_id next_id in
        (Some \<lparr>txn_id = k, txn_state = TXN_ACTIVE, txn_operations = None, txn_op_count = 0\<rparr>, next_id'))"

definition freed_operations :: "Transaction \<Rightarrow> nat list" where
  \<comment> \<open>the blocks that the cleanup loop frees, in order\<close>
  "freed_operations txn = (case txn_operations txn of None \<Rightarrow> []
     | Some ops \<Rightarrow> map the (filter (\<lambda>p. p \<noteq> None) (take (txn_op_count txn) ops)))"

definition transaction_commit :: "Transaction option \<Rightarrow> int \<times> Transaction option \<times> nat list" where
  "transaction_commit tp = (case tp of None \<Rightarrow> (-1, None, [])
     | Some txn \<Rightarrow>
         if txn_state txn \<noteq> TXN_ACTIVE then (-1, Some txn, [])
         else (0, Some (txn\<lparr>txn_operations := None, txn_op_count := 0, txn_state := TXN_COMMITTED\<rparr>),
               freed_operations txn))"

definition transaction_rollback :: "Transaction option \<Rightarrow> Transaction option \<times> nat list" where
  "transaction_rollback tp = (case tp of None \<Rightarrow> (None, [])
     | Some txn \<Rightarrow>
         if txn_state txn \<noteq> TXN_ACTIVE then (Some txn, [])
         else (Some (txn\<lparr>txn_operations := None, txn_op_count := 0, txn_state := TXN_ABORTED\<rparr>),
               freed_operations txn))"

definition transaction_free :: "Transaction option \<Rightarrow> nat list" where
  "transaction_free tp = (case tp of None \<Rightarrow> [] | Some txn \<Rightarrow> freed_operations txn)"

section \<open>The life of a transaction\<close>

inductive txn_step :: "Transaction \<Rightarrow> nat list \<Rightarrow> Transaction \<Rightarrow> bool" where
  commit: "transaction_commit (Some t) = (r, Some t', freed) \<Longrightarrow> txn_step t freed t'"
| rollback: "transaction_rollback (Some t) = (Some t', freed) \<Longrightarrow> txn_step t freed t'"

inductive txn_run :: "Transaction \<Rightarrow> nat list \<Rightarrow> Transaction \<Rightarrow> bool" where
  start: "txn_run t [] t"
| step: "txn_run t log t' \<Longrightarrow> txn_step t' freed t'' \<Longrightarrow> txn_run t (log @ freed) t''"

lemma txn_step_cases:
  assumes "txn_step t freed t'"
  shows "(txn_state t = TXN_ACTIVE \<and> txn_state t' \<in> {TXN_COMMITTED, TXN_ABORTED} \<and> freed = freed_operations t \<and>
      txn_operations t' = None \<and> txn_id t' = txn_id t) \<or>
    (txn_state t \<noteq> TXN_ACTIVE \<and> t' = t \<and> freed = [])"
  using assms
  by (cases rule: txn_step.cases) (auto simp: transaction_commit_def transaction_rollback_def split: if_splits)

lemma txn_run_log:
  assumes "txn_run t log t'"
  shows "log @ freed_operations t' = freed_operations t \<and> txn_id t' = txn_id t \<and>
    (txn_state t \<noteq> TXN_ACTIVE \<longrightarrow> t' = t \<and> log = []) \<and> (txn_state t' = TXN_ACTIVE \<longrightarrow> t' = t)"
  using assms
proof (induction rule: txn_run.induct)
  case (step t log t' freed t'')
  from txn_step_cases [OF step(2)] show ?case
  proof (elim disjE conjE)
    assume a: "txn_state t' = TXN_ACTIVE" "txn_state t'' \<in> {TXN_COMMITTED, TXN_ABORTED}"
      "freed = freed_operations t'" "txn_operations t'' = None" "txn_id t'' = txn_id t'"
    then have "freed_operations t'' = []" "txn_state t'' \<noteq> TXN_ACTIVE" by (auto simp: freed_operations_def)
    moreover have "t' = t" using step(3) a(1) by iprover
    moreover have "log @ freed_operations t' = freed_operations t" using step(3) by iprover
    ultimately show ?thesis using a(1,3,5) by simp
  next
    assume "t'' = t'" "freed = []"
    then show ?thesis using step(3) by (simp only: append_Nil2) iprover
  qed
qed simp

text \<open>Over any sequence of commits and rollbacks followed by \<open>transaction_free\<close>, each operation
  block of a transaction is freed exactly once, in order: nothing leaks and nothing is freed twice.
  The first commit or rollback of an active transaction decides its state for good.\<close>

lemma transaction_frees_once:
  assumes "txn_run t log t'"
  shows "log @ transaction_free (Some t') = freed_operations t \<and> txn_id t' = txn_id t \<and>
    (txn_state t \<noteq> TXN_ACTIVE \<longrightarrow> t' = t \<and> log = []) \<and>
    (txn_state t' \<noteq> TXN_ACTIVE \<longrightarrow> (\<forall>freed t''. txn_step t' freed t'' \<longrightarrow> t'' = t' \<and> freed = []))"
proof -
  have "\<forall>freed t''. txn_step t' freed t'' \<longrightarrow> t'' = t' \<and> freed = []" if "txn_state t' \<noteq> TXN_ACTIVE"
    using txn_step_cases that by blast
  with txn_run_log [OF assms] show ?thesis unfolding transaction_free_def option.case by iprover
qed

definition sample_transaction :: Transaction where
  "sample_transaction = \<lparr>txn_id = 1, txn_state = TXN_ACTIVE, txn_operations = Some [Some 16, None, Some 32],
     txn_op_count = 3\<rparr>"

lemma transaction_frees_once_example:
  "\<exists>t'. txn_run sample_transaction [16, 32] t' \<and> txn_state t' = TXN_COMMITTED \<and>
     [16, 32] @ transaction_free (Some t') = [16, 32]"
proof -
  let ?t = "sample_transaction\<lparr>txn_operations := None, txn_op_count := 0, txn_state := TXN_COMMITTED\<rparr>"
  have f: "freed_operations sample_transaction = [16, 32]"
    by (simp add: freed_operations_def sample_transaction_def numeral_3_eq_3)
  then have "transaction_commit (Some sample_transaction) = (0, Some ?t, [16, 32])"
    by (simp add: transaction_commit_def) (simp add: sample_transaction_def)
  then have r: "txn_run sample_transaction ([] @ [16, 32]) ?t"
    by (rule txn_run.step [OF txn_run.start txn_step.commit])
  from transaction_frees_once [OF r] r f show ?thesis by auto
qed

section \<open>Ids\<close>

fun begin_all :: "nat \<Rightarrow> int \<Rightarrow> int list" where
  \<comment> \<open>the ids of \<open>n\<close> transactions begun one after the other\<close>
  "begin_all 0 next_id = []"
| "begin_all (Suc n) next_id =
     (case transaction_begin (\<lambda>_. True) next_id of
        (Some t, next_id') \<Rightarrow> txn_id t # begin_all n next_id'
      | (None, next_id') \<Rightarrow> begin_all n next_id')"

lemma begin_all_upto:
  assumes "1 \<le> k" and "k + int n - 1 \<le> int_max"
  shows "begin_all n k = map (\<lambda>i. k + int i) [0..<n]"
  using assms
proof (induction n arbitrary: k)
  case (Suc n)
  show ?case
  proof (cases n)
    case 0
    then show ?thesis by (simp add: transaction_begin_def generate_txn_id_def)
  next
    case (Suc m)
    with Suc.prems have "wrap32 (k + 1) = k + 1" by (simp add: c_int_def int_min_def int_max_def)
    with Suc.IH [of "k + 1"] Suc.prems show ?thesis
      by (simp add: transaction_begin_def generate_txn_id_def upt_conv_Cons map_Suc_upt [symmetric]
          comp_def algebra_simps del: upt_Suc map_Suc_upt)
  qed
qed simp

text \<open>The ids of the transactions that a program begins, counted from 1, are 1, 2, 3, and so on,
  and so distinct, up to the largest \<open>int\<close>.\<close>

lemma transaction_ids_distinct:
  assumes "int n \<le> int_max"
  shows "begin_all n 1 = map int [1..<n + 1] \<and> distinct (begin_all n 1)"
proof -
  have "begin_all n 1 = map (\<lambda>i. 1 + int i) [0..<n]" using assms by (intro begin_all_upto) auto
  also have "\<dots> = map int [1..<n + 1]"
    by (rule nth_equalityI) (auto simp: nth_upt simp del: upt_Suc)
  finally show ?thesis by (simp add: distinct_map inj_on_def del: upt_Suc)
qed

lemma begin_three_times: "begin_all 3 1 = [1, 2, 3] \<and> distinct (begin_all 3 1)"
  using transaction_ids_distinct [of 3] by (simp add: int_max_def upt_rec)

end
