(* ===== verification/Lx_Json_Lexer.thy ===== *)
theory Lx_Json_Lexer
  imports Lx_Prelude Lx_Types
begin

text \<open>
  The tokens of \<open>src/src/json_io.c\<close>: \<open>json_parse_token\<close> with its helpers, and
  \<open>json_skip_token_value\<close>, which skips a value of any depth.

  A context is the text, the position and the error message; \<open>ctx->length\<close> is the length of the
  text. The copies of token texts are taken to succeed, and end at a NUL as \<open>strnlen\<close> does. Bytes
  above 127 are no white space. The skipping functions take fuel; \<open>json_skip_token_value\<close> gives them
  the number of bytes left and one, which is always enough (\<open>skip_value_defined\<close>).
\<close>

section \<open>Tokens\<close>

datatype JsonTokenType = TOKEN_NONE | TOKEN_OBJECT_START | TOKEN_OBJECT_END | TOKEN_ARRAY_START
  | TOKEN_ARRAY_END | TOKEN_STRING | TOKEN_NUMBER | TOKEN_BOOLEAN | TOKEN_NULL | TOKEN_COLON
  | TOKEN_COMMA | TOKEN_EOF

record JsonToken =
  tk_type :: JsonTokenType
  tk_value :: "string option"
  tk_length :: nat
  tk_position :: nat

record JsonParseContext =
  cx_json :: string
  cx_position :: nat
  cx_error :: string

definition json_context :: "string \<Rightarrow> JsonParseContext" where
  \<comment> \<open>\<open>JsonParseContext ctx = {0}; ctx.json = json_str; ctx.length = strlen(json_str)\<close>\<close>
  "json_context json_str = \<lparr>cx_json = json_str, cx_position = 0, cx_error = []\<rparr>"

definition cx_rest :: "JsonParseContext \<Rightarrow> string" where
  "cx_rest ctx = drop (cx_position ctx) (cx_json ctx)"

definition advance :: "nat \<Rightarrow> JsonParseContext \<Rightarrow> JsonParseContext" where
  "advance n ctx = ctx\<lparr>cx_position := cx_position ctx + n\<rparr>"

definition json_skip_whitespace :: "JsonParseContext \<Rightarrow> JsonParseContext" where
  "json_skip_whitespace ctx = advance (length (takeWhile isspace (cx_rest ctx))) ctx"

definition json_match_string :: "JsonParseContext \<Rightarrow> string \<Rightarrow> bool \<times> JsonParseContext" where
  "json_match_string ctx str =
     (if length (cx_json ctx) < cx_position ctx + length str then (False, ctx)
      else if starts_with str (cx_rest ctx) then (True, advance (length str) ctx)
      else (False, ctx))"

fun string_end :: "bool \<Rightarrow> string \<Rightarrow> nat option" where
  \<comment> \<open>the index of the closing quote; the flag says that the previous byte was an escaping backslash\<close>
  "string_end escaped [] = None"
| "string_end escaped (c2 # cs) =
     (if \<not> escaped \<and> c2 = CHR 0x22 then Some 0
      else map_option Suc (string_end (\<not> escaped \<and> c2 = CHR 0x5C) cs))"

definition number_length :: "string \<Rightarrow> nat" where
  \<comment> \<open>the extent of a number: sign, digits, fraction and exponent\<close>
  "number_length s =
     (let digits = (\<lambda>k. k + length (takeWhile isdigit (drop k s)));
          n1 = digits (if starts_with ''-'' s then 1 else 0);
          n2 = (if starts_with ''.'' (drop n1 s) then digits (n1 + 1) else n1)
      in if starts_with ''e'' (drop n2 s) \<or> starts_with ''E'' (drop n2 s)
         then digits (if starts_with ''+'' (drop (n2 + 1) s) \<or> starts_with ''-'' (drop (n2 + 1) s)
                      then n2 + 2 else n2 + 1)
         else n2)"

definition punctuation :: "char \<Rightarrow> JsonTokenType option" where
  "punctuation c =
     (if c = CHR ''{'' then Some TOKEN_OBJECT_START else if c = CHR ''}'' then Some TOKEN_OBJECT_END
      else if c = CHR ''['' then Some TOKEN_ARRAY_START else if c = CHR '']'' then Some TOKEN_ARRAY_END
      else if c = CHR '':'' then Some TOKEN_COLON else if c = CHR '','' then Some TOKEN_COMMA else None)"

definition word_token :: "nat \<Rightarrow> JsonParseContext \<Rightarrow> JsonTokenType \<Rightarrow> string \<Rightarrow> JsonToken \<times> JsonParseContext" where
  \<comment> \<open>one of the cases \<open>'t'\<close>, \<open>'f'\<close>, \<open>'n'\<close>\<close>
  "word_token start ctx ty word = (case json_match_string ctx word of
     (True, ctx') \<Rightarrow> (\<lparr>tk_type = ty, tk_value = Some word, tk_length = length word, tk_position = start\<rparr>, ctx')
   | (False, ctx') \<Rightarrow> (\<lparr>tk_type = TOKEN_NONE, tk_value = None, tk_length = 0, tk_position = start\<rparr>, ctx'))"

definition text_token :: "nat \<Rightarrow> JsonTokenType \<Rightarrow> string \<Rightarrow> JsonToken" where
  \<comment> \<open>a token with the copied text of the input\<close>
  "text_token start ty s = \<lparr>tk_type = ty, tk_value = Some (c_str s), tk_length = length s, tk_position = start\<rparr>"

definition plain_token :: "nat \<Rightarrow> JsonTokenType \<Rightarrow> JsonToken" where
  "plain_token start ty = \<lparr>tk_type = ty, tk_value = None, tk_length = 0, tk_position = start\<rparr>"

definition token_at :: "nat \<Rightarrow> JsonParseContext \<Rightarrow> JsonToken \<times> JsonParseContext" where
  \<comment> \<open>the switch on the character after the white space\<close>
  "token_at start ctx =
     (case cx_rest ctx of [] \<Rightarrow> (plain_token start TOKEN_EOF, ctx)
      | c # cs \<Rightarrow>
        (case punctuation c of Some ty \<Rightarrow> (plain_token start ty, advance 1 ctx)
         | None \<Rightarrow>
            if c = CHR 0x22 then
              (case string_end False cs of
                 None \<Rightarrow> (plain_token start TOKEN_NONE, ctx\<lparr>cx_position := length (cx_json ctx),
                   cx_error := ''Unterminated string at position '' @ show_int (int (cx_position ctx + 1))\<rparr>)
               | Some n \<Rightarrow> (text_token start TOKEN_STRING (take n cs), advance (n + 2) ctx))
            else if c = CHR ''t'' then word_token start ctx TOKEN_BOOLEAN ''true''
            else if c = CHR ''f'' then word_token start ctx TOKEN_BOOLEAN ''false''
            else if c = CHR ''n'' then word_token start ctx TOKEN_NULL ''null''
            else if c = CHR ''-'' \<or> isdigit c then
              (text_token start TOKEN_NUMBER (take (number_length (c # cs)) (c # cs)),
               advance (number_length (c # cs)) ctx)
            else (plain_token start TOKEN_NONE, ctx\<lparr>cx_error := ''Unexpected character '' @ [CHR 0x27, c, CHR 0x27] @
                   '' at position '' @ show_int (int (cx_position ctx))\<rparr>)))"

definition json_parse_token :: "JsonParseContext \<Rightarrow> JsonToken \<times> JsonParseContext" where
  "json_parse_token ctx = token_at (cx_position ctx) (json_skip_whitespace ctx)"

section \<open>Skipping a value\<close>

fun skip_value :: "nat \<Rightarrow> JsonParseContext \<Rightarrow> JsonToken \<Rightarrow> (ErrorCode \<times> JsonParseContext) option"
and skip_members :: "nat \<Rightarrow> JsonParseContext \<Rightarrow> (ErrorCode \<times> JsonParseContext) option"
and skip_items :: "nat \<Rightarrow> JsonParseContext \<Rightarrow> (ErrorCode \<times> JsonParseContext) option" where
  \<comment> \<open>\<open>None\<close>: the fuel is spent\<close>
  "skip_value fuel ctx token =
     (if tk_type token = TOKEN_OBJECT_START then skip_members fuel ctx
      else if tk_type token = TOKEN_ARRAY_START then skip_items fuel ctx
      else Some (SUCCESS, ctx))"
| "skip_members 0 ctx = None"
| "skip_members (Suc fuel) ctx =
     (case json_parse_token ctx of (key_token, ctx1) \<Rightarrow>
        if tk_type key_token = TOKEN_OBJECT_END then Some (SUCCESS, ctx1)
        else if tk_type key_token \<noteq> TOKEN_STRING then Some (ERROR_INVALID_INPUT, ctx1)
        else (case json_parse_token ctx1 of (colon_token, ctx2) \<Rightarrow>
          if tk_type colon_token \<noteq> TOKEN_COLON then Some (ERROR_INVALID_INPUT, ctx2)
          else (case json_parse_token ctx2 of (val_token, ctx3) \<Rightarrow>
            (case skip_value fuel ctx3 val_token of None \<Rightarrow> None
             | Some (result, ctx4) \<Rightarrow>
                 if result \<noteq> SUCCESS then Some (result, ctx4)
                 else (case json_parse_token ctx4 of (comma_or_end, ctx5) \<Rightarrow>
                   if tk_type comma_or_end = TOKEN_COMMA then skip_members fuel ctx5
                   else if tk_type comma_or_end = TOKEN_OBJECT_END then Some (SUCCESS, ctx5)
                   else Some (ERROR_INVALID_INPUT, ctx5))))))"
| "skip_items 0 ctx = None"
| "skip_items (Suc fuel) ctx =
     (case json_parse_token ctx of (item_token, ctx1) \<Rightarrow>
        if tk_type item_token = TOKEN_ARRAY_END then Some (SUCCESS, ctx1)
        else if tk_type item_token = TOKEN_EOF \<or> tk_type item_token = TOKEN_NONE
        then Some (ERROR_INVALID_INPUT, ctx1)
        else (case skip_value fuel ctx1 item_token of None \<Rightarrow> None
          | Some (result, ctx2) \<Rightarrow>
              if result \<noteq> SUCCESS then Some (result, ctx2)
              else (case json_parse_token ctx2 of (comma_or_end, ctx3) \<Rightarrow>
                if tk_type comma_or_end = TOKEN_COMMA then skip_items fuel ctx3
                else if tk_type comma_or_end = TOKEN_ARRAY_END then Some (SUCCESS, ctx3)
                else Some (ERROR_INVALID_INPUT, ctx3))))"

definition json_skip_token_value :: "JsonParseContext \<Rightarrow> JsonToken \<Rightarrow> ErrorCode \<times> JsonParseContext" where
  "json_skip_token_value ctx token = the (skip_value (length (cx_rest ctx) + 1) ctx token)"

section \<open>Progress and termination\<close>

definition left :: "JsonParseContext \<Rightarrow> nat" where
  "left ctx = length (cx_rest ctx)"

definition ctx_ok :: "JsonParseContext \<Rightarrow> bool" where
  "ctx_ok ctx \<longleftrightarrow> cx_position ctx \<le> length (cx_json ctx)"

lemma advance_simps [simp]:
  "cx_rest (advance n ctx) = drop n (cx_rest ctx)" "cx_json (advance n ctx) = cx_json ctx"
  "cx_error (advance n ctx) = cx_error ctx" "cx_position (advance n ctx) = cx_position ctx + n"
  by (simp_all add: advance_def cx_rest_def add.commute)

lemma cx_rest_error [simp]: "cx_rest (ctx\<lparr>cx_error := e\<rparr>) = cx_rest ctx"
  by (simp add: cx_rest_def)

lemma cx_rest_end [simp]: "cx_rest (ctx\<lparr>cx_position := length (cx_json ctx)\<rparr>) = []"
  by (simp add: cx_rest_def)

lemma cx_rest_skip [simp]: "cx_rest (json_skip_whitespace ctx) = dropWhile isspace (cx_rest ctx)"
  by (simp add: json_skip_whitespace_def dropWhile_eq_drop)

lemma cx_json_skip [simp]: "cx_json (json_skip_whitespace ctx) = cx_json ctx"
  by (simp add: json_skip_whitespace_def)

lemma string_end_bound: "string_end e s = Some n \<Longrightarrow> n < length s"
  by (induction s arbitrary: e n) (auto split: if_splits)

lemma takeWhile_drop_le: "k \<le> length s \<Longrightarrow> k + length (takeWhile P (drop k s)) \<le> length s"
  using length_takeWhile_le [of P "drop k s"] by simp

lemma starts_with_drop_le: "starts_with [c] (drop k s) \<Longrightarrow> k + 1 \<le> length s"
  using starts_with_length [of "[c]" "drop k s"] by simp

lemma number_length_le: "number_length s \<le> length s"
proof -
  let ?d = "\<lambda>k. k + length (takeWhile isdigit (drop k s))"
  have d: "?d k \<le> length s" if "k \<le> length s" for k using takeWhile_drop_le [OF that] .
  define n1 where "n1 = ?d (if starts_with ''-'' s then 1 else 0)"
  have n1: "n1 \<le> length s" unfolding n1_def
    by (rule d) (use starts_with_drop_le [of "CHR ''-''" 0 s] in auto)
  define n2 where "n2 = (if starts_with ''.'' (drop n1 s) then ?d (n1 + 1) else n1)"
  have n2: "n2 \<le> length s" unfolding n2_def
    using n1 d [of "n1 + 1"] starts_with_drop_le [of "CHR ''.''" n1 s] by auto
  have "n2 + 1 \<le> length s" if "starts_with ''e'' (drop n2 s) \<or> starts_with ''E'' (drop n2 s)"
    using that starts_with_drop_le by blast
  moreover have "n2 + 2 \<le> length s"
    if "starts_with ''+'' (drop (n2 + 1) s) \<or> starts_with ''-'' (drop (n2 + 1) s)"
    using that starts_with_drop_le [of _ "n2 + 1" s] by fastforce
  ultimately show ?thesis
    using n2 d [of "n2 + 1"] d [of "n2 + 2"]
    unfolding number_length_def Let_def n1_def [symmetric] n2_def [symmetric] by auto
qed

lemma number_length_pos: "c = CHR ''-'' \<or> isdigit c \<Longrightarrow> 0 < number_length (c # s)"
proof -
  assume c: "c = CHR ''-'' \<or> isdigit c"
  define n1 where "n1 = (let k = (if starts_with ''-'' (c # s) then 1 else 0) in
    k + length (takeWhile isdigit (drop k (c # s))))"
  have "0 < n1" using c by (auto simp: n1_def Let_def starts_with_def)
  then show ?thesis by (auto simp: number_length_def n1_def Let_def)
qed

lemma token_at_progress:
  assumes "token_at start ctx = (t, ctx')"
  shows "cx_json ctx' = cx_json ctx \<and> left ctx' \<le> left ctx \<and>
    (tk_type t \<notin> {TOKEN_NONE, TOKEN_EOF} \<longrightarrow> left ctx' < left ctx)"
proof (cases "cx_rest ctx")
  case Nil
  then show ?thesis using assms by (auto simp: token_at_def plain_token_def left_def)
next
  case (Cons c cs)
  have word: ?thesis if "(t, ctx') = word_token start ctx ty w" "w \<noteq> []" for ty w
    using that Cons starts_with_length [of w "c # cs"]
    by (auto simp: word_token_def json_match_string_def left_def split: if_splits)
  consider (punct) ty where "punctuation c = Some ty" | (str) "punctuation c = None" "c = CHR 0x22"
    | (other) "punctuation c = None" "c \<noteq> CHR 0x22" by fastforce
  then show ?thesis
  proof cases
    case punct
    with Cons assms show ?thesis by (auto simp: token_at_def plain_token_def left_def)
  next
    case str
    with Cons assms show ?thesis
      by (cases "string_end False cs")
        (auto simp: token_at_def plain_token_def text_token_def left_def dest: string_end_bound)
  next
    case other
    note eq = assms [unfolded token_at_def Cons list.case other(1) option.case if_not_P [OF other(2)]]
    consider "c = CHR ''t''" | "c \<noteq> CHR ''t''" "c = CHR ''f''" | "c \<noteq> CHR ''t''" "c \<noteq> CHR ''f''" "c = CHR ''n''"
      | (num) "c \<noteq> CHR ''t''" "c \<noteq> CHR ''f''" "c \<noteq> CHR ''n''" "c = CHR ''-'' \<or> isdigit c"
      | (bad) "c \<noteq> CHR ''t''" "c \<noteq> CHR ''f''" "c \<noteq> CHR ''n''" "\<not> (c = CHR ''-'' \<or> isdigit c)" by blast
    then show ?thesis
    proof cases
      case 1
      with eq show ?thesis by (intro word [of TOKEN_BOOLEAN "''true''"]) simp_all
    next
      case 2
      with eq show ?thesis by (intro word [of TOKEN_BOOLEAN "''false''"]) simp_all
    next
      case 3
      with eq show ?thesis by (intro word [of TOKEN_NULL "''null''"]) simp_all
    next
      case num
      with eq have "t = text_token start TOKEN_NUMBER (take (number_length (c # cs)) (c # cs))"
        "ctx' = advance (number_length (c # cs)) ctx" by (auto simp del: take_Suc_Cons)
      with Cons num number_length_le [of "c # cs"] number_length_pos [OF num(4), of cs] show ?thesis
        by (simp add: text_token_def left_def)
    next
      case bad
      with eq obtain x where "t = plain_token start TOKEN_NONE" "ctx' = ctx\<lparr>cx_error := x\<rparr>" by auto
      then show ?thesis by (simp add: plain_token_def left_def)
    qed
  qed
qed

lemma json_parse_token_progress:
  assumes "json_parse_token ctx = (t, ctx')"
  shows "cx_json ctx' = cx_json ctx" and "left ctx' \<le> left ctx"
    and "tk_type t \<notin> {TOKEN_NONE, TOKEN_EOF} \<Longrightarrow> left ctx' < left ctx"
proof -
  have "left (json_skip_whitespace ctx) \<le> left ctx" by (simp add: left_def length_dropWhile_le)
  with token_at_progress [of "cx_position ctx" "json_skip_whitespace ctx" t ctx'] assms
  show "cx_json ctx' = cx_json ctx" "left ctx' \<le> left ctx"
    "tk_type t \<notin> {TOKEN_NONE, TOKEN_EOF} \<Longrightarrow> left ctx' < left ctx"
    by (auto simp: json_parse_token_def)
qed

definition skips :: "JsonParseContext \<Rightarrow> (ErrorCode \<times> JsonParseContext) option \<Rightarrow> bool" where
  "skips ctx r \<longleftrightarrow> (\<exists>e ctx'. r = Some (e, ctx') \<and> cx_json ctx' = cx_json ctx \<and> left ctx' \<le> left ctx)"

lemma skips_Some [simp]: "skips ctx (Some (e, ctx')) \<longleftrightarrow> cx_json ctx' = cx_json ctx \<and> left ctx' \<le> left ctx"
  by (simp add: skips_def)

lemma skips_trans: "skips ctx1 r \<Longrightarrow> cx_json ctx1 = cx_json ctx \<Longrightarrow> left ctx1 \<le> left ctx \<Longrightarrow> skips ctx r"
  by (auto simp: skips_def)

lemma skip_defined:
  "left ctx < fuel \<Longrightarrow> skips ctx (skip_value fuel ctx token)"
  "left ctx < fuel \<Longrightarrow> skips ctx (skip_members fuel ctx)"
  "left ctx < fuel \<Longrightarrow> skips ctx (skip_items fuel ctx)"
proof (induction fuel ctx token and fuel ctx and fuel ctx rule: skip_value_skip_members_skip_items.induct)
  case (3 fuel ctx)
  obtain k c1 where k: "json_parse_token ctx = (k, c1)" by fastforce
  note p1 = json_parse_token_progress [OF k]
  show ?case
  proof (cases "tk_type k = TOKEN_STRING")
    case False
    with k p1 show ?thesis by simp
  next
    case True
    obtain d c2 where d: "json_parse_token c1 = (d, c2)" by fastforce
    obtain v c3 where v: "json_parse_token c2 = (v, c3)" by fastforce
    note p2 = json_parse_token_progress [OF d] and p3 = json_parse_token_progress [OF v]
    have l: "left c1 < left ctx" using p1 True by simp
    show ?thesis
    proof (cases "tk_type d = TOKEN_COLON")
      case False
      with k d True p1 p2 show ?thesis by simp
    next
      case colon: True
      have "left c3 < fuel" using l p2(2) p3(2) 3(3) by linarith
      from 3(1) [OF k [symmetric] _ _ d [symmetric] _ v [symmetric] this] True colon
      obtain e c4 where e: "skip_value fuel c3 v = Some (e, c4)" "cx_json c4 = cx_json c3" "left c4 \<le> left c3"
        by (auto simp: skips_def)
      obtain x c5 where x: "json_parse_token c4 = (x, c5)" by fastforce
      note p5 = json_parse_token_progress [OF x]
      have l5: "left c5 < left ctx" "cx_json c5 = cx_json ctx" using l p1 p2 p3 e p5 by auto
      have l4: "left c4 < left ctx" "cx_json c4 = cx_json ctx" using l p1 p2 p3 e by auto
      have "skips c5 (skip_members fuel c5)" if "tk_type x = TOKEN_COMMA" "e = SUCCESS"
        using 3(2) [OF k [symmetric] _ _ d [symmetric] _ v [symmetric] e(1) refl _ x [symmetric]]
          True colon that l5 3(3) by auto
      then have "skips ctx (skip_members fuel c5)" if "tk_type x = TOKEN_COMMA" "e = SUCCESS"
        using that l5 by (auto intro: skips_trans)
      with k d v e x True colon l4 l5 show ?thesis by auto
    qed
  qed
next
  case (5 fuel ctx)
  obtain k c1 where k: "json_parse_token ctx = (k, c1)" by fastforce
  note p1 = json_parse_token_progress [OF k]
  show ?case
  proof (cases "tk_type k \<in> {TOKEN_ARRAY_END, TOKEN_EOF, TOKEN_NONE}")
    case True
    with k p1 show ?thesis by auto
  next
    case False
    have l: "left c1 < left ctx" using p1 False by simp
    then have "left c1 < fuel" using 5(3) by simp
    from 5(1) [OF k [symmetric] _ _ this] False
    obtain e c2 where e: "skip_value fuel c1 k = Some (e, c2)" "cx_json c2 = cx_json c1" "left c2 \<le> left c1"
      by (auto simp: skips_def)
    obtain x c3 where x: "json_parse_token c2 = (x, c3)" by fastforce
    note p3 = json_parse_token_progress [OF x]
    have l3: "left c3 < left ctx" "cx_json c3 = cx_json ctx" "left c2 < left ctx" "cx_json c2 = cx_json ctx"
      using l p1 e p3 by auto
    have "skips c3 (skip_items fuel c3)" if "tk_type x = TOKEN_COMMA" "e = SUCCESS"
      using 5(2) [OF k [symmetric] _ _ e(1) refl _ x [symmetric]] False that l3 5(3) by auto
    then have "skips ctx (skip_items fuel c3)" if "tk_type x = TOKEN_COMMA" "e = SUCCESS"
      using that l3 by (auto intro: skips_trans)
    with k e x False l3 show ?thesis by auto
  qed
qed (auto simp: skips_def)

lemma json_skip_token_value_progress:
  "json_skip_token_value ctx token = (e, ctx') \<Longrightarrow> cx_json ctx' = cx_json ctx \<and> left ctx' \<le> left ctx"
  using skip_defined(1) [of ctx "left ctx + 1" token]
  by (auto simp: json_skip_token_value_def skips_def left_def)

section \<open>Texts of tokens\<close>

definition lexes :: "string \<Rightarrow> JsonTokenType \<Rightarrow> string option \<Rightarrow> string \<Rightarrow> bool" where
  \<comment> \<open>the token that a text begins with, and the text after it\<close>
  "lexes s ty v rest \<longleftrightarrow> (\<forall>start ctx. cx_rest ctx = s \<longrightarrow>
     (\<exists>t ctx'. token_at start (json_skip_whitespace ctx) = (t, ctx') \<and> tk_type t = ty \<and> tk_value t = v \<and>
        cx_rest ctx' = rest))"

lemma lexesD:
  assumes "lexes s ty v rest" and "cx_rest ctx = s"
  obtains t ctx' where "json_parse_token ctx = (t, ctx')" "tk_type t = ty" "tk_value t = v" "cx_rest ctx' = rest"
  using assms unfolding lexes_def json_parse_token_def by blast

lemma lexesI:
  assumes "\<not> isspace c" and "\<And>start ctx. cx_rest ctx = c # s \<Longrightarrow>
    \<exists>t ctx'. token_at start ctx = (t, ctx') \<and> tk_type t = ty \<and> tk_value t = v \<and> cx_rest ctx' = rest"
  shows "lexes (c # s) ty v rest"
  unfolding lexes_def
proof (intro allI impI)
  fix start ctx
  assume "cx_rest ctx = c # s"
  with assms(1) show "\<exists>t ctx'. token_at start (json_skip_whitespace ctx) = (t, ctx') \<and> tk_type t = ty \<and>
      tk_value t = v \<and> cx_rest ctx' = rest" by (intro assms(2)) simp
qed

lemma skip_whitespace_advance:
  "cx_rest ctx = c # s \<Longrightarrow> isspace c \<Longrightarrow> json_skip_whitespace ctx = json_skip_whitespace (advance 1 ctx)"
  by (simp add: json_skip_whitespace_def advance_def cx_rest_def drop_Suc [symmetric] drop_drop)
    (metis drop_Suc list.sel(3) tl_drop)

lemma lexes_space: "isspace c \<Longrightarrow> lexes s ty v rest \<Longrightarrow> lexes (c # s) ty v rest"
  unfolding lexes_def
proof (intro allI impI)
  fix start ctx
  assume "isspace c" and lex: "\<forall>start ctx. cx_rest ctx = s \<longrightarrow>
     (\<exists>t ctx'. token_at start (json_skip_whitespace ctx) = (t, ctx') \<and> tk_type t = ty \<and> tk_value t = v \<and>
        cx_rest ctx' = rest)" and r: "cx_rest ctx = c # s"
  then have "cx_rest (advance 1 ctx) = s" by simp
  with lex skip_whitespace_advance [OF r \<open>isspace c\<close>]
  show "\<exists>t ctx'. token_at start (json_skip_whitespace ctx) = (t, ctx') \<and> tk_type t = ty \<and> tk_value t = v \<and>
      cx_rest ctx' = rest" by metis
qed

lemma lexes_spaces: "list_all isspace sp \<Longrightarrow> lexes s ty v rest \<Longrightarrow> lexes (sp @ s) ty v rest"
  by (induction sp) (simp_all add: lexes_space)

lemma lexes_punct: "punctuation c = Some ty \<Longrightarrow> lexes (c # s) ty None s"
proof (rule lexesI)
  assume p: "punctuation c = Some ty"
  then show "\<not> isspace c" by (auto simp: punctuation_def isspace_def split: if_splits)
  show "\<exists>t ctx'. token_at start ctx = (t, ctx') \<and> tk_type t = ty \<and> tk_value t = None \<and> cx_rest ctx' = s"
    if "cx_rest ctx = c # s" for start ctx
    using that p by (simp add: token_at_def plain_token_def)
qed

definition closed_text :: "string \<Rightarrow> bool" where
  \<comment> \<open>no quote ends the text early, and no backslash at its end protects the closing quote\<close>
  "closed_text s \<longleftrightarrow> (\<forall>rest. string_end False (s @ CHR 0x22 # rest) = Some (length s))"

lemma lexes_string:
  assumes "closed_text txt" and "nul_free txt"
  shows "lexes (CHR 0x22 # txt @ CHR 0x22 # s) TOKEN_STRING (Some txt) s"
proof (rule lexesI)
  show "\<not> isspace (CHR 0x22)" by (simp add: isspace_def)
  show "\<exists>t ctx'. token_at start ctx = (t, ctx') \<and> tk_type t = TOKEN_STRING \<and> tk_value t = Some txt \<and> cx_rest ctx' = s"
    if "cx_rest ctx = CHR 0x22 # txt @ CHR 0x22 # s" for start ctx
    using that assms by (simp add: token_at_def punctuation_def text_token_def closed_text_def)
qed

lemma lexes_words:
  "lexes (''true'' @ s) TOKEN_BOOLEAN (Some ''true'') s"
  "lexes (''false'' @ s) TOKEN_BOOLEAN (Some ''false'') s"
  "lexes (''null'' @ s) TOKEN_NULL (Some ''null'') s"
proof -
  have w: "lexes (w @ s) ty (Some w) s"
    if "w \<noteq> []" "\<not> isspace (hd w)" "\<And>start ctx. cx_rest ctx = w @ s \<Longrightarrow> token_at start ctx = word_token start ctx ty w" for w ty
  proof -
    from that(1) obtain c cs where c: "w = c # cs" by (meson list.exhaust)
    show ?thesis unfolding c append_Cons
    proof (rule lexesI)
      show "\<not> isspace c" using that(2) c by simp
      fix start ctx
      assume r: "cx_rest ctx = c # cs @ s"
      have "length (cx_json ctx) - cx_position ctx = Suc (length cs + length s)"
        using arg_cong [OF r, of length] by (simp add: cx_rest_def)
      then have "cx_position ctx + length w \<le> length (cx_json ctx)" using c by simp
      with that(3) [of ctx start] r c starts_with_refl [of w s]
      show "\<exists>t ctx'. token_at start ctx = (t, ctx') \<and> tk_type t = ty \<and> tk_value t = Some (c # cs) \<and> cx_rest ctx' = s"
        by (simp add: word_token_def json_match_string_def)
    qed
  qed
  show "lexes (''true'' @ s) TOKEN_BOOLEAN (Some ''true'') s"
    by (rule w) (simp_all add: isspace_def token_at_def punctuation_def)
  show "lexes (''false'' @ s) TOKEN_BOOLEAN (Some ''false'') s"
    by (rule w) (simp_all add: isspace_def token_at_def punctuation_def)
  show "lexes (''null'' @ s) TOKEN_NULL (Some ''null'') s"
    by (rule w) (simp_all add: isspace_def token_at_def punctuation_def)
qed

definition number_stops :: "string \<Rightarrow> bool" where
  "number_stops s \<longleftrightarrow> (case s of [] \<Rightarrow> True
     | c # _ \<Rightarrow> \<not> isdigit c \<and> c \<noteq> CHR ''.'' \<and> c \<noteq> CHR ''e'' \<and> c \<noteq> CHR ''E'')"

lemma number_length_show_int:
  assumes "number_stops s"
  shows "number_length (show_int i @ s) = length (show_int i)"
proof -
  have stop: "takeWhile isdigit s = []" "\<not> starts_with ''.'' s" "\<not> starts_with ''e'' s" "\<not> starts_with ''E'' s"
    using assms by (auto simp: number_stops_def starts_with_def split: list.splits)
  have tw: "takeWhile isdigit (dec_digits n @ s) = dec_digits n" for n using stop(1) by simp
  show ?thesis
  proof (cases "i < 0")
    case True
    have m: "starts_with ''-'' (CHR ''-'' # t)" for t by (simp add: starts_with_def)
    show ?thesis using True stop tw by (simp add: number_length_def show_int_def m Let_def)
  next
    case False
    obtain c cs where d: "dec_digits (nat i) = c # cs" "isdigit c" using dec_digits_Cons by blast
    then have m: "\<not> starts_with ''-'' (dec_digits (nat i) @ s)" by (auto simp: starts_with_def isdigit_def)
    show ?thesis using False stop tw [of "nat i"] m by (simp add: number_length_def show_int_def Let_def)
  qed
qed

lemma show_int_Cons: "\<exists>c cs. show_int i = c # cs \<and> (c = CHR ''-'' \<or> isdigit c)"
  using dec_digits_Cons [of "nat i"] by (auto simp: show_int_def)

lemma lexes_int:
  assumes "number_stops s"
  shows "lexes (show_int i @ s) TOKEN_NUMBER (Some (show_int i)) s"
proof -
  obtain c cs where c: "show_int i = c # cs" "c = CHR ''-'' \<or> isdigit c" using show_int_Cons by blast
  note n = number_length_show_int [OF assms, of i]
  have p: "punctuation c = None" "c \<noteq> CHR 0x22" "c \<noteq> CHR ''t''" "c \<noteq> CHR ''f''" "c \<noteq> CHR ''n''"
    using c(2) by (auto simp: punctuation_def isdigit_def)
  show ?thesis unfolding c(1) append_Cons
  proof (rule lexesI)
    show "\<not> isspace c" using c(2) by (auto simp: isspace_def isdigit_def Let_def)
    fix start ctx
    assume r: "cx_rest ctx = c # cs @ s"
    have "nul_free (c # cs)" using nul_free_show_int [of i] c(1) by simp
    with r p c n show "\<exists>t ctx'. token_at start ctx = (t, ctx') \<and> tk_type t = TOKEN_NUMBER \<and>
        tk_value t = Some (c # cs) \<and> cx_rest ctx' = s"
      by (simp add: token_at_def text_token_def)
  qed
qed

end
