(* ===== verification/Lx_Json_Reader.thy ===== *)
theory Lx_Json_Reader
  imports Lx_Json_Lexer Lx_Values Lx_Table
begin

text \<open>
  Reading values and records: \<open>json_parse_field_value\<close>, \<open>json_to_record\<close> and the records of a table,
  \<open>json_parse_table_records\<close>, of \<open>src/src/json_io.c\<close>.

  A loop over tokens takes fuel; its callers give it the number of bytes left and one, which is
  enough because every turn takes a token. \<open>Undefined\<close> is a call with undefined behaviour, here a
  second \<open>free\<close> of a key. The messages in \<open>error_msg\<close> are those of the lexer only. \<open>strtod\<close> is the
  argument \<open>lib\<close>, and \<open>mk\<close> the value of \<open>mktime\<close> for year, month, day, hour, minute and second.
\<close>

datatype 'a run = OutOfFuel | Undefined | Returns 'a

section \<open>Field values\<close>

definition scan_int :: "string \<Rightarrow> (int \<times> string) option" where
  \<comment> \<open>\<open>%d\<close> of \<open>sscanf\<close>\<close>
  "scan_int s = (if takeWhile isdigit (snd (strtol_sign (dropWhile isspace s))) = [] then None else Some (strtol s))"

fun scan_ints :: "string list \<Rightarrow> string \<Rightarrow> int list" where
  \<comment> \<open>\<open>%d\<close> after each separator, until one does not match; \<open>" "\<close> matches any white space\<close>
  "scan_ints [] s = []"
| "scan_ints (sep # seps) s =
     (let t = (if sep = '' '' then dropWhile isspace s else s) in
      if sep \<noteq> '' '' \<and> \<not> starts_with sep t then []
      else (case scan_int (if sep = '' '' then t else drop (length sep) t) of None \<Rightarrow> []
        | Some (v, rest) \<Rightarrow> v # scan_ints seps rest))"

definition parse_datetime :: "string \<Rightarrow> int list option" where
  \<comment> \<open>\<open>sscanf(s, "%d-%d-%d %d:%d:%d", ...) == 6\<close>\<close>
  "parse_datetime s =
     (let vs = scan_ints [[], ''-'', ''-'', '' '', '':'', '':''] s in if length vs = 6 then Some vs else None)"

definition value_of_token :: "float_lib \<Rightarrow> (int list \<Rightarrow> int) \<Rightarrow> FieldType \<Rightarrow> JsonToken \<Rightarrow> FieldValue" where
  \<comment> \<open>the switch of \<open>json_parse_field_value\<close>, from a zeroed union\<close>
  "value_of_token lib mk expected_type token =
     (let ty = tk_type token; s = the (tk_value token);
          text_ok = (ty = TOKEN_NUMBER \<or> ty = TOKEN_STRING)
      in case expected_type of
        TYPE_INT \<Rightarrow> if text_ok then set_int_value (atoi s) zero_value else zero_value
      | TYPE_STRING \<Rightarrow> if text_ok
          then (strncpy zero_value s (MAX_FIELD_LEN - 1))[MAX_FIELD_LEN - 1 := NUL] else zero_value
      | TYPE_FLOAT \<Rightarrow> if text_ok then set_float_bits (fl_to_float lib (atof lib s)) zero_value else zero_value
      | TYPE_DOUBLE \<Rightarrow> if text_ok then set_double_bits (atof lib s) zero_value else zero_value
      | TYPE_BOOL \<Rightarrow>
          if ty = TOKEN_BOOLEAN then set_bool_value (strcmp s ''true'' = 0) zero_value
          else if ty = TOKEN_NUMBER then set_bool_value (atoi s \<noteq> 0) zero_value
          else if ty = TOKEN_STRING then set_bool_value (strcasecmp_eq s ''true'' \<or> strcasecmp_eq s ''1'' \<or>
              strcasecmp_eq s ''yes'') zero_value
          else zero_value
      | TYPE_DATETIME \<Rightarrow>
          if ty = TOKEN_STRING
          then (case parse_datetime s of None \<Rightarrow> zero_value | Some vs \<Rightarrow> set_int_value (mk vs) zero_value)
          else zero_value
      | _ \<Rightarrow> zero_value)"

definition json_parse_field_value ::
  "float_lib \<Rightarrow> (int list \<Rightarrow> int) \<Rightarrow> JsonParseContext \<Rightarrow> FieldType \<Rightarrow> Field \<times> JsonParseContext" where
  "json_parse_field_value lib mk ctx expected_type =
     (case json_parse_token ctx of (token, ctx') \<Rightarrow>
        (if tk_type token = TOKEN_NULL then zero_field\<lparr>f_type := TYPE_NULL\<rparr>
         else zero_field\<lparr>f_type := expected_type, f_value := value_of_token lib mk expected_type token\<rparr>, ctx'))"

definition store_parsed :: "Field list \<Rightarrow> nat \<Rightarrow> Field \<Rightarrow> Field list" where
  \<comment> \<open>the value, and \<open>TYPE_NULL\<close> for a null\<close>
  "store_parsed field_values i parsed = field_values[i := (field_values ! i)\<lparr>f_value := f_value parsed,
     f_type := (if f_type parsed = TYPE_NULL then TYPE_NULL else f_type (field_values ! i))\<rparr>]"

definition json_field_member ::
  "float_lib \<Rightarrow> (int list \<Rightarrow> int) \<Rightarrow> Table \<Rightarrow> JsonParseContext \<Rightarrow> string \<Rightarrow> Field list \<Rightarrow> Field list \<times> JsonParseContext" where
  \<comment> \<open>the value of a member: stored in its field, or one token is skipped when there is no such field\<close>
  "json_field_member lib mk table ctx field_key field_values = (case find_field table field_key of
     None \<Rightarrow> (field_values, snd (json_parse_token ctx))
   | Some i \<Rightarrow> (case json_parse_field_value lib mk ctx (t_field_types table ! i) of (parsed, ctx') \<Rightarrow>
       (store_parsed field_values i parsed, ctx')))"

section \<open>A record\<close>

fun read_fields ::
  "float_lib \<Rightarrow> (int list \<Rightarrow> int) \<Rightarrow> Table \<Rightarrow> nat \<Rightarrow> JsonParseContext \<Rightarrow> Field list \<Rightarrow>
   (Field list \<times> JsonParseContext) run" where
  \<comment> \<open>the fields object of \<open>json_to_record\<close>: each of its errors frees the key, leaves this loop only, and
      the key is freed again after it\<close>
  "read_fields lib mk table 0 ctx fs = OutOfFuel"
| "read_fields lib mk table (Suc fuel) ctx fs =
     (case json_parse_token ctx of (token, ctx1) \<Rightarrow>
        if tk_type token = TOKEN_OBJECT_END then Returns (fs, ctx1)
        else if tk_type token \<noteq> TOKEN_STRING then Undefined
        else (case json_parse_token ctx1 of (colon, ctx2) \<Rightarrow>
          if tk_type colon \<noteq> TOKEN_COLON then Undefined
          else (case json_field_member lib mk table ctx2 (the (tk_value token)) fs of (fs', ctx3) \<Rightarrow>
            (case json_parse_token ctx3 of (sep, ctx4) \<Rightarrow>
              if tk_type sep = TOKEN_COMMA then read_fields lib mk table fuel ctx4 fs'
              else if tk_type sep = TOKEN_OBJECT_END then Returns (fs', ctx4)
              else Undefined))))"

fun read_record ::
  "float_lib \<Rightarrow> (int list \<Rightarrow> int) \<Rightarrow> Table \<Rightarrow> nat \<Rightarrow> JsonParseContext \<Rightarrow> int \<Rightarrow> Field list \<Rightarrow> (int \<times> Field list) option run" where
  \<comment> \<open>the loop over the members of the record: \<open>Returns None\<close> is an error\<close>
  "read_record lib mk table 0 ctx record_id fs = OutOfFuel"
| "read_record lib mk table (Suc fuel) ctx record_id fs =
     (case json_parse_token ctx of (token, ctx1) \<Rightarrow>
        if tk_type token = TOKEN_OBJECT_END then Returns (Some (record_id, fs))
        else if tk_type token \<noteq> TOKEN_STRING then Returns None
        else (case json_parse_token ctx1 of (colon, ctx2) \<Rightarrow>
          if tk_type colon \<noteq> TOKEN_COLON then Returns None
          else
            let key = the (tk_value token);
                go_on = (\<lambda>ctx3 record_id' fs'. case json_parse_token ctx3 of (sep, ctx4) \<Rightarrow>
                  if tk_type sep = TOKEN_COMMA then read_record lib mk table fuel ctx4 record_id' fs'
                  else if tk_type sep = TOKEN_OBJECT_END then Returns (Some (record_id', fs'))
                  else Returns None);
                (val_token, ctx3) = json_parse_token ctx2
            in
            if strcmp key ''id'' = 0 then
              (if tk_type val_token = TOKEN_NUMBER then go_on ctx3 (atoi (the (tk_value val_token))) fs
               else Returns None)
            else if strcmp key ''fields'' = 0 then
              (if tk_type val_token \<noteq> TOKEN_OBJECT_START then Returns None
               else (case read_fields lib mk table (left ctx3 + 1) ctx3 fs of
                   Returns (fs', ctx4) \<Rightarrow> go_on ctx4 record_id fs' | OutOfFuel \<Rightarrow> OutOfFuel | Undefined \<Rightarrow> Undefined))
            else go_on ctx3 record_id fs))"

definition json_to_record ::
  "float_lib \<Rightarrow> (int list \<Rightarrow> int) \<Rightarrow> alloc \<Rightarrow> int \<Rightarrow> string option \<Rightarrow> Table option \<Rightarrow> Record option run" where
  "json_to_record lib mk ok now sp tp = (case (sp, tp) of
     (Some json_str, Some table) \<Rightarrow>
       (case json_parse_token (json_context json_str) of (token, ctx) \<Rightarrow>
          if tk_type token \<noteq> TOKEN_OBJECT_START then Returns None
          else if \<not> ok 0 then Returns None
          else (case read_record lib mk table (left ctx + 1) ctx (-1) (replicate (t_field_count table) zero_field) of
              Returns (Some (record_id, fs)) \<Rightarrow>
                if record_id = -1 \<or> \<not> ok 1 then Returns None
                else Returns (Some \<lparr>r_id = record_id, r_fields = fs, r_field_count = t_field_count table,
                       r_timestamp = now, r_version = 1\<rparr>)
            | Returns None \<Rightarrow> Returns None
            | OutOfFuel \<Rightarrow> OutOfFuel
            | Undefined \<Rightarrow> Undefined))
   | _ \<Rightarrow> Returns None)"

section \<open>Termination\<close>

lemma json_parse_token_left: "left (snd (json_parse_token ctx)) \<le> left ctx"
  using json_parse_token_progress(2) [of ctx "fst (json_parse_token ctx)" "snd (json_parse_token ctx)"] by simp

lemma json_parse_token_less:
  "json_parse_token ctx = (t, ctx') \<Longrightarrow> tk_type t = ty \<Longrightarrow> ty \<noteq> TOKEN_NONE \<Longrightarrow> ty \<noteq> TOKEN_EOF \<Longrightarrow> left ctx' < left ctx"
  using json_parse_token_progress(3) by auto

lemma json_field_member_left:
  "json_field_member lib mk table ctx key fs = (fs', ctx') \<Longrightarrow> left ctx' \<le> left ctx"
  using json_parse_token_left [of ctx]
  by (auto simp: json_field_member_def json_parse_field_value_def split: option.splits prod.splits)

lemma read_fields_enough:
  "left ctx < fuel \<Longrightarrow> read_fields lib mk table fuel ctx fs \<noteq> OutOfFuel \<and>
     (\<forall>fs' ctx'. read_fields lib mk table fuel ctx fs = Returns (fs', ctx') \<longrightarrow> left ctx' \<le> left ctx)"
proof (induction fuel arbitrary: ctx fs)
  case (Suc fuel)
  obtain token ctx1 where t: "json_parse_token ctx = (token, ctx1)" by fastforce
  obtain colon ctx2 where c: "json_parse_token ctx1 = (colon, ctx2)" by fastforce
  obtain fs1 ctx3 where m: "json_field_member lib mk table ctx2 (the (tk_value token)) fs = (fs1, ctx3)" by fastforce
  obtain sep ctx4 where s: "json_parse_token ctx3 = (sep, ctx4)" by fastforce
  have l: "left ctx1 \<le> left ctx" "left ctx4 \<le> left ctx1"
    using json_parse_token_progress(2) [OF t] json_parse_token_progress(2) [OF c] json_field_member_left [OF m]
      json_parse_token_progress(2) [OF s] by auto
  show ?case
  proof (cases "tk_type token = TOKEN_STRING \<and> tk_type colon = TOKEN_COLON \<and> tk_type sep = TOKEN_COMMA")
    case True
    then have "left ctx1 < left ctx" using json_parse_token_less [OF t] by simp
    with l Suc(2) have "left ctx4 < fuel" by linarith
    from Suc(1) [OF this, of fs1] l t c m s True show ?thesis by fastforce
  next
    case False
    with t c m s l show ?thesis by auto
  qed
qed simp

lemma read_record_enough:
  "left ctx < fuel \<Longrightarrow> read_record lib mk table fuel ctx record_id fs \<noteq> OutOfFuel"
proof (induction fuel arbitrary: ctx record_id fs)
  case (Suc fuel)
  obtain token ctx1 where t: "json_parse_token ctx = (token, ctx1)" by fastforce
  obtain colon ctx2 where c: "json_parse_token ctx1 = (colon, ctx2)" by fastforce
  obtain v ctx3 where v: "json_parse_token ctx2 = (v, ctx3)" by fastforce
  show ?case
  proof (cases "tk_type token = TOKEN_STRING \<and> tk_type colon = TOKEN_COLON")
    case True
    then have l: "left ctx3 < left ctx"
      using json_parse_token_less [OF t] json_parse_token_progress(2) [OF c] json_parse_token_progress(2) [OF v] by force
    define go_on where "go_on = (\<lambda>ctx3 record_id' fs'. case json_parse_token ctx3 of (sep, ctx4) \<Rightarrow>
                  if tk_type sep = TOKEN_COMMA then read_record lib mk table fuel ctx4 record_id' fs'
                  else if tk_type sep = TOKEN_OBJECT_END then Returns (Some (record_id', fs'))
                  else Returns None)"
    have go_on: "go_on c k f \<noteq> OutOfFuel" if "left c \<le> left ctx3" for c k f
    proof -
      obtain sep c4 where s: "json_parse_token c = (sep, c4)" by fastforce
      then have "left c4 < fuel" using json_parse_token_progress(2) [OF s] that l Suc(2) by linarith
      from Suc(1) [OF this] s show ?thesis by (simp add: go_on_def)
    qed
    have step: "read_record lib mk table (Suc fuel) ctx record_id fs =
      (if strcmp (the (tk_value token)) ''id'' = 0 then
         (if tk_type v = TOKEN_NUMBER then go_on ctx3 (atoi (the (tk_value v))) fs else Returns None)
       else if strcmp (the (tk_value token)) ''fields'' = 0 then
         (if tk_type v \<noteq> TOKEN_OBJECT_START then Returns None
          else (case read_fields lib mk table (left ctx3 + 1) ctx3 fs of
              Returns (fs', ctx4) \<Rightarrow> go_on ctx4 record_id fs' | OutOfFuel \<Rightarrow> OutOfFuel | Undefined \<Rightarrow> Undefined))
       else go_on ctx3 record_id fs)"
      unfolding go_on_def using True t c v by (simp add: Let_def del: read_fields.simps)
    show ?thesis unfolding step
      using go_on read_fields_enough [of ctx3 "left ctx3 + 1" lib mk table fs]
      by (auto simp del: read_fields.simps split: run.split)
  next
    case False
    with t c show ?thesis by auto
  qed
qed simp

lemma json_to_record_enough: "json_to_record lib mk ok now sp tp \<noteq> OutOfFuel"
proof -
  have "read_record lib mk table (left ctx + 1) ctx k fs \<noteq> OutOfFuel" for table ctx k fs
    by (rule read_record_enough) simp
  then show ?thesis
    by (auto simp: json_to_record_def simp del: read_record.simps split: option.splits prod.splits run.splits)
qed

end
