(* ===== verification/Lx_Json_Writer.thy ===== *)
theory Lx_Json_Writer
  imports Lx_Database Lx_Config
begin

text \<open>
  The serializer of \<open>src/src/json_io.c\<close>: escaping, the growing buffer, and the \<open>json_serialize_*\<close>
  functions that write values, schemas, records and the metadata of a database; with
  \<open>record_to_json\<close>, \<open>table_to_json\<close>, \<open>query_result_to_json\<close> and \<open>db_save_to_file\<close>.

  The state holds the bytes written (\<open>size\<close> is their number), the capacity, the indentation, and the
  outcomes of the allocations still to come. \<open>json_realloc\<close> frees the buffer when it fails, and
  \<open>js_freed\<close> records that. A write returns \<open>None\<close> where the C code has no defined behaviour: an
  append of more bytes than a buffer of \<open>snprintf\<close> has, a calendar time that \<open>localtime\<close> cannot
  give, or a second \<open>free\<close> of the buffer. The texts of floating point numbers and of local times are
  those of the C library: the argument \<open>env\<close>. Sizes stay below the address space, so the doubling
  of the capacity does not wrap.
\<close>

section \<open>Escaping\<close>

definition hex4 :: "nat \<Rightarrow> string" where
  \<comment> \<open>\<open>\u%04x\<close> of a control character\<close>
  "hex4 n = [CHR 0x5C, CHR ''u'', CHR ''0'', CHR ''0'', digit_char (n div 16),
     (if n mod 16 < 10 then digit_char (n mod 16) else char_of (97 + (n mod 16 - 10)))]"

definition escape_char :: "char \<Rightarrow> string" where
  \<comment> \<open>what the switch writes for a character\<close>
  "escape_char c =
     (if c = CHR 0x22 then [CHR 0x5C, CHR 0x22] else if c = CHR 0x5C then [CHR 0x5C, CHR 0x5C]
      else if c = CHR 0x08 then [CHR 0x5C, CHR ''b''] else if c = CHR 0x0C then [CHR 0x5C, CHR ''f'']
      else if c = CHR 0x0A then [CHR 0x5C, CHR ''n''] else if c = CHR 0x0D then [CHR 0x5C, CHR ''r'']
      else if c = CHR 0x09 then [CHR 0x5C, CHR ''t'']
      else if (of_char c :: nat) < 0x20 then hex4 (of_char c) else [c])"

fun escape_loop :: "string \<Rightarrow> nat \<Rightarrow> string \<Rightarrow> string" where
  \<comment> \<open>the loop with the bytes written so far: a text that does not fit is left out\<close>
  "escape_loop [] dst_size dst = dst"
| "escape_loop (c # src) dst_size dst =
     (if \<not> length dst + 1 < dst_size then dst
      else
        let e = escape_char c in
        escape_loop src dst_size (if length e = 1 \<or> length dst + length e < dst_size then dst @ e else dst))"

definition json_escape_string :: "string option \<Rightarrow> nat \<Rightarrow> string" where
  \<comment> \<open>the text in the destination buffer\<close>
  "json_escape_string sp dst_size = (case sp of None \<Rightarrow> [] | Some src \<Rightarrow> escape_loop src dst_size [])"

definition escape_size :: "string \<Rightarrow> nat" where
  "escape_size str = length str * 6 + 1"

definition json_escape_string_alloc :: "bool \<Rightarrow> string option \<Rightarrow> string option" where
  "json_escape_string_alloc ok sp = (case sp of None \<Rightarrow> None
     | Some str \<Rightarrow> if \<not> ok then None else Some (json_escape_string (Some str) (escape_size str)))"

section \<open>The buffer\<close>

record JsonSerializeState =
  js_text :: string
  js_capacity :: nat
  js_indent_level :: int
  js_pretty :: bool
  js_alloc :: alloc
  js_freed :: bool

definition JSON_BUFFER_SIZE :: nat where "JSON_BUFFER_SIZE = 4096"
definition JSON_INDENT_SIZE :: nat where "JSON_INDENT_SIZE = 2"

type_synonym json_write = "JsonSerializeState \<Rightarrow> (bool \<times> JsonSerializeState) option"

fun run_writes :: "json_write list \<Rightarrow> json_write" where
  \<comment> \<open>a sequence of \<open>if (!write) return false;\<close>\<close>
  "run_writes [] st = Some (True, st)"
| "run_writes (w # ws) st = (case w st of None \<Rightarrow> None
     | Some (done, st') \<Rightarrow> if done then run_writes ws st' else Some (False, st'))"

definition take_alloc :: "JsonSerializeState \<Rightarrow> bool \<times> JsonSerializeState" where
  "take_alloc st = (js_alloc st 0, st\<lparr>js_alloc := shift_alloc 1 (js_alloc st)\<rparr>)"

function grow_capacity :: "nat \<Rightarrow> nat \<Rightarrow> nat" where
  \<comment> \<open>\<open>while (new_capacity < need) new_capacity *= 2\<close>, for a capacity that is not 0\<close>
  "grow_capacity new_capacity need =
     (if new_capacity = 0 \<or> need \<le> new_capacity then new_capacity else grow_capacity (new_capacity * 2) need)"
  by auto
termination by (relation "measure (\<lambda>(c, n). n - c)") auto

declare grow_capacity.simps [simp del]

definition json_serialize_ensure_capacity :: "JsonSerializeState \<Rightarrow> nat \<Rightarrow> bool \<times> JsonSerializeState" where
  "json_serialize_ensure_capacity st additional =
     (let need = length (js_text st) + additional + 1 in
      if js_capacity st < need then
        let (got, st') = take_alloc st in
        if \<not> got then (False, st'\<lparr>js_freed := True\<rparr>)
        else (True, st'\<lparr>js_capacity := grow_capacity (js_capacity st * 2) need\<rparr>)
      else (True, st))"

definition json_serialize_append :: "string \<Rightarrow> json_write" where
  "json_serialize_append str st =
     (let (room, st') = json_serialize_ensure_capacity st (length str) in
      if \<not> room then Some (False, st') else Some (True, st'\<lparr>js_text := js_text st' @ str\<rparr>))"

definition json_serialize_append_string :: "string option \<Rightarrow> json_write" where
  "json_serialize_append_string sp st = (case sp of
     None \<Rightarrow> json_serialize_append ''null'' st
   | Some str \<Rightarrow>
       let (got, st1) = take_alloc st in
       (case json_escape_string_alloc got (Some str) of None \<Rightarrow> Some (False, st1)
        | Some escaped \<Rightarrow> run_writes [json_serialize_append [CHR 0x22], json_serialize_append escaped,
            json_serialize_append [CHR 0x22]] st1))"

definition json_serialize_indent :: json_write where
  "json_serialize_indent st =
     (if \<not> js_pretty st then Some (True, st)
      else run_writes (json_serialize_append [CHR 0x0A] #
             replicate (nat (js_indent_level st) * JSON_INDENT_SIZE) (json_serialize_append '' '')) st)"

definition change_level :: "int \<Rightarrow> json_write" where
  \<comment> \<open>\<open>state->indent_level++\<close> and \<open>--\<close>\<close>
  "change_level d st = Some (True, st\<lparr>js_indent_level := js_indent_level st + d\<rparr>)"

definition append_buffer :: "nat \<Rightarrow> string \<Rightarrow> json_write" where
  \<comment> \<open>\<open>snprintf\<close> to a buffer of \<open>n\<close> bytes, then an append of the length it returned\<close>
  "append_buffer n str st = (if length str < n then json_serialize_append str st else None)"

section \<open>Values, schemas and records\<close>

record json_env =
  je_float :: "nat \<Rightarrow> string"
  je_double :: "nat \<Rightarrow> string"
  je_time :: "int \<Rightarrow> string option"

definition append_time :: "json_env \<Rightarrow> int \<Rightarrow> json_write" where
  \<comment> \<open>\<open>strftime\<close> with quotes of the local time\<close>
  "append_time env t st = (case je_time env t of None \<Rightarrow> None
     | Some s \<Rightarrow> append_buffer 64 ([CHR 0x22] @ s @ [CHR 0x22]) st)"

definition json_serialize_field_value :: "json_env \<Rightarrow> Field option \<Rightarrow> json_write" where
  "json_serialize_field_value env fp = (case fp of None \<Rightarrow> json_serialize_append ''null''
     | Some field \<Rightarrow> (case f_type field of
         TYPE_INT \<Rightarrow> append_buffer 32 (show_int (int_value (f_value field)))
       | TYPE_STRING \<Rightarrow> json_serialize_append_string (Some (string_value (f_value field)))
       | TYPE_FLOAT \<Rightarrow> append_buffer 32 (je_float env (float_bits (f_value field)))
       | TYPE_DOUBLE \<Rightarrow> append_buffer 32 (je_double env (double_bits (f_value field)))
       | TYPE_BOOL \<Rightarrow> json_serialize_append (if bool_value (f_value field) then ''true'' else ''false'')
       | TYPE_DATETIME \<Rightarrow> append_time env (int_value (f_value field))
       | TYPE_BLOB \<Rightarrow> json_serialize_append [CHR 0x22, CHR 0x22]
       | TYPE_NULL \<Rightarrow> json_serialize_append ''null''
       | TYPE_UNKNOWN \<Rightarrow> json_serialize_append [CHR 0x22, CHR 0x22]))"

definition quoted :: "string \<Rightarrow> string" where
  "quoted s = [CHR 0x22] @ s @ [CHR 0x22]"

definition key_text :: "string \<Rightarrow> string" where
  \<comment> \<open>a literal key of the format with its colon\<close>
  "key_text s = quoted s @ '': ''"

definition newline_after :: "string \<Rightarrow> string" where
  "newline_after s = s @ [CHR 0x0A]"

definition json_serialize_database_metadata :: "json_env \<Rightarrow> int \<Rightarrow> Database \<Rightarrow> json_write" where
  "json_serialize_database_metadata env now db = run_writes
     [json_serialize_indent, json_serialize_append (newline_after (key_text ''metadata'' @ ''{'')), change_level 1,
      json_serialize_indent, json_serialize_append (key_text ''name''),
      json_serialize_append_string (Some ''Database''), json_serialize_append (newline_after '',''),
      json_serialize_indent, json_serialize_append (key_text ''version'' @ [CHR 0x22]),
      json_serialize_append ''1.0.0'', json_serialize_append ([CHR 0x22] @ newline_after '',''),
      json_serialize_indent, json_serialize_append (key_text ''created_at''), append_time env now,
      json_serialize_append (newline_after '',''),
      json_serialize_indent, json_serialize_append (key_text ''table_count''),
      json_serialize_append (show_int (int (db_table_count db))), json_serialize_append (newline_after []),
      change_level (-1), json_serialize_indent, json_serialize_append ''}'']"

definition constraint_words :: "Constraint \<Rightarrow> string list" where
  "constraint_words c = (if c_primary_key c then [''PRIMARY KEY''] else []) @
     (if c_unique c then [''UNIQUE''] else []) @ (if \<not> c_nullable c then [''NOT NULL''] else [])"

fun write_words :: "bool \<Rightarrow> string list \<Rightarrow> json_write list" where
  \<comment> \<open>the quoted words, with \<open>", "\<close> before all but the first\<close>
  "write_words first [] = []"
| "write_words first (w # ws) = (if first then [] else [json_serialize_append '', '']) @
     [json_serialize_append (quoted w)] @ write_words False ws"

definition write_field_definition :: "Table \<Rightarrow> nat \<Rightarrow> json_write list" where
  \<comment> \<open>one turn of the loop over the fields\<close>
  "write_field_definition table i =
     [json_serialize_indent, json_serialize_append (newline_after ''{''), change_level 1,
      json_serialize_indent, json_serialize_append (key_text ''name''),
      json_serialize_append_string (Some (t_field_names table ! i)), json_serialize_append (newline_after '',''),
      json_serialize_indent, json_serialize_append (key_text ''type''),
      json_serialize_append_string (Some (field_type_to_string (t_field_types table ! i)))] @
     (let ws = constraint_words (t_constraints table ! i) in
      if ws \<noteq> [] then
        [json_serialize_append (newline_after '',''), json_serialize_indent,
         json_serialize_append (key_text ''constraints'' @ ''['')] @ write_words True ws @
        [json_serialize_append '']'']
      else []) @
     [change_level (-1), json_serialize_indent, json_serialize_append ''}'',
      json_serialize_append (newline_after (if int i < int (t_field_count table) - 1 then '','' else []))]"

definition json_serialize_table_schema :: "Table \<Rightarrow> json_write" where
  "json_serialize_table_schema table = run_writes (
     [json_serialize_indent, json_serialize_append (newline_after (key_text ''schema'' @ ''{'')), change_level 1,
      json_serialize_indent, json_serialize_append (key_text ''name''),
      json_serialize_append_string (Some (t_name table)), json_serialize_append (newline_after '',''),
      json_serialize_indent, json_serialize_append (newline_after (key_text ''fields'' @ ''['')), change_level 1] @
     concat (map (write_field_definition table) [0..<t_field_count table]) @
     [change_level (-1), json_serialize_indent, json_serialize_append (newline_after ''],''),
      json_serialize_indent, json_serialize_append (key_text ''record_count''),
      json_serialize_append (show_int (int (t_record_count table))),
      change_level (-1), json_serialize_indent, json_serialize_append ''}''])"

definition write_member :: "json_env \<Rightarrow> Table \<Rightarrow> Record \<Rightarrow> nat \<Rightarrow> json_write list" where
  "write_member env table record i =
     [json_serialize_indent, json_serialize_append [CHR 0x22], json_serialize_append (t_field_names table ! i),
      json_serialize_append ([CHR 0x22] @ '': ''), json_serialize_field_value env (Some (r_fields record ! i)),
      json_serialize_append (newline_after (if int i < int (t_field_count table) - 1 then '','' else []))]"

definition write_record :: "json_env \<Rightarrow> Table \<Rightarrow> Record \<Rightarrow> json_write list" where
  \<comment> \<open>one turn of the loop over the records, after the comma\<close>
  "write_record env table record =
     [json_serialize_indent, json_serialize_append (newline_after ''{''), change_level 1,
      json_serialize_indent, json_serialize_append (key_text ''id''),
      json_serialize_append (show_int (r_id record)), json_serialize_append (newline_after '',''),
      json_serialize_indent, json_serialize_append (newline_after (key_text ''fields'' @ ''{'')), change_level 1] @
     concat (map (write_member env table record) [0..<t_field_count table]) @
     [change_level (-1), json_serialize_indent, json_serialize_append ''}'',
      json_serialize_append (newline_after '',''), json_serialize_indent,
      json_serialize_append (newline_after (key_text ''metadata'' @ ''{'')), change_level 1,
      json_serialize_indent, json_serialize_append (key_text ''timestamp''), append_time env (r_timestamp record),
      json_serialize_append (newline_after '',''),
      json_serialize_indent, json_serialize_append (key_text ''version''),
      json_serialize_append (show_int (r_version record mod 2 ^ 32)),
      change_level (-1), json_serialize_indent, json_serialize_append ''}'',
      change_level (-1), json_serialize_indent, json_serialize_append ''}'']"

fun write_records :: "json_env \<Rightarrow> Table \<Rightarrow> bool \<Rightarrow> Record list \<Rightarrow> json_write list" where
  "write_records env table first_record [] = (if first_record then [] else [json_serialize_append (newline_after [])])"
| "write_records env table first_record (record # rest) =
     (if first_record then [] else [json_serialize_append (newline_after '','')]) @
     write_record env table record @ write_records env table False rest"

definition json_serialize_table_records :: "json_env \<Rightarrow> Table \<Rightarrow> json_write" where
  "json_serialize_table_records env table = run_writes (
     [json_serialize_indent, json_serialize_append (newline_after (key_text ''records'' @ ''['')), change_level 1] @
     write_records env table True (t_records table) @
     [change_level (-1), json_serialize_indent, json_serialize_append '']''])"

section \<open>Whole texts\<close>

record JsonSerializeOptions =
  so_pretty :: bool
  so_include_data :: bool

definition serialize_state :: "bool \<Rightarrow> alloc \<Rightarrow> JsonSerializeState" where
  "serialize_state pretty ok = \<lparr>js_text = [], js_capacity = JSON_BUFFER_SIZE, js_indent_level = 0,
     js_pretty = pretty, js_alloc = ok, js_freed = False\<rparr>"

definition finish_text :: "(bool \<times> JsonSerializeState) option \<Rightarrow> string option option" where
  \<comment> \<open>the buffer, or \<open>free(state.buffer); return NULL;\<close>, which is undefined when the buffer is freed already\<close>
  "finish_text r = (case r of None \<Rightarrow> None
     | Some (done, st) \<Rightarrow> if done then Some (Some (js_text st)) else if js_freed st then None else Some None)"

definition serialize_text :: "bool \<Rightarrow> alloc \<Rightarrow> json_write list \<Rightarrow> string option option" where
  \<comment> \<open>the first allocation is the buffer\<close>
  "serialize_text pretty ok ws =
     (if \<not> ok 0 then Some None else finish_text (run_writes ws (serialize_state pretty (shift_alloc 1 ok))))"

definition if_pretty :: "bool \<Rightarrow> json_write list \<Rightarrow> json_write list" where
  "if_pretty pretty ws = (if pretty then ws else [])"

definition write_plain_member :: "json_env \<Rightarrow> bool \<Rightarrow> Table \<Rightarrow> Record \<Rightarrow> nat \<Rightarrow> json_write list" where
  \<comment> \<open>one turn of the field loop of \<open>record_to_json\<close>\<close>
  "write_plain_member env pretty table record i =
     (if 0 < i then [json_serialize_append '',''] else []) @
     if_pretty pretty [json_serialize_append [CHR 0x0A], json_serialize_indent] @
     [json_serialize_append [CHR 0x22], json_serialize_append (t_field_names table ! i),
      json_serialize_append ([CHR 0x22] @ '': ''), json_serialize_field_value env (Some (r_fields record ! i))]"

definition record_to_json ::
  "json_env \<Rightarrow> alloc \<Rightarrow> Record option \<Rightarrow> Table option \<Rightarrow> JsonSerializeOptions option \<Rightarrow> string option option" where
  "record_to_json env ok rp tp options = (case (rp, tp) of
     (Some record, Some table) \<Rightarrow>
       let pretty = (case options of None \<Rightarrow> False | Some o1 \<Rightarrow> so_pretty o1) in
       serialize_text pretty ok (
         [json_serialize_append ''{'', change_level 1] @ if_pretty pretty [json_serialize_indent] @
         [json_serialize_append (key_text ''id''), json_serialize_append (show_int (r_id record)),
          json_serialize_append '',''] @
         if_pretty pretty [json_serialize_append [CHR 0x0A], json_serialize_indent] @
         [json_serialize_append (key_text ''fields'' @ ''{''), change_level 1] @
         concat (map (write_plain_member env pretty table record) [0..<t_field_count table]) @
         (if pretty then [json_serialize_append [CHR 0x0A], change_level (-1), json_serialize_indent]
          else [change_level (-1)]) @
         [json_serialize_append ''}'', change_level (-1)] @
         if_pretty pretty [json_serialize_append [CHR 0x0A], json_serialize_indent] @
         [json_serialize_append ''}''])
   | _ \<Rightarrow> Some None)"

definition table_to_json ::
  "json_env \<Rightarrow> alloc \<Rightarrow> Table option \<Rightarrow> JsonSerializeOptions option \<Rightarrow> string option option" where
  "table_to_json env ok tp options = (case tp of None \<Rightarrow> Some None
     | Some table \<Rightarrow>
         serialize_text (case options of None \<Rightarrow> True | Some o1 \<Rightarrow> so_pretty o1) ok (
           [json_serialize_append ''{'', change_level 1, json_serialize_table_schema table] @
           (case options of None \<Rightarrow> []
            | Some o1 \<Rightarrow> if so_include_data o1
                then [json_serialize_append (newline_after '',''), json_serialize_table_records env table] else []) @
           [change_level (-1), json_serialize_indent, json_serialize_append ''}'']))"

definition write_columns :: "QueryResult \<Rightarrow> json_write list" where
  "write_columns result = concat (map (\<lambda>i. (if 0 < i then [json_serialize_append '', ''] else []) @
     [json_serialize_append [CHR 0x22], json_serialize_append (q_column_names result ! i),
      json_serialize_append [CHR 0x22]]) [0..<q_column_count result])"

definition write_row :: "json_env \<Rightarrow> bool \<Rightarrow> QueryResult \<Rightarrow> nat \<Rightarrow> json_write list" where
  "write_row env pretty result r =
     (if 0 < r then [json_serialize_append '',''] else []) @
     if_pretty pretty [json_serialize_append [CHR 0x0A], json_serialize_indent] @
     [json_serialize_append ''[''] @
     concat (map (\<lambda>c. (if 0 < c then [json_serialize_append '', ''] else []) @
        [json_serialize_field_value env (Some (q_rows result ! r ! c))]) [0..<q_column_count result]) @
     [json_serialize_append '']'']"

definition query_result_to_json ::
  "json_env \<Rightarrow> alloc \<Rightarrow> QueryResult option \<Rightarrow> JsonSerializeOptions option \<Rightarrow> string option option" where
  "query_result_to_json env ok qp options = (case qp of None \<Rightarrow> Some None
     | Some result \<Rightarrow>
         let pretty = (case options of None \<Rightarrow> False | Some o1 \<Rightarrow> so_pretty o1);
             line = if_pretty pretty [json_serialize_append [CHR 0x0A], json_serialize_indent] in
         serialize_text pretty ok (
           [json_serialize_append ''{'', change_level 1] @ line @
           [json_serialize_append (key_text ''row_count''),
            json_serialize_append (show_int (int (q_row_count result))), json_serialize_append '',''] @ line @
           [json_serialize_append (key_text ''column_count''),
            json_serialize_append (show_int (int (q_column_count result))), json_serialize_append '',''] @ line @
           [json_serialize_append (key_text ''columns'' @ ''['')] @ write_columns result @
           [json_serialize_append ''],''] @ line @
           [json_serialize_append (key_text ''rows'' @ ''[''), change_level 1] @
           concat (map (write_row env pretty result) [0..<q_row_count result]) @
           [change_level (-1)] @ line @ [json_serialize_append '']'', change_level (-1)] @ line @
           [json_serialize_append ''}'']))"

definition write_table :: "json_env \<Rightarrow> Database \<Rightarrow> nat \<Rightarrow> json_write list" where
  \<comment> \<open>one turn of the loop over the tables\<close>
  "write_table env db t =
     (if 0 < t then [json_serialize_append '',''] else []) @
     [json_serialize_indent, json_serialize_append (newline_after ''{''), change_level 1,
      json_serialize_table_schema (db_tables db ! t), json_serialize_append (newline_after '',''),
      json_serialize_table_records env (db_tables db ! t),
      change_level (-1), json_serialize_indent, json_serialize_append ''}'']"

definition write_database :: "json_env \<Rightarrow> int \<Rightarrow> Database \<Rightarrow> json_write list" where
  "write_database env now db =
     [json_serialize_append ''{'', change_level 1, json_serialize_database_metadata env now db,
      json_serialize_append '','', json_serialize_indent, json_serialize_append (key_text ''tables'' @ ''[''),
      change_level 1] @
     concat (map (write_table env db) [0..<db_table_count db]) @
     [change_level (-1), json_serialize_indent, json_serialize_append '']'',
      change_level (-1), json_serialize_indent, json_serialize_append ''}'']"

definition db_save_to_file ::
  "json_env \<Rightarrow> alloc \<Rightarrow> int \<Rightarrow> bool \<Rightarrow> nat \<Rightarrow> file_system \<Rightarrow> Database option \<Rightarrow> string option \<Rightarrow>
   (ErrorCode \<times> file_system) option" where
  \<comment> \<open>\<open>can_write\<close>: whether \<open>fopen\<close> succeeds; \<open>written\<close>: what \<open>fwrite\<close> returns\<close>
  "db_save_to_file env ok now can_write written files dp fp = (case (dp, fp) of
     (Some db, Some filename) \<Rightarrow>
       (case serialize_text True ok (write_database env now db) of None \<Rightarrow> None
        | Some None \<Rightarrow> Some (ERROR_MEMORY_ALLOCATION, files)
        | Some (Some text) \<Rightarrow>
            if \<not> can_write then Some (ERROR_IO_OPERATION, files)
            else Some (if written \<noteq> length text then ERROR_IO_OPERATION else SUCCESS,
                       files(filename \<mapsto> take written text)))
   | _ \<Rightarrow> Some (ERROR_INVALID_INPUT, files))"

end
