(* ===== verification/Lx_Json_Tools.thy ===== *)
theory Lx_Json_Tools
  imports Lx_Json_Reader Lx_Json_Writer
begin

text \<open>
  The functions over JSON texts at the end of \<open>src/src/json_io.c\<close>: validation, pretty printing,
  minifying, merging, path queries, statistics, types and differences.

  \<open>error_msg\<close> is an out-parameter: \<open>want\<close> says that the caller passed one, and the result is \<open>None\<close>
  when it is not written. \<open>Undefined\<close> is a write past the end of a buffer, a signed overflow, or a use
  of freed memory. \<open>json_get_stats_string\<close> can run forever: then its loop is \<open>None\<close>. The clock
  readings of the statistics are left out.
\<close>

section \<open>Validation and types\<close>

definition set_error :: "bool \<Rightarrow> bool \<Rightarrow> string \<Rightarrow> string option option" where
  \<comment> \<open>\<open>if (error_msg) *error_msg = json_strdup(...)\<close>\<close>
  "set_error want ok msg = (if want then Some (if ok then Some msg else None) else None)"

definition value_tokens :: "JsonTokenType list" where
  "value_tokens = [TOKEN_OBJECT_START, TOKEN_ARRAY_START, TOKEN_STRING, TOKEN_NUMBER, TOKEN_BOOLEAN, TOKEN_NULL]"

definition validate_json :: "bool \<Rightarrow> bool \<Rightarrow> string option \<Rightarrow> ErrorCode \<times> string option option" where
  "validate_json want ok sp = (case sp of None \<Rightarrow> (ERROR_INVALID_INPUT, None)
     | Some json_str \<Rightarrow>
       (case json_parse_token (json_context json_str) of (token, ctx) \<Rightarrow>
          if tk_type token = TOKEN_NONE then (ERROR_INVALID_INPUT, set_error want ok (cx_error ctx))
          else if tk_type token \<notin> set value_tokens
          then (ERROR_INVALID_INPUT, set_error want ok ''Invalid JSON: expected value'')
          else (case json_parse_token ctx of (token', ctx') \<Rightarrow>
            if tk_type token' \<noteq> TOKEN_EOF
            then (ERROR_INVALID_INPUT, set_error want ok ''Invalid JSON: extra characters after value'')
            else (SUCCESS, None))))"

definition json_validate_file ::
  "bool \<Rightarrow> bool \<Rightarrow> file_system \<Rightarrow> string option \<Rightarrow> ErrorCode \<times> string option option" where
  "json_validate_file want ok files fp = (case fp of None \<Rightarrow> (ERROR_INVALID_INPUT, None)
     | Some filename \<Rightarrow>
       (case files filename of None \<Rightarrow> (ERROR_IO_OPERATION, set_error want ok ''Failed to open file'')
        | Some content \<Rightarrow>
          (case take 1023 content of [] \<Rightarrow> (ERROR_INVALID_INPUT, set_error want ok ''Empty file'')
           | c # _ \<Rightarrow> if c \<noteq> CHR ''{'' \<and> c \<noteq> CHR ''[''
               then (ERROR_INVALID_INPUT, set_error want ok ''File does not start with JSON object or array'')
               else (SUCCESS, None))))"

definition json_get_type :: "bool \<Rightarrow> string option \<Rightarrow> string option" where
  "json_get_type ok sp = (case sp of None \<Rightarrow> None
     | Some json_str \<Rightarrow> if \<not> ok then None
         else Some (case tk_type (fst (json_parse_token (json_context json_str))) of
             TOKEN_OBJECT_START \<Rightarrow> ''object'' | TOKEN_ARRAY_START \<Rightarrow> ''array'' | TOKEN_STRING \<Rightarrow> ''string''
           | TOKEN_NUMBER \<Rightarrow> ''number'' | TOKEN_BOOLEAN \<Rightarrow> ''boolean'' | TOKEN_NULL \<Rightarrow> ''null''
           | _ \<Rightarrow> ''unknown''))"

section \<open>Pretty printing and minifying\<close>

type_synonym pretty_state = "int \<times> bool \<times> bool \<times> string"

definition pad :: "nat \<Rightarrow> int \<Rightarrow> string \<Rightarrow> string option" where
  \<comment> \<open>\<open>for (k = 0; k < level * indent && j < size - 1; k++)\<close> appends a blank\<close>
  "pad buffer_size width out = (if \<not> c_int width then None
     else Some (out @ replicate (min (nat width) (buffer_size - 1 - length out)) (CHR '' '')))"

definition put :: "nat \<Rightarrow> string \<Rightarrow> string \<Rightarrow> string option" where
  \<comment> \<open>\<open>formatted[j++] = c\<close> for each byte\<close>
  "put buffer_size bytes out = (if length out + length bytes \<le> buffer_size then Some (out @ bytes) else None)"

fun pretty_step :: "int \<Rightarrow> nat \<Rightarrow> pretty_state \<Rightarrow> char \<Rightarrow> pretty_state option" where
  "pretty_step indent n (level, in_string, escaped, out) c =
     (if \<not> in_string then
        if c = CHR ''{'' \<or> c = CHR ''['' then
          map_option (\<lambda>out'. (level + 1, in_string, escaped, out'))
            (Option.bind (put n [c, CHR 0x0A] out) (pad n ((level + 1) * indent)))
        else if c = CHR ''}'' \<or> c = CHR '']'' then
          map_option (\<lambda>out'. (level - 1, in_string, escaped, out'))
            (Option.bind (Option.bind (put n [CHR 0x0A] out) (pad n ((level - 1) * indent))) (put n [c]))
        else if c = CHR '','' then
          map_option (\<lambda>out'. (level, in_string, escaped, out'))
            (Option.bind (put n [c, CHR 0x0A] out) (pad n (level * indent)))
        else if c = CHR '':'' then
          map_option (\<lambda>out'. (level, in_string, escaped, out')) (put n [c, CHR '' ''] out)
        else map_option (\<lambda>out'. (level, c = CHR 0x22, escaped, out')) (put n [c] out)
      else map_option (\<lambda>out'. (level, escaped \<or> c \<noteq> CHR 0x22, c = CHR 0x5C \<and> \<not> escaped, out')) (put n [c] out))"

fun pretty_loop :: "int \<Rightarrow> nat \<Rightarrow> pretty_state \<Rightarrow> string \<Rightarrow> pretty_state option" where
  "pretty_loop indent n st [] = Some st"
| "pretty_loop indent n (level, in_string, escaped, out) (c # cs) =
     (if length out < n - 1
      then Option.bind (pretty_step indent n (level, in_string, escaped, out) c) (\<lambda>st. pretty_loop indent n st cs)
      else Some (level, in_string, escaped, out))"

definition json_pretty_print :: "alloc \<Rightarrow> string option \<Rightarrow> int \<Rightarrow> string option run" where
  "json_pretty_print ok sp indent = (case sp of None \<Rightarrow> Returns None
     | Some json_str \<Rightarrow>
       if \<not> ok 0 then Returns None
       else if \<not> (0 < indent \<and> ok 1) then Returns (Some json_str)
       else (case pretty_loop indent (length json_str * 2) (0, False, False, []) json_str of
           None \<Rightarrow> Undefined
         | Some (level, in_string, escaped, formatted) \<Rightarrow>
             if length formatted < length json_str * 2 then Returns (Some formatted) else Undefined))"

datatype JsonCompressionType = JSON_COMPRESS_NONE | JSON_COMPRESS_MINIFY | JSON_COMPRESS_GZIP
  | JSON_COMPRESS_DEFLATE | JSON_COMPRESS_BROTLI | JSON_COMPRESS_LZ4 | JSON_COMPRESS_ZSTD | JSON_COMPRESS_CUSTOM

fun minify :: "bool \<Rightarrow> bool \<Rightarrow> string \<Rightarrow> string" where
  "minify in_string escaped [] = []"
| "minify in_string escaped (c # cs) =
     (if \<not> in_string then
        if \<not> isspace c then c # minify (c = CHR 0x22) escaped cs else minify in_string escaped cs
      else c # minify (escaped \<or> c \<noteq> CHR 0x22) (c = CHR 0x5C \<and> \<not> escaped) cs)"

definition json_compress :: "bool \<Rightarrow> string option \<Rightarrow> JsonCompressionType \<Rightarrow> string option" where
  "json_compress ok sp ty = (case sp of None \<Rightarrow> None
     | Some json_str \<Rightarrow> if \<not> ok then None
         else Some (if ty = JSON_COMPRESS_MINIFY then minify False False json_str else json_str))"

section \<open>Merging, differences and paths\<close>

definition json_merge_string :: "bool \<Rightarrow> string option \<Rightarrow> string option \<Rightarrow> string option" where
  \<comment> \<open>\<open>snprintf(merged, total_len, "[%s,%s]", json1, json2)\<close>; the strategy is not used\<close>
  "json_merge_string ok sp1 sp2 = (case (sp1, sp2) of
     (Some json1, Some json2) \<Rightarrow>
       let total_len = length json1 + length json2 + 3 in
       if \<not> ok then None else Some (take (total_len - 1) (''['' @ json1 @ '','' @ json2 @ '']''))
   | _ \<Rightarrow> None)"

definition json_diff_string :: "bool \<Rightarrow> string option \<Rightarrow> string option \<Rightarrow> bool option" where
  \<comment> \<open>the field \<open>identical\<close> of the difference; the others stay 0\<close>
  "json_diff_string ok sp1 sp2 = (case (sp1, sp2) of
     (Some json1, Some json2) \<Rightarrow> if \<not> ok then None else Some (strcmp json1 json2 = 0)
   | _ \<Rightarrow> None)"

definition json_path_query_string_simplified :: "bool \<Rightarrow> string option \<Rightarrow> string option \<Rightarrow> string option run" where
  \<comment> \<open>the first key found is freed with its token, and both branches after it use it: \<open>free\<close> when no
      colon follows, \<open>strcmp\<close> when one does\<close>
  "json_path_query_string_simplified ok sp pp = (case (sp, pp) of
     (Some json_str, Some path) \<Rightarrow>
       if strcmp path ''$'' = 0 then Returns (if ok then Some json_str else None)
       else if take 2 path = ''$.'' then
         (case json_parse_token (json_context json_str) of (token, ctx) \<Rightarrow>
            if tk_type token \<noteq> TOKEN_OBJECT_START then Returns None
            else (case json_parse_token ctx of (key_token, ctx') \<Rightarrow>
              if tk_type key_token = TOKEN_OBJECT_END then Returns None
              else if tk_type key_token \<noteq> TOKEN_STRING then Returns None
              else Undefined))
       else Returns None
   | _ \<Rightarrow> Returns None)"

section \<open>Statistics\<close>

record JsonStats =
  st_total_size :: nat
  st_object_count :: nat
  st_array_count :: nat
  st_string_count :: nat
  st_number_count :: nat
  st_boolean_count :: nat
  st_null_count :: nat
  st_string_bytes :: nat
  st_element_count :: nat

definition count_token :: "JsonToken \<Rightarrow> JsonStats \<Rightarrow> JsonStats" where
  "count_token token stats = (case tk_type token of
       TOKEN_OBJECT_START \<Rightarrow> stats\<lparr>st_object_count := st_object_count stats + 1\<rparr>
     | TOKEN_ARRAY_START \<Rightarrow> stats\<lparr>st_array_count := st_array_count stats + 1\<rparr>
     | TOKEN_STRING \<Rightarrow> stats\<lparr>st_string_count := st_string_count stats + 1,
         st_string_bytes := st_string_bytes stats + tk_length token\<rparr>
     | TOKEN_NUMBER \<Rightarrow> stats\<lparr>st_number_count := st_number_count stats + 1\<rparr>
     | TOKEN_BOOLEAN \<Rightarrow> stats\<lparr>st_boolean_count := st_boolean_count stats + 1\<rparr>
     | TOKEN_NULL \<Rightarrow> stats\<lparr>st_null_count := st_null_count stats + 1\<rparr>
     | _ \<Rightarrow> stats)"

partial_function (option) stats_loop :: "JsonParseContext \<Rightarrow> JsonStats \<Rightarrow> JsonStats option" where
  "stats_loop ctx stats =
     (let (token, ctx') = json_parse_token ctx in
      if tk_type token = TOKEN_EOF then Some stats else stats_loop ctx' (count_token token stats))"

definition no_stats :: JsonStats where
  "no_stats = \<lparr>st_total_size = 0, st_object_count = 0, st_array_count = 0, st_string_count = 0, st_number_count = 0,
     st_boolean_count = 0, st_null_count = 0, st_string_bytes = 0, st_element_count = 0\<rparr>"

definition json_get_stats_string :: "bool \<Rightarrow> string option \<Rightarrow> JsonStats option option" where
  \<comment> \<open>\<open>None\<close>: it does not return\<close>
  "json_get_stats_string ok sp = (case sp of None \<Rightarrow> Some None
     | Some json_str \<Rightarrow> if \<not> ok then Some None
         else map_option (\<lambda>stats. Some (stats\<lparr>st_element_count := st_string_count stats + st_number_count stats +
             st_boolean_count stats + st_null_count stats\<rparr>))
           (stats_loop (json_context json_str) (no_stats\<lparr>st_total_size := length json_str\<rparr>)))"

end
