(* ===== verification/Lx_Json_Roundtrip.thy ===== *)
theory Lx_Json_Roundtrip
  imports Lx_Json_Writer Lx_Json_Reader
begin

text \<open>
  What the serializer and the lexer of \<open>src/src/json_io.c\<close> make of each other's texts: escaped strings
  are single tokens that fit their buffers, every append stays within the capacity of the growing
  buffer, and a record that \<open>record_to_json\<close> wrote is read by \<open>json_to_record\<close>.
\<close>

section \<open>Escaped strings\<close>

definition escaped :: "string \<Rightarrow> string" where
  "escaped s = concat (map escape_char s)"

lemma hex4_less: "n < 32 \<Longrightarrow> n \<noteq> 0 \<Longrightarrow> \<exists>a b. hex4 n = [CHR 0x5C, CHR ''u'', CHR ''0'', CHR ''0'', a, b] \<and>
    isalnum a \<and> isalnum b"
proof -
  assume n: "n < 32" "n \<noteq> 0"
  have "n div 16 < 10" using n by simp
  then have "isalnum (digit_char (n div 16))" by (simp add: isalnum_def)
  moreover have "isalnum (if n mod 16 < 10 then digit_char (n mod 16) else char_of (97 + (n mod 16 - 10)))"
    by (auto simp: isalnum_def isalpha_def islower_def Let_def)
  ultimately show ?thesis by (simp add: hex4_def)
qed

lemma escape_char_cases:
  obtains (plain) "escape_char c = [c]" "c \<noteq> CHR 0x22" "c \<noteq> CHR 0x5C"
  | (short) d where "escape_char c = [CHR 0x5C, d]" "d \<noteq> NUL"
  | (nul) "c = NUL"
  | (hex) a b where "escape_char c = [CHR 0x5C, CHR ''u'', CHR ''0'', CHR ''0'', a, b]" "isalnum a" "isalnum b"
proof (cases "(of_char c :: nat) < 32 \<and> c \<notin> {CHR 0x22, CHR 0x5C, CHR 0x08, CHR 0x0C, CHR 0x0A, CHR 0x0D, CHR 0x09, NUL}")
  case True
  then have "c \<noteq> NUL" by simp
  then have "(of_char c :: nat) \<noteq> of_char NUL" by (simp only: of_char_eq_iff not_False_eq_True)
  then have "(of_char c :: nat) \<noteq> 0" by simp
  with True hex4_less [of "of_char c"] show ?thesis by (auto simp: escape_char_def intro: hex)
next
  case False
  then show ?thesis
    by (cases "c \<in> {CHR 0x22, CHR 0x5C, CHR 0x08, CHR 0x0C, CHR 0x0A, CHR 0x0D, CHR 0x09, NUL}")
      (auto simp: escape_char_def intro: short plain nul)
qed

lemma length_escape_char: "1 \<le> length (escape_char c) \<and> length (escape_char c) \<le> 6"
  by (auto simp: escape_char_def hex4_def)

lemma escape_loop_fits:
  "length dst + 6 * length src < dst_size \<Longrightarrow> escape_loop src dst_size dst = dst @ escaped src"
proof (induction src arbitrary: dst)
  case (Cons c src)
  have l: "length (escape_char c) \<le> 6" using length_escape_char [of c] by simp
  with Cons(2) have "length (dst @ escape_char c) + 6 * length src < dst_size" by simp
  from Cons(1) [OF this] Cons(2) l show ?case by (simp add: escaped_def Let_def)
qed (simp add: escaped_def)

lemma json_escape_string_eq: "json_escape_string (Some s) (escape_size s) = escaped s"
  using escape_loop_fits [of "[]" s "escape_size s"] by (simp add: json_escape_string_def escape_size_def)

lemma length_escaped: "length (escaped s) < escape_size s"
proof (induction s)
  case (Cons c s)
  then show ?case using length_escape_char [of c] by (simp add: escaped_def escape_size_def)
qed (simp add: escaped_def escape_size_def)

lemma string_end_escape_char:
  "c \<noteq> NUL \<Longrightarrow> string_end False (escape_char c @ t) = map_option ((+) (length (escape_char c))) (string_end False t)"
proof (cases c rule: escape_char_cases)
  case (hex a b)
  then have "a \<noteq> CHR 0x22" "a \<noteq> CHR 0x5C" "b \<noteq> CHR 0x22" "b \<noteq> CHR 0x5C" by (auto simp: char_class_defs)
  with hex show ?thesis by (cases "string_end False t") simp_all
qed (cases "string_end False t", auto)+

lemma closed_escaped: "nul_free s \<Longrightarrow> closed_text (escaped s)"
  unfolding closed_text_def
proof
  fix rest
  assume "nul_free s"
  then show "string_end False (escaped s @ CHR 0x22 # rest) = Some (length (escaped s))"
    by (induction s) (simp_all add: escaped_def string_end_escape_char)
qed

lemma nul_free_escaped: "nul_free s \<Longrightarrow> nul_free (escaped s)"
proof (induction s)
  case (Cons c s)
  have "nul_free (escape_char c)"
  proof (cases c rule: escape_char_cases)
    case (hex a b)
    then show ?thesis by (auto simp: char_class_defs)
  qed (use Cons(2) in auto)
  with Cons show ?case by (simp add: escaped_def)
qed (simp add: escaped_def)

definition unescaped :: "string \<Rightarrow> bool" where
  \<comment> \<open>no character of the string needs escaping\<close>
  "unescaped s \<longleftrightarrow> list_all (\<lambda>c. 32 \<le> (of_char c :: nat) \<and> c \<noteq> CHR 0x22 \<and> c \<noteq> CHR 0x5C) s"

lemma escaped_unescaped: "unescaped s \<Longrightarrow> escaped s = s"
  by (induction s) (auto simp: unescaped_def escaped_def escape_char_def)

lemma escaped_longer: "\<not> unescaped s \<Longrightarrow> length s < length (escaped s)"
proof (induction s)
  case (Cons c s)
  have ge: "length s \<le> length (escaped s)" for s
  proof (induction s)
    case (Cons c s)
    then show ?case using length_escape_char [of c] by (simp add: escaped_def)
  qed (simp add: escaped_def)
  show ?case
  proof (cases "32 \<le> (of_char c :: nat) \<and> c \<noteq> CHR 0x22 \<and> c \<noteq> CHR 0x5C")
    case True
    with Cons have "length s < length (escaped s)" by (simp add: unescaped_def)
    then show ?thesis using length_escape_char [of c] by (simp add: escaped_def)
  next
    case False
    then have "2 \<le> length (escape_char c)" by (auto simp: escape_char_def hex4_def)
    with ge [of s] show ?thesis by (simp add: escaped_def)
  qed
qed (simp add: unescaped_def)

text \<open>C35: escaping never truncates: the buffer that \<open>json_escape_string_alloc\<close> allocates holds every
  escaped string and its NUL. In quotes it is one string token for the lexer, whatever follows, so
  no string can break out of its place in the text. But the lexer does not unescape: the value of
  the token is the string that was written only if no character of it needed escaping, and longer
  than that string otherwise.\<close>

theorem escaped_string_token:
  assumes "nul_free s"
  shows "json_escape_string_alloc True (Some s) = Some (escaped s) \<and> length (escaped s) < escape_size s \<and>
     lexes ([CHR 0x22] @ escaped s @ [CHR 0x22] @ rest) TOKEN_STRING (Some (escaped s)) rest \<and>
     (escaped s = s \<longleftrightarrow> unescaped s) \<and> (\<not> unescaped s \<longrightarrow> length s < length (escaped s))"
  using lexes_string [OF closed_escaped nul_free_escaped, OF assms assms, of rest] length_escaped [of s]
    escaped_unescaped [of s] escaped_longer [of s]
  by (cases "unescaped s") (auto simp: json_escape_string_alloc_def json_escape_string_eq)

lemma escaped_string_token_witness:
  "json_escape_string_alloc True (Some [CHR ''a'', CHR 0x22]) = Some [CHR ''a'', CHR 0x5C, CHR 0x22] \<and>
   escaped [CHR ''a'', CHR 0x22] \<noteq> [CHR ''a'', CHR 0x22]"
  using escaped_string_token [of "[CHR ''a'', CHR 0x22]" "[]"]
  by (auto simp: unescaped_def escaped_def escape_char_def)

section \<open>The buffer\<close>

definition buffer_ok :: "JsonSerializeState \<Rightarrow> bool" where
  \<comment> \<open>the text and its NUL are within the capacity of a live buffer\<close>
  "buffer_ok st \<longleftrightarrow> length (js_text st) < js_capacity st \<and> \<not> js_freed st"

definition write_safe :: "json_write \<Rightarrow> bool" where
  \<comment> \<open>a write that succeeds only adds to the text, and leaves it within the capacity; one that fails
      has freed the buffer or changed nothing about it\<close>
  "write_safe w \<longleftrightarrow> (\<forall>st r st'. buffer_ok st \<longrightarrow> w st = Some (r, st') \<longrightarrow>
     (\<exists>s. js_text st' = js_text st @ s) \<and> js_capacity st \<le> js_capacity st' \<and>
     (if r then buffer_ok st' else buffer_ok st' \<or> js_freed st'))"

lemma write_safeI:
  assumes "\<And>st r st'. buffer_ok st \<Longrightarrow> w st = Some (r, st') \<Longrightarrow>
     (\<exists>s. js_text st' = js_text st @ s) \<and> js_capacity st \<le> js_capacity st' \<and>
     (if r then buffer_ok st' else buffer_ok st' \<or> js_freed st')"
  shows "write_safe w"
  using assms unfolding write_safe_def by blast

lemma write_safeD:
  assumes "write_safe w" and "buffer_ok st" and "w st = Some (r, st')"
  shows "\<exists>s. js_text st' = js_text st @ s" and "js_capacity st \<le> js_capacity st'"
    and "r \<Longrightarrow> buffer_ok st'" and "\<not> r \<Longrightarrow> buffer_ok st' \<or> js_freed st'"
  using assms unfolding write_safe_def by (auto split: if_splits)

lemma grow_capacity_enough: "0 < c \<Longrightarrow> need \<le> grow_capacity c need \<and> c \<le> grow_capacity c need"
proof (induction c need rule: grow_capacity.induct)
  case (1 c need)
  show ?case
  proof (cases "need \<le> c")
    case False
    with 1 have "need \<le> grow_capacity (c * 2) need \<and> c * 2 \<le> grow_capacity (c * 2) need" by simp
    with False 1(2) show ?thesis by (subst (1 2) grow_capacity.simps) simp
  qed (simp add: grow_capacity.simps)
qed

lemma ensure_capacity_cases:
  assumes "buffer_ok st" and "json_serialize_ensure_capacity st n = (r, st')"
  shows "js_text st' = js_text st \<and> js_capacity st \<le> js_capacity st' \<and> js_indent_level st' = js_indent_level st \<and>
     js_pretty st' = js_pretty st \<and> ((\<forall>k. js_alloc st k) \<longrightarrow> r \<and> (\<forall>k. js_alloc st' k)) \<and>
     (if r then length (js_text st) + n + 1 \<le> js_capacity st' \<and> \<not> js_freed st' else js_freed st')"
  using assms grow_capacity_enough [of "js_capacity st * 2" "length (js_text st) + n + 1"]
  by (auto simp: json_serialize_ensure_capacity_def buffer_ok_def take_alloc_def shift_alloc_def Let_def
      split: if_splits)

lemma write_safe_append [intro]: "write_safe (json_serialize_append s)"
proof (rule write_safeI)
  fix st r st'
  assume st: "buffer_ok st" "json_serialize_append s st = Some (r, st')"
  obtain room st1 where e: "json_serialize_ensure_capacity st (length s) = (room, st1)" by fastforce
  from ensure_capacity_cases [OF st(1) e] st e
  show "(\<exists>s. js_text st' = js_text st @ s) \<and> js_capacity st \<le> js_capacity st' \<and>
      (if r then buffer_ok st' else buffer_ok st' \<or> js_freed st')"
    by (auto simp: json_serialize_append_def buffer_ok_def split: if_splits)
qed

lemma write_safe_run [intro]: "list_all write_safe ws \<Longrightarrow> write_safe (run_writes ws)"
proof (induction ws)
  case Nil
  show ?case by (rule write_safeI) auto
next
  case (Cons w ws)
  then have w: "write_safe w" and ws: "write_safe (run_writes ws)" by simp_all
  show ?case
  proof (rule write_safeI)
    fix st r st'
    assume st: "buffer_ok st" "run_writes (w # ws) st = Some (r, st')"
    then obtain ok1 st1 where one: "w st = Some (ok1, st1)" by (auto split: option.splits)
    note s1 = write_safeD [OF w st(1) one]
    show "(\<exists>s. js_text st' = js_text st @ s) \<and> js_capacity st \<le> js_capacity st' \<and>
        (if r then buffer_ok st' else buffer_ok st' \<or> js_freed st')"
    proof (cases ok1)
      case True
      with one st have rest: "run_writes ws st1 = Some (r, st')" by simp
      from write_safeD [OF ws s1(3) [OF True] rest] s1(1,2) show ?thesis by auto
    next
      case False
      with one st s1 show ?thesis by auto
    qed
  qed
qed

lemma write_safe_as:
  assumes "\<And>st. buffer_ok st \<Longrightarrow> w st = None \<or> (\<exists>w'. write_safe w' \<and> w st = w' st)"
  shows "write_safe w"
  using assms unfolding write_safe_def by (metis option.discI)

lemma write_safe_fail: "write_safe (\<lambda>st. Some (False, st))"
  by (rule write_safeI) auto

lemma write_safe_alloc: "write_safe w \<Longrightarrow> write_safe (\<lambda>st. w (snd (take_alloc st)))"
proof (rule write_safeI)
  fix st r st'
  assume w: "write_safe w" and st: "buffer_ok st" "w (snd (take_alloc st)) = Some (r, st')"
  have "buffer_ok (snd (take_alloc st))" using st(1) by (simp add: buffer_ok_def take_alloc_def)
  from write_safeD [OF w this st(2)] show "(\<exists>s. js_text st' = js_text st @ s) \<and> js_capacity st \<le> js_capacity st' \<and>
      (if r then buffer_ok st' else buffer_ok st' \<or> js_freed st')"
    by (simp add: take_alloc_def)
qed

lemma write_safe_level [intro]: "write_safe (change_level d)"
  by (rule write_safeI) (auto simp: change_level_def buffer_ok_def)

lemma write_safe_buffer [intro]: "write_safe (append_buffer n s)"
  by (rule write_safe_as) (auto simp: append_buffer_def)

lemma write_safe_indent [intro]: "write_safe json_serialize_indent"
proof (rule write_safe_as)
  fix st :: JsonSerializeState
  let ?w = "run_writes (json_serialize_append [CHR 0x0A] #
    replicate (nat (js_indent_level st) * JSON_INDENT_SIZE) (json_serialize_append '' ''))"
  have "write_safe ?w" by (intro write_safe_run) (auto simp: list_all_iff)
  moreover have "write_safe (run_writes [])" by (intro write_safe_run) simp
  moreover have "json_serialize_indent st = (if js_pretty st then ?w st else run_writes [] st)"
    by (simp only: json_serialize_indent_def run_writes.simps(1) if_not_P if_P not_not split: if_split) simp
  ultimately show "json_serialize_indent st = None \<or> (\<exists>w'. write_safe w' \<and> json_serialize_indent st = w' st)"
    by (cases "js_pretty st") metis+
qed

lemma write_safe_string [intro]: "write_safe (json_serialize_append_string sp)"
proof (rule write_safe_as)
  fix st :: JsonSerializeState
  show "json_serialize_append_string sp st = None \<or> (\<exists>w'. write_safe w' \<and> json_serialize_append_string sp st = w' st)"
  proof (cases sp)
    case None
    then show ?thesis by (auto simp: json_serialize_append_string_def)
  next
    case (Some s)
    have "write_safe (run_writes [json_serialize_append [CHR 0x22], json_serialize_append e,
        json_serialize_append [CHR 0x22]])" for e by (intro write_safe_run) auto
    from write_safe_alloc [OF this] write_safe_alloc [OF write_safe_fail]
    show ?thesis unfolding Some json_serialize_append_string_def
      by (cases "js_alloc st 0") (auto simp: take_alloc_def json_escape_string_alloc_def simp del: run_writes.simps)
  qed
qed

lemma write_safe_time [intro]: "write_safe (append_time env t)"
  by (rule write_safe_as) (auto simp: append_time_def split: option.split)

lemma write_safe_value [intro]: "write_safe (json_serialize_field_value env fp)"
  by (auto simp: json_serialize_field_value_def split: option.split FieldType.split)

lemmas write_safe_basic = write_safe_append write_safe_level write_safe_buffer write_safe_indent
  write_safe_string write_safe_time write_safe_value

lemma write_safe_words: "list_all write_safe (write_words first ws)"
  by (induction first ws rule: write_words.induct) (auto simp: write_safe_append)

lemma write_safe_definition: "list_all write_safe (write_field_definition t i)"
  by (simp add: write_field_definition_def write_safe_basic write_safe_words Let_def)

lemma list_all_concat_map: "(\<And>x. list_all P (f x)) \<Longrightarrow> list_all P (concat (map f xs))"
  by (induction xs) auto

lemma write_safe_schema: "write_safe (json_serialize_table_schema t)"
  unfolding json_serialize_table_schema_def
  by (rule write_safe_run) (simp add: write_safe_basic list_all_concat_map [OF write_safe_definition])

lemma write_safe_member: "list_all write_safe (write_member env t r i)"
  by (simp add: write_member_def write_safe_basic)

lemma write_safe_record: "list_all write_safe (write_record env t r)"
  by (simp add: write_record_def write_safe_basic list_all_concat_map [OF write_safe_member])

lemma write_safe_records: "list_all write_safe (write_records env t first rs)"
  by (induction rs arbitrary: first) (auto simp: write_safe_basic write_safe_record)

lemma write_safe_table_records: "write_safe (json_serialize_table_records env t)"
  unfolding json_serialize_table_records_def
  by (rule write_safe_run) (simp add: write_safe_basic write_safe_records)

lemma write_safe_metadata: "write_safe (json_serialize_database_metadata env now db)"
  unfolding json_serialize_database_metadata_def
  by (rule write_safe_run) (simp add: write_safe_basic)

lemma write_safe_table: "list_all write_safe (write_table env db i)"
  by (simp add: write_table_def write_safe_basic write_safe_schema write_safe_table_records)

lemma write_safe_database: "write_safe (run_writes (write_database env now db))"
  unfolding write_database_def
  by (rule write_safe_run)
    (simp add: write_safe_basic write_safe_metadata list_all_concat_map [OF write_safe_table])

lemma buffer_ok_start: "buffer_ok (serialize_state pretty ok)"
  by (simp add: buffer_ok_def serialize_state_def JSON_BUFFER_SIZE_def)

text \<open>C36: whatever the database and the outcomes of the allocations, saving writes only inside its
  buffer: after every successful write, so at the end too, the text and its NUL are within the
  capacity. A write fails only with the buffer still live or freed by \<open>json_realloc\<close>; in the second
  case the caller frees it again. So a result with one column name too long for the first buffer
  makes \<open>query_result_to_json\<close> free its buffer twice when there is no memory to grow it.\<close>

theorem save_stays_in_buffer:
  assumes "run_writes (write_database env now db) (serialize_state True ok) = Some (done, st)"
    and "JSON_BUFFER_SIZE \<le> length name" and "q = \<lparr>q_row_count = 0, q_column_count = 1,
      q_column_names = [name], q_column_types = [ty], q_rows = []\<rparr>"
  shows "(done \<longrightarrow> length (js_text st) + 1 \<le> js_capacity st \<and> \<not> js_freed st) \<and>
     (\<not> done \<longrightarrow> length (js_text st) + 1 \<le> js_capacity st \<or> js_freed st) \<and>
     query_result_to_json env (\<lambda>k. k = 0) (Some q) None = None"
proof -
  note s = write_safeD [OF write_safe_database buffer_ok_start assms(1)]
  have "query_result_to_json env (\<lambda>k. k = 0) (Some q) None = None"
    using assms(2) by (simp add: assms(3) query_result_to_json_def serialize_text_def if_pretty_def serialize_state_def
        json_serialize_append_def json_serialize_ensure_capacity_def change_level_def take_alloc_def shift_alloc_def
        write_columns_def key_text_def quoted_def show_int_def dec_digits.simps [of 0] dec_digits.simps [of 1]
        JSON_BUFFER_SIZE_def finish_text_def Let_def)
  with s(3,4) show ?thesis by (auto simp: buffer_ok_def)
qed

definition sample_env :: json_env where
  "sample_env = \<lparr>je_float = (\<lambda>_. ''0.000000''), je_double = (\<lambda>_. ''0.0000000000''),
     je_time = (\<lambda>_. Some ''2024-01-01 00:00:00'')\<rparr>"

lemma save_stays_in_buffer_witness:
  "\<exists>st. run_writes (write_database sample_env 0 (the (db_create (\<lambda>_. True)))) (serialize_state True (\<lambda>_. False)) =
       Some (False, st) \<and> (length (js_text st) + 1 \<le> js_capacity st \<or> js_freed st)"
proof -
  have f: "run_writes (replicate n (json_serialize_append '' '')) st =
      Some (True, st\<lparr>js_text := js_text st @ replicate n (CHR '' '')\<rparr>)"
    if "length (js_text st) + n < js_capacity st" for n and st :: JsonSerializeState
    using that
  proof (induction n arbitrary: st)
    case (Suc n)
    then show ?case by (simp add: json_serialize_append_def json_serialize_ensure_capacity_def)
  qed simp
  obtain st where e: "run_writes (write_database sample_env 0 (the (db_create (\<lambda>_. True))))
      (serialize_state True (\<lambda>_. False)) = Some (False, st)"
    by (simp add: write_database_def json_serialize_database_metadata_def serialize_state_def json_serialize_append_def
        json_serialize_ensure_capacity_def change_level_def json_serialize_indent_def f JSON_INDENT_SIZE_def
        JSON_BUFFER_SIZE_def key_text_def quoted_def newline_after_def json_serialize_append_string_def
        json_escape_string_alloc_def take_alloc_def)
  from save_stays_in_buffer [OF e _ refl, of "replicate 5000 (CHR ''a'')"] e show ?thesis
    by (auto simp: JSON_BUFFER_SIZE_def)
qed

section \<open>The text of a write\<close>

text \<open>
  When memory suffices a write adds a text that depends on the indentation level and on pretty
  printing only, and may change the level. The texts of a sequence are concatenated.
\<close>

definition steady :: "JsonSerializeState \<Rightarrow> bool" where
  "steady st \<longleftrightarrow> (\<forall>k. js_alloc st k) \<and> buffer_ok st"

definition appends :: "json_write \<Rightarrow> (bool \<Rightarrow> int \<Rightarrow> string) \<Rightarrow> int \<Rightarrow> bool" where
  "appends w f d \<longleftrightarrow> (\<forall>st. steady st \<longrightarrow> (\<exists>st'. w st = Some (True, st') \<and> steady st' \<and>
     js_text st' = js_text st @ f (js_pretty st) (js_indent_level st) \<and>
     js_indent_level st' = js_indent_level st + d \<and> js_pretty st' = js_pretty st))"

named_theorems append_rules \<open>texts of the writes\<close>

lemma appendsE:
  assumes "appends w f d" and "steady st"
  obtains st' where "w st = Some (True, st')" "steady st'"
    "js_text st' = js_text st @ f (js_pretty st) (js_indent_level st)"
    "js_indent_level st' = js_indent_level st + d" "js_pretty st' = js_pretty st"
  using assms unfolding appends_def by blast

lemma appends_cong: "appends w f d \<Longrightarrow> (\<And>p l. f p l = g p l) \<Longrightarrow> d = e \<Longrightarrow> appends w g e"
  by (simp add: appends_def)

lemma appends_append [append_rules]: "appends (json_serialize_append s) (\<lambda>_ _. s) 0"
  unfolding appends_def
proof (intro allI impI)
  fix st :: JsonSerializeState
  assume st: "steady st"
  obtain room st1 where e: "json_serialize_ensure_capacity st (length s) = (room, st1)" by fastforce
  from st have "buffer_ok st" by (simp add: steady_def)
  from ensure_capacity_cases [OF this e] st e
  show "\<exists>st'. json_serialize_append s st = Some (True, st') \<and> steady st' \<and> js_text st' = js_text st @ s \<and>
      js_indent_level st' = js_indent_level st + 0 \<and> js_pretty st' = js_pretty st"
    by (auto simp: steady_def json_serialize_append_def buffer_ok_def split: if_splits)
qed

lemma appends_nil [append_rules]: "appends (run_writes []) (\<lambda>_ _. []) 0"
  by (simp add: appends_def)

lemma appends_cons [append_rules]:
  assumes "appends w f d" and "appends (run_writes ws) g e"
  shows "appends (run_writes (w # ws)) (\<lambda>p l. f p l @ g p (l + d)) (d + e)"
  unfolding appends_def
proof (intro allI impI)
  fix st
  assume st: "steady st"
  from appendsE [OF assms(1) st] obtain st1 where 1: "w st = Some (True, st1)" "steady st1"
    "js_text st1 = js_text st @ f (js_pretty st) (js_indent_level st)"
    "js_indent_level st1 = js_indent_level st + d" "js_pretty st1 = js_pretty st" .
  from appendsE [OF assms(2) 1(2)] obtain st2 where "run_writes ws st1 = Some (True, st2)" "steady st2"
    "js_text st2 = js_text st1 @ g (js_pretty st1) (js_indent_level st1)"
    "js_indent_level st2 = js_indent_level st1 + e" "js_pretty st2 = js_pretty st1" .
  with 1 show "\<exists>st'. run_writes (w # ws) st = Some (True, st') \<and> steady st' \<and>
      js_text st' = js_text st @ f (js_pretty st) (js_indent_level st) @ g (js_pretty st) (js_indent_level st + d) \<and>
      js_indent_level st' = js_indent_level st + (d + e) \<and> js_pretty st' = js_pretty st" by simp
qed

lemma appends_app [append_rules]:
  assumes "appends (run_writes ws) f d" and "appends (run_writes vs) g e"
  shows "appends (run_writes (ws @ vs)) (\<lambda>p l. f p l @ g p (l + d)) (d + e)"
proof -
  have "run_writes (ws @ vs) st = (case run_writes ws st of None \<Rightarrow> None
    | Some (done, st') \<Rightarrow> if done then run_writes vs st' else Some (False, st'))" for st
    by (induction ws arbitrary: st) (auto split: option.splits)
  then have "run_writes (ws @ vs) = run_writes [run_writes ws, run_writes vs]"
    by (intro ext) (auto split: option.splits)
  with appends_cons [OF assms(1) appends_cons [OF assms(2) appends_nil]] show ?thesis by simp
qed

lemma appends_concat [append_rules]:
  assumes "\<And>x. x \<in> set xs \<Longrightarrow> appends (run_writes (f x)) (g x) 0"
  shows "appends (run_writes (concat (map f xs))) (\<lambda>p l. concat (map (\<lambda>x. g x p l) xs)) 0"
  using assms
proof (induction xs)
  case (Cons x xs)
  then have "appends (run_writes (f x)) (g x) 0" "appends (run_writes (concat (map f xs)))
      (\<lambda>p l. concat (map (\<lambda>x. g x p l) xs)) 0" by simp_all
  from appends_app [OF this] show ?case by simp
qed (simp add: appends_nil)

lemma appends_level [append_rules]: "appends (change_level d) (\<lambda>_ _. []) d"
  by (auto simp: appends_def change_level_def steady_def buffer_ok_def)

lemma appends_buffer: "length s < n \<Longrightarrow> appends (append_buffer n s) (\<lambda>_ _. s) 0"
  using appends_append [of s] by (simp add: appends_def append_buffer_def)

lemma appends_indent [append_rules]:
  "appends json_serialize_indent (\<lambda>p l. if p then CHR 0x0A # replicate (nat l * 2) (CHR '' '') else []) 0"
proof -
  let ?w = "\<lambda>n. run_writes (json_serialize_append [CHR 0x0A] # replicate n (json_serialize_append '' ''))"
  have r: "appends (run_writes (replicate n (json_serialize_append '' ''))) (\<lambda>_ _. replicate n (CHR '' '')) 0" for n
  proof (induction n)
    case (Suc n)
    from appends_cons [OF appends_append [of "'' ''"] this] show ?case
      by (simp del: run_writes.simps)
  next
    case 0
    show ?case using appends_nil by (simp del: run_writes.simps)
  qed
  have "appends (?w n) (\<lambda>_ _. CHR 0x0A # replicate n (CHR '' '')) 0" for n
    using appends_cons [OF appends_append [of "[CHR 0x0A]"] r [of n]] by (simp del: run_writes.simps)
  note a = this
  have w: "\<exists>st'. ?w n st = Some (True, st') \<and> steady st' \<and> js_text st' = js_text st @ CHR 0x0A # replicate n (CHR '' '') \<and>
      js_indent_level st' = js_indent_level st \<and> js_pretty st' = js_pretty st" if "steady st" for n st
    using appendsE [OF a that, of n] by (metis add_0_right)
  show ?thesis unfolding appends_def
  proof (intro allI impI)
    fix st :: JsonSerializeState
    assume "steady st"
    with w [OF this, of "nat (js_indent_level st) * 2"]
    show "\<exists>st'. json_serialize_indent st = Some (True, st') \<and> steady st' \<and> js_text st' = js_text st @
        (if js_pretty st then CHR 0x0A # replicate (nat (js_indent_level st) * 2) (CHR '' '') else []) \<and>
        js_indent_level st' = js_indent_level st + 0 \<and> js_pretty st' = js_pretty st"
      by (cases "js_pretty st") (auto simp: json_serialize_indent_def JSON_INDENT_SIZE_def simp del: run_writes.simps)
  qed
qed

lemma appends_string [append_rules]:
  "appends (json_serialize_append_string (Some s)) (\<lambda>_ _. quoted (escaped s)) 0"
  unfolding appends_def
proof (intro allI impI)
  fix st :: JsonSerializeState
  assume st: "steady st"
  let ?ws = "[json_serialize_append [CHR 0x22], json_serialize_append (escaped s), json_serialize_append [CHR 0x22]]"
  have a: "appends (run_writes ?ws) (\<lambda>_ _. quoted (escaped s)) 0"
    by (rule appends_cong, (rule append_rules)+) (simp_all add: quoted_def)
  have "steady (snd (take_alloc st))" using st by (simp add: steady_def take_alloc_def shift_alloc_def buffer_ok_def)
  from appendsE [OF a this] obtain st' where "run_writes ?ws (snd (take_alloc st)) = Some (True, st')" "steady st'"
    "js_text st' = js_text (snd (take_alloc st)) @ quoted (escaped s)"
    "js_indent_level st' = js_indent_level (snd (take_alloc st)) + 0" "js_pretty st' = js_pretty (snd (take_alloc st))" .
  with st show "\<exists>st'. json_serialize_append_string (Some s) st = Some (True, st') \<and>
      steady st' \<and> js_text st' = js_text st @ quoted (escaped s) \<and>
      js_indent_level st' = js_indent_level st + 0 \<and> js_pretty st' = js_pretty st"
    by (auto simp: json_serialize_append_string_def take_alloc_def json_escape_string_alloc_def
        json_escape_string_eq steady_def simp del: run_writes.simps)
qed

lemma serialize_text_appends:
  assumes "appends (run_writes ws) f d"
  shows "serialize_text pretty (\<lambda>_. True) ws = Some (Some (f pretty 0))"
proof -
  have "steady (serialize_state pretty (shift_alloc 1 (\<lambda>_. True)))"
    using buffer_ok_start by (simp add: steady_def serialize_state_def shift_alloc_def)
  from appendsE [OF assms this] obtain st' where
    "run_writes ws (serialize_state pretty (shift_alloc 1 (\<lambda>_. True))) = Some (True, st')"
    "js_text st' = f pretty 0" by (auto simp: serialize_state_def)
  then show ?thesis by (simp add: serialize_text_def finish_text_def)
qed

section \<open>The text of a record\<close>

definition indent_text :: "bool \<Rightarrow> int \<Rightarrow> string" where
  "indent_text p l = (if p then CHR 0x0A # replicate (nat l * 2) (CHR '' '') else [])"

definition gap :: "bool \<Rightarrow> bool \<Rightarrow> int \<Rightarrow> string" where
  "gap pretty p l = (if pretty then CHR 0x0A # indent_text p l else [])"

definition field_text :: "Field \<Rightarrow> string" where
  "field_text f = (case f_type f of
       TYPE_INT \<Rightarrow> show_int (int_value (f_value f))
     | TYPE_STRING \<Rightarrow> quoted (escaped (string_value (f_value f)))
     | TYPE_BOOL \<Rightarrow> (if bool_value (f_value f) then ''true'' else ''false'')
     | _ \<Rightarrow> ''null'')"

definition text_types :: "FieldType set" where
  \<comment> \<open>the types whose text does not depend on the C library\<close>
  "text_types = {TYPE_INT, TYPE_STRING, TYPE_BOOL, TYPE_NULL}"

definition member_text :: "Table \<Rightarrow> Record \<Rightarrow> nat \<Rightarrow> string" where
  "member_text t r i = quoted (t_field_names t ! i) @ '': '' @ field_text (r_fields r ! i)"

definition record_text :: "bool \<Rightarrow> Table \<Rightarrow> Record \<Rightarrow> string" where
  "record_text pretty t r =
     ''{'' @ (if pretty then indent_text pretty 1 else []) @ key_text ''id'' @ show_int (r_id r) @ '','' @
     gap pretty pretty 1 @ key_text ''fields'' @ ''{'' @
     concat (map (\<lambda>i. (if 0 < i then '','' else []) @ gap pretty pretty 2 @ member_text t r i) [0..<t_field_count t]) @
     gap pretty pretty 1 @ ''}'' @ gap pretty pretty 0 @ ''}''"

lemma isspace_gap [simp]: "list_all isspace (gap pretty p l)" "list_all isspace (indent_text p l)"
proof -
  have "isspace (CHR 0x0A)" "isspace (CHR '' '')" by (simp_all add: isspace_def)
  then show "list_all isspace (gap pretty p l)" "list_all isspace (indent_text p l)"
    by (auto simp: gap_def indent_text_def list_all_iff)
qed

lemma appends_gap [append_rules]:
  "appends (run_writes (if_pretty b [json_serialize_append [CHR 0x0A], json_serialize_indent])) (\<lambda>p l. gap b p l) 0"
proof (cases b)
  case True
  show ?thesis by (simp only: if_pretty_def True if_True)
      (rule appends_cong, (rule append_rules)+, simp_all add: gap_def indent_text_def)
next
  case False
  show ?thesis by (simp only: if_pretty_def False if_False)
      (rule appends_cong [OF appends_nil], simp_all add: gap_def False)
qed

lemma appends_if [append_rules]:
  "appends (run_writes (if P then [json_serialize_append s] else [])) (\<lambda>_ _. if P then s else []) 0"
proof (cases P)
  case True
  show ?thesis unfolding if_P [OF True] by (rule appends_cong, (rule append_rules)+) simp_all
next
  case False
  show ?thesis unfolding if_not_P [OF False] by (rule appends_nil)
qed

lemma appends_field_value:
  assumes "f_type f \<in> text_types"
  shows "appends (json_serialize_field_value env (Some f)) (\<lambda>_ _. field_text f) 0"
proof -
  have "length (show_int (int_value (f_value f))) < 32"
    using length_show_int [of "int_value (f_value f)"] by simp
  note a = appends_buffer [OF this]
  from assms show ?thesis
    by (auto simp: json_serialize_field_value_def field_text_def text_types_def
        intro: a appends_append appends_string)
qed

lemma appends_plain_member:
  assumes "f_type (r_fields r ! i) \<in> text_types"
  shows "appends (run_writes (write_plain_member env b t r i))
    (\<lambda>p l. (if 0 < i then '','' else []) @ gap b p l @ member_text t r i) 0"
  unfolding write_plain_member_def
  by (rule appends_cong, (rule append_rules appends_field_value [OF assms])+)
    (simp_all add: member_text_def quoted_def)

lemma record_to_json_text:
  assumes "\<And>i. i < t_field_count t \<Longrightarrow> f_type (r_fields r ! i) \<in> text_types"
  shows "record_to_json env (\<lambda>_. True) (Some r) (Some t) options =
    Some (Some (record_text (case options of None \<Rightarrow> False | Some o1 \<Rightarrow> so_pretty o1) t r))"
proof -
  define b where "b = (case options of None \<Rightarrow> False | Some o1 \<Rightarrow> so_pretty o1)"
  have first: "appends (run_writes (if_pretty b [json_serialize_indent]))
      (\<lambda>p l. if b then indent_text p l else []) 0"
  proof (cases b)
    case True
    show ?thesis by (simp only: if_pretty_def True if_True)
        (rule appends_cong, (rule append_rules)+, simp_all add: indent_text_def)
  next
    case False
    show ?thesis by (simp only: if_pretty_def False if_False) (rule appends_nil)
  qed
  have last: "appends (run_writes (if b then [json_serialize_append [CHR 0x0A], change_level (-1), json_serialize_indent]
      else [change_level (-1)])) (\<lambda>p l. gap b p (l - 1)) (-1)"
  proof (cases b)
    case True
    show ?thesis by (simp only: True if_True)
        (rule appends_cong, (rule append_rules)+, simp_all add: gap_def indent_text_def)
  next
    case False
    show ?thesis by (simp only: False if_False)
        (rule appends_cong, (rule append_rules)+, simp_all add: gap_def)
  qed
  have members: "appends (run_writes (concat (map (write_plain_member env b t r) [0..<t_field_count t])))
      (\<lambda>p l. concat (map (\<lambda>i. (if 0 < i then '','' else []) @ gap b p l @ member_text t r i) [0..<t_field_count t])) 0"
    using assms by (intro appends_concat appends_plain_member) simp
  show ?thesis
    unfolding record_to_json_def prod.case option.case Let_def b_def [symmetric]
    by (rule trans, rule serialize_text_appends, (rule first last members append_rules)+) (simp add: record_text_def)
qed

section \<open>Reading a record back\<close>

definition same_content :: "Field \<Rightarrow> FieldValue \<Rightarrow> bool" where
  \<comment> \<open>what is left of a field's value after writing and reading\<close>
  "same_content f v \<longleftrightarrow> (case f_type f of
       TYPE_INT \<Rightarrow> int_value v = int_value (f_value f)
     | TYPE_STRING \<Rightarrow> string_value v = take (MAX_FIELD_LEN - 1) (escaped (string_value (f_value f)))
     | TYPE_BOOL \<Rightarrow> bool_value v = bool_value (f_value f)
     | _ \<Rightarrow> True)"

lemma strncpy_zero: "(strncpy zero_value s (MAX_FIELD_LEN - 1))[MAX_FIELD_LEN - 1 := NUL] = set_string_value s zero_value"
proof (rule nth_equalityI)
  show "length ((strncpy zero_value s (MAX_FIELD_LEN - 1))[MAX_FIELD_LEN - 1 := NUL]) =
      length (set_string_value s zero_value)"
    by (simp add: set_string_value_def zero_value_def MAX_FIELD_LEN_def)
  fix i
  assume "i < length ((strncpy zero_value s (MAX_FIELD_LEN - 1))[MAX_FIELD_LEN - 1 := NUL])"
  then show "(strncpy zero_value s (MAX_FIELD_LEN - 1))[MAX_FIELD_LEN - 1 := NUL] ! i = set_string_value s zero_value ! i"
    by (cases "i = MAX_FIELD_LEN - 1")
      (auto simp: set_string_value_def strncpy_def nth_append zero_value_def MAX_FIELD_LEN_def)
qed

lemma field_value_read:
  assumes "f_type f \<in> text_types" and "f_type f \<noteq> TYPE_NULL \<Longrightarrow> ty = f_type f" and "number_stops rest"
    and "cx_rest ctx = '' '' @ field_text f @ rest"
  obtains v ctx' where "json_parse_field_value lib mk ctx ty = (v, ctx')" "cx_rest ctx' = rest"
    "f_type v = TYPE_NULL \<longleftrightarrow> f_type f = TYPE_NULL" "same_content f (f_value v)"
proof -
  have sp: "isspace (CHR '' '')" by (simp add: isspace_def)
  have nf: "nul_free (string_value x)" for x by (simp add: string_value_def)
  have parsed: "json_parse_field_value lib mk ctx ty =
      (zero_field\<lparr>f_type := ty, f_value := value_of_token lib mk ty t\<rparr>, ctx')"
    if "json_parse_token ctx = (t, ctx')" "tk_type t \<noteq> TOKEN_NULL" for t ctx'
    using that by (simp add: json_parse_field_value_def)
  from assms(1) consider "f_type f = TYPE_INT" | "f_type f = TYPE_STRING" | (bool) "f_type f = TYPE_BOOL" | "f_type f = TYPE_NULL"
    by (auto simp: text_types_def)
  then show ?thesis
  proof cases
    case 1
    with assms(4) have r: "cx_rest ctx = CHR '' '' # show_int (int_value (f_value f)) @ rest" by (simp add: field_text_def)
    from lexesD [OF lexes_space [OF sp lexes_int [OF assms(3)]] r] obtain t ctx' where
      "json_parse_token ctx = (t, ctx')" "tk_type t = TOKEN_NUMBER"
      "tk_value t = Some (show_int (int_value (f_value f)))" "cx_rest ctx' = rest" .
    with 1 assms(2) that [OF parsed] show ?thesis by (simp add: value_of_token_def same_content_def)
  next
    case 2
    with assms(4) have r: "cx_rest ctx = CHR '' '' # CHR 0x22 # escaped (string_value (f_value f)) @ CHR 0x22 # rest"
      by (simp add: field_text_def quoted_def)
    from lexesD [OF lexes_space [OF sp lexes_string [OF closed_escaped nul_free_escaped, OF nf nf]] r] obtain t ctx' where
      "json_parse_token ctx = (t, ctx')" "tk_type t = TOKEN_STRING"
      "tk_value t = Some (escaped (string_value (f_value f)))" "cx_rest ctx' = rest" .
    with 2 assms(2) nul_free_escaped [OF nf] that [OF parsed] show ?thesis
      by (simp add: value_of_token_def same_content_def strncpy_zero [unfolded One_nat_def])
  next
    case bool
    define w where "w = (if bool_value (f_value f) then ''true'' else ''false'')"
    have "lexes (w @ rest) TOKEN_BOOLEAN (Some w) rest"
      using lexes_words(1,2) [of rest] by (simp add: w_def)
    moreover from bool assms(4) have r: "cx_rest ctx = CHR '' '' # w @ rest" by (simp add: field_text_def w_def)
    ultimately obtain t ctx' where
      "json_parse_token ctx = (t, ctx')" "tk_type t = TOKEN_BOOLEAN" "tk_value t = Some w" "cx_rest ctx' = rest"
      using lexesD [OF lexes_space [OF sp]] by metis
    with bool assms(2) that [OF parsed] show ?thesis
      by (simp add: value_of_token_def same_content_def w_def)
  next
    case 4
    with assms(4) have r: "cx_rest ctx = CHR '' '' # ''null'' @ rest" by (simp add: field_text_def)
    from lexesD [OF lexes_space [OF sp lexes_words(3)] r] obtain t ctx' where
      "json_parse_token ctx = (t, ctx')" "tk_type t = TOKEN_NULL" "cx_rest ctx' = rest" by blast
    with 4 that [of "zero_field\<lparr>f_type := TYPE_NULL\<rparr>" ctx'] show ?thesis
      by (simp add: json_parse_field_value_def same_content_def)
  qed
qed

definition plain_names :: "Table \<Rightarrow> bool" where
  \<comment> \<open>field names that are written without escaping and are told apart\<close>
  "plain_names t \<longleftrightarrow> length (t_field_names t) = t_field_count t \<and> distinct (t_field_names t) \<and>
     list_all (\<lambda>n. unescaped n \<and> nul_free n) (t_field_names t)"

definition texts_ok :: "Table \<Rightarrow> Record \<Rightarrow> bool" where
  \<comment> \<open>values of text types, of the type the schema gives them unless they are null\<close>
  "texts_ok t r \<longleftrightarrow> (\<forall>i < t_field_count t. f_type (r_fields r ! i) \<in> text_types \<and>
     (f_type (r_fields r ! i) \<noteq> TYPE_NULL \<longrightarrow> t_field_types t ! i = f_type (r_fields r ! i)))"

lemma unescaped_closed: "unescaped s \<Longrightarrow> nul_free s \<Longrightarrow> closed_text s"
  using closed_escaped [of s] by (simp add: escaped_unescaped)

lemma find_field_nth:
  assumes "plain_names t" and "i < t_field_count t"
  shows "find_field t (t_field_names t ! i) = Some i"
proof -
  let ?p = "\<lambda>n. strcmp n (t_field_names t ! i) = 0"
  have l: "length (t_field_names t) = t_field_count t" "distinct (t_field_names t)"
    using assms(1) by (auto simp: plain_names_def)
  have "find_index ?p (t_field_names t) \<noteq> None"
    using assms(2) l by (auto simp: find_index_None_iff)
  then obtain j where j: "find_index ?p (t_field_names t) = Some j" by blast
  from find_index_SomeD [OF j] have "j < length (t_field_names t)" "t_field_names t ! j = t_field_names t ! i"
    by simp_all
  with l assms(2) have "j = i" using nth_eq_iff_index_eq by metis
  with j l show ?thesis by (simp add: find_field_def)
qed

definition rest_text :: "bool \<Rightarrow> Table \<Rightarrow> Record \<Rightarrow> nat \<Rightarrow> string" where
  \<comment> \<open>the members from \<open>k\<close> on, each after a comma\<close>
  "rest_text b t r k = concat (map (\<lambda>i. '','' @ gap b b 2 @ member_text t r i) [k..<t_field_count t])"

lemma number_stops_gap: "number_stops s \<Longrightarrow> number_stops (gap b p l @ s)"
  by (auto simp: gap_def number_stops_def isdigit_def)

lemma number_stops_punct: "c \<in> {CHR '','', CHR ''}'', CHR '']''} \<Longrightarrow> number_stops (c # s)"
  by (auto simp: number_stops_def isdigit_def)

lemma read_fields_member:
  assumes "plain_names t" and "texts_ok t r" and "k < t_field_count t" and "left ctx < fuel" and "length fs = t_field_count t"
    and "cx_rest ctx = gap b b 2 @ member_text t r k @ rest_text b t r (Suc k) @ gap b b 1 @ ''}'' @ rest"
  shows "\<exists>fs' ctx'. read_fields lib mk t fuel ctx fs = Returns (fs', ctx') \<and> cx_rest ctx' = rest \<and>
     length fs' = t_field_count t \<and> (\<forall>i < k. fs' ! i = fs ! i) \<and>
     (\<forall>i < t_field_count t. k \<le> i \<longrightarrow> same_content (r_fields r ! i) (f_value (fs' ! i)) \<and>
        f_name (fs' ! i) = f_name (fs ! i) \<and>
        f_type (fs' ! i) = (if f_type (r_fields r ! i) = TYPE_NULL then TYPE_NULL else f_type (fs ! i)))"
  using assms(3-6)
proof (induction "t_field_count t - k" arbitrary: k ctx fuel fs)
  case (Suc m)
  let ?n = "t_field_count t" and ?f = "r_fields r ! k" and ?name = "t_field_names t ! k"
  let ?close = "gap b b 1 @ ''}'' @ rest"
  have name: "unescaped ?name" "nul_free ?name"
    using assms(1) Suc(3) by (auto simp: plain_names_def list_all_length)
  have f: "f_type ?f \<in> text_types" "f_type ?f \<noteq> TYPE_NULL \<Longrightarrow> t_field_types t ! k = f_type ?f"
    using assms(2) Suc(3) by (auto simp: texts_ok_def)
  obtain fuel' where fuel: "fuel = Suc fuel'" using Suc(4) by (cases fuel) auto
  define tail where "tail = rest_text b t r (Suc k) @ ?close"
  have stops: "number_stops tail"
  proof (cases "[Suc k..<?n]")
    case Nil
    then have "rest_text b t r (Suc k) = []" by (simp only: rest_text_def Nil list.map concat.simps)
    then show ?thesis by (simp add: tail_def number_stops_gap number_stops_punct)
  next
    case (Cons i js)
    then show ?thesis by (simp add: tail_def rest_text_def number_stops_punct)
  qed
  have r0: "cx_rest ctx = gap b b 2 @ CHR 0x22 # ?name @ CHR 0x22 # CHR '':'' # '' '' @ field_text ?f @ tail"
    using Suc(6) by (simp add: member_text_def quoted_def tail_def)
  from lexesD [OF lexes_spaces [OF isspace_gap(1) lexes_string [OF unescaped_closed [OF name] name(2)]] r0]
  obtain kt c1 where key: "json_parse_token ctx = (kt, c1)" "tk_type kt = TOKEN_STRING" "tk_value kt = Some ?name"
    "cx_rest c1 = CHR '':'' # '' '' @ field_text ?f @ tail" .
  have "punctuation (CHR '':'') = Some TOKEN_COLON" by (simp add: punctuation_def)
  from lexesD [OF lexes_punct [OF this] key(4)] obtain ct c2 where colon: "json_parse_token c1 = (ct, c2)"
    "tk_type ct = TOKEN_COLON" "cx_rest c2 = '' '' @ field_text ?f @ tail" .
  from field_value_read [OF f(1) f(2) stops colon(3)] obtain v c3 where
    val: "json_parse_field_value lib mk c2 (t_field_types t ! k) = (v, c3)" "cx_rest c3 = tail"
    "f_type v = TYPE_NULL \<longleftrightarrow> f_type ?f = TYPE_NULL" "same_content ?f (f_value v)" .
  define fs1 where "fs1 = store_parsed fs k v"
  have member: "json_field_member lib mk t c2 ?name fs = (fs1, c3)"
    using find_field_nth [OF assms(1) Suc(3)] val(1) by (simp add: json_field_member_def fs1_def)
  have fs1: "length fs1 = ?n" "\<And>i. i \<noteq> k \<Longrightarrow> fs1 ! i = fs ! i"
    "same_content ?f (f_value (fs1 ! k))" "f_name (fs1 ! k) = f_name (fs ! k)"
    "f_type (fs1 ! k) = (if f_type ?f = TYPE_NULL then TYPE_NULL else f_type (fs ! k))"
    using Suc(3,5) val(3,4) by (simp_all add: fs1_def store_parsed_def)
  show ?case
  proof (cases "Suc k < ?n")
    case True
    then have up: "[Suc k..<?n] = Suc k # [Suc (Suc k)..<?n]" by (simp add: upt_conv_Cons)
    have t3: "cx_rest c3 = CHR '','' # gap b b 2 @ member_text t r (Suc k) @ rest_text b t r (Suc (Suc k)) @ ?close"
      using val(2) by (simp add: tail_def rest_text_def up)
    have "punctuation (CHR '','') = Some TOKEN_COMMA" by (simp add: punctuation_def)
    from lexesD [OF lexes_punct [OF this] t3] obtain st c4 where sep: "json_parse_token c3 = (st, c4)"
      "tk_type st = TOKEN_COMMA"
      "cx_rest c4 = gap b b 2 @ member_text t r (Suc k) @ rest_text b t r (Suc (Suc k)) @ ?close" .
    have "left c4 \<le> left c1"
      using json_parse_token_progress(2) [OF colon(1)] json_field_member_left [OF member]
        json_parse_token_progress(2) [OF sep(1)] by simp
    with json_parse_token_less [OF key(1,2)] Suc(4) fuel have "left c4 < fuel'" by simp
    moreover have "m = ?n - Suc k" using Suc(2) by simp
    ultimately obtain fs' ctx' where ih: "read_fields lib mk t fuel' c4 fs1 = Returns (fs', ctx')" "cx_rest ctx' = rest"
      "length fs' = ?n" "\<forall>i < Suc k. fs' ! i = fs1 ! i"
      "\<forall>i < ?n. Suc k \<le> i \<longrightarrow> same_content (r_fields r ! i) (f_value (fs' ! i)) \<and> f_name (fs' ! i) = f_name (fs1 ! i) \<and>
        f_type (fs' ! i) = (if f_type (r_fields r ! i) = TYPE_NULL then TYPE_NULL else f_type (fs1 ! i))"
      using Suc(1) [of "Suc k" c4 fuel' fs1] True fs1(1) sep(3) by blast
    have "read_fields lib mk t fuel ctx fs = Returns (fs', ctx')"
      using key colon member sep ih(1) by (simp add: fuel)
    moreover have "same_content (r_fields r ! i) (f_value (fs' ! i)) \<and> f_name (fs' ! i) = f_name (fs ! i) \<and>
        f_type (fs' ! i) = (if f_type (r_fields r ! i) = TYPE_NULL then TYPE_NULL else f_type (fs ! i))"
      if "i < ?n" "k \<le> i" for i
    proof (cases "i = k")
      case True
      with ih(4) fs1(3-5) show ?thesis by simp
    next
      case False
      with that ih(5) fs1(2) [of i] show ?thesis by simp
    qed
    ultimately show ?thesis using ih(2-4) fs1(2) by (intro exI [of _ fs'] exI [of _ ctx']) auto
  next
    case False
    then have t3: "cx_rest c3 = gap b b 1 @ CHR ''}'' # rest" using val(2) by (simp add: tail_def rest_text_def)
    have "punctuation (CHR ''}'') = Some TOKEN_OBJECT_END" by (simp add: punctuation_def)
    from lexesD [OF lexes_spaces [OF isspace_gap(1) lexes_punct [OF this]] t3] obtain st c4 where
      sep: "json_parse_token c3 = (st, c4)" "tk_type st = TOKEN_OBJECT_END" "cx_rest c4 = rest" .
    have "read_fields lib mk t fuel ctx fs = Returns (fs1, c4)"
      using key colon member sep by (simp add: fuel)
    moreover have "same_content (r_fields r ! i) (f_value (fs1 ! i)) \<and> f_name (fs1 ! i) = f_name (fs ! i) \<and>
        f_type (fs1 ! i) = (if f_type (r_fields r ! i) = TYPE_NULL then TYPE_NULL else f_type (fs ! i))"
      if "i < ?n" "k \<le> i" for i
    proof -
      have "i = k" using that False by simp
      with fs1(3-5) show ?thesis by simp
    qed
    ultimately show ?thesis using sep(3) fs1(1,2) by (intro exI [of _ fs1] exI [of _ c4]) auto
  qed
qed simp

lemma lexes_key: "unescaped s \<Longrightarrow> nul_free s \<Longrightarrow> list_all isspace sp \<Longrightarrow>
    lexes (sp @ key_text s @ rest) TOKEN_STRING (Some s) ('': '' @ rest)"
  using lexes_spaces [OF _ lexes_string [OF unescaped_closed, of s]] by (simp add: key_text_def quoted_def)

lemma lexes_colon: "lexes ('': '' @ rest) TOKEN_COLON None ('' '' @ rest)"
  using lexes_punct [of "CHR '':''"] by (simp add: punctuation_def)

lemma members_rest: "1 \<le> t_field_count t \<Longrightarrow>
  concat (map (\<lambda>i. (if 0 < i then '','' else []) @ gap b b 2 @ member_text t r i) [0..<t_field_count t]) =
  gap b b 2 @ member_text t r 0 @ rest_text b t r 1"
proof -
  assume n: "1 \<le> t_field_count t"
  have "concat (map (\<lambda>i. (if 0 < i then '','' else []) @ gap b b 2 @ member_text t r i) [1..<t_field_count t]) =
      rest_text b t r 1" unfolding rest_text_def by (intro arg_cong [of _ _ concat] map_cong) auto
  with n show ?thesis by (simp add: upt_conv_Cons)
qed

lemma read_record_text:
  assumes "plain_names t" and "texts_ok t r" and "1 \<le> t_field_count t" and "c_int (r_id r)"
  obtains fs k0 c0 where "json_parse_token (json_context (record_text b t r)) = (k0, c0)" "tk_type k0 = TOKEN_OBJECT_START"
    "read_record lib mk t (left c0 + 1) c0 (-1) (replicate (t_field_count t) zero_field) = Returns (Some (r_id r, fs))"
    "length fs = t_field_count t" "\<forall>i < t_field_count t. same_content (r_fields r ! i) (f_value (fs ! i)) \<and>
      f_name (fs ! i) = [] \<and>
      f_type (fs ! i) = (if f_type (r_fields r ! i) = TYPE_NULL then TYPE_NULL else TYPE_UNKNOWN)"
proof -
  let ?n = "t_field_count t"
  have plain: "unescaped ''id''" "nul_free ''id''" "unescaped ''fields''" "nul_free ''fields''"
    by (simp_all add: unescaped_def)
  have sp: "isspace (CHR '' '')" "list_all isspace (if b then indent_text b 1 else [])" by (simp_all add: isspace_def)
  define members where "members = gap b b 2 @ member_text t r 0 @ rest_text b t r 1 @ gap b b 1 @ ''}'' @ gap b b 0 @ ''}''"
  define t1 where "t1 = gap b b 1 @ key_text ''fields'' @ ''{'' @ members"
  define t0 where "t0 = (if b then indent_text b 1 else []) @ key_text ''id'' @ show_int (r_id r) @ '','' @ t1"
  have whole: "record_text b t r = ''{'' @ t0"
    using members_rest [OF assms(3), of b r] by (simp add: record_text_def t0_def t1_def members_def)
  have punct: "punctuation (CHR ''{'') = Some TOKEN_OBJECT_START" "punctuation (CHR ''}'') = Some TOKEN_OBJECT_END"
    "punctuation (CHR '','') = Some TOKEN_COMMA" by (simp_all add: punctuation_def)
  have "cx_rest (json_context (record_text b t r)) = CHR ''{'' # t0"
    by (simp add: json_context_def cx_rest_def whole)
  from lexesD [OF lexes_punct [OF punct(1)] this] obtain k0 c0 where start:
    "json_parse_token (json_context (record_text b t r)) = (k0, c0)" "tk_type k0 = TOKEN_OBJECT_START" "cx_rest c0 = t0" .
  from lexesD [OF lexes_key [OF plain(1,2) sp(2)] start(3) [unfolded t0_def]] obtain k1 c1 where idkey:
    "json_parse_token c0 = (k1, c1)" "tk_type k1 = TOKEN_STRING" "tk_value k1 = Some ''id''"
    "cx_rest c1 = '': '' @ show_int (r_id r) @ '','' @ t1" .
  from lexesD [OF lexes_colon idkey(4)] obtain k2 c2 where colon1:
    "json_parse_token c1 = (k2, c2)" "tk_type k2 = TOKEN_COLON" "cx_rest c2 = '' '' @ show_int (r_id r) @ '','' @ t1" .
  have stops: "number_stops ('','' @ t1)" by (simp add: number_stops_punct)
  have "cx_rest c2 = CHR '' '' # show_int (r_id r) @ '','' @ t1" using colon1(3) by simp
  from lexesD [OF lexes_space [OF sp(1) lexes_int [OF stops]] this]
  obtain k3 c3 where idval: "json_parse_token c2 = (k3, c3)" "tk_type k3 = TOKEN_NUMBER"
    "tk_value k3 = Some (show_int (r_id r))" "cx_rest c3 = CHR '','' # t1" by auto
  from lexesD [OF lexes_punct [OF punct(3)] idval(4)] obtain k4 c4 where comma:
    "json_parse_token c3 = (k4, c4)" "tk_type k4 = TOKEN_COMMA" "cx_rest c4 = t1" .
  from lexesD [OF lexes_key [OF plain(3,4) isspace_gap(1)] comma(3) [unfolded t1_def]] obtain k5 c5 where fkey:
    "json_parse_token c4 = (k5, c5)" "tk_type k5 = TOKEN_STRING" "tk_value k5 = Some ''fields''"
    "cx_rest c5 = '': '' @ ''{'' @ members" .
  from lexesD [OF lexes_colon fkey(4)] obtain k6 c6 where colon2:
    "json_parse_token c5 = (k6, c6)" "tk_type k6 = TOKEN_COLON" "cx_rest c6 = '' '' @ ''{'' @ members" .
  have "cx_rest c6 = CHR '' '' # CHR ''{'' # members" using colon2(3) by simp
  from lexesD [OF lexes_space [OF sp(1) lexes_punct [OF punct(1)]] this]
  obtain k7 c7 where brace: "json_parse_token c6 = (k7, c7)" "tk_type k7 = TOKEN_OBJECT_START" "cx_rest c7 = members" .
  let ?fs0 = "replicate ?n zero_field"
  obtain fs c8 where fields: "read_fields lib mk t (left c7 + 1) c7 ?fs0 = Returns (fs, c8)"
    "cx_rest c8 = gap b b 0 @ ''}''" "length fs = ?n"
    "\<forall>i < ?n. same_content (r_fields r ! i) (f_value (fs ! i)) \<and> f_name (fs ! i) = f_name (?fs0 ! i) \<and>
        f_type (fs ! i) = (if f_type (r_fields r ! i) = TYPE_NULL then TYPE_NULL else f_type (?fs0 ! i))"
    using read_fields_member [OF assms(1,2), of 0 c7 "left c7 + 1" ?fs0 b "gap b b 0 @ ''}''" lib mk]
      brace(3) assms(3) by (auto simp: members_def simp del: read_fields.simps)
  from lexesD [OF lexes_spaces [OF isspace_gap(1) lexes_punct [OF punct(2)]] fields(2)] obtain k9 c9 where
    finish: "json_parse_token c8 = (k9, c9)" "tk_type k9 = TOKEN_OBJECT_END" .
  obtain fuel where fuel: "left c0 + 1 = Suc (Suc fuel)"
    using start(3) by (cases "left c0") (simp_all add: left_def t0_def key_text_def quoted_def)
  have "read_record lib mk t (left c0 + 1) c0 (-1) ?fs0 = Returns (Some (r_id r, fs))"
    unfolding fuel using idkey colon1 idval comma fkey colon2 brace fields(1) finish assms(4)
    by (simp add: Let_def del: read_fields.simps)
  from that [OF start(1,2) this fields(3)] fields(4) show ?thesis by (simp add: zero_field_def)
qed

lemma json_to_record_text:
  assumes "plain_names t" and "texts_ok t r" and "1 \<le> t_field_count t" and "c_int (r_id r)" and "r_id r \<noteq> -1"
    and "ok 0" and "ok 1"
  shows "\<exists>fs. json_to_record lib mk ok now (Some (record_text b t r)) (Some t) =
      Returns (Some \<lparr>r_id = r_id r, r_fields = fs, r_field_count = t_field_count t, r_timestamp = now, r_version = 1\<rparr>) \<and>
    length fs = t_field_count t \<and> (\<forall>i < t_field_count t. same_content (r_fields r ! i) (f_value (fs ! i)) \<and>
      f_name (fs ! i) = [] \<and>
      f_type (fs ! i) = (if f_type (r_fields r ! i) = TYPE_NULL then TYPE_NULL else TYPE_UNKNOWN))"
proof -
  from read_record_text [OF assms(1-4), of b lib mk] obtain fs k0 c0 where
    r: "json_parse_token (json_context (record_text b t r)) = (k0, c0)" "tk_type k0 = TOKEN_OBJECT_START"
    "read_record lib mk t (left c0 + 1) c0 (-1) (replicate (t_field_count t) zero_field) = Returns (Some (r_id r, fs))"
    "length fs = t_field_count t" "\<forall>i < t_field_count t. same_content (r_fields r ! i) (f_value (fs ! i)) \<and>
      f_name (fs ! i) = [] \<and>
      f_type (fs ! i) = (if f_type (r_fields r ! i) = TYPE_NULL then TYPE_NULL else TYPE_UNKNOWN)" .
  with assms(5-7) show ?thesis
    by (intro exI [of _ fs]) (simp add: json_to_record_def del: read_record.simps)
qed

lemma json_to_record_minus_one:
  assumes "plain_names t" and "texts_ok t r" and "1 \<le> t_field_count t" and "c_int (r_id r)" and "r_id r = -1"
  shows "json_to_record lib mk ok now (Some (record_text b t r)) (Some t) = Returns None"
  by (rule read_record_text [OF assms(1-4), of b lib mk])
    (simp add: json_to_record_def assms(5) del: read_record.simps)


definition sample_schema :: Table where
  "sample_schema = new_table (\<lambda>_. True) ''users'' [''n'', ''name''] [TYPE_INT, TYPE_STRING] 2"

definition sample_record :: Record where
  "sample_record = \<lparr>r_id = 7, r_fields = [\<lparr>f_name = ''n'', f_type = TYPE_INT, f_value = set_int_value (-3) zero_value\<rparr>,
     \<lparr>f_name = ''name'', f_type = TYPE_STRING, f_value = set_string_value [CHR ''a'', CHR 0x22] zero_value\<rparr>],
     r_field_count = 2, r_timestamp = 0, r_version = 4\<rparr>"

lemma sample_schema_fields: "t_field_count sample_schema = 2" "t_field_names sample_schema = [''n'', ''name'']"
  "t_field_types sample_schema = [TYPE_INT, TYPE_STRING]"
  by (simp_all add: sample_schema_def new_table_def MAX_TABLE_NAME_def upt_rec numeral_2_eq_2)

lemma sample_plain: "plain_names sample_schema"
  by (simp add: plain_names_def sample_schema_fields unescaped_def)

lemma sample_texts: "texts_ok sample_schema sample_record"
  by (auto simp: texts_ok_def sample_schema_fields text_types_def sample_record_def less_2_cases_iff)


text \<open>C37: reading a record always returns or runs into undefined behaviour, whatever the text: every
  turn of its two loops takes a token. The undefined behaviour is real: when the fields object holds
  anything but a string where a member should start, the key is freed in that branch and again after
  the loop.\<close>

theorem json_to_record_returns:
  assumes "lexes rest ty v rest'" and "ty \<noteq> TOKEN_STRING" and "ty \<noteq> TOKEN_OBJECT_END" and "ok 0"
  shows "json_to_record lib mk ok now sp tp \<noteq> OutOfFuel \<and>
     json_to_record lib mk ok now (Some (''{'' @ quoted ''fields'' @ '':{'' @ rest)) (Some t) = Undefined"
proof
  show "json_to_record lib mk ok now sp tp \<noteq> OutOfFuel" by (rule json_to_record_enough)
  have punct: "punctuation (CHR ''{'') = Some TOKEN_OBJECT_START" "punctuation (CHR '':'') = Some TOKEN_COLON"
    by (simp_all add: punctuation_def)
  let ?text = "''{'' @ quoted ''fields'' @ '':{'' @ rest"
  have "cx_rest (json_context ?text) = CHR ''{'' # quoted ''fields'' @ '':{'' @ rest"
    by (simp add: json_context_def cx_rest_def)
  from lexesD [OF lexes_punct [OF punct(1)] this] obtain k0 c0 where start:
    "json_parse_token (json_context ?text) = (k0, c0)" "tk_type k0 = TOKEN_OBJECT_START"
    "cx_rest c0 = quoted ''fields'' @ '':{'' @ rest" .
  have "closed_text ''fields''" by (rule unescaped_closed) (simp_all add: unescaped_def)
  then have "lexes (quoted ''fields'' @ '':{'' @ rest) TOKEN_STRING (Some ''fields'') (CHR '':'' # CHR ''{'' # rest)"
    using lexes_string [of "''fields''"] by (simp add: quoted_def)
  from lexesD [OF this start(3)] obtain k1 c1 where key:
    "json_parse_token c0 = (k1, c1)" "tk_type k1 = TOKEN_STRING" "tk_value k1 = Some ''fields''"
    "cx_rest c1 = CHR '':'' # CHR ''{'' # rest" .
  from lexesD [OF lexes_punct [OF punct(2)] key(4)] obtain k2 c2 where colon:
    "json_parse_token c1 = (k2, c2)" "tk_type k2 = TOKEN_COLON" "cx_rest c2 = CHR ''{'' # rest" .
  from lexesD [OF lexes_punct [OF punct(1)] colon(3)] obtain k3 c3 where brace:
    "json_parse_token c2 = (k3, c3)" "tk_type k3 = TOKEN_OBJECT_START" "cx_rest c3 = rest" .
  from lexesD [OF assms(1) brace(3)] obtain k4 c4 where "json_parse_token c3 = (k4, c4)" "tk_type k4 = ty" .
  then have "read_fields lib mk t (left c3 + 1) c3 fs = Undefined" for fs using assms(2,3) by simp
  with start key colon brace assms(4) show "json_to_record lib mk ok now (Some ?text) (Some t) = Undefined"
    by (simp add: json_to_record_def Let_def del: read_fields.simps)
qed

lemma json_to_record_returns_witness:
  "json_to_record no_floats (\<lambda>_. 0) (\<lambda>_. True) 0 (Some ''5'') (Some sample_schema) \<noteq> OutOfFuel \<and>
   json_to_record no_floats (\<lambda>_. 0) (\<lambda>_. True) 0 (Some (''{'' @ quoted ''fields'' @ '':{'' @ ''1'')) (Some sample_schema) = Undefined"
proof -
  have n: "show_int 1 = ''1''" by code_simp
  have "lexes ''1'' TOKEN_NUMBER (Some ''1'') []"
    using lexes_int [of "[]" 1] unfolding n by (simp add: number_stops_def)
  from json_to_record_returns [OF this, of "\<lambda>_. True" no_floats "\<lambda>_. 0" 0 "Some ''5''" "Some sample_schema" sample_schema]
  show ?thesis by simp
qed

end
