(* ===== verification/Lx_Json_Tools_Props.thy ===== *)
theory Lx_Json_Tools_Props
  imports Lx_Json_Tools Lx_Json_Roundtrip
begin

text \<open>
  What the tools over JSON texts of \<open>src/src/json_io.c\<close> compute: the texts that validation accepts, the
  writes of the pretty printer, what minifying removes, and when the statistics return.
\<close>

section \<open>The token of a text\<close>

lemma match_string_rest:
  "cx_rest ctx \<noteq> [] \<Longrightarrow> json_match_string ctx w =
     (if starts_with w (cx_rest ctx) then (True, advance (length w) ctx) else (False, ctx))"
  using starts_with_length [of w "cx_rest ctx"] by (auto simp: json_match_string_def cx_rest_def)

definition word_of :: "JsonTokenType \<Rightarrow> string \<Rightarrow> string \<Rightarrow> JsonTokenType \<times> string option \<times> nat \<times> string" where
  "word_of ty w s = (if starts_with w s then (ty, Some w, length w, drop (length w) s) else (TOKEN_NONE, None, 0, s))"

definition token_of :: "string \<Rightarrow> JsonTokenType \<times> string option \<times> nat \<times> string" where
  \<comment> \<open>type, value and length of the token that a text without leading white space begins with, and the
      text after it\<close>
  "token_of s = (case s of [] \<Rightarrow> (TOKEN_EOF, None, 0, [])
     | c # cs \<Rightarrow>
       (case punctuation c of Some ty \<Rightarrow> (ty, None, 0, cs)
        | None \<Rightarrow>
          if c = CHR 0x22 then
            (case string_end False cs of None \<Rightarrow> (TOKEN_NONE, None, 0, [])
             | Some n \<Rightarrow> (TOKEN_STRING, Some (c_str (take n cs)), length (take n cs), drop (n + 2) s))
          else if c = CHR ''t'' then word_of TOKEN_BOOLEAN ''true'' s
          else if c = CHR ''f'' then word_of TOKEN_BOOLEAN ''false'' s
          else if c = CHR ''n'' then word_of TOKEN_NULL ''null'' s
          else if c = CHR ''-'' \<or> isdigit c then
            (TOKEN_NUMBER, Some (c_str (take (number_length s) s)), length (take (number_length s) s),
             drop (number_length s) s)
          else (TOKEN_NONE, None, 0, s)))"

definition token_view :: "JsonToken \<times> JsonParseContext \<Rightarrow> JsonTokenType \<times> string option \<times> nat \<times> string" where
  "token_view r = (tk_type (fst r), tk_value (fst r), tk_length (fst r), cx_rest (snd r))"

lemma token_view_simps:
  "token_view (plain_token i ty, ctx) = (ty, None, 0, cx_rest ctx)"
  "token_view (text_token i ty s, ctx) = (ty, Some (c_str s), length s, cx_rest ctx)"
  "cx_rest ctx \<noteq> [] \<Longrightarrow> token_view (word_token i ctx ty w) = word_of ty w (cx_rest ctx)"
  by (auto simp: token_view_def plain_token_def text_token_def word_token_def match_string_rest word_of_def)

lemma token_view_token_at: "token_view (token_at i ctx) = token_of (cx_rest ctx)"
proof (cases "cx_rest ctx")
  case Nil
  then show ?thesis by (simp add: token_at_def token_of_def token_view_simps)
next
  case (Cons c cs)
  then have ne: "cx_rest ctx \<noteq> []" by simp
  have a: "cx_rest (advance n ctx) = drop n (c # cs)" for n by (simp add: Cons)
  show ?thesis
    unfolding token_at_def token_of_def Cons list.case
    by (simp only: if_distrib [of token_view] option.case_distrib [of token_view] token_view_simps(1,2)
        token_view_simps(3) [OF ne] a Cons cx_rest_end cx_rest_error)
      (simp split: option.split)
qed

lemma token_view_parse: "token_view (json_parse_token ctx) = token_of (dropWhile isspace (cx_rest ctx))"
  by (simp add: json_parse_token_def token_view_token_at)

lemma token_at_rest:
  assumes "cx_rest ctx1 = cx_rest ctx2" and "token_at i ctx1 = (t1, c1)" and "token_at j ctx2 = (t2, c2)"
  shows "tk_type t1 = tk_type t2 \<and> tk_value t1 = tk_value t2 \<and> tk_length t1 = tk_length t2 \<and> cx_rest c1 = cx_rest c2"
proof -
  have "token_view (t1, c1) = token_view (t2, c2)"
    using token_view_token_at [of i ctx1] token_view_token_at [of j ctx2] assms by simp
  then show ?thesis by (simp add: token_view_def)
qed

lemma json_parse_token_lexes:
  assumes "json_parse_token ctx = (t, ctx')"
  shows "lexes (cx_rest ctx) (tk_type t) (tk_value t) (cx_rest ctx')"
  unfolding lexes_def
proof (intro allI impI)
  fix start c
  assume "cx_rest c = cx_rest ctx"
  then have e: "cx_rest (json_skip_whitespace c) = cx_rest (json_skip_whitespace ctx)" by simp
  obtain t2 c2 where t2: "token_at start (json_skip_whitespace c) = (t2, c2)" by fastforce
  from token_at_rest [OF e t2 assms [unfolded json_parse_token_def]] t2
  show "\<exists>t' ctx''. token_at start (json_skip_whitespace c) = (t', ctx'') \<and> tk_type t' = tk_type t \<and>
      tk_value t' = tk_value t \<and> cx_rest ctx'' = cx_rest ctx'" by auto
qed

lemma lexes_fun:
  assumes "lexes s ty v r" and "lexes s ty' v' r'"
  shows "ty = ty' \<and> v = v' \<and> r = r'"
proof -
  have s: "cx_rest (json_context s) = s" by (simp add: cx_rest_def json_context_def)
  obtain t c where "json_parse_token (json_context s) = (t, c)" "tk_type t = ty" "tk_value t = v" "cx_rest c = r"
    using lexesD [OF assms(1) s] .
  moreover obtain t' c' where "json_parse_token (json_context s) = (t', c')" "tk_type t' = ty'" "tk_value t' = v'"
    "cx_rest c' = r'" using lexesD [OF assms(2) s] .
  ultimately show ?thesis by simp
qed

lemma token_of_eof: "fst (token_of s) = TOKEN_EOF \<longleftrightarrow> s = []"
  by (auto simp: token_of_def word_of_def punctuation_def split: list.split option.split)

lemma token_eof:
  assumes "json_parse_token ctx = (t, ctx')"
  shows "tk_type t = TOKEN_EOF \<longleftrightarrow> list_all isspace (cx_rest ctx)"
proof -
  have "tk_type t = fst (token_view (json_parse_token ctx))" using assms by (simp add: token_view_def)
  then have "tk_type t = TOKEN_EOF \<longleftrightarrow> dropWhile isspace (cx_rest ctx) = []"
    by (simp only: token_view_parse token_of_eof)
  then show ?thesis by (auto simp: list_all_iff dropWhile_eq_Nil_conv)
qed

section \<open>Validation\<close>

lemma validate_json_iff:
  "fst (validate_json want ok (Some s)) = SUCCESS \<longleftrightarrow>
     (\<exists>ty v rest. lexes s ty v rest \<and> ty \<in> set value_tokens \<and> list_all isspace rest)"
proof -
  obtain t c where t: "json_parse_token (json_context s) = (t, c)" by fastforce
  obtain t2 c2 where t2: "json_parse_token c = (t2, c2)" by fastforce
  have "cx_rest (json_context s) = s" by (simp add: cx_rest_def json_context_def)
  with json_parse_token_lexes [OF t] have l: "lexes s (tk_type t) (tk_value t) (cx_rest c)" by simp
  have "fst (validate_json want ok (Some s)) = SUCCESS \<longleftrightarrow> tk_type t \<in> set value_tokens \<and> list_all isspace (cx_rest c)"
    using t t2 token_eof [OF t2] by (auto simp: validate_json_def value_tokens_def)
  with l lexes_fun [OF l] show ?thesis by metis
qed

text \<open>\<open>validate_json\<close> accepts exactly the texts of one token that can begin a value, with white
  space around it. So a single brace or bracket is accepted, while every text that goes on after
  it, closed or not, is refused as having extra characters; no object or array is ever valid.\<close>

lemma validate_json_accepts:
  assumes "list_all isspace sp" and "c \<in> {CHR ''{'', CHR ''[''}"
  shows "(fst (validate_json want ok (Some s)) = SUCCESS \<longleftrightarrow>
       (\<exists>ty v rest. lexes s ty v rest \<and> ty \<in> set value_tokens \<and> list_all isspace rest)) \<and>
     (fst (validate_json want ok (Some (sp @ [c] @ body))) = SUCCESS \<longleftrightarrow> list_all isspace body) \<and>
     (\<not> list_all isspace body \<longrightarrow> validate_json True True (Some (sp @ [c] @ body)) =
       (ERROR_INVALID_INPUT, Some (Some ''Invalid JSON: extra characters after value'')))"
proof (intro conjI)
  show "fst (validate_json want ok (Some s)) = SUCCESS \<longleftrightarrow>
       (\<exists>ty v rest. lexes s ty v rest \<and> ty \<in> set value_tokens \<and> list_all isspace rest)"
    by (rule validate_json_iff)
  obtain ty where ty: "punctuation c = Some ty" "ty \<in> {TOKEN_OBJECT_START, TOKEN_ARRAY_START}"
    using assms(2) by (auto simp: punctuation_def)
  have lx: "lexes (sp @ [c] @ body) ty None body"
    using lexes_spaces [OF assms(1) lexes_punct [OF ty(1)]] by simp
  have v: "ty \<in> set value_tokens" "ty \<noteq> TOKEN_NONE" using ty(2) by (auto simp: value_tokens_def)
  show "fst (validate_json want ok (Some (sp @ [c] @ body))) = SUCCESS \<longleftrightarrow> list_all isspace body"
    unfolding validate_json_iff using lx v(1) lexes_fun [OF lx] by blast
  have "cx_rest (json_context (sp @ [c] @ body)) = sp @ [c] @ body" by (simp add: cx_rest_def json_context_def)
  from lexesD [OF lx this] obtain t k where t: "json_parse_token (json_context (sp @ [c] @ body)) = (t, k)"
    "tk_type t = ty" "cx_rest k = body" .
  obtain t2 k2 where t2: "json_parse_token k = (t2, k2)" by fastforce
  show "\<not> list_all isspace body \<longrightarrow> validate_json True True (Some (sp @ [c] @ body)) =
       (ERROR_INVALID_INPUT, Some (Some ''Invalid JSON: extra characters after value''))"
    using t t2 v token_eof [OF t2] by (auto simp: validate_json_def set_error_def)
qed

lemma validate_json_accepts_example:
  "fst (validate_json True True (Some ''{'')) = SUCCESS \<and> fst (validate_json True True (Some ''{}'')) \<noteq> SUCCESS"
  using validate_json_accepts [of "[]" "CHR ''{''" True True "[]" "[]"]
    validate_json_accepts [of "[]" "CHR ''{''" True True "[]" "''}''"] by (auto simp: isspace_def)

section \<open>Pretty printing\<close>

lemma put_fits: "length out + length bs \<le> n \<Longrightarrow> put n bs out = Some (out @ bs)"
  by (simp add: put_def)

lemma pad_fits: "c_int w \<Longrightarrow> length out \<le> n \<Longrightarrow> \<exists>k. pad n w out = Some (out @ replicate k (CHR '' '')) \<and>
    length out + k \<le> n \<and> (length out + 1 \<le> n \<longrightarrow> length out + k + 1 \<le> n)"
  by (auto simp: pad_def intro!: exI [of _ "min (nat w) (n - 1 - length out)"])

lemma pretty_step_bounds:
  assumes "length out + 2 \<le> n" and "\<bar>level\<bar> + 1 \<le> b" and "b * indent \<le> int_max" and "0 < indent"
  shows "\<exists>l i e out'. pretty_step indent n (level, ins, esc, out) c = Some (l, i, e, out') \<and>
     length out' \<le> n \<and> \<bar>l\<bar> \<le> \<bar>level\<bar> + 1"
proof -
  have ci: "c_int (l * indent)" if "\<bar>l\<bar> \<le> b" for l
  proof -
    have "\<bar>l * indent\<bar> \<le> b * indent" using that assms(4) by (simp add: abs_mult)
    with assms(3) show ?thesis by (auto simp: c_int_def int_min_def int_max_def)
  qed
  have w: "c_int ((level + 1) * indent)" "c_int ((level - 1) * indent)" "c_int (level * indent)"
    using assms(2) by (auto intro!: ci)
  have opens: "\<exists>out'. Option.bind (put n [c, CHR 0x0A] out) (pad n v) = Some out' \<and> length out' \<le> n" if "c_int v" for v
    using pad_fits [OF that, of "out @ [c, CHR 0x0A]" n] assms(1) by (auto simp: put_fits)
  have closes: "\<exists>out'. Option.bind (Option.bind (put n [CHR 0x0A] out) (pad n v)) (put n [c]) = Some out' \<and>
      length out' \<le> n" if v: "c_int v" for v
  proof -
    obtain k where k: "pad n v (out @ [CHR 0x0A]) = Some ((out @ [CHR 0x0A]) @ replicate k (CHR '' ''))"
      "length (out @ [CHR 0x0A]) + 1 \<le> n \<longrightarrow> length (out @ [CHR 0x0A]) + k + 1 \<le> n"
      using pad_fits [OF v, of "out @ [CHR 0x0A]" n] assms(1) by auto
    then have "length (out @ [CHR 0x0A]) + k + 1 \<le> n" using assms(1) by simp
    with k(1) assms(1) show ?thesis by (simp add: put_def)
  qed
  have put: "\<exists>out'. put n bs out = Some out' \<and> length out' \<le> n" if "length bs \<le> 2" for bs
    using that assms(1) by (simp add: put_fits)
  have step: "\<exists>l i e out'. map_option (\<lambda>out'. (l0, i0, e0, out')) r = Some (l, i, e, out') \<and> length out' \<le> n \<and>
      \<bar>l\<bar> \<le> \<bar>level\<bar> + 1" if "\<exists>out'. r = Some out' \<and> length out' \<le> n" "\<bar>l0\<bar> \<le> \<bar>level\<bar> + 1"
    for l0 r and i0 e0 :: bool
    using that by auto
  let ?ok = "\<lambda>r. \<exists>l i e out'. r = Some (l, i, e, out') \<and> length out' \<le> n \<and> \<bar>l :: int\<bar> \<le> \<bar>level\<bar> + 1"
  have branch: "?ok x \<Longrightarrow> ?ok y \<Longrightarrow> ?ok (if b then x else y)" for b and x y :: "(int \<times> bool \<times> bool \<times> string) option"
    by (cases b) simp_all
  show ?thesis
    unfolding pretty_step.simps
    by (rule branch step opens closes put w | simp)+
qed

lemma pretty_loop_bounds:
  assumes "length out \<le> n" and "(\<bar>level\<bar> + int (length cs)) * indent \<le> int_max" and "0 < indent"
  shows "\<exists>l i e out'. pretty_loop indent n (level, ins, esc, out) cs = Some (l, i, e, out') \<and> length out' \<le> n"
  using assms(1,2)
proof (induction cs arbitrary: level ins esc out)
  case (Cons c cs)
  show ?case
  proof (cases "length out < n - 1")
    case True
    have room: "length out + 2 \<le> n" using True by linarith
    obtain l i e out' where s: "pretty_step indent n (level, ins, esc, out) c = Some (l, i, e, out')"
      "length out' \<le> n" "\<bar>l\<bar> \<le> \<bar>level\<bar> + 1"
      using pretty_step_bounds [of out n level "\<bar>level\<bar> + int (length (c # cs))" indent ins esc c] room Cons(3) assms(3)
      by (auto simp del: pretty_step.simps)
    have "(\<bar>l\<bar> + int (length cs)) * indent \<le> (\<bar>level\<bar> + int (length (c # cs))) * indent"
      using s(3) assms(3) by (intro mult_right_mono) auto
    with Cons(3) have "(\<bar>l\<bar> + int (length cs)) * indent \<le> int_max" by linarith
    from Cons(1) [OF s(2) this] True s(1) show ?thesis by simp
  qed (use Cons(2) in auto)
qed auto

text \<open>C40: the pretty printer writes inside its buffer of twice the length of the text until the very
  end: the loop never writes past it, so the terminating NUL is the only byte that can, and it does
  when the loop has filled the buffer, as for the text \<open>[\<close>, and for the empty text. Where it returns,
  what did not fit is lost: of \<open>[]\<close> the closing bracket.\<close>

theorem pretty_print_bounds:
  assumes "0 < indent" and "int (length s) * indent \<le> int_max" and "s \<noteq> []"
  shows "(\<exists>l i e out. pretty_loop indent (length s * 2) (0, False, False, []) s = Some (l, i, e, out) \<and>
       length out \<le> length s * 2 \<and>
       json_pretty_print (\<lambda>_. True) (Some s) indent =
         (if length out = length s * 2 then Undefined else Returns (Some out))) \<and>
     json_pretty_print (\<lambda>_. True) (Some []) indent = Undefined \<and>
     json_pretty_print (\<lambda>_. True) (Some ''['') indent = Undefined \<and>
     json_pretty_print (\<lambda>_. True) (Some ''[]'') indent = Returns (Some [CHR ''['', CHR 0x0A, CHR '' ''])"
proof -
  have i: "c_int indent"
  proof -
    have "1 * indent \<le> int (length s) * indent"
      using assms(1,3) by (intro mult_right_mono) (simp_all add: Suc_leI)
    then have "indent \<le> int_max" using assms(2) by linarith
    with assms(1) show ?thesis by (simp add: c_int_def int_min_def)
  qed
  obtain l i e out where "pretty_loop indent (length s * 2) (0, False, False, []) s = Some (l, i, e, out)"
    "length out \<le> length s * 2"
    using pretty_loop_bounds [of "[]" "length s * 2" 0 s indent False False] assms by auto
  moreover have "json_pretty_print (\<lambda>_. True) (Some ''[]'') indent = Returns (Some [CHR ''['', CHR 0x0A, CHR '' ''])"
    using assms(1) i by (simp add: json_pretty_print_def put_def pad_def numeral_eq_Suc)
  moreover have "json_pretty_print (\<lambda>_. True) (Some ''['') indent = Undefined"
    using assms(1) i by (simp add: json_pretty_print_def put_def pad_def)
  ultimately show ?thesis using assms(1) by (auto simp: json_pretty_print_def)
qed

lemma pretty_print_bounds_witness:
  "\<exists>l i e out. pretty_loop 2 6 (0, False, False, []) ''[1]'' = Some (l, i, e, out) \<and> length out \<le> 6"
  using pretty_print_bounds [of 2 "''[1]''"] by (auto simp: int_max_def simp del: pretty_loop.simps)

section \<open>Minifying\<close>

lemma minify_append_outside: "list_all isspace sp \<Longrightarrow> minify False False (sp @ s) = minify False False s"
  by (induction sp) auto

lemma minify_plain:
  "list_all (\<lambda>c. c \<noteq> CHR 0x22 \<and> \<not> isspace c) p \<Longrightarrow> minify False False (p @ s) = p @ minify False False s"
  by (induction p) auto

lemma minify_string_end:
  "string_end e (t @ CHR 0x22 # s) = Some (length t) \<Longrightarrow> minify True e (t @ CHR 0x22 # s) = t @ CHR 0x22 # minify False False s"
  by (induction t arbitrary: e) (auto simp: conj_commute split: if_splits)

lemma minify_quoted:
  assumes "closed_text t"
  shows "minify False False (quoted t @ s) = quoted t @ minify False False s"
proof -
  have q: "\<not> isspace (CHR 0x22)" by (simp add: isspace_def)
  have "string_end False (t @ CHR 0x22 # s) = Some (length t)" using assms by (simp add: closed_text_def)
  from minify_string_end [OF this] q show ?thesis by (simp add: quoted_def)
qed

lemma minify_idem: "minify i e (minify i e s) = minify i e s"
  by (induction i e s rule: minify.induct) auto

definition minifies :: "string \<Rightarrow> string \<Rightarrow> bool" where
  \<comment> \<open>outside strings, the text \<open>a\<close> leaves \<open>m\<close> and ends outside strings\<close>
  "minifies a m \<longleftrightarrow> (\<forall>s. minify False False (a @ s) = m @ minify False False s)"

lemma minifies_space: "list_all isspace sp \<Longrightarrow> minifies sp []"
  by (simp add: minifies_def minify_append_outside)

lemma minifies_plain: "list_all (\<lambda>c. c \<noteq> CHR 0x22 \<and> \<not> isspace c) p \<Longrightarrow> minifies p p"
  by (simp add: minifies_def minify_plain)

lemma minifies_quoted: "closed_text t \<Longrightarrow> minifies (quoted t) (quoted t)"
  by (simp add: minifies_def minify_quoted)

lemma minifies_append: "minifies a m \<Longrightarrow> minifies b k \<Longrightarrow> minifies (a @ b) (m @ k)"
  by (simp add: minifies_def)

lemma minifies_concat:
  "(\<And>x. x \<in> set xs \<Longrightarrow> minifies (f x) (g x)) \<Longrightarrow> minifies (concat (map f xs)) (concat (map g xs))"
proof (induction xs)
  case Nil
  show ?case by (simp add: minifies_def)
next
  case (Cons x xs)
  then show ?case using minifies_append [of "f x" "g x"] by simp
qed

lemma minifies_int: "minifies (show_int i) (show_int i)"
proof (rule minifies_plain)
  have d: "list_all (\<lambda>c. c \<noteq> CHR 0x22 \<and> \<not> isspace c) (dec_digits n)" for n
    using dec_digits_digits [of n] by (auto simp: list_all_iff char_class_defs)
  then show "list_all (\<lambda>c. c \<noteq> CHR 0x22 \<and> \<not> isspace c) (show_int i)"
    by (simp add: show_int_def isspace_def)
qed

lemma minifies_words: "minifies ''{'' ''{''" "minifies ''}'' ''}''" "minifies '','' '',''" "minifies '': '' '':''"
  "minifies ''null'' ''null''" "minifies ''true'' ''true''" "minifies ''false'' ''false''" "minifies [] []"
  by (simp_all add: minifies_def isspace_def)

lemma minifies_gap: "minifies (gap b p l) []" "minifies (if b then indent_text b' l else []) []"
  by (simp_all add: minifies_space minifies_words)

lemma minifies_key: "unescaped k \<Longrightarrow> nul_free k \<Longrightarrow> minifies (key_text k) (quoted k @ '':'')"
  unfolding key_text_def by (intro minifies_append minifies_words minifies_quoted unescaped_closed)

lemma minifies_field: "f_type f \<in> text_types \<Longrightarrow> minifies (field_text f) (field_text f)"
  by (auto simp: field_text_def text_types_def string_value_def
      intro!: minifies_int minifies_words minifies_quoted closed_escaped)

definition minified_record :: "Table \<Rightarrow> Record \<Rightarrow> string" where
  "minified_record t r = ''{'' @ quoted ''id'' @ '':'' @ show_int (r_id r) @ '','' @ quoted ''fields'' @ '':'' @ ''{'' @
     concat (map (\<lambda>i. (if 0 < i then '','' else []) @ quoted (t_field_names t ! i) @ '':'' @ field_text (r_fields r ! i))
       [0..<t_field_count t]) @ ''}'' @ ''}''"

lemma minify_record:
  assumes "plain_names t" and "texts_ok t r"
  shows "minify False False (record_text b t r) = minified_record t r"
proof -
  have k: "unescaped ''id''" "unescaped ''fields''" "nul_free ''id''" "nul_free ''fields''"
    by (simp_all add: unescaped_def)
  have member: "minifies ((if 0 < i then '','' else []) @ gap b b 2 @ member_text t r i)
      ((if 0 < i then '','' else []) @ [] @ quoted (t_field_names t ! i) @ '':'' @ field_text (r_fields r ! i))"
    if "i \<in> set [0..<t_field_count t]" for i
  proof -
    have "closed_text (t_field_names t ! i)"
      using assms(1) that by (auto simp: plain_names_def list_all_iff intro!: unescaped_closed)
    moreover have "minifies (if 0 < i then '','' else []) (if 0 < i then '','' else [])"
      by (simp add: minifies_words)
    moreover have "f_type (r_fields r ! i) \<in> text_types" using assms(2) that by (simp add: texts_ok_def)
    ultimately show ?thesis unfolding member_text_def
      by (intro minifies_append minifies_gap minifies_words minifies_quoted minifies_field)
  qed
  have "minifies (record_text b t r) (''{'' @ [] @ (quoted ''id'' @ '':'') @ show_int (r_id r) @ '','' @ [] @
     (quoted ''fields'' @ '':'') @ ''{'' @
     concat (map (\<lambda>i. (if 0 < i then '','' else []) @ [] @ quoted (t_field_names t ! i) @ '':'' @ field_text (r_fields r ! i))
       [0..<t_field_count t]) @ [] @ ''}'' @ [] @ ''}'')"
    unfolding record_text_def
    by (intro minifies_append minifies_words minifies_gap minifies_key k minifies_int minifies_concat member)
  from this [unfolded minifies_def, rule_format, of "[]"] show ?thesis by (simp add: minified_record_def)
qed

text \<open>C39: minifying undoes pretty printing: the compact and the pretty text of a record minify to the
  same text, which holds the members with no white space outside their strings and is at most as
  long; minifying again changes nothing, whatever the text.\<close>

theorem minify_pretty_compact:
  assumes "plain_names t" and "texts_ok t r"
  shows "\<exists>pretty compact. record_to_json env (\<lambda>_. True) (Some r) (Some t) (Some o1) = Some (Some pretty) \<and>
     record_to_json env (\<lambda>_. True) (Some r) (Some t) None = Some (Some compact) \<and>
     json_compress True (Some pretty) JSON_COMPRESS_MINIFY = Some (minified_record t r) \<and>
     json_compress True (Some compact) JSON_COMPRESS_MINIFY = Some (minified_record t r) \<and>
     length (minified_record t r) \<le> length compact \<and>
     Option.bind (json_compress True sp JSON_COMPRESS_MINIFY) (\<lambda>s. json_compress True (Some s) JSON_COMPRESS_MINIFY) =
       json_compress True sp JSON_COMPRESS_MINIFY"
proof -
  have l: "length (minify i e s) \<le> length s" for i e s
    by (induction i e s rule: minify.induct) (auto intro: le_SucI)
  have text_field: "f_type (r_fields r ! i) \<in> text_types" if "i < t_field_count t" for i
    using assms(2) that by (simp add: texts_ok_def)
  have "record_to_json env (\<lambda>_. True) (Some r) (Some t) (Some o1) = Some (Some (record_text (so_pretty o1) t r))"
    "record_to_json env (\<lambda>_. True) (Some r) (Some t) None = Some (Some (record_text False t r))"
    by (simp_all add: record_to_json_text [OF text_field])
  moreover have "length (minified_record t r) \<le> length (record_text False t r)"
    using l [of False False "record_text False t r"] by (simp add: minify_record [OF assms])
  moreover have "Option.bind (json_compress True sp JSON_COMPRESS_MINIFY)
      (\<lambda>s. json_compress True (Some s) JSON_COMPRESS_MINIFY) = json_compress True sp JSON_COMPRESS_MINIFY"
    by (cases sp) (simp_all add: json_compress_def minify_idem)
  moreover have "json_compress True (Some (record_text b t r)) JSON_COMPRESS_MINIFY = Some (minified_record t r)" for b
    by (simp add: json_compress_def minify_record [OF assms])
  ultimately show ?thesis by blast
qed

lemma minify_pretty_compact_witness:
  "\<exists>pretty. record_to_json sample_env (\<lambda>_. True) (Some sample_record) (Some sample_schema)
       (Some \<lparr>so_pretty = True, so_include_data = False\<rparr>) = Some (Some pretty) \<and>
     json_compress True (Some pretty) JSON_COMPRESS_MINIFY = Some (minified_record sample_schema sample_record)"
  using minify_pretty_compact [OF sample_plain sample_texts] by blast

section \<open>Statistics\<close>

lemma token_of_none:
  "token_of s = (TOKEN_NONE, v, n, r) \<Longrightarrow> r \<noteq> [] \<Longrightarrow> r = s"
  by (auto simp: token_of_def word_of_def punctuation_def split: list.splits option.splits if_splits)

lemma dropWhile_idem: "dropWhile P (dropWhile P xs) = dropWhile P xs"
  by (induction xs) auto

definition stuck :: "JsonParseContext \<Rightarrow> bool" where
  \<comment> \<open>the next token is none and leaves the position where it is\<close>
  "stuck ctx \<longleftrightarrow> fst (token_view (json_parse_token ctx)) = TOKEN_NONE \<and>
     snd (snd (snd (token_view (json_parse_token ctx)))) = cx_rest ctx"

lemma stuck_step:
  assumes "json_parse_token ctx = (t, ctx')" and "stuck ctx"
  shows "tk_type t = TOKEN_NONE" and "stuck ctx'"
proof -
  from assms have "tk_type t = TOKEN_NONE" "cx_rest ctx' = cx_rest ctx" by (simp_all add: stuck_def token_view_def)
  moreover from this(2) have "token_view (json_parse_token ctx') = token_view (json_parse_token ctx)"
    by (simp only: token_view_parse)
  ultimately show "tk_type t = TOKEN_NONE" "stuck ctx'" using assms(2) by (simp_all add: stuck_def)
qed

lemma none_stuck:
  assumes "json_parse_token ctx = (t, ctx')" and "tk_type t = TOKEN_NONE" and "cx_rest ctx' \<noteq> []"
  shows "stuck ctx'"
proof -
  let ?s = "dropWhile isspace (cx_rest ctx)"
  have v: "token_view (json_parse_token ctx) = (TOKEN_NONE, tk_value t, tk_length t, cx_rest ctx')"
    using assms by (simp add: token_view_def)
  then have "cx_rest ctx' = ?s" using token_of_none assms(3) by (simp add: token_view_parse)
  with v show ?thesis by (simp add: stuck_def token_view_parse dropWhile_idem)
qed

lemma stats_loop_stuck: "stuck ctx \<Longrightarrow> stats_loop ctx stats = None"
proof -
  have "\<not> stuck ctx" if "stats_loop ctx stats = Some y" for y
  proof (rule stats_loop.raw_induct [of "\<lambda>ctx stats y. \<not> stuck ctx", OF _ that])
    fix loop ctx and stats y :: JsonStats
    assume 1: "\<And>ctx stats y. loop ctx stats = Some y \<Longrightarrow> \<not> stuck ctx"
      "(let (token, ctx') = json_parse_token ctx in
        if tk_type token = TOKEN_EOF then Some stats else loop ctx' (count_token token stats)) = Some y"
    obtain t ctx' where t: "json_parse_token ctx = (t, ctx')" by fastforce
    show "\<not> stuck ctx"
    proof
      assume "stuck ctx"
      from stuck_step [OF t this] 1(2) t have "loop ctx' (count_token t stats) = Some y" by simp
      from 1(1) [OF this] stuck_step [OF t \<open>stuck ctx\<close>] show False by simp
    qed
  qed
  then show "stuck ctx \<Longrightarrow> stats_loop ctx stats = None" by (cases "stats_loop ctx stats") auto
qed

function context_tokens :: "JsonParseContext \<Rightarrow> JsonToken list option" where
  \<comment> \<open>the tokens up to the end of the text, unless a character that begins no token comes before\<close>
  "context_tokens ctx = (case json_parse_token ctx of (token, ctx') \<Rightarrow>
     if tk_type token = TOKEN_EOF then Some []
     else if tk_type token = TOKEN_NONE \<and> cx_rest ctx' \<noteq> [] then None
     else map_option ((#) token) (context_tokens ctx'))"
  by auto
termination
proof (relation "measure left", simp)
  fix ctx token ctx'
  assume t: "(token, ctx') = json_parse_token ctx" "tk_type token \<noteq> TOKEN_EOF"
    "\<not> (tk_type token = TOKEN_NONE \<and> cx_rest ctx' \<noteq> [])"
  then have "cx_rest ctx \<noteq> []" using token_eof [OF t(1) [symmetric]] by auto
  with t json_parse_token_progress(3) [OF t(1) [symmetric]] show "(ctx', ctx) \<in> measure left"
    by (cases "tk_type token = TOKEN_NONE") (auto simp: left_def)
qed

declare context_tokens.simps [simp del]

definition of_type :: "JsonTokenType \<Rightarrow> JsonToken list \<Rightarrow> JsonToken list" where
  "of_type ty = filter (\<lambda>t. tk_type t = ty)"

definition stats_of :: "JsonToken list \<Rightarrow> JsonStats \<Rightarrow> JsonStats" where
  "stats_of ts st = st\<lparr>
     st_object_count := st_object_count st + length (of_type TOKEN_OBJECT_START ts),
     st_array_count := st_array_count st + length (of_type TOKEN_ARRAY_START ts),
     st_string_count := st_string_count st + length (of_type TOKEN_STRING ts),
     st_number_count := st_number_count st + length (of_type TOKEN_NUMBER ts),
     st_boolean_count := st_boolean_count st + length (of_type TOKEN_BOOLEAN ts),
     st_null_count := st_null_count st + length (of_type TOKEN_NULL ts),
     st_string_bytes := st_string_bytes st + sum_list (map tk_length (of_type TOKEN_STRING ts))\<rparr>"

lemma stats_of_Cons: "stats_of (t # ts) st = stats_of ts (count_token t st)"
  by (cases "tk_type t") (simp_all add: stats_of_def of_type_def count_token_def)

lemma stats_loop_tokens: "stats_loop ctx st = map_option (\<lambda>ts. stats_of ts st) (context_tokens ctx)"
proof (induction ctx arbitrary: st rule: context_tokens.induct)
  case (1 ctx)
  obtain t ctx' where t: "json_parse_token ctx = (t, ctx')" by fastforce
  consider "tk_type t = TOKEN_EOF" | (none) "tk_type t = TOKEN_NONE" "cx_rest ctx' \<noteq> []"
    | (more) "tk_type t \<noteq> TOKEN_EOF" "\<not> (tk_type t = TOKEN_NONE \<and> cx_rest ctx' \<noteq> [])" by blast
  then show ?case
  proof cases
    case 1
    with t show ?thesis
      by (simp add: context_tokens.simps [of ctx] stats_loop.simps [of ctx] stats_of_def of_type_def)
  next
    case none
    with stats_loop_stuck [OF none_stuck [OF t none]] t show ?thesis
      by (simp add: context_tokens.simps [of ctx] stats_loop.simps [of ctx])
  next
    case more
    then have "context_tokens ctx = map_option ((#) t) (context_tokens ctx')"
      using t by (simp add: context_tokens.simps [of ctx] if_not_P [OF more(2)])
    with 1 [OF t [symmetric] more] t more(1) show ?thesis
      by (simp add: stats_loop.simps [of ctx] option.map_comp comp_def stats_of_Cons)
  qed
qed

text \<open>C38: \<open>json_get_stats_string\<close> counts the tokens of the text by their types, and the bytes of its
  strings, when every character outside strings belongs to a token. With one that does not it never
  returns: the lexer answers \<open>TOKEN_NONE\<close> without moving, and the loop waits for the end of the text.\<close>

theorem stats_count_tokens:
  "json_get_stats_string True (Some s) =
     map_option (\<lambda>ts. Some \<lparr>st_total_size = length s, st_object_count = length (of_type TOKEN_OBJECT_START ts),
         st_array_count = length (of_type TOKEN_ARRAY_START ts), st_string_count = length (of_type TOKEN_STRING ts),
         st_number_count = length (of_type TOKEN_NUMBER ts), st_boolean_count = length (of_type TOKEN_BOOLEAN ts),
         st_null_count = length (of_type TOKEN_NULL ts),
         st_string_bytes = sum_list (map tk_length (of_type TOKEN_STRING ts)),
         st_element_count = length (of_type TOKEN_STRING ts) + length (of_type TOKEN_NUMBER ts) +
           length (of_type TOKEN_BOOLEAN ts) + length (of_type TOKEN_NULL ts)\<rparr>)
       (context_tokens (json_context s)) \<and>
   json_get_stats_string True (Some ''#'') = None"
proof
  show "json_get_stats_string True (Some ''#'') = None"
    by (simp add: json_get_stats_string_def stats_loop_tokens context_tokens.simps json_parse_token_def token_at_def
        json_context_def cx_rest_def json_skip_whitespace_def advance_def punctuation_def isspace_def isdigit_def
        plain_token_def)
qed (simp add: json_get_stats_string_def stats_loop_tokens option.map_comp comp_def stats_of_def no_stats_def)

section \<open>Merging and paths\<close>

text \<open>The buffer of \<open>json_merge_string\<close> is one byte short of its format, so the array it returns has
  lost its closing bracket: merging two string values gives a text that the function
  \<open>json_skip_token_value\<close> refuses. A path query never answers with a member: as soon as the object has a key, the key is
  used after it was freed.\<close>

lemma merge_and_path_defects:
  assumes "nul_free x" and "nul_free y" and "lexes rest TOKEN_STRING v rest'"
    and "json_merge_string True (Some (quoted (escaped x))) (Some (quoted (escaped y))) = Some merged"
    and "json_parse_token (json_context merged) = (token, ctx)"
  shows "merged = ''['' @ quoted (escaped x) @ '','' @ quoted (escaped y) \<and>
     fst (json_skip_token_value ctx token) = ERROR_INVALID_INPUT \<and>
     json_path_query_string_simplified ok (Some (''{'' @ rest)) (Some (''$.'' @ key)) = Undefined"
proof (intro conjI)
  have punct: "punctuation (CHR ''['') = Some TOKEN_ARRAY_START" "punctuation (CHR '','') = Some TOKEN_COMMA"
    "punctuation (CHR ''{'') = Some TOKEN_OBJECT_START" by (simp_all add: punctuation_def)
  have start: "cx_rest (json_context s) = s" for s by (simp add: cx_rest_def json_context_def)
  show m: "merged = ''['' @ quoted (escaped x) @ '','' @ quoted (escaped y)"
    using assms(4) by (simp add: json_merge_string_def Let_def)
  have str: "lexes (quoted (escaped z) @ s) TOKEN_STRING (Some (escaped z)) s" if "nul_free z" for z s
    using lexes_string [OF closed_escaped nul_free_escaped, OF that that] by (simp add: quoted_def)
  have "cx_rest (json_context merged) = CHR ''['' # quoted (escaped x) @ '','' @ quoted (escaped y)" by (simp add: m start)
  from lexesD [OF lexes_punct [OF punct(1)] this] assms(5)
  have a: "tk_type token = TOKEN_ARRAY_START" "cx_rest ctx = quoted (escaped x) @ '','' @ quoted (escaped y)" by auto
  from lexesD [OF str [OF assms(1)] a(2)] obtain k1 c1 where 1: "json_parse_token ctx = (k1, c1)"
    "tk_type k1 = TOKEN_STRING" "cx_rest c1 = '','' @ quoted (escaped y)" .
  from 1(3) have c1: "cx_rest c1 = CHR '','' # quoted (escaped y)" by simp
  from lexesD [OF lexes_punct [OF punct(2)] c1] obtain k2 c2 where 2: "json_parse_token c1 = (k2, c2)"
    "tk_type k2 = TOKEN_COMMA" "cx_rest c2 = quoted (escaped y)" .
  from 2(3) have c2: "cx_rest c2 = quoted (escaped y) @ []" by simp
  from lexesD [OF str [OF assms(2)] c2] obtain k3 c3 where 3: "json_parse_token c2 = (k3, c3)"
    "tk_type k3 = TOKEN_STRING" "cx_rest c3 = []" .
  obtain k4 c4 where 4: "json_parse_token c3 = (k4, c4)" by fastforce
  with token_eof [OF 4] 3(3) have "tk_type k4 = TOKEN_EOF" by simp
  moreover obtain n where "length (cx_rest ctx) + 1 = Suc (Suc n)" using a(2) by (simp add: quoted_def)
  ultimately show "fst (json_skip_token_value ctx token) = ERROR_INVALID_INPUT"
    using a(1) 1 2 3 4 by (simp add: json_skip_token_value_def)
  have "cx_rest (json_context (''{'' @ rest)) = CHR ''{'' # rest" by (simp add: start)
  from lexesD [OF lexes_punct [OF punct(3)] this] obtain k5 c5 where 5:
    "json_parse_token (json_context (''{'' @ rest)) = (k5, c5)" "tk_type k5 = TOKEN_OBJECT_START" "cx_rest c5 = rest" .
  from lexesD [OF assms(3) 5(3)] obtain k6 c6 where "json_parse_token c5 = (k6, c6)" "tk_type k6 = TOKEN_STRING" .
  with 5 show "json_path_query_string_simplified ok (Some (''{'' @ rest)) (Some (''$.'' @ key)) = Undefined"
    by (simp add: json_path_query_string_simplified_def)
qed

lemma merge_and_path_defects_example:
  "\<exists>merged. json_merge_string True (Some (quoted (escaped ''a''))) (Some (quoted (escaped ''b''))) = Some merged \<and>
     fst (json_skip_token_value (snd (json_parse_token (json_context merged))) (fst (json_parse_token (json_context merged)))) =
       ERROR_INVALID_INPUT"
proof -
  have "lexes (CHR 0x22 # ''k'' @ CHR 0x22 # []) TOKEN_STRING (Some ''k'') []"
    by (rule lexes_string [OF unescaped_closed]) (simp_all add: unescaped_def)
  note d = merge_and_path_defects [OF _ _ this, of "''a''" "''b''"]
  obtain merged where m: "json_merge_string True (Some (quoted (escaped ''a''))) (Some (quoted (escaped ''b''))) = Some merged"
    by (simp add: json_merge_string_def Let_def)
  obtain token ctx where t: "json_parse_token (json_context merged) = (token, ctx)" by fastforce
  with d [OF _ _ m t] m show ?thesis by simp
qed

end
