(* ===== verification/Lx_Json_Tokens.thy ===== *)
theory Lx_Json_Tokens
  imports Lx_Json_Roundtrip
begin

text \<open>
  The tokens of a saved database: the text that \<open>db_save_to_file\<close> writes, read by the lexer, is the
  token list \<open>database_tokens\<close>, for tables whose names and values are written without escapes being
  needed for the names.
\<close>

section \<open>Texts and token lists\<close>

type_synonym tok = "JsonTokenType \<times> string option"

inductive toks :: "string \<Rightarrow> tok list \<Rightarrow> string \<Rightarrow> bool" where
  \<comment> \<open>the text begins with these tokens, and the rest follows them\<close>
  toks_Nil: "toks s [] s"
| toks_Cons: "lexes s ty v s' \<Longrightarrow> toks s' ts r \<Longrightarrow> toks s ((ty, v) # ts) r"

inductive_simps toks_simps: "toks s [] r" "toks s (t # ts) r"

definition spells :: "string \<Rightarrow> tok list \<Rightarrow> bool" where
  "spells s ts \<longleftrightarrow> ts \<noteq> [] \<and> (\<exists>r. toks s ts r)"

lemma spells_Cons: "lexes s ty v s' \<Longrightarrow> spells s' ts \<Longrightarrow> spells s ((ty, v) # ts)"
  unfolding spells_def by (auto intro: toks_Cons)

lemma spells_space: "isspace c \<Longrightarrow> spells s ts \<Longrightarrow> spells (c # s) ts"
proof -
  assume c: "isspace c" and "spells s ts"
  then obtain r where "ts \<noteq> []" "toks s ts r" by (auto simp: spells_def)
  from this(2,1) have "toks (c # s) ts r"
  proof cases
    case (toks_Cons ty v s' us)
    show ?thesis unfolding toks_Cons(1) by (rule toks.toks_Cons [OF lexes_space [OF c toks_Cons(2)] toks_Cons(3)])
  qed simp
  with \<open>ts \<noteq> []\<close> show "spells (c # s) ts" by (auto simp: spells_def)
qed

lemma spells_spaces: "list_all isspace sp \<Longrightarrow> spells s ts \<Longrightarrow> spells (sp @ s) ts"
  by (induction sp) (auto intro: spells_space)

lemma spells_punct: "punctuation c = Some ty \<Longrightarrow> spells s ts \<Longrightarrow> spells (c # s) ((ty, None) # ts)"
  by (rule spells_Cons [OF lexes_punct])

lemma spells_quoted: "closed_text t \<Longrightarrow> nul_free t \<Longrightarrow> spells s ts \<Longrightarrow> spells (quoted t @ s) ((TOKEN_STRING, Some t) # ts)"
  using spells_Cons [OF lexes_string] by (simp add: quoted_def)

lemma spells_int: "number_stops s \<Longrightarrow> spells s ts \<Longrightarrow> spells (show_int i @ s) ((TOKEN_NUMBER, Some (show_int i)) # ts)"
  by (rule spells_Cons [OF lexes_int])

lemma spells_word:
  "spells s ts \<Longrightarrow> spells (''true'' @ s) ((TOKEN_BOOLEAN, Some ''true'') # ts)"
  "spells s ts \<Longrightarrow> spells (''false'' @ s) ((TOKEN_BOOLEAN, Some ''false'') # ts)"
  "spells s ts \<Longrightarrow> spells (''null'' @ s) ((TOKEN_NULL, Some ''null'') # ts)"
  by (rule spells_Cons [OF lexes_words(1)] spells_Cons [OF lexes_words(2)] spells_Cons [OF lexes_words(3)]; assumption)+

abbreviation Open_Object :: tok where "Open_Object \<equiv> (TOKEN_OBJECT_START, None)"
abbreviation Close_Object :: tok where "Close_Object \<equiv> (TOKEN_OBJECT_END, None)"
abbreviation Open_Array :: tok where "Open_Array \<equiv> (TOKEN_ARRAY_START, None)"
abbreviation Close_Array :: tok where "Close_Array \<equiv> (TOKEN_ARRAY_END, None)"
abbreviation Colon :: tok where "Colon \<equiv> (TOKEN_COLON, None)"
abbreviation Comma :: tok where "Comma \<equiv> (TOKEN_COMMA, None)"
abbreviation Str :: "string \<Rightarrow> tok" where "Str s \<equiv> (TOKEN_STRING, Some s)"
abbreviation Num :: "int \<Rightarrow> tok" where "Num i \<equiv> (TOKEN_NUMBER, Some (show_int i))"

definition Key :: "string \<Rightarrow> tok list" where
  "Key k = [Str k, Colon]"

definition plain_text :: "string \<Rightarrow> bool" where
  \<comment> \<open>a text that is written as it is\<close>
  "plain_text s \<longleftrightarrow> unescaped s \<and> nul_free s"

lemma plain_textD: "plain_text s \<Longrightarrow> escaped s = s" "plain_text s \<Longrightarrow> closed_text s" "plain_text s \<Longrightarrow> nul_free s"
  by (simp_all add: plain_text_def escaped_unescaped unescaped_closed)

lemma spells_plain: "plain_text t \<Longrightarrow> spells s ts \<Longrightarrow> spells (quoted t @ s) (Str t # ts)"
  by (simp add: spells_quoted plain_textD)

lemma spells_key: "plain_text k \<Longrightarrow> spells s ts \<Longrightarrow> spells (key_text k @ s) (Key k @ ts)"
  unfolding key_text_def Key_def append_assoc append.simps
  by (rule spells_plain, assumption, rule spells_punct, simp add: punctuation_def, rule spells_space, simp add: isspace_def)

section \<open>Writes that spell tokens\<close>

definition spelled :: "json_write \<Rightarrow> tok list \<Rightarrow> int \<Rightarrow> bool" where
  \<comment> \<open>in pretty printing at any level, the text of the write spells these tokens and does not begin
      with a number\<close>
  "spelled w us d \<longleftrightarrow> (\<exists>f. appends w f d \<and> (\<forall>l s ts. spells s ts \<longrightarrow> number_stops s \<longrightarrow>
     spells (f True l @ s) (us @ ts) \<and> number_stops (f True l @ s)))"

lemma spelledI:
  assumes "appends w f d" and "\<And>l s ts. spells s ts \<Longrightarrow> number_stops s \<Longrightarrow>
    spells (f True l @ s) (us @ ts) \<and> number_stops (f True l @ s)"
  shows "spelled w us d"
  using assms unfolding spelled_def by blast

lemma spelled_Nil: "spelled (run_writes []) [] 0"
  by (rule spelledI [OF appends_nil]) simp

lemma spelled_Cons:
  assumes "spelled w us d" and "spelled (run_writes ws) vs e"
  shows "spelled (run_writes (w # ws)) (us @ vs) (d + e)"
proof -
  obtain f where f: "appends w f d" "\<And>l s ts. spells s ts \<Longrightarrow> number_stops s \<Longrightarrow>
      spells (f True l @ s) (us @ ts) \<and> number_stops (f True l @ s)" using assms(1) unfolding spelled_def by blast
  obtain g where g: "appends (run_writes ws) g e" "\<And>l s ts. spells s ts \<Longrightarrow> number_stops s \<Longrightarrow>
      spells (g True l @ s) (vs @ ts) \<and> number_stops (g True l @ s)" using assms(2) unfolding spelled_def by blast
  have "spells ((f True l @ g True (l + d)) @ s) ((us @ vs) @ ts) \<and> number_stops ((f True l @ g True (l + d)) @ s)"
    if "spells s ts" "number_stops s" for l s ts using f(2) [of "g True (l + d) @ s" "vs @ ts" l] g(2) [OF that] by simp
  then show ?thesis by (rule spelledI [OF appends_cons [OF f(1) g(1)]])
qed

lemma spelled_app:
  assumes "spelled (run_writes ws) us d" and "spelled (run_writes xs) vs e"
  shows "spelled (run_writes (ws @ xs)) (us @ vs) (d + e)"
proof -
  obtain f where f: "appends (run_writes ws) f d" "\<And>l s ts. spells s ts \<Longrightarrow> number_stops s \<Longrightarrow>
      spells (f True l @ s) (us @ ts) \<and> number_stops (f True l @ s)" using assms(1) unfolding spelled_def by blast
  obtain g where g: "appends (run_writes xs) g e" "\<And>l s ts. spells s ts \<Longrightarrow> number_stops s \<Longrightarrow>
      spells (g True l @ s) (vs @ ts) \<and> number_stops (g True l @ s)" using assms(2) unfolding spelled_def by blast
  have "spells ((f True l @ g True (l + d)) @ s) ((us @ vs) @ ts) \<and> number_stops ((f True l @ g True (l + d)) @ s)"
    if "spells s ts" "number_stops s" for l s ts using f(2) [of "g True (l + d) @ s" "vs @ ts" l] g(2) [OF that] by simp
  then show ?thesis by (rule spelledI [OF appends_app [OF f(1) g(1)]])
qed

lemma spelled_concat:
  "(\<And>x. x \<in> set xs \<Longrightarrow> spelled (run_writes (f x)) (us x) 0) \<Longrightarrow>
     spelled (run_writes (concat (map f xs))) (concat (map us xs)) 0"
proof (induction xs)
  case (Cons x xs)
  then have "spelled (run_writes (f x)) (us x) 0" "spelled (run_writes (concat (map f xs))) (concat (map us xs)) 0"
    by simp_all
  from spelled_app [OF this] show ?case by simp
qed (simp add: spelled_Nil)

lemma spelled_level: "spelled (change_level d) [] d"
  by (rule spelledI [OF appends_level]) simp

lemma number_stops_newline: "number_stops (CHR 0x0A # s)"
  by (simp add: number_stops_def isdigit_def)

lemma spelled_indent: "spelled json_serialize_indent [] 0"
proof (rule spelledI [OF appends_indent], simp)
  fix l :: int and s ts
  assume "spells s ts"
  then have "spells (replicate n (CHR '' '') @ s) ts" for n
    by (rule spells_spaces [rotated]) (simp add: list_all_iff isspace_def)
  then show "spells (CHR 0x0A # replicate (nat l * 2) (CHR '' '') @ s) ts \<and>
      number_stops (CHR 0x0A # replicate (nat l * 2) (CHR '' '') @ s)"
    by (auto intro: spells_space simp: isspace_def number_stops_newline)
qed

lemma spelled_append:
  assumes "\<And>s ts. spells s ts \<Longrightarrow> number_stops s \<Longrightarrow> spells (t @ s) (us @ ts) \<and> number_stops (t @ s)"
  shows "spelled (json_serialize_append t) us 0"
  by (rule spelledI [OF appends_append]) (use assms in simp)

lemma spelled_punct:
  assumes "punctuation c = Some ty"
  shows "spelled (json_serialize_append [c]) [(ty, None)] 0" and
    "spelled (json_serialize_append [c, CHR 0x0A]) [(ty, None)] 0"
proof -
  have n: "number_stops (c # s)" for s
    using assms by (auto simp: punctuation_def number_stops_def isdigit_def split: if_splits)
  show "spelled (json_serialize_append [c]) [(ty, None)] 0"
    by (rule spelled_append) (simp add: n spells_punct assms)
  show "spelled (json_serialize_append [c, CHR 0x0A]) [(ty, None)] 0"
    by (rule spelled_append) (simp add: n spells_punct assms spells_space isspace_def)
qed

lemma number_stops_key: "number_stops (key_text k @ s)"
  by (simp add: key_text_def quoted_def number_stops_def isdigit_def)

lemma spelled_key: "plain_text k \<Longrightarrow> spelled (json_serialize_append (key_text k)) (Key k) 0"
  by (rule spelled_append) (simp add: spells_key number_stops_key)

lemma spelled_key_open:
  assumes "plain_text k" and "punctuation c = Some ty"
  shows "spelled (json_serialize_append (key_text k @ [c])) (Key k @ [(ty, None)]) 0" and
    "spelled (json_serialize_append (key_text k @ [c, CHR 0x0A])) (Key k @ [(ty, None)]) 0"
  by (rule spelled_append; simp add: spells_key number_stops_key spells_punct assms spells_space isspace_def)+

lemma spelled_string: "plain_text s \<Longrightarrow> spelled (json_serialize_append_string (Some s)) [Str s] 0"
  by (rule spelledI [OF appends_string])
    (simp add: plain_textD spells_quoted, simp add: quoted_def number_stops_def isdigit_def)

section \<open>The tokens of a saved database\<close>

definition value_token :: "Field \<Rightarrow> tok" where
  "value_token f = (case f_type f of
       TYPE_INT \<Rightarrow> Num (int_value (f_value f))
     | TYPE_STRING \<Rightarrow> Str (escaped (string_value (f_value f)))
     | TYPE_BOOL \<Rightarrow> (TOKEN_BOOLEAN, Some (if bool_value (f_value f) then ''true'' else ''false''))
     | _ \<Rightarrow> (TOKEN_NULL, Some ''null''))"

definition sep_tokens :: "nat \<Rightarrow> nat \<Rightarrow> tok list" where
  \<comment> \<open>a comma after every item but the last of \<open>n\<close>\<close>
  "sep_tokens n i = (if Suc i < n then [Comma] else [])"

definition definition_tokens :: "Table \<Rightarrow> nat \<Rightarrow> tok list" where
  "definition_tokens t i = [Open_Object] @ Key ''name'' @ [Str (t_field_names t ! i), Comma] @
     Key ''type'' @ [Str (field_type_to_string (t_field_types t ! i))] @
     (if i = 0 then [Comma] @ Key ''constraints'' @ [Open_Array, Str ''PRIMARY KEY'', Close_Array] else []) @
     [Close_Object] @ sep_tokens (t_field_count t) i"

definition schema_tokens :: "Table \<Rightarrow> tok list" where
  "schema_tokens t = Key ''schema'' @ [Open_Object] @ Key ''name'' @ [Str (t_name t), Comma] @
     Key ''fields'' @ [Open_Array] @ concat (map (definition_tokens t) [0..<t_field_count t]) @ [Close_Array, Comma] @
     Key ''record_count'' @ [Num (int (t_record_count t)), Close_Object]"

definition member_tokens :: "Table \<Rightarrow> Record \<Rightarrow> nat \<Rightarrow> tok list" where
  "member_tokens t r i = Key (t_field_names t ! i) @ [value_token (r_fields r ! i)] @ sep_tokens (t_field_count t) i"

definition time_text :: "json_env \<Rightarrow> int \<Rightarrow> string" where
  "time_text env now = the (je_time env now)"

definition record_tokens :: "json_env \<Rightarrow> Table \<Rightarrow> Record \<Rightarrow> tok list" where
  "record_tokens env t r = [Open_Object] @ Key ''id'' @ [Num (r_id r), Comma] @
     Key ''fields'' @ [Open_Object] @ concat (map (member_tokens t r) [0..<t_field_count t]) @ [Close_Object, Comma] @
     Key ''metadata'' @ [Open_Object] @ Key ''timestamp'' @ [Str (time_text env (r_timestamp r)), Comma] @
     Key ''version'' @ [Num (r_version r mod 2 ^ 32), Close_Object, Close_Object]"

fun separated :: "tok list list \<Rightarrow> tok list" where
  "separated [] = []"
| "separated [us] = us"
| "separated (us # vs # rest) = us @ [Comma] @ separated (vs # rest)"

definition table_tokens :: "json_env \<Rightarrow> Table \<Rightarrow> tok list" where
  "table_tokens env t = [Open_Object] @ schema_tokens t @ [Comma] @ Key ''records'' @ [Open_Array] @
     separated (map (record_tokens env t) (t_records t)) @ [Close_Array, Close_Object]"

definition metadata_tokens :: "json_env \<Rightarrow> int \<Rightarrow> Database \<Rightarrow> tok list" where
  "metadata_tokens env now db = Key ''metadata'' @ [Open_Object] @ Key ''name'' @ [Str ''Database'', Comma] @
     Key ''version'' @ [Str ''1.0.0'', Comma] @ Key ''created_at'' @ [Str (time_text env now), Comma] @
     Key ''table_count'' @ [Num (int (db_table_count db)), Close_Object]"

definition database_tokens :: "json_env \<Rightarrow> int \<Rightarrow> Database \<Rightarrow> tok list" where
  "database_tokens env now db = [Open_Object] @ metadata_tokens env now db @ [Comma] @ Key ''tables'' @ [Open_Array] @
     concat (map (\<lambda>i. (if 0 < i then [Comma] else []) @ table_tokens env (db_tables db ! i)) [0..<db_table_count db]) @
     [Close_Array, Close_Object]"

definition time_ok :: "json_env \<Rightarrow> bool" where
  \<comment> \<open>what the C library promises of \<open>"%Y-%m-%d %H:%M:%S"\<close> for a time it can convert\<close>
  "time_ok env \<longleftrightarrow> (\<forall>t. \<exists>s. je_time env t = Some s \<and> length s + 2 < 64 \<and> plain_text s)"

definition plain_table :: "Table \<Rightarrow> bool" where
  \<comment> \<open>names that need no escapes, and values whose text does not depend on the C library\<close>
  "plain_table t \<longleftrightarrow> schema_ok t \<and> plain_names t \<and> plain_text (t_name t) \<and> t_name t \<noteq> [] \<and> length (t_name t) < MAX_TABLE_NAME \<and>
     set (t_field_types t) \<subseteq> {TYPE_INT, TYPE_STRING, TYPE_BOOL} \<and>
     (\<forall>r \<in> set (t_records t). texts_ok t r \<and> c_int (r_id r) \<and> r_id r \<noteq> -1) \<and>
     distinct (map r_id (t_records t)) \<and> length (t_records t) \<le> MAX_RECORDS_PER_TABLE"

lemma spells_time: "time_ok env \<Longrightarrow> spells s ts \<Longrightarrow> spells (quoted (time_text env t) @ s) (Str (time_text env t) # ts)"
  unfolding time_ok_def time_text_def by (metis option.sel spells_plain)

lemma spelled_time:
  assumes "time_ok env"
  shows "spelled (append_time env t) [Str (time_text env t)] 0"
proof -
  obtain s where s: "je_time env t = Some s" "length s + 2 < 64" "plain_text s" using assms unfolding time_ok_def by blast
  then have "append_time env t = append_buffer 64 (quoted s)" "length (quoted s) < 64"
    by (auto simp: append_time_def quoted_def)
  with appends_buffer [of "quoted s" 64] have "appends (append_time env t) (\<lambda>_ _. quoted s) 0" by simp
  then show ?thesis
    by (rule spelledI) (use s spells_plain in \<open>simp add: time_text_def quoted_def number_stops_def isdigit_def\<close>)
qed

lemma number_stops_quoted: "number_stops (quoted t @ s)"
  by (simp add: quoted_def number_stops_def isdigit_def)

text \<open>A number is appended by itself, so it joins the write after it, which begins with another character.\<close>

lemma spelled_int_Cons:
  assumes "plain_text k" and "spelled (run_writes ws) us d"
  shows "spelled (run_writes (json_serialize_append (key_text k) # json_serialize_append (show_int i) # ws))
     (Key k @ Num i # us) d"
proof -
  obtain f where f: "appends (run_writes ws) f d" "\<And>l s ts. spells s ts \<Longrightarrow> number_stops s \<Longrightarrow>
      spells (f True l @ s) (us @ ts) \<and> number_stops (f True l @ s)" using assms(2) unfolding spelled_def by blast
  have "spells ((key_text k @ show_int i @ f True l) @ s) ((Key k @ Num i # us) @ ts) \<and>
      number_stops ((key_text k @ show_int i @ f True l) @ s)" if "spells s ts" "number_stops s" for l s ts
    using f(2) [OF that, of l] by (simp add: spells_key assms(1) spells_int number_stops_key)
  moreover have "appends (run_writes (json_serialize_append (key_text k) # json_serialize_append (show_int i) # ws))
      (\<lambda>p l. key_text k @ show_int i @ f p l) d"
    by (rule appends_cong, (rule appends_cons appends_append f(1))+) simp_all
  ultimately show ?thesis by (intro spelledI)
qed

lemma spelled_literal_Cons:
  assumes "plain_text k" and "plain_text t" and "spelled (run_writes ws) us d"
  shows "spelled (run_writes (json_serialize_append (key_text k @ [CHR 0x22]) # json_serialize_append t #
     json_serialize_append ([CHR 0x22] @ newline_after '','') # ws)) (Key k @ Str t # Comma # us) d"
proof -
  obtain f where f: "appends (run_writes ws) f d" "\<And>l s ts. spells s ts \<Longrightarrow> number_stops s \<Longrightarrow>
      spells (f True l @ s) (us @ ts) \<and> number_stops (f True l @ s)" using assms(3) unfolding spelled_def by blast
  have "spells ((key_text k @ quoted t @ newline_after '','' @ f True l) @ s) ((Key k @ Str t # Comma # us) @ ts) \<and>
      number_stops ((key_text k @ quoted t @ newline_after '','' @ f True l) @ s)" if "spells s ts" "number_stops s" for l s ts
    using f(2) [OF that, of l]
    by (simp add: spells_key assms(1,2) spells_plain number_stops_key newline_after_def spells_punct punctuation_def
        spells_space isspace_def)
  moreover have "appends (run_writes (json_serialize_append (key_text k @ [CHR 0x22]) # json_serialize_append t #
     json_serialize_append ([CHR 0x22] @ newline_after '','') # ws)) (\<lambda>p l. key_text k @ quoted t @ newline_after '','' @ f p l) d"
    by (rule appends_cong, (rule appends_cons appends_append f(1))+) (simp_all add: quoted_def)
  ultimately show ?thesis by (intro spelledI)
qed

lemma spelled_cong: "spelled w us d \<Longrightarrow> us = vs \<Longrightarrow> d = e \<Longrightarrow> spelled w vs e"
  by simp

lemma plain_keys:
  "plain_text ''metadata''" "plain_text ''name''" "plain_text ''version''" "plain_text ''created_at''" "plain_text ''table_count''"
  "plain_text ''schema''" "plain_text ''fields''" "plain_text ''record_count''" "plain_text ''type''" "plain_text ''constraints''"
  "plain_text ''PRIMARY KEY''" "plain_text ''records''" "plain_text ''id''" "plain_text ''timestamp''" "plain_text ''tables''"
  "plain_text ''Database''" "plain_text ''1.0.0''"
  by (simp_all add: plain_text_def unescaped_def)

lemma punct_chars:
  "punctuation (CHR ''{'') = Some TOKEN_OBJECT_START" "punctuation (CHR ''}'') = Some TOKEN_OBJECT_END"
  "punctuation (CHR ''['') = Some TOKEN_ARRAY_START" "punctuation (CHR '']'') = Some TOKEN_ARRAY_END"
  "punctuation (CHR '','') = Some TOKEN_COMMA" "punctuation (CHR '':'') = Some TOKEN_COLON"
  by (simp_all add: punctuation_def)

lemma newline_after_simps: "newline_after '','' = [CHR '','', CHR 0x0A]" "newline_after [] = [CHR 0x0A]"
  "newline_after ''{'' = [CHR ''{'', CHR 0x0A]" "newline_after ''],'' = [CHR '']'', CHR '','', CHR 0x0A]"
  "newline_after (s @ [c]) = s @ [c, CHR 0x0A]"
  by (simp_all add: newline_after_def)

lemma spelled_newline: "spelled (json_serialize_append [CHR 0x0A]) [] 0"
  by (rule spelled_append) (simp add: spells_space isspace_def number_stops_newline)

lemma spelled_close_comma: "spelled (json_serialize_append [CHR '']'', CHR '','', CHR 0x0A]) [Close_Array, Comma] 0"
  by (rule spelled_append) (simp add: spells_punct punct_chars spells_space isspace_def number_stops_def isdigit_def)

lemmas spelled_rules = spelled_int_Cons spelled_literal_Cons [unfolded newline_after_simps] spelled_app spelled_Cons spelled_Nil spelled_level spelled_indent
  spelled_newline spelled_close_comma
  spelled_punct [OF punct_chars(1)] spelled_punct [OF punct_chars(2)] spelled_punct [OF punct_chars(3)]
  spelled_punct [OF punct_chars(4)] spelled_punct [OF punct_chars(5)]
  spelled_key_open [OF _ punct_chars(1)] spelled_key_open [OF _ punct_chars(3)] spelled_key spelled_string spelled_time

lemma spelled_metadata:
  assumes "time_ok env"
  shows "spelled (json_serialize_database_metadata env now db) (metadata_tokens env now db) 0"
  unfolding json_serialize_database_metadata_def newline_after_simps
  by (rule spelled_cong, (rule spelled_rules plain_keys assms)+) (simp_all add: metadata_tokens_def)

lemma plain_type: "plain_text (field_type_to_string ty)"
  by (cases ty) (simp_all add: plain_text_def unescaped_def)

lemma spelled_definition:
  assumes "plain_table t" and "i < t_field_count t"
  shows "spelled (run_writes (write_field_definition t i)) (definition_tokens t i) 0"
proof -
  have c: "t_constraints t ! i = default_constraint i" and names: "plain_text (t_field_names t ! i)"
    using assms by (auto simp: plain_table_def schema_ok_def plain_names_def list_all_length plain_text_def)
  have words: "constraint_words (t_constraints t ! i) = (if i = 0 then [''PRIMARY KEY''] else [])"
    by (simp add: c default_constraint_def constraint_words_def)
  have last: "(if int i < int (t_field_count t) - 1 then x else y) = (if Suc i < t_field_count t then x else y)"
    for x y :: "string" by (auto intro: if_cong)
  have key: "spelled (json_serialize_append (quoted ''PRIMARY KEY'')) [Str ''PRIMARY KEY''] 0"
    by (rule spelled_append) (simp add: spells_plain plain_keys number_stops_quoted)
  have sep: "spelled (json_serialize_append (newline_after (if Suc i < t_field_count t then '','' else [])))
      (sep_tokens (t_field_count t) i) 0"
  proof (cases "Suc i < t_field_count t")
    case True
    show ?thesis by (simp only: True if_True newline_after_simps sep_tokens_def) (rule spelled_rules)
  next
    case False
    show ?thesis by (simp only: False if_False newline_after_simps sep_tokens_def) (rule spelled_rules)
  qed
  have constraints: "spelled (run_writes (let ws = constraint_words (t_constraints t ! i) in
      if ws \<noteq> [] then
        [json_serialize_append (newline_after '',''), json_serialize_indent,
         json_serialize_append (key_text ''constraints'' @ ''['')] @ write_words True ws @
        [json_serialize_append '']'']
      else [])) (if i = 0 then [Comma] @ Key ''constraints'' @ [Open_Array, Str ''PRIMARY KEY'', Close_Array] else []) 0"
  proof (cases "i = 0")
    case True
    have "spelled (run_writes [json_serialize_append [CHR '','', CHR 0x0A], json_serialize_indent,
         json_serialize_append (key_text ''constraints'' @ ''[''), json_serialize_append (quoted ''PRIMARY KEY''),
         json_serialize_append '']'']) ([Comma] @ Key ''constraints'' @ [Open_Array, Str ''PRIMARY KEY'', Close_Array]) 0"
      by (rule spelled_cong, (rule spelled_rules key plain_keys)+) simp_all
    then show ?thesis unfolding words Let_def by (simp add: True newline_after_simps del: run_writes.simps)
  qed (simp add: words spelled_Nil)
  show ?thesis
    unfolding write_field_definition_def last newline_after_simps(3)
    by (rule spelled_cong, (rule spelled_rules constraints sep plain_keys plain_type names spelled_punct(1)
        spelled_rules [folded newline_after_simps])+)
      (simp_all add: definition_tokens_def)
qed

lemma spelled_schema:
  assumes "plain_table t"
  shows "spelled (json_serialize_table_schema t) (schema_tokens t) 0"
proof -
  have name: "plain_text (t_name t)" using assms by (simp add: plain_table_def)
  have defs: "spelled (run_writes (concat (map (write_field_definition t) [0..<t_field_count t])))
      (concat (map (definition_tokens t) [0..<t_field_count t])) 0"
    by (rule spelled_concat) (use spelled_definition [OF assms] in simp)
  show ?thesis
    unfolding json_serialize_table_schema_def newline_after_simps
    by (rule spelled_cong, (rule spelled_rules defs plain_keys name)+) (simp_all add: schema_tokens_def)
qed

lemma spells_value:
  assumes "f_type f \<in> text_types" and "spells s ts" and "number_stops s"
  shows "spells (field_text f @ s) (value_token f # ts)"
proof -
  have "nul_free (string_value x)" for x by (simp add: string_value_def)
  with assms show ?thesis
    by (auto simp: text_types_def field_text_def value_token_def spells_int spells_word [simplified]
        intro!: spells_quoted closed_escaped nul_free_escaped)
qed

lemma spelled_member_Cons:
  assumes "plain_text k" and "f_type v \<in> text_types" and "spelled (run_writes ws) us d"
  shows "spelled (run_writes (json_serialize_append [CHR 0x22] # json_serialize_append k #
     json_serialize_append ([CHR 0x22] @ '': '') # json_serialize_field_value env (Some v) # ws)) (Key k @ value_token v # us) d"
proof -
  obtain f where f: "appends (run_writes ws) f d" "\<And>l s ts. spells s ts \<Longrightarrow> number_stops s \<Longrightarrow>
      spells (f True l @ s) (us @ ts) \<and> number_stops (f True l @ s)" using assms(3) unfolding spelled_def by blast
  have "spells ((key_text k @ field_text v @ f True l) @ s) ((Key k @ value_token v # us) @ ts) \<and>
      number_stops ((key_text k @ field_text v @ f True l) @ s)" if "spells s ts" "number_stops s" for l s ts
    using f(2) [OF that, of l] by (simp add: spells_key assms spells_value number_stops_key)
  moreover have "appends (run_writes (json_serialize_append [CHR 0x22] # json_serialize_append k #
     json_serialize_append ([CHR 0x22] @ '': '') # json_serialize_field_value env (Some v) # ws))
      (\<lambda>p l. key_text k @ field_text v @ f p l) d"
    by (rule appends_cong, (rule appends_cons appends_append appends_field_value assms(2) f(1))+)
      (simp_all add: key_text_def quoted_def)
  ultimately show ?thesis by (intro spelledI)
qed

lemma spelled_separator:
  assumes "i < n"
  shows "spelled (json_serialize_append (newline_after (if int i < int n - 1 then '','' else []))) (sep_tokens n i) 0"
proof (cases "Suc i < n")
  case True
  then have "int i < int n - 1" by simp
  show ?thesis by (simp only: True \<open>int i < int n - 1\<close> if_True newline_after_simps sep_tokens_def) (rule spelled_rules)
next
  case False
  then have "\<not> int i < int n - 1" by simp
  show ?thesis
    by (simp only: False \<open>\<not> int i < int n - 1\<close> if_False newline_after_simps sep_tokens_def) (rule spelled_rules)
qed

lemma spelled_member:
  assumes "plain_table t" and "r \<in> set (t_records t)" and "i < t_field_count t"
  shows "spelled (run_writes (write_member env t r i)) (member_tokens t r i) 0"
proof -
  have "plain_text (t_field_names t ! i)" "f_type (r_fields r ! i) \<in> text_types"
    using assms by (auto simp: plain_table_def plain_names_def list_all_length plain_text_def texts_ok_def)
  then show ?thesis
    unfolding write_member_def
    by (intro spelled_cong [OF spelled_Cons [OF spelled_indent spelled_member_Cons
          [OF _ _ spelled_Cons [OF spelled_separator [OF assms(3)] spelled_Nil]]]])
      (simp_all add: member_tokens_def)
qed

lemma spelled_record:
  assumes "plain_table t" and "time_ok env" and "r \<in> set (t_records t)"
  shows "spelled (run_writes (write_record env t r)) (record_tokens env t r) 0"
proof -
  have members: "spelled (run_writes (concat (map (write_member env t r) [0..<t_field_count t])))
      (concat (map (member_tokens t r) [0..<t_field_count t])) 0"
    by (rule spelled_concat) (use spelled_member [OF assms(1,3)] in simp)
  show ?thesis
    unfolding write_record_def newline_after_simps
    by (rule spelled_cong, (rule spelled_rules members plain_keys assms(2))+) (simp_all add: record_tokens_def)
qed

lemma spelled_records:
  assumes "plain_table t" and "time_ok env" and "set rs \<subseteq> set (t_records t)"
  shows "spelled (run_writes (write_records env t first rs))
    ((if first \<or> rs = [] then [] else [Comma]) @ separated (map (record_tokens env t) rs)) 0"
  using assms(3)
proof (induction rs arbitrary: first)
  case Nil
  have "spelled (run_writes [json_serialize_append [CHR 0x0A]]) ([] @ []) (0 + 0)"
    by (rule spelled_Cons [OF spelled_newline spelled_Nil])
  then show ?case by (cases first) (simp_all add: newline_after_simps spelled_Nil del: run_writes.simps)
next
  case (Cons r rs)
  have comma: "spelled (run_writes (if first then [] else [json_serialize_append [CHR '','', CHR 0x0A]]))
      (if first then [] else [Comma]) 0"
  proof (cases first)
    case True
    then show ?thesis by (simp add: spelled_Nil)
  next
    case False
    have "spelled (run_writes [json_serialize_append [CHR '','', CHR 0x0A]]) ([Comma] @ []) (0 + 0)"
      by (rule spelled_Cons [OF spelled_punct(2) [OF punct_chars(5)] spelled_Nil])
    with False show ?thesis by (simp del: run_writes.simps)
  qed
  have "r \<in> set (t_records t)" "set rs \<subseteq> set (t_records t)" using Cons(2) by simp_all
  from spelled_app [OF comma spelled_app [OF spelled_record [OF assms(1,2) this(1)] Cons(1) [OF this(2), of False]]]
  show ?case by (cases rs; cases first) (simp_all add: newline_after_simps del: run_writes.simps)
qed

lemma spelled_table:
  assumes "plain_table (db_tables db ! i)" and "time_ok env"
  shows "spelled (run_writes (write_table env db i)) ((if 0 < i then [Comma] else []) @ table_tokens env (db_tables db ! i)) 0"
proof -
  let ?t = "db_tables db ! i"
  have comma: "spelled (run_writes (if 0 < i then [json_serialize_append '','' ] else [])) (if 0 < i then [Comma] else []) 0"
  proof (cases "0 < i")
    case True
    have "spelled (run_writes [json_serialize_append '','']) ([Comma] @ []) (0 + 0)"
      by (rule spelled_Cons [OF spelled_punct(1) [OF punct_chars(5)] spelled_Nil])
    with True show ?thesis by (simp del: run_writes.simps)
  qed (simp add: spelled_Nil)
  have records: "spelled (json_serialize_table_records env ?t)
      (Key ''records'' @ [Open_Array] @ separated (map (record_tokens env ?t) (t_records ?t)) @ [Close_Array]) 0"
    unfolding json_serialize_table_records_def newline_after_simps
    by (rule spelled_cong, (rule spelled_rules spelled_records [OF assms subset_refl] plain_keys)+) simp_all
  show ?thesis
    unfolding write_table_def newline_after_simps
    by (rule spelled_cong, (rule spelled_app comma spelled_rules spelled_schema [OF assms(1)] records)+)
      (simp_all add: table_tokens_def)
qed

lemma spelled_database:
  assumes "time_ok env" and "\<forall>i < db_table_count db. plain_table (db_tables db ! i)"
  shows "spelled (run_writes (write_database env now db)) (database_tokens env now db) 0"
proof -
  have tables: "spelled (run_writes (concat (map (write_table env db) [0..<db_table_count db])))
      (concat (map (\<lambda>i. (if 0 < i then [Comma] else []) @ table_tokens env (db_tables db ! i)) [0..<db_table_count db])) 0"
    by (rule spelled_concat, rule spelled_table) (use assms in auto)
  show ?thesis
    unfolding write_database_def
    by (rule spelled_cong, (rule spelled_rules tables spelled_metadata assms(1) plain_keys)+)
      (simp_all add: database_tokens_def)
qed

lemma saved_tokens:
  assumes "time_ok env" and "\<forall>i < db_table_count db. plain_table (db_tables db ! i)"
  obtains s where "serialize_text True (\<lambda>_. True) (write_database env now db) = Some (Some s)"
    "spells s (database_tokens env now db @ [(TOKEN_EOF, None)])"
proof -
  obtain f where f: "appends (run_writes (write_database env now db)) f 0"
    "\<And>l s ts. spells s ts \<Longrightarrow> number_stops s \<Longrightarrow> spells (f True l @ s) (database_tokens env now db @ ts)"
    using spelled_database [OF assms] unfolding spelled_def by blast
  have "lexes [] TOKEN_EOF None []"
    by (simp add: lexes_def json_skip_whitespace_def token_at_def plain_token_def)
  then have "toks [] [(TOKEN_EOF, None)] []" by (rule toks_Cons [OF _ toks_Nil])
  then have "spells [] [(TOKEN_EOF, None)]" by (auto simp: spells_def)
  moreover have "number_stops []" by (simp add: number_stops_def)
  ultimately have "spells (f True 0 @ []) (database_tokens env now db @ [(TOKEN_EOF, None)])" by (rule f(2))
  with that [OF serialize_text_appends [OF f(1)]] show thesis by simp
qed

end
