(* ===== verification/Lx_Json_Load.thy ===== *)
theory Lx_Json_Load
  imports Lx_Json_Reader Lx_Json_Writer Lx_Storage
begin

text \<open>
  Loading databases: \<open>json_parse_database_metadata\<close>, \<open>json_parse_table_schema\<close>,
  \<open>json_parse_table_records\<close>, \<open>json_to_table\<close>, \<open>db_load_from_file\<close>, the backups and
  \<open>db_list_backups\<close> of \<open>src/src/json_io.c\<close>, with \<open>db_open\<close> of \<open>src/src/database.c\<close>.

  The state of a load is the lexer's context, the database, the static counter of
  \<open>generate_record_id\<close> and the outcomes of the allocations still to come. Each loop takes fuel, which
  its caller sets to the bytes left and one. \<open>Undefined\<close> stands for the undefined behaviour of the
  code: a name array used after \<open>json_realloc\<close> freed it, \<open>strdup\<close> of a field that has no name, and a
  \<open>free\<close> of pointers that were never set. A table that is being filled is the slot of the database
  that \<open>db_add_table\<close> returned. Error messages and logging are left out.
\<close>

section \<open>State\<close>

record LoadState =
  ls_ctx :: JsonParseContext
  ls_db :: Database
  ls_counter :: int
  ls_alloc :: alloc

definition next_token :: "LoadState \<Rightarrow> JsonToken \<times> LoadState" where
  "next_token st = (case json_parse_token (ls_ctx st) of (token, ctx) \<Rightarrow> (token, st\<lparr>ls_ctx := ctx\<rparr>))"

definition skip_token :: "JsonToken \<Rightarrow> LoadState \<Rightarrow> ErrorCode \<times> LoadState" where
  "skip_token token st = (case json_skip_token_value (ls_ctx st) token of (result, ctx) \<Rightarrow> (result, st\<lparr>ls_ctx := ctx\<rparr>))"

definition use_allocs :: "nat \<Rightarrow> LoadState \<Rightarrow> LoadState" where
  "use_allocs n st = st\<lparr>ls_alloc := shift_alloc n (ls_alloc st)\<rparr>"

definition bytes_left :: "LoadState \<Rightarrow> nat" where
  "bytes_left st = left (ls_ctx st)"

section \<open>Metadata\<close>

fun parse_metadata :: "nat \<Rightarrow> LoadState \<Rightarrow> (ErrorCode \<times> LoadState) run" where
  "parse_metadata 0 st = OutOfFuel"
| "parse_metadata (Suc fuel) st =
     (case next_token st of (token, st1) \<Rightarrow>
        if tk_type token = TOKEN_OBJECT_END then Returns (SUCCESS, st1)
        else if tk_type token \<noteq> TOKEN_STRING then Returns (ERROR_INVALID_INPUT, st1)
        else (case next_token st1 of (colon, st2) \<Rightarrow>
          if tk_type colon \<noteq> TOKEN_COLON then Returns (ERROR_INVALID_INPUT, st2)
          else (case next_token st2 of (val_token, st3) \<Rightarrow>
            let key = the (tk_value token);
                st4 = (if strcmp key ''name'' = 0 \<and> tk_type val_token = TOKEN_STRING then st3
                       else snd (skip_token val_token st3))
            in (case next_token st4 of (sep, st5) \<Rightarrow>
              if tk_type sep = TOKEN_COMMA then parse_metadata fuel st5
              else if tk_type sep = TOKEN_OBJECT_END then Returns (SUCCESS, st5)
              else Returns (ERROR_INVALID_INPUT, st5)))))"

definition json_parse_database_metadata :: "LoadState \<Rightarrow> (ErrorCode \<times> LoadState) run" where
  "json_parse_database_metadata st =
     (case next_token st of (token, st1) \<Rightarrow>
        if tk_type token \<noteq> TOKEN_OBJECT_START then Returns (ERROR_INVALID_INPUT, st1)
        else parse_metadata (bytes_left st1 + 1) st1)"

section \<open>Schemas\<close>

fun parse_definition :: "nat \<Rightarrow> LoadState \<Rightarrow> string option \<Rightarrow> FieldType \<Rightarrow>
    ((string option \<times> FieldType) option \<times> LoadState) run" where
  \<comment> \<open>the object of a field: its name, a copy that may fail, and its type; \<open>None\<close> is an error\<close>
  "parse_definition 0 st field_name field_type = OutOfFuel"
| "parse_definition (Suc fuel) st field_name field_type =
     (case next_token st of (token, st1) \<Rightarrow>
        if tk_type token = TOKEN_OBJECT_END then Returns (Some (field_name, field_type), st1)
        else if tk_type token \<noteq> TOKEN_STRING then Returns (None, st1)
        else (case next_token st1 of (colon, st2) \<Rightarrow>
          if tk_type colon \<noteq> TOKEN_COLON then Returns (None, st2)
          else (case next_token st2 of (val_token, st3) \<Rightarrow>
            let field_key = the (tk_value token);
                go_on = (\<lambda>st4 name ty. case next_token st4 of (sep, st5) \<Rightarrow>
                  if tk_type sep = TOKEN_COMMA then parse_definition fuel st5 name ty
                  else if tk_type sep = TOKEN_OBJECT_END then Returns (Some (name, ty), st5)
                  else Returns (None, st5))
            in
            if strcmp field_key ''name'' = 0 then
              (if tk_type val_token \<noteq> TOKEN_STRING then Returns (None, st3)
               else go_on (use_allocs 1 st3) (if ls_alloc st3 0 then tk_value val_token else None) field_type)
            else if strcmp field_key ''type'' = 0 then
              (if tk_type val_token \<noteq> TOKEN_STRING then Returns (None, st3)
               else go_on st3 field_name (string_to_field_type (tk_value val_token)))
            else go_on (snd (skip_token val_token st3)) field_name field_type)))"

record SchemaFields =
  sf_names :: "string option list"
  sf_types :: "FieldType list"
  sf_capacity :: nat

definition no_fields :: SchemaFields where
  "no_fields = \<lparr>sf_names = [], sf_types = [], sf_capacity = 0\<rparr>"

definition add_field :: "SchemaFields \<Rightarrow> string option \<Rightarrow> FieldType \<Rightarrow> LoadState \<Rightarrow> (SchemaFields option \<times> LoadState) run" where
  \<comment> \<open>growing both arrays: when one \<open>json_realloc\<close> fails, the clean-up still walks the old name array\<close>
  "add_field sf field_name field_type st =
     (let sf' = sf\<lparr>sf_names := sf_names sf @ [field_name], sf_types := sf_types sf @ [field_type]\<rparr> in
      if length (sf_names sf) < sf_capacity sf then Returns (Some sf', st)
      else if ls_alloc st 0 \<and> ls_alloc st 1
      then Returns (Some (sf'\<lparr>sf_capacity := (if sf_capacity sf = 0 then 4 else sf_capacity sf * 2)\<rparr>), use_allocs 2 st)
      else if sf_names sf \<noteq> [] then Undefined
      else Returns (None, use_allocs 2 st))"

fun parse_definitions :: "nat \<Rightarrow> LoadState \<Rightarrow> SchemaFields \<Rightarrow> (SchemaFields option \<times> LoadState) run" where
  \<comment> \<open>the array of field definitions\<close>
  "parse_definitions 0 st sf = OutOfFuel"
| "parse_definitions (Suc fuel) st sf =
     (case next_token st of (token, st1) \<Rightarrow>
        if tk_type token = TOKEN_ARRAY_END then Returns (Some sf, st1)
        else if tk_type token \<noteq> TOKEN_OBJECT_START then Returns (None, st1)
        else (case parse_definition (bytes_left st1 + 1) st1 None TYPE_STRING of
            OutOfFuel \<Rightarrow> OutOfFuel
          | Undefined \<Rightarrow> Undefined
          | Returns (None, st2) \<Rightarrow> Returns (None, st2)
          | Returns (Some (field_name, field_type), st2) \<Rightarrow>
              (case add_field sf field_name field_type st2 of
                 OutOfFuel \<Rightarrow> OutOfFuel
               | Undefined \<Rightarrow> Undefined
               | Returns (None, st3) \<Rightarrow> Returns (None, st3)
               | Returns (Some sf', st3) \<Rightarrow>
                   (case next_token st3 of (sep, st4) \<Rightarrow>
                      if tk_type sep = TOKEN_COMMA then parse_definitions fuel st4 sf'
                      else if tk_type sep = TOKEN_ARRAY_END then Returns (Some sf', st4)
                      else Returns (None, st4)))))"

fun parse_schema :: "nat \<Rightarrow> JsonToken \<Rightarrow> LoadState \<Rightarrow> string \<Rightarrow> SchemaFields \<Rightarrow>
    ((string \<times> SchemaFields) option \<times> LoadState) run" where
  \<comment> \<open>the loop over the keys of a schema, the current token already read\<close>
  "parse_schema 0 token st table_name sf = OutOfFuel"
| "parse_schema (Suc fuel) token st table_name sf =
     (if tk_type token = TOKEN_OBJECT_END then Returns (Some (table_name, sf), st)
      else if tk_type token \<noteq> TOKEN_STRING then Returns (None, st)
      else (case next_token st of (colon, st1) \<Rightarrow>
        if tk_type colon \<noteq> TOKEN_COLON then Returns (None, st1)
        else (case next_token st1 of (val_token, st2) \<Rightarrow>
          let key = the (tk_value token);
              go_on = (\<lambda>st3 name sf3. case next_token st3 of (sep, st4) \<Rightarrow>
                if tk_type sep = TOKEN_COMMA then
                  (case next_token st4 of (token', st5) \<Rightarrow> parse_schema fuel token' st5 name sf3)
                else if tk_type sep = TOKEN_OBJECT_END then Returns (Some (name, sf3), st4)
                else Returns (None, st4))
          in
          if strcmp key ''name'' = 0 then
            (if tk_type val_token \<noteq> TOKEN_STRING then Returns (None, st2)
             else go_on st2 (store_name MAX_TABLE_NAME (the (tk_value val_token))) sf)
          else if strcmp key ''fields'' = 0 then
            (if tk_type val_token \<noteq> TOKEN_ARRAY_START then Returns (None, st2)
             else (case parse_definitions (bytes_left st2 + 1) st2 sf of
                 OutOfFuel \<Rightarrow> OutOfFuel
               | Undefined \<Rightarrow> Undefined
               | Returns (None, st3) \<Rightarrow> Returns (None, st3)
               | Returns (Some sf3, st3) \<Rightarrow> go_on st3 table_name sf3))
          else if strcmp key ''schema'' = 0 then
            (if tk_type val_token \<noteq> TOKEN_OBJECT_START then Returns (None, st2)
             else (case next_token st2 of (token', st3) \<Rightarrow> parse_schema fuel token' st3 table_name sf))
          else go_on (snd (skip_token val_token st2)) table_name sf)))"

definition add_parsed_table :: "alloc \<Rightarrow> Database \<Rightarrow> string \<Rightarrow> SchemaFields \<Rightarrow> (ErrorCode \<times> nat option \<times> Database) run" where
  \<comment> \<open>\<open>db_add_table\<close> on the parsed names; one that is NULL reaches \<open>strdup\<close> when every allocation before
      its turn succeeds\<close>
  "add_parsed_table ok db table_name sf =
     (let add = (\<lambda>al. db_add_table al db (Some table_name) (Some (map (case_option [] (\<lambda>s. s)) (sf_names sf)))
                   (Some (sf_types sf)) (int (length (sf_names sf))))
      in case find_index (\<lambda>n. n = None) (sf_names sf) of
           None \<Rightarrow> Returns (add ok)
         | Some j \<Rightarrow> if fst (add (\<lambda>k. 6 + j \<le> k \<or> ok k)) = SUCCESS then Undefined else Returns (add ok))"

definition json_parse_table_schema :: "LoadState \<Rightarrow> (ErrorCode \<times> nat option \<times> LoadState) run" where
  \<comment> \<open>the result, the slot of the new table, the state\<close>
  "json_parse_table_schema st =
     (case next_token st of (token0, st0) \<Rightarrow>
      (case (if tk_type token0 = TOKEN_OBJECT_START then next_token st0 else (token0, st0)) of (token, st1) \<Rightarrow>
       (case parse_schema (bytes_left st1 + 1) token st1 [] no_fields of
          OutOfFuel \<Rightarrow> OutOfFuel
        | Undefined \<Rightarrow> Undefined
        | Returns (None, st2) \<Rightarrow> Returns (ERROR_INVALID_INPUT, None, st2)
        | Returns (Some (table_name, sf), st2) \<Rightarrow>
            if table_name \<noteq> [] \<and> sf_names sf \<noteq> [] then
              (case add_parsed_table (ls_alloc st2) (ls_db st2) table_name sf of
                 OutOfFuel \<Rightarrow> OutOfFuel
               | Undefined \<Rightarrow> Undefined
               | Returns (result, out, db') \<Rightarrow>
                   Returns (result, out, use_allocs (6 + length (sf_names sf)) (st2\<lparr>ls_db := db'\<rparr>)))
            else Returns (ERROR_INVALID_INPUT, None, st2))))"

section \<open>Records\<close>

definition parse_fields ::
  "float_lib \<Rightarrow> (int list \<Rightarrow> int) \<Rightarrow> Table \<Rightarrow> LoadState \<Rightarrow> Field list \<Rightarrow> (Field list option \<times> LoadState) run" where
  \<comment> \<open>the same loop as in \<open>json_to_record\<close>, but its errors leave the function, after one \<open>free\<close>\<close>
  "parse_fields lib mk table st fs = (case read_fields lib mk table (bytes_left st + 1) (ls_ctx st) fs of
       OutOfFuel \<Rightarrow> OutOfFuel
     | Undefined \<Rightarrow> Returns (None, st)
     | Returns (fs', ctx) \<Rightarrow> Returns (Some fs', st\<lparr>ls_ctx := ctx\<rparr>))"

fun parse_members ::
  "float_lib \<Rightarrow> (int list \<Rightarrow> int) \<Rightarrow> Table \<Rightarrow> nat \<Rightarrow> LoadState \<Rightarrow> int \<Rightarrow> Field list \<Rightarrow>
   ((int \<times> Field list) option \<times> LoadState) run" where
  \<comment> \<open>the members of a record; an id that is no number is passed over\<close>
  "parse_members lib mk table 0 st record_id fs = OutOfFuel"
| "parse_members lib mk table (Suc fuel) st record_id fs =
     (case next_token st of (token, st1) \<Rightarrow>
        if tk_type token = TOKEN_OBJECT_END then Returns (Some (record_id, fs), st1)
        else if tk_type token \<noteq> TOKEN_STRING then Returns (None, st1)
        else (case next_token st1 of (colon, st2) \<Rightarrow>
          if tk_type colon \<noteq> TOKEN_COLON then Returns (None, st2)
          else (case next_token st2 of (val_token, st3) \<Rightarrow>
            let key = the (tk_value token);
                go_on = (\<lambda>st4 record_id' fs'. case next_token st4 of (sep, st5) \<Rightarrow>
                  if tk_type sep = TOKEN_COMMA then parse_members lib mk table fuel st5 record_id' fs'
                  else if tk_type sep = TOKEN_OBJECT_END then Returns (Some (record_id', fs'), st5)
                  else Returns (None, st5))
            in
            if strcmp key ''id'' = 0 then
              go_on st3 (if tk_type val_token = TOKEN_NUMBER then atoi (the (tk_value val_token)) else record_id) fs
            else if strcmp key ''fields'' = 0 then
              (if tk_type val_token \<noteq> TOKEN_OBJECT_START then Returns (None, st3)
               else (case parse_fields lib mk table st3 fs of
                   OutOfFuel \<Rightarrow> OutOfFuel
                 | Undefined \<Rightarrow> Undefined
                 | Returns (None, st4) \<Rightarrow> Returns (None, st4)
                 | Returns (Some fs', st4) \<Rightarrow> go_on st4 record_id fs'))
            else go_on (snd (skip_token val_token st3)) record_id fs)))"

definition initial_fields :: "Table \<Rightarrow> Field list" where
  "initial_fields table = map (\<lambda>i. zero_field\<lparr>f_type := t_field_types table ! i\<rparr>) [0..<t_field_count table]"

definition set_key_field :: "Table \<Rightarrow> int \<Rightarrow> Field list \<Rightarrow> Field list" where
  \<comment> \<open>the id becomes the value of the first primary key field, whatever its type was\<close>
  "set_key_field table record_id fs =
     (case List.find (\<lambda>i. c_primary_key (t_constraints table ! i)) [0..<t_field_count table] of
        None \<Rightarrow> fs
      | Some i \<Rightarrow> fs[i := (fs ! i)\<lparr>f_value := set_int_value record_id (f_value (fs ! i)), f_type := TYPE_INT\<rparr>])"

definition insert_parsed :: "int \<Rightarrow> nat \<Rightarrow> int \<Rightarrow> Field list \<Rightarrow> LoadState \<Rightarrow> ErrorCode \<times> LoadState" where
  \<comment> \<open>\<open>SUCCESS\<close> also for a duplicate id, which is left out\<close>
  "insert_parsed now slot record_id fs st =
     (if record_id = -1 then (SUCCESS, st)
      else
        let table = db_tables (ls_db st) ! slot;
            (result, out, gc, table') = table_insert_record (ls_alloc st) now (ls_counter st) table
               (set_key_field table record_id fs)
        in (if result = ERROR_DUPLICATE_KEY then SUCCESS else result,
            st\<lparr>ls_db := put_table (ls_db st) slot table', ls_counter := gc\<rparr>))"

fun parse_records ::
  "float_lib \<Rightarrow> (int list \<Rightarrow> int) \<Rightarrow> int \<Rightarrow> nat \<Rightarrow> nat \<Rightarrow> LoadState \<Rightarrow> (ErrorCode \<times> LoadState) run" where
  \<comment> \<open>each record has three allocations: its values, and two of the insertion\<close>
  "parse_records lib mk now slot 0 st = OutOfFuel"
| "parse_records lib mk now slot (Suc fuel) st =
     (case next_token st of (token, st1) \<Rightarrow>
        if tk_type token = TOKEN_ARRAY_END then Returns (SUCCESS, st1)
        else if tk_type token \<noteq> TOKEN_OBJECT_START then Returns (ERROR_INVALID_INPUT, st1)
        else if \<not> ls_alloc st1 0 then Returns (ERROR_MEMORY_ALLOCATION, use_allocs 1 st1)
        else
          let table = db_tables (ls_db st1) ! slot in
          (case parse_members lib mk table (bytes_left st1 + 1) (use_allocs 1 st1) (-1) (initial_fields table) of
             OutOfFuel \<Rightarrow> OutOfFuel
           | Undefined \<Rightarrow> Undefined
           | Returns (None, st2) \<Rightarrow> Returns (ERROR_INVALID_INPUT, st2)
           | Returns (Some (record_id, fs), st2) \<Rightarrow>
               (case insert_parsed now slot record_id fs st2 of (result, st3) \<Rightarrow>
                  if result \<noteq> SUCCESS then Returns (result, st3)
                  else (case next_token (use_allocs 2 st3) of (sep, st4) \<Rightarrow>
                    if tk_type sep = TOKEN_COMMA then parse_records lib mk now slot fuel st4
                    else if tk_type sep = TOKEN_ARRAY_END then Returns (SUCCESS, st4)
                    else Returns (ERROR_INVALID_INPUT, st4)))))"

definition json_parse_table_records ::
  "float_lib \<Rightarrow> (int list \<Rightarrow> int) \<Rightarrow> int \<Rightarrow> nat \<Rightarrow> LoadState \<Rightarrow> (ErrorCode \<times> LoadState) run" where
  "json_parse_table_records lib mk now slot st =
     (case next_token st of (token, st1) \<Rightarrow>
        if tk_type token \<noteq> TOKEN_ARRAY_START then Returns (ERROR_INVALID_INPUT, st1)
        else parse_records lib mk now slot (bytes_left st1 + 1) st1)"

section \<open>Tables\<close>

definition parse_sibling ::
  "float_lib \<Rightarrow> (int list \<Rightarrow> int) \<Rightarrow> int \<Rightarrow> nat \<Rightarrow> string \<Rightarrow> LoadState \<Rightarrow> (ErrorCode \<times> LoadState) run" where
  \<comment> \<open>what follows the colon of a key beside the schema\<close>
  "parse_sibling lib mk now slot key st =
     (if strcmp key ''records'' = 0 then json_parse_table_records lib mk now slot st
      else (case next_token st of (val_token, st') \<Rightarrow> Returns (skip_token val_token st')))"

fun parse_siblings ::
  "float_lib \<Rightarrow> (int list \<Rightarrow> int) \<Rightarrow> int \<Rightarrow> nat \<Rightarrow> nat \<Rightarrow> LoadState \<Rightarrow> (ErrorCode \<times> LoadState) run" where
  \<comment> \<open>the other keys up to the end of the table\<close>
  "parse_siblings lib mk now slot 0 st = OutOfFuel"
| "parse_siblings lib mk now slot (Suc fuel) st =
     (case next_token st of (sib_token, st1) \<Rightarrow>
        if tk_type sib_token = TOKEN_OBJECT_END then Returns (SUCCESS, st1)
        else if tk_type sib_token \<noteq> TOKEN_COMMA then Returns (ERROR_INVALID_INPUT, st1)
        else (case next_token st1 of (k_token, st2) \<Rightarrow>
          if tk_type k_token \<noteq> TOKEN_STRING then Returns (ERROR_INVALID_INPUT, st2)
          else (case next_token st2 of (c_token, st3) \<Rightarrow>
            if tk_type c_token \<noteq> TOKEN_COLON then Returns (ERROR_INVALID_INPUT, st3)
            else (case parse_sibling lib mk now slot (the (tk_value k_token)) st3 of
                OutOfFuel \<Rightarrow> OutOfFuel
              | Undefined \<Rightarrow> Undefined
              | Returns (result, st4) \<Rightarrow>
                  if result \<noteq> SUCCESS then Returns (result, st4)
                  else parse_siblings lib mk now slot fuel st4))))"

definition parse_table_rest ::
  "float_lib \<Rightarrow> (int list \<Rightarrow> int) \<Rightarrow> int \<Rightarrow> nat \<Rightarrow> LoadState \<Rightarrow> (ErrorCode \<times> bool option \<times> LoadState) run" where
  \<comment> \<open>what follows a schema: \<open>Some b\<close> goes on with the next table, whose brace has been read if \<open>b\<close>;
      \<open>None\<close> leaves the loop over the tables\<close>
  "parse_table_rest lib mk now slot st =
     (let separator = (\<lambda>st1. case next_token st1 of (token, st2) \<Rightarrow>
            if tk_type token = TOKEN_COMMA then Returns (SUCCESS, Some False, st2)
            else if tk_type token = TOKEN_ARRAY_END then Returns (SUCCESS, None, st2)
            else Returns (ERROR_INVALID_INPUT, None, st2))
      in (case next_token st of (token, st1) \<Rightarrow>
        if tk_type token = TOKEN_ARRAY_END then Returns (SUCCESS, None, st1)
        else if tk_type token = TOKEN_OBJECT_END then separator st1
        else if tk_type token \<noteq> TOKEN_COMMA then Returns (ERROR_INVALID_INPUT, None, st1)
        else (case next_token st1 of (token2, st2) \<Rightarrow>
          if tk_type token2 = TOKEN_OBJECT_START then Returns (SUCCESS, Some True, st2)
          else if tk_type token2 = TOKEN_ARRAY_END then Returns (SUCCESS, None, st2)
          else if tk_type token2 \<noteq> TOKEN_STRING then Returns (ERROR_INVALID_INPUT, None, st2)
          else (case next_token st2 of (col_token, st3) \<Rightarrow>
            if tk_type col_token \<noteq> TOKEN_COLON then Returns (ERROR_INVALID_INPUT, None, st3)
            else (case parse_sibling lib mk now slot (the (tk_value token2)) st3 of
                OutOfFuel \<Rightarrow> OutOfFuel
              | Undefined \<Rightarrow> Undefined
              | Returns (result, st4) \<Rightarrow>
                  if result \<noteq> SUCCESS then Returns (result, None, st4)
                  else (case parse_siblings lib mk now slot (bytes_left st4 + 1) st4 of
                      OutOfFuel \<Rightarrow> OutOfFuel
                    | Undefined \<Rightarrow> Undefined
                    | Returns (result', st5) \<Rightarrow>
                        if result' \<noteq> SUCCESS then Returns (result', None, st5) else separator st5))))))"

fun parse_tables ::
  "float_lib \<Rightarrow> (int list \<Rightarrow> int) \<Rightarrow> int \<Rightarrow> nat \<Rightarrow> bool \<Rightarrow> LoadState \<Rightarrow> (ErrorCode \<times> LoadState) run" where
  \<comment> \<open>the loop over the array of tables\<close>
  "parse_tables lib mk now 0 has_table_start st = OutOfFuel"
| "parse_tables lib mk now (Suc fuel) has_table_start st =
     (case (if has_table_start then (plain_token 0 TOKEN_OBJECT_START, st) else next_token st) of (token, st1) \<Rightarrow>
        if tk_type token = TOKEN_ARRAY_END then Returns (SUCCESS, st1)
        else if tk_type token \<noteq> TOKEN_OBJECT_START then Returns (ERROR_INVALID_INPUT, st1)
        else (case json_parse_table_schema st1 of
            OutOfFuel \<Rightarrow> OutOfFuel
          | Undefined \<Rightarrow> Undefined
          | Returns (result, out, st2) \<Rightarrow>
              if result \<noteq> SUCCESS then Returns (result, st2)
              else (case parse_table_rest lib mk now (the out) st2 of
                  OutOfFuel \<Rightarrow> OutOfFuel
                | Undefined \<Rightarrow> Undefined
                | Returns (result', next_table, st3) \<Rightarrow>
                    (case next_table of None \<Rightarrow> Returns (result', st3)
                     | Some b \<Rightarrow> parse_tables lib mk now fuel b st3))))"

section \<open>Files\<close>

fun parse_database ::
  "float_lib \<Rightarrow> (int list \<Rightarrow> int) \<Rightarrow> int \<Rightarrow> nat \<Rightarrow> LoadState \<Rightarrow> (ErrorCode \<times> LoadState) run" where
  \<comment> \<open>the loop over the keys of the file\<close>
  "parse_database lib mk now 0 st = OutOfFuel"
| "parse_database lib mk now (Suc fuel) st =
     (case next_token st of (token, st1) \<Rightarrow>
        if tk_type token = TOKEN_OBJECT_END then Returns (SUCCESS, st1)
        else if tk_type token \<noteq> TOKEN_STRING then Returns (ERROR_INVALID_INPUT, st1)
        else (case next_token st1 of (colon, st2) \<Rightarrow>
          if tk_type colon \<noteq> TOKEN_COLON then Returns (ERROR_INVALID_INPUT, st2)
          else
            let key = the (tk_value token);
                parsed = (if strcmp key ''metadata'' = 0 then json_parse_database_metadata st2
                  else (case next_token st2 of (val_token, st3) \<Rightarrow>
                    if strcmp key ''tables'' = 0 then
                      (if tk_type val_token \<noteq> TOKEN_ARRAY_START then Returns (ERROR_INVALID_INPUT, st3)
                       else parse_tables lib mk now (bytes_left st3 + 1) False st3)
                    else Returns (skip_token val_token st3)))
            in (case parsed of
                OutOfFuel \<Rightarrow> OutOfFuel
              | Undefined \<Rightarrow> Undefined
              | Returns (result, st4) \<Rightarrow>
                  if result \<noteq> SUCCESS then Returns (result, st4)
                  else (case next_token st4 of (sep, st5) \<Rightarrow>
                    if tk_type sep = TOKEN_COMMA then parse_database lib mk now fuel st5
                    else if tk_type sep = TOKEN_OBJECT_END then Returns (SUCCESS, st5)
                    else Returns (ERROR_INVALID_INPUT, st5)))))"

definition load_state :: "string \<Rightarrow> Database \<Rightarrow> int \<Rightarrow> alloc \<Rightarrow> LoadState" where
  "load_state json_str db gc ok = \<lparr>ls_ctx = json_context json_str, ls_db = db, ls_counter = gc, ls_alloc = ok\<rparr>"

definition db_load_from_file ::
  "float_lib \<Rightarrow> (int list \<Rightarrow> int) \<Rightarrow> alloc \<Rightarrow> int \<Rightarrow> int \<Rightarrow> file_system \<Rightarrow> string option \<Rightarrow> (Database option \<times> int) run" where
  \<comment> \<open>the database and the counter; the first five allocations are the text and \<open>db_create\<close>\<close>
  "db_load_from_file lib mk ok now gc files fp = (case fp of None \<Rightarrow> Returns (None, gc)
     | Some filename \<Rightarrow>
       (case files filename of None \<Rightarrow> Returns (None, gc)
        | Some content \<Rightarrow>
          if content = [] \<or> \<not> ok 0 then Returns (None, gc)
          else (case db_create (shift_alloc 1 ok) of None \<Rightarrow> Returns (None, gc)
            | Some db \<Rightarrow>
              (case next_token (load_state content db gc (shift_alloc 5 ok)) of (token, st) \<Rightarrow>
                 if tk_type token \<noteq> TOKEN_OBJECT_START then Returns (None, gc)
                 else (case parse_database lib mk now (bytes_left st + 1) st of
                     OutOfFuel \<Rightarrow> OutOfFuel
                   | Undefined \<Rightarrow> Undefined
                   | Returns (result, st') \<Rightarrow>
                       Returns (if result \<noteq> SUCCESS then None else Some (ls_db st'), ls_counter st'))))))"

definition db_open ::
  "float_lib \<Rightarrow> (int list \<Rightarrow> int) \<Rightarrow> alloc \<Rightarrow> int \<Rightarrow> int \<Rightarrow> file_system \<Rightarrow> string option \<Rightarrow> (Database option \<times> int) run" where
  "db_open lib mk ok now gc files pp = (case pp of None \<Rightarrow> Returns (None, gc)
     | Some path \<Rightarrow> if files path \<noteq> None then db_load_from_file lib mk ok now gc files (Some path)
         else Returns (db_create ok, gc))"

definition json_to_table ::
  "float_lib \<Rightarrow> (int list \<Rightarrow> int) \<Rightarrow> alloc \<Rightarrow> int \<Rightarrow> int \<Rightarrow> string option \<Rightarrow> Database option \<Rightarrow>
   (nat option \<times> Database option \<times> int) run" where
  \<comment> \<open>the slot of the table, the database and the counter; on an error the table stays in the database\<close>
  "json_to_table lib mk ok now gc sp dp = (case (sp, dp) of
     (Some json_str, Some db) \<Rightarrow>
       (case json_parse_table_schema (load_state json_str db gc ok) of
          OutOfFuel \<Rightarrow> OutOfFuel
        | Undefined \<Rightarrow> Undefined
        | Returns (result, out, st) \<Rightarrow>
            let failed = (\<lambda>st'. Returns (None, Some (ls_db st'), ls_counter st'));
                done = (\<lambda>st'. Returns (out, Some (ls_db st'), ls_counter st'))
            in
            if result \<noteq> SUCCESS then failed st
            else (case next_token st of (token, st1) \<Rightarrow>
              if tk_type token \<noteq> TOKEN_COMMA then done st1
              else (case next_token st1 of (token2, st2) \<Rightarrow>
                if \<not> (tk_type token2 = TOKEN_STRING \<and> strcmp (the (tk_value token2)) ''records'' = 0) then done st2
                else (case next_token st2 of (colon, st3) \<Rightarrow>
                  if tk_type colon \<noteq> TOKEN_COLON then failed st3
                  else (case json_parse_table_records lib mk now (the out) st3 of
                      OutOfFuel \<Rightarrow> OutOfFuel
                    | Undefined \<Rightarrow> Undefined
                    | Returns (result', st4) \<Rightarrow> if result' \<noteq> SUCCESS then failed st4 else done st4)))))
   | _ \<Rightarrow> Returns (None, dp, gc))"

section \<open>Backups\<close>

definition json_backup_path :: "string \<Rightarrow> tm \<Rightarrow> string" where
  "json_backup_path backup_dir t = take 511 (backup_dir @ ''/backup_'' @ pad_int 4 (tm_year t + 1900) @
     pad_int 2 (tm_mon t + 1) @ pad_int 2 (tm_mday t) @ ''_'' @ pad_int 2 (tm_hour t) @ pad_int 2 (tm_min t) @
     pad_int 2 (tm_sec t) @ ''.json'')"

definition db_create_backup ::
  "json_env \<Rightarrow> alloc \<Rightarrow> int \<Rightarrow> tm \<Rightarrow> bool \<Rightarrow> nat \<Rightarrow> file_system \<Rightarrow> Database option \<Rightarrow> string option \<Rightarrow>
   (ErrorCode \<times> file_system) option" where
  \<comment> \<open>the directory is made if it is missing; \<open>t\<close> is the local time \<open>now\<close>\<close>
  "db_create_backup env ok now t can_write written files dp bp = (case (dp, bp) of
     (Some db, Some backup_dir) \<Rightarrow>
       db_save_to_file env ok now can_write written files (Some db) (Some (json_backup_path backup_dir t))
   | _ \<Rightarrow> Some (ERROR_INVALID_INPUT, files))"

definition db_restore_backup ::
  "float_lib \<Rightarrow> (int list \<Rightarrow> int) \<Rightarrow> alloc \<Rightarrow> int \<Rightarrow> int \<Rightarrow> file_system \<Rightarrow> Database option \<Rightarrow> string option \<Rightarrow>
   (ErrorCode \<times> Database option \<times> int) run" where
  \<comment> \<open>\<open>index_manager_free\<close> frees \<open>hash_table\<close> and \<open>recent_indexes\<close>, which the managers of \<open>database.c\<close>
      never set\<close>
  "db_restore_backup lib mk ok now gc files dp bp = (case (dp, bp) of
     (Some db, Some backup_file) \<Rightarrow>
       (case db_load_from_file lib mk ok now gc files (Some backup_file) of
          OutOfFuel \<Rightarrow> OutOfFuel
        | Undefined \<Rightarrow> Undefined
        | Returns (None, gc') \<Rightarrow> Returns (ERROR_IO_OPERATION, dp, gc')
        | Returns (Some loaded_db, gc') \<Rightarrow>
            if db_index_manager db \<noteq> None then Undefined else Returns (SUCCESS, Some loaded_db, gc'))
   | _ \<Rightarrow> Returns (ERROR_INVALID_INPUT, dp, gc))"

definition db_list_backups :: "string list option \<Rightarrow> string option \<Rightarrow> ErrorCode \<times> string list" where
  \<comment> \<open>the entries of the directory, \<open>None\<close> if it cannot be opened\<close>
  "db_list_backups entries bp = (case bp of None \<Rightarrow> (ERROR_INVALID_INPUT, [])
     | Some backup_dir \<Rightarrow> (case entries of None \<Rightarrow> (ERROR_NOT_FOUND, [])
         | Some ds \<Rightarrow> (SUCCESS, filter (\<lambda>d. strstr d ''backup_'' = Some 0) ds)))"

definition db_delete_backup :: "bool \<Rightarrow> file_system \<Rightarrow> string option \<Rightarrow> ErrorCode \<times> file_system" where
  \<comment> \<open>\<open>can_remove\<close>: whether \<open>remove\<close> succeeds on a file that is there\<close>
  "db_delete_backup can_remove files bp = (case bp of None \<Rightarrow> (ERROR_INVALID_INPUT, files)
     | Some backup_file \<Rightarrow>
         if files backup_file \<noteq> None \<and> can_remove then (SUCCESS, files(backup_file := None))
         else (ERROR_IO_OPERATION, files))"

end
