(* ===== verification/Lx_Json_Load_Props.thy ===== *)
theory Lx_Json_Load_Props
  imports Lx_Json_Load Lx_Database_Inv
begin

text \<open>
  Loading any file ends, and what it builds is a well-formed database: the loops of
  \<open>db_load_from_file\<close> consume tokens, and its insertions keep the invariant \<open>db_ok\<close>.
\<close>

section \<open>Sound steps\<close>

definition load_ok :: "nat \<Rightarrow> LoadState \<Rightarrow> bool" where
  \<comment> \<open>the database is well formed and has the first \<open>n\<close> slots\<close>
  "load_ok n st \<longleftrightarrow> c_int (ls_counter st) \<and> db_ok (ls_db st) \<and> n \<le> db_table_count (ls_db st)"

definition follows :: "nat \<Rightarrow> LoadState \<Rightarrow> LoadState \<Rightarrow> bool" where
  "follows n st st' \<longleftrightarrow> bytes_left st' \<le> bytes_left st \<and> (load_ok n st \<longrightarrow> load_ok n st')"

definition sound :: "nat \<Rightarrow> LoadState \<Rightarrow> ('a \<Rightarrow> LoadState) \<Rightarrow> 'a run \<Rightarrow> bool" where
  \<comment> \<open>a run that ends and, if it returns, in a state that keeps what \<open>follows\<close> says\<close>
  "sound n st get r \<longleftrightarrow> r \<noteq> OutOfFuel \<and> (\<forall>y. r = Returns y \<longrightarrow> follows n st (get y))"

lemma sound_simps [simp]:
  "sound n st get (Returns y) \<longleftrightarrow> follows n st (get y)"
  "sound n st get Undefined"
  by (simp_all add: sound_def)

lemma follows_refl [simp]: "follows n st st"
  by (simp add: follows_def)

lemma follows_trans: "follows n st st1 \<Longrightarrow> follows n st1 st2 \<Longrightarrow> follows n st st2"
  by (simp add: follows_def)

lemma sound_trans: "follows n st st1 \<Longrightarrow> sound n st1 get r \<Longrightarrow> sound n st get r"
  by (auto simp: sound_def intro: follows_trans)

lemma follows_same_db:
  "ls_db st' = ls_db st \<Longrightarrow> ls_counter st' = ls_counter st \<Longrightarrow> bytes_left st' \<le> bytes_left st \<Longrightarrow> follows n st st'"
  by (simp add: follows_def load_ok_def)

lemma follows_allocs [simp]: "follows n st (use_allocs k st)" "bytes_left (use_allocs k st) = bytes_left st"
  by (simp_all add: follows_same_db use_allocs_def bytes_left_def)

lemma follows_next:
  assumes "next_token st = (t, st')"
  shows "follows n st st'" and "bytes_left st' \<le> bytes_left st"
    and "tk_type t \<noteq> TOKEN_NONE \<Longrightarrow> tk_type t \<noteq> TOKEN_EOF \<Longrightarrow> bytes_left st' < bytes_left st"
proof -
  obtain ctx where p: "json_parse_token (ls_ctx st) = (t, ctx)" "st' = st\<lparr>ls_ctx := ctx\<rparr>"
    using assms by (auto simp: next_token_def split: prod.splits)
  show "bytes_left st' \<le> bytes_left st" using json_parse_token_progress(2) [OF p(1)] p(2) by (simp add: bytes_left_def)
  then show "follows n st st'" using p(2) by (simp add: follows_same_db)
  show "tk_type t \<noteq> TOKEN_NONE \<Longrightarrow> tk_type t \<noteq> TOKEN_EOF \<Longrightarrow> bytes_left st' < bytes_left st"
    using json_parse_token_progress(3) [OF p(1)] p(2) by (simp add: bytes_left_def)
qed

lemma follows_skip: "follows n st (snd (skip_token t st))" "bytes_left (snd (skip_token t st)) \<le> bytes_left st"
proof -
  obtain e ctx where p: "json_skip_token_value (ls_ctx st) t = (e, ctx)" by fastforce
  show "bytes_left (snd (skip_token t st)) \<le> bytes_left st"
    using json_skip_token_value_progress [OF p] p by (simp add: skip_token_def bytes_left_def)
  then show "follows n st (snd (skip_token t st))" by (intro follows_same_db) (simp_all add: skip_token_def p)
qed

lemma skip_less: "bytes_left st < b \<Longrightarrow> bytes_left (snd (skip_token t st)) < b"
  using follows_skip(2) by (rule le_less_trans)

text \<open>The rules that take a run apart, each step leaving its bound on the bytes left.\<close>

lemma sound_next:
  assumes "\<And>t st1. next_token st = (t, st1) \<Longrightarrow> bytes_left st1 \<le> bytes_left st \<Longrightarrow>
    (tk_type t \<noteq> TOKEN_NONE \<longrightarrow> tk_type t \<noteq> TOKEN_EOF \<longrightarrow> bytes_left st1 < bytes_left st) \<Longrightarrow> sound n st1 get (f t st1)"
  shows "sound n st get (case next_token st of (t, st1) \<Rightarrow> f t st1)"
proof (cases "next_token st")
  case (Pair t st1)
  note s = follows_next [OF Pair]
  have "sound n st1 get (f t st1)" using assms [OF Pair] s(2,3) by blast
  with Pair s(1) show ?thesis by (auto intro: sound_trans)
qed

lemma sound_if:
  "(b \<Longrightarrow> sound n st get x) \<Longrightarrow> (\<not> b \<Longrightarrow> sound n st get y) \<Longrightarrow> sound n st get (if b then x else y)"
  by simp

lemma sound_run:
  assumes "sound n st get0 r"
    and "\<And>y. r = Returns y \<Longrightarrow> bytes_left (get0 y) \<le> bytes_left st \<Longrightarrow> sound n (get0 y) get (f y)"
  shows "sound n st get (case r of OutOfFuel \<Rightarrow> OutOfFuel | Undefined \<Rightarrow> Undefined | Returns y \<Rightarrow> f y)"
proof (cases r)
  case (Returns y)
  with assms have "follows n st (get0 y)" "bytes_left (get0 y) \<le> bytes_left st" "sound n (get0 y) get (f y)"
    by (auto simp: follows_def)
  with Returns show ?thesis by (auto intro: sound_trans)
qed (use assms(1) in \<open>simp_all add: sound_def\<close>)

declare parse_metadata.simps [simp del] parse_definition.simps [simp del] parse_definitions.simps [simp del]
  parse_schema.simps [simp del] parse_members.simps [simp del] parse_records.simps [simp del]
  parse_siblings.simps [simp del] parse_tables.simps [simp del] parse_database.simps [simp del]

lemma parse_metadata_sound:
  "bytes_left st < fuel \<Longrightarrow> sound n st snd (parse_metadata fuel st)"
proof (induction fuel arbitrary: st)
  case (Suc fuel)
  have step: "sound n st4 snd (case next_token st4 of (sep, st5) \<Rightarrow>
      if tk_type sep = TOKEN_COMMA then parse_metadata fuel st5
      else if tk_type sep = TOKEN_OBJECT_END then Returns (SUCCESS, st5) else Returns (ERROR_INVALID_INPUT, st5))"
    if "bytes_left st4 < fuel" for st4
    by (intro sound_next sound_if Suc(1)) (use that in auto)
  show ?case
    unfolding parse_metadata.simps Let_def
    using Suc(2) by (intro sound_next sound_if) (auto intro!: sound_trans [OF _ step] skip_less simp: follows_skip)
qed simp

lemma metadata_sound: "sound n st snd (json_parse_database_metadata st)"
  unfolding json_parse_database_metadata_def
  by (intro sound_next sound_if parse_metadata_sound) auto

section \<open>Schemas\<close>

lemma parse_definition_sound:
  "bytes_left st < fuel \<Longrightarrow> sound n st snd (parse_definition fuel st field_name field_type)"
proof (induction fuel arbitrary: st field_name field_type)
  case (Suc fuel)
  have step: "sound n st4 snd (case next_token st4 of (sep, st5) \<Rightarrow>
      if tk_type sep = TOKEN_COMMA then parse_definition fuel st5 name ty
      else if tk_type sep = TOKEN_OBJECT_END then Returns (Some (name, ty), st5) else Returns (None, st5))"
    if "bytes_left st4 < fuel" for st4 name ty
    by (intro sound_next sound_if Suc(1)) (use that in auto)
  show ?case
    unfolding parse_definition.simps Let_def
    using Suc(2) by (intro sound_next sound_if) (auto intro!: sound_trans [OF _ step] skip_less Suc(1) simp: follows_skip)
qed simp

lemma add_field_sound: "sound n st snd (add_field sf field_name field_type st)"
  by (auto simp: add_field_def Let_def)

lemma parse_definitions_sound:
  "bytes_left st < fuel \<Longrightarrow> sound n st snd (parse_definitions fuel st sf)"
proof (induction fuel arbitrary: st sf)
  case (Suc fuel)
  show ?case
    unfolding parse_definitions.simps
    using Suc(2) by (intro sound_next sound_if sound_run [OF parse_definition_sound])
      (auto split!: option.split prod.split intro!: sound_run [OF add_field_sound] sound_next sound_if Suc(1)
        intro: follows_next)
qed simp

lemma parse_schema_sound:
  "bytes_left st < fuel \<Longrightarrow> sound n st snd (parse_schema fuel token st table_name sf)"
proof (induction fuel arbitrary: token st table_name sf)
  case (Suc fuel)
  have step: "sound n st3 snd (case next_token st3 of (sep, st4) \<Rightarrow>
      if tk_type sep = TOKEN_COMMA then (case next_token st4 of (token', st5) \<Rightarrow> parse_schema fuel token' st5 name sf3)
      else if tk_type sep = TOKEN_OBJECT_END then Returns (Some (name, sf3), st4) else Returns (None, st4))"
    if "bytes_left st3 < fuel" for st3 name sf3
    by (intro sound_next sound_if Suc(1)) (use that in auto)
  show ?case
    unfolding parse_schema.simps Let_def
    using Suc(2) by (intro sound_next sound_if sound_run [OF parse_definitions_sound] sound_trans [OF follows_skip(1) step])
      (auto split!: option.split prod.split intro!: step skip_less Suc(1) intro: follows_next)
qed simp

lemma db_add_table_count:
  "db_add_table ok db np fp tp k = (e, out, db') \<Longrightarrow> db_table_count db \<le> db_table_count db' \<and>
     (e = SUCCESS \<longrightarrow> (\<exists>slot. out = Some slot \<and> slot < db_table_count db'))"
  by (erule db_add_table_cases) auto

lemma add_parsed_table_Returns:
  assumes "add_parsed_table ok db name sf = Returns (e, out, db')"
  obtains fs where "db_add_table ok db (Some name) (Some fs) (Some (sf_types sf)) (int (length (sf_names sf))) = (e, out, db')"
  using assms by (auto simp: add_parsed_table_def Let_def split: option.splits if_splits)

lemma add_parsed_table_no_fuel: "add_parsed_table ok db name sf \<noteq> OutOfFuel"
  by (simp add: add_parsed_table_def Let_def split: option.split)

lemma table_schema_sound:
  "sound n st (\<lambda>y. snd (snd y)) (json_parse_table_schema st)"
  "json_parse_table_schema st = Returns (SUCCESS, out, st') \<Longrightarrow> load_ok 0 st \<Longrightarrow> load_ok (Suc (the out)) st'"
proof -
  define start where "start = (case next_token st of (token0, st0) \<Rightarrow>
      if tk_type token0 = TOKEN_OBJECT_START then next_token st0 else (token0, st0))"
  obtain token st1 where b: "start = (token, st1)" by fastforce
  have f: "follows k st st1" for k
    using b unfolding start_def by (auto split: prod.splits if_splits intro: follows_trans follows_next)
  have eq: "json_parse_table_schema st = (case parse_schema (bytes_left st1 + 1) token st1 [] no_fields of
          OutOfFuel \<Rightarrow> OutOfFuel
        | Undefined \<Rightarrow> Undefined
        | Returns (None, st2) \<Rightarrow> Returns (ERROR_INVALID_INPUT, None, st2)
        | Returns (Some (table_name, sf), st2) \<Rightarrow>
            if table_name \<noteq> [] \<and> sf_names sf \<noteq> [] then
              (case add_parsed_table (ls_alloc st2) (ls_db st2) table_name sf of
                 OutOfFuel \<Rightarrow> OutOfFuel
               | Undefined \<Rightarrow> Undefined
               | Returns (result, out, db') \<Rightarrow>
                   Returns (result, out, use_allocs (6 + length (sf_names sf)) (st2\<lparr>ls_db := db'\<rparr>)))
            else Returns (ERROR_INVALID_INPUT, None, st2))"
    using b unfolding json_parse_table_schema_def start_def by (auto split: prod.splits if_splits)
  have ps: "sound k st1 snd (parse_schema (bytes_left st1 + 1) token st1 [] no_fields)" for k
    by (rule parse_schema_sound) simp
  have add: "follows k st2 (use_allocs m (st2\<lparr>ls_db := db'\<rparr>)) \<and>
      (e = SUCCESS \<longrightarrow> load_ok 0 st2 \<longrightarrow> load_ok (Suc (the out)) (use_allocs m (st2\<lparr>ls_db := db'\<rparr>)))"
    if r: "add_parsed_table (ls_alloc st2) (ls_db st2) name sf = Returns (e, out, db')" for st2 name sf e out db' m k
  proof -
    obtain fs where a: "db_add_table (ls_alloc st2) (ls_db st2) (Some name) (Some fs) (Some (sf_types sf))
        (int (length (sf_names sf))) = (e, out, db')" using r by (rule add_parsed_table_Returns)
    from db_add_table_ok [OF _ a] db_add_table_count [OF a] show ?thesis
      by (auto simp: follows_def load_ok_def use_allocs_def bytes_left_def)
  qed
  show "sound n st (\<lambda>y. snd (snd y)) (json_parse_table_schema st)"
    unfolding eq using f add add_parsed_table_no_fuel
    by (intro sound_trans [OF f] sound_run [OF ps])
      (auto split!: option.split prod.split run.split intro!: sound_if)
  show "load_ok (Suc (the out)) st'"
    if r: "json_parse_table_schema st = Returns (SUCCESS, out, st')" and ok: "load_ok 0 st"
  proof -
    from r obtain name sf st2 db' where s: "parse_schema (bytes_left st1 + 1) token st1 [] no_fields = Returns (Some (name, sf), st2)"
      "add_parsed_table (ls_alloc st2) (ls_db st2) name sf = Returns (SUCCESS, out, db')"
      "st' = use_allocs (6 + length (sf_names sf)) (st2\<lparr>ls_db := db'\<rparr>)"
      unfolding eq by (auto split: run.splits option.splits prod.splits if_splits)
    have "follows 0 st1 st2" using ps [of 0] unfolding s(1) by simp
    with f [of 0] ok have "load_ok 0 st2" by (auto simp: follows_def)
    with add [OF s(2)] s(3) show ?thesis by blast
  qed
qed

section \<open>Records\<close>

definition fields_ok :: "nat \<Rightarrow> Field list \<Rightarrow> bool" where
  "fields_ok k fs \<longleftrightarrow> length fs = k \<and> list_all field_ok fs"

lemma fields_ok_update: "fields_ok k fs \<Longrightarrow> field_ok f \<Longrightarrow> fields_ok k (fs[i := f])"
  by (auto simp: fields_ok_def list_all_iff dest!: set_update_subset_insert [THEN subsetD])

lemma value_ok_token: "value_ok (value_of_token lib mk ty token)"
  by (auto simp: value_of_token_def Let_def value_ok_def strncpy_def zero_value_def MAX_FIELD_LEN_def
      length_overwrite set_int_value_def set_float_bits_def set_double_bits_def set_bool_value_def overwrite_def
      split: FieldType.split option.split)

lemma field_member_ok:
  assumes "json_field_member lib mk table ctx key fs = (fs', ctx')" and "fields_ok k fs"
  shows "fields_ok k fs'"
  using assms value_ok_token [of lib mk]
  by (auto simp: json_field_member_def json_parse_field_value_def store_parsed_def zero_field_def field_ok_def
      split: option.splits prod.splits if_splits intro!: fields_ok_update)

lemma read_fields_ok:
  "read_fields lib mk table fuel ctx fs = Returns (fs', ctx') \<Longrightarrow> fields_ok k fs \<Longrightarrow> fields_ok k fs'"
proof (induction fuel arbitrary: ctx fs)
  case (Suc fuel)
  obtain token ctx1 where t: "json_parse_token ctx = (token, ctx1)" by fastforce
  obtain colon ctx2 where c: "json_parse_token ctx1 = (colon, ctx2)" by fastforce
  obtain fs1 ctx3 where m: "json_field_member lib mk table ctx2 (the (tk_value token)) fs = (fs1, ctx3)" by fastforce
  obtain sep ctx4 where s: "json_parse_token ctx3 = (sep, ctx4)" by fastforce
  note ok = field_member_ok [OF m Suc(3)]
  from Suc(1) [OF _ ok, of ctx4] Suc(2,3) ok t c m s show ?case by (auto split: if_splits)
qed simp

definition keeps_db :: "nat \<Rightarrow> LoadState \<Rightarrow> ((int \<times> Field list) option \<times> LoadState) run \<Rightarrow> bool" where
  \<comment> \<open>a returned record has \<open>k\<close> well-formed values, and the database is as it was\<close>
  "keeps_db k st r \<longleftrightarrow> (\<forall>id fs st'. r = Returns (Some (id, fs), st') \<longrightarrow> fields_ok k fs \<and> ls_db st' = ls_db st)"

lemma keeps_simps [simp]:
  "keeps_db k st (Returns (Some (j, fs), st')) \<longleftrightarrow> fields_ok k fs \<and> ls_db st' = ls_db st"
  "keeps_db k st (Returns (None, st'))" "keeps_db k st OutOfFuel" "keeps_db k st Undefined"
  by (simp_all add: keeps_db_def)

lemma keeps_next:
  "(\<And>t st1. ls_db st1 = ls_db st \<Longrightarrow> keeps_db k st (f t st1)) \<Longrightarrow> keeps_db k st (case next_token st0 of (t, st1) \<Rightarrow> f t st1)"
  if "ls_db st0 = ls_db st"
  using that by (auto simp: next_token_def split: prod.split)

lemma keeps_if: "(b \<Longrightarrow> keeps_db k st x) \<Longrightarrow> (\<not> b \<Longrightarrow> keeps_db k st y) \<Longrightarrow> keeps_db k st (if b then x else y)"
  by simp

lemma ls_db_skip [simp]: "ls_db (snd (skip_token t st)) = ls_db st"
  by (simp add: skip_token_def split: prod.split)

lemma parse_fields_sound: "sound n st snd (parse_fields lib mk table st fs)"
proof -
  have "bytes_left (st\<lparr>ls_ctx := ctx\<rparr>) = left ctx" for ctx by (simp add: bytes_left_def)
  with read_fields_enough [of "ls_ctx st" "bytes_left st + 1" lib mk table fs] show ?thesis
    by (auto simp: parse_fields_def bytes_left_def simp del: read_fields.simps split!: run.split
        intro!: follows_same_db)
qed

lemma parse_fields_ok:
  "parse_fields lib mk table st fs = Returns (Some fs', st') \<Longrightarrow> fields_ok k fs \<Longrightarrow> fields_ok k fs' \<and> ls_db st' = ls_db st"
  by (auto simp: parse_fields_def simp del: read_fields.simps split: run.splits prod.splits dest: read_fields_ok)

lemma parse_members_sound:
  "bytes_left st < fuel \<Longrightarrow> sound n st snd (parse_members lib mk table fuel st record_id fs)"
proof (induction fuel arbitrary: st record_id fs)
  case (Suc fuel)
  have step: "sound n st4 snd (case next_token st4 of (sep, st5) \<Rightarrow>
      if tk_type sep = TOKEN_COMMA then parse_members lib mk table fuel st5 k g
      else if tk_type sep = TOKEN_OBJECT_END then Returns (Some (k, g), st5) else Returns (None, st5))"
    if "bytes_left st4 < fuel" for st4 k g
    by (intro sound_next sound_if Suc(1)) (use that in auto)
  show ?case
    unfolding parse_members.simps Let_def
    using Suc(2) by (intro sound_next sound_if sound_run [OF parse_fields_sound] sound_trans [OF follows_skip(1) step])
      (auto split!: option.split prod.split intro!: step skip_less Suc(1) intro: follows_next)
qed simp

lemma parse_members_ok:
  "fields_ok k fs \<Longrightarrow> keeps_db k st (parse_members lib mk table fuel st record_id fs)"
proof (induction fuel arbitrary: st record_id fs)
  case (Suc fuel)
  have step: "keeps_db k st (case next_token st4 of (sep, st5) \<Rightarrow>
      if tk_type sep = TOKEN_COMMA then parse_members lib mk table fuel st5 j g
      else if tk_type sep = TOKEN_OBJECT_END then Returns (Some (j, g), st5) else Returns (None, st5))"
    if "ls_db st4 = ls_db st" "fields_ok k g" for st4 j g
  proof (rule keeps_next [OF that(1)])
    fix sep and st5 :: LoadState
    assume "ls_db st5 = ls_db st"
    with Suc(1) [OF that(2), of st5 j] that(2) show "keeps_db k st (if tk_type sep = TOKEN_COMMA
        then parse_members lib mk table fuel st5 j g
        else if tk_type sep = TOKEN_OBJECT_END then Returns (Some (j, g), st5) else Returns (None, st5))"
      by (auto simp: keeps_db_def)
  qed
  have fields: "keeps_db k st (case parse_fields lib mk table st3 fs of OutOfFuel \<Rightarrow> OutOfFuel
      | Undefined \<Rightarrow> Undefined | Returns (None, st4) \<Rightarrow> Returns (None, st4)
      | Returns (Some fs', st4) \<Rightarrow> (case next_token st4 of (sep, st5) \<Rightarrow>
          if tk_type sep = TOKEN_COMMA then parse_members lib mk table fuel st5 record_id fs'
          else if tk_type sep = TOKEN_OBJECT_END then Returns (Some (record_id, fs'), st5) else Returns (None, st5)))"
    if "ls_db st3 = ls_db st" for st3
    using parse_fields_ok [of lib mk table st3 fs _ _ k] Suc(2) that
    by (auto split!: run.split option.split prod.split intro!: step simp del: keeps_simps)
      (simp_all add: keeps_db_def)
  show ?case
    unfolding parse_members.simps Let_def
    using Suc(2) by (intro keeps_next keeps_if step fields refl) auto
qed (simp add: parse_members.simps)

lemma initial_fields_ok: "fields_ok (t_field_count t) (initial_fields t)"
  by (auto simp: fields_ok_def initial_fields_def field_ok_def zero_field_def list_all_iff)

lemma set_key_field_ok: "fields_ok k fs \<Longrightarrow> fields_ok k (set_key_field t j fs)"
proof (cases "List.find (\<lambda>i. c_primary_key (t_constraints t ! i)) [0..<t_field_count t]")
  case (Some i)
  assume fs: "fields_ok k fs"
  show ?thesis
  proof (cases "i < length fs")
    case True
    then have "field_ok (fs ! i)" using fs by (simp add: fields_ok_def list_all_length)
    with Some fs show ?thesis by (simp add: set_key_field_def field_ok_def fields_ok_update)
  next
    case False
    with Some fs show ?thesis by (simp add: set_key_field_def list_update_beyond)
  qed
qed (simp add: set_key_field_def)

lemma insert_parsed_follows:
  assumes "insert_parsed now slot record_id fs st = (e, st')" and "slot < n"
    and "load_ok n st \<Longrightarrow> fields_ok (t_field_count (db_tables (ls_db st) ! slot)) fs"
  shows "follows n st st'"
proof (cases "record_id = -1")
  case True
  with assms(1) show ?thesis by (simp add: insert_parsed_def)
next
  case False
  let ?t = "db_tables (ls_db st) ! slot"
  obtain r out gc t where i: "table_insert_record (ls_alloc st) now (ls_counter st) ?t
      (set_key_field ?t record_id fs) = (r, out, gc, t)" by (rule prod_cases4)
  have st': "st' = st\<lparr>ls_db := put_table (ls_db st) slot t, ls_counter := gc\<rparr>"
    using assms(1) False i by (simp add: insert_parsed_def Let_def)
  have "load_ok n st'" if ok: "load_ok n st"
  proof -
    have db: "db_ok (ls_db st)" "c_int (ls_counter st)" "slot < length (db_tables (ls_db st))"
      using ok assms(2) by (auto simp: load_ok_def db_ok_def tables_ok_def)
    then have t: "table_ok ?t" "t_index_manager ?t \<noteq> None" by (auto simp: db_ok_def tables_ok_def list_all_length)
    have "values_ok ?t (set_key_field ?t record_id fs)"
      using set_key_field_ok [OF assms(3) [OF ok]] by (simp add: values_ok_def fields_ok_def)
    from table_insert_ok [OF t(1) this db(2) i] table_insert_counter [OF i db(2)] table_insert_manager [OF i] t(2)
    show ?thesis using ok db(1) by (simp add: load_ok_def st' db_ok_put_table)
  qed
  then show ?thesis by (simp add: follows_def st' bytes_left_def)
qed

lemma inserted_sound:
  assumes rec: "\<And>st4. bytes_left st4 < b \<Longrightarrow> sound n st4 snd (rec st4)" and "slot < n"
    and "bytes_left st2 < b" and "fields_ok (t_field_count (db_tables (ls_db st2) ! slot)) fs"
  shows "sound n st2 snd (case insert_parsed now slot record_id fs st2 of (result, st3) \<Rightarrow>
      if result \<noteq> SUCCESS then Returns (result, st3)
      else (case next_token (use_allocs 2 st3) of (sep, st4) \<Rightarrow>
        if tk_type sep = TOKEN_COMMA then rec st4
        else if tk_type sep = TOKEN_ARRAY_END then Returns (SUCCESS, st4)
        else Returns (ERROR_INVALID_INPUT, st4)))"
proof -
  obtain result st3 where i: "insert_parsed now slot record_id fs st2 = (result, st3)" by fastforce
  have f: "follows n st2 st3" using insert_parsed_follows [OF i assms(2)] assms(4) by blast
  then have b: "bytes_left (use_allocs 2 st3) < b" using assms(3) by (simp add: follows_def)
  have "sound n (use_allocs 2 st3) snd (case next_token (use_allocs 2 st3) of (sep, st4) \<Rightarrow>
      if tk_type sep = TOKEN_COMMA then rec st4
      else if tk_type sep = TOKEN_ARRAY_END then Returns (SUCCESS, st4) else Returns (ERROR_INVALID_INPUT, st4))"
    by (intro sound_next sound_if rec) (use b in auto)
  from sound_trans [OF f sound_trans [OF follows_allocs(1) this]] f i show ?thesis by simp
qed

lemma parse_records_sound:
  "bytes_left st < fuel \<Longrightarrow> slot < n \<Longrightarrow> sound n st snd (parse_records lib mk now slot fuel st)"
proof (induction fuel arbitrary: st)
  case (Suc fuel)
  have members: "sound n st1 snd (case parse_members lib mk (db_tables (ls_db st1) ! slot) (bytes_left st1 + 1)
        (use_allocs 1 st1) (-1) (initial_fields (db_tables (ls_db st1) ! slot)) of OutOfFuel \<Rightarrow> OutOfFuel
      | Undefined \<Rightarrow> Undefined
      | Returns (None, st2) \<Rightarrow> Returns (ERROR_INVALID_INPUT, st2)
      | Returns (Some (record_id, fs), st2) \<Rightarrow> (case insert_parsed now slot record_id fs st2 of (result, st3) \<Rightarrow>
          if result \<noteq> SUCCESS then Returns (result, st3)
          else (case next_token (use_allocs 2 st3) of (sep, st4) \<Rightarrow>
            if tk_type sep = TOKEN_COMMA then parse_records lib mk now slot fuel st4
            else if tk_type sep = TOKEN_ARRAY_END then Returns (SUCCESS, st4)
            else Returns (ERROR_INVALID_INPUT, st4))))" (is "sound n st1 snd (case ?m of OutOfFuel \<Rightarrow> _ | _ \<Rightarrow> _)")
    if "bytes_left st1 < fuel" for st1
  proof (rule sound_run [of n st1 snd])
    have "sound n (use_allocs 1 st1) snd ?m" by (rule parse_members_sound) simp
    with follows_allocs(1) show "sound n st1 snd ?m" by (rule sound_trans)
    fix y
    assume y: "?m = Returns y" "bytes_left (snd y) \<le> bytes_left st1"
    have keep: "keeps_db (t_field_count (db_tables (ls_db st1) ! slot)) (use_allocs 1 st1) ?m"
      by (rule parse_members_ok) (rule initial_fields_ok)
    show "sound n (snd y) snd (case y of (None, st2) \<Rightarrow> Returns (ERROR_INVALID_INPUT, st2)
      | (Some (record_id, fs), st2) \<Rightarrow> (case insert_parsed now slot record_id fs st2 of (result, st3) \<Rightarrow>
          if result \<noteq> SUCCESS then Returns (result, st3)
          else (case next_token (use_allocs 2 st3) of (sep, st4) \<Rightarrow>
            if tk_type sep = TOKEN_COMMA then parse_records lib mk now slot fuel st4
            else if tk_type sep = TOKEN_ARRAY_END then Returns (SUCCESS, st4)
            else Returns (ERROR_INVALID_INPUT, st4))))"
    proof (cases y)
      case (Pair a st2)
      show ?thesis
      proof (cases a)
        case (Some p)
        obtain record_id fs where p: "p = (record_id, fs)" by fastforce
        have "fields_ok (t_field_count (db_tables (ls_db st1) ! slot)) fs \<and> ls_db st2 = ls_db (use_allocs 1 st1)"
          using keep y(1) unfolding Pair Some p by simp
        then have "fields_ok (t_field_count (db_tables (ls_db st2) ! slot)) fs" by (simp add: use_allocs_def)
        with inserted_sound [OF Suc(1) [OF _ Suc(3)] Suc(3), of fuel st2 fs] y(2) that
        show ?thesis unfolding Pair Some p by simp
      qed (use Pair in simp)
    qed
  qed
  show ?case
    unfolding parse_records.simps Let_def
    using Suc(2) by (intro sound_next sound_if members) auto
qed simp

lemma table_records_sound: "slot < n \<Longrightarrow> sound n st snd (json_parse_table_records lib mk now slot st)"
  unfolding json_parse_table_records_def
  by (intro sound_next sound_if parse_records_sound) auto

section \<open>Tables and files\<close>

lemma skip_run_sound: "sound n st snd (Returns (skip_token t st))"
  by (simp add: follows_skip)

lemma parse_sibling_sound: "slot < n \<Longrightarrow> sound n st snd (parse_sibling lib mk now slot key st)"
  unfolding parse_sibling_def
  by (intro sound_if table_records_sound sound_next skip_run_sound)

lemma parse_siblings_sound:
  "bytes_left st < fuel \<Longrightarrow> slot < n \<Longrightarrow> sound n st snd (parse_siblings lib mk now slot fuel st)"
proof (induction fuel arbitrary: st)
  case (Suc fuel)
  show ?case
    unfolding parse_siblings.simps
    using Suc(2) by (intro sound_next sound_if sound_run [OF parse_sibling_sound [OF Suc(3)]])
      (auto split!: prod.split intro!: Suc(1) Suc(3))
qed simp

lemma table_rest_sound:
  assumes "slot < n"
  shows "sound n st (\<lambda>y. snd (snd y)) (parse_table_rest lib mk now slot st)"
proof -
  have sep: "sound n st1 (\<lambda>y. snd (snd y)) (case next_token st1 of (token, st2) \<Rightarrow>
      if tk_type token = TOKEN_COMMA then Returns (SUCCESS, Some False, st2)
      else if tk_type token = TOKEN_ARRAY_END then Returns (SUCCESS, None, st2)
      else Returns (ERROR_INVALID_INPUT, None, st2))" for st1
    by (intro sound_next sound_if) simp_all
  have siblings: "sound n st4 (\<lambda>y. snd (snd y)) (case parse_siblings lib mk now slot (bytes_left st4 + 1) st4 of
      OutOfFuel \<Rightarrow> OutOfFuel
    | Undefined \<Rightarrow> Undefined
    | Returns (result', st5) \<Rightarrow>
        if result' \<noteq> SUCCESS then Returns (result', None, st5)
        else (case next_token st5 of (token, st2) \<Rightarrow>
          if tk_type token = TOKEN_COMMA then Returns (SUCCESS, Some False, st2)
          else if tk_type token = TOKEN_ARRAY_END then Returns (SUCCESS, None, st2)
          else Returns (ERROR_INVALID_INPUT, None, st2)))" for st4
    by (intro sound_run [OF parse_siblings_sound [OF _ assms]]) (auto split!: prod.split intro!: sound_if sep)
  show ?thesis
    unfolding parse_table_rest_def Let_def
    by (intro sound_next sound_if sep sound_run [OF parse_sibling_sound [OF assms]])
      (auto split!: prod.split intro!: sound_if siblings [simplified])
qed

lemma rest_start:
  "parse_table_rest lib mk now slot st = Returns (e, Some True, st') \<Longrightarrow> bytes_left st' < bytes_left st"
  by (fastforce simp: parse_table_rest_def Let_def split: prod.splits if_splits run.splits dest: follows_next)

lemma one_table_sound:
  assumes rec: "\<And>b st3. bytes_left st3 + (if b then 1 else 0) < k \<Longrightarrow> sound 0 st3 snd (rec b st3)" and "bytes_left st1 < k"
  shows "sound 0 st1 snd (case json_parse_table_schema st1 of
      OutOfFuel \<Rightarrow> OutOfFuel
    | Undefined \<Rightarrow> Undefined
    | Returns (result, out, st2) \<Rightarrow>
        if result \<noteq> SUCCESS then Returns (result, st2)
        else (case parse_table_rest lib mk now (the out) st2 of
            OutOfFuel \<Rightarrow> OutOfFuel
          | Undefined \<Rightarrow> Undefined
          | Returns (result', next_table, st3) \<Rightarrow>
              (case next_table of None \<Rightarrow> Returns (result', st3) | Some b \<Rightarrow> rec b st3)))"
proof (cases "json_parse_table_schema st1")
  case (Returns y)
  obtain result out st2 where y: "y = (result, out, st2)" by (rule prod_cases3)
  have f2: "follows 0 st1 st2" using table_schema_sound(1) [of 0 st1] unfolding Returns y by simp
  have rest: "sound 0 st1 snd (case parse_table_rest lib mk now (the out) st2 of
            OutOfFuel \<Rightarrow> OutOfFuel
          | Undefined \<Rightarrow> Undefined
          | Returns (result', next_table, st3) \<Rightarrow>
              (case next_table of None \<Rightarrow> Returns (result', st3) | Some b \<Rightarrow> rec b st3))" if r: "result = SUCCESS"
  proof (cases "parse_table_rest lib mk now (the out) st2")
    case OutOfFuel
    with table_rest_sound [of "the out" "Suc (the out)" st2 lib mk now] show ?thesis by (simp add: sound_def)
  next
    case (Returns z)
    obtain result' next_table st3 where z: "z = (result', next_table, st3)" by (rule prod_cases3)
    have "follows (Suc (the out)) st2 st3"
      using table_rest_sound [of "the out" "Suc (the out)" st2 lib mk now] unfolding Returns z by simp
    moreover have "load_ok 0 st1 \<longrightarrow> load_ok (Suc (the out)) st2"
      using table_schema_sound(2) [of st1 out st2] \<open>json_parse_table_schema st1 = Returns y\<close> y r by simp
    ultimately have f3: "follows 0 st1 st3" using f2 by (auto simp: follows_def load_ok_def)
    have "bytes_left st3 + (if b then 1 else 0) < k" if "next_table = Some b" for b
      using assms(2) f2 f3 rest_start [of lib mk now "the out" st2 result' st3] Returns z that
      by (auto simp: follows_def)
    with f3 rec show ?thesis unfolding Returns z by (auto split: option.split intro: sound_trans)
  qed simp
  show ?thesis using rest f2 unfolding Returns y by simp
qed (use table_schema_sound(1) [of 0 st1] in \<open>simp_all add: sound_def\<close>)

lemma parse_tables_sound:
  "bytes_left st + (if b then 1 else 0) < fuel \<Longrightarrow> sound 0 st snd (parse_tables lib mk now fuel b st)"
proof (induction fuel arbitrary: b st)
  case (Suc fuel)
  note one = one_table_sound [of fuel "parse_tables lib mk now fuel", OF Suc(1)]
  show ?case
  proof (cases b)
    case True
    with Suc(2) one [of st lib mk now] show ?thesis by (simp add: parse_tables.simps plain_token_def)
  next
    case False
    have "sound 0 st snd (case next_token st of (token, st1) \<Rightarrow>
        if tk_type token = TOKEN_ARRAY_END then Returns (SUCCESS, st1)
        else if tk_type token \<noteq> TOKEN_OBJECT_START then Returns (ERROR_INVALID_INPUT, st1)
        else (case json_parse_table_schema st1 of
            OutOfFuel \<Rightarrow> OutOfFuel
          | Undefined \<Rightarrow> Undefined
          | Returns (result, out, st2) \<Rightarrow>
              if result \<noteq> SUCCESS then Returns (result, st2)
              else (case parse_table_rest lib mk now (the out) st2 of
                  OutOfFuel \<Rightarrow> OutOfFuel
                | Undefined \<Rightarrow> Undefined
                | Returns (result', next_table, st3) \<Rightarrow>
                    (case next_table of None \<Rightarrow> Returns (result', st3)
                     | Some b \<Rightarrow> parse_tables lib mk now fuel b st3))))"
      using Suc(2) False by (intro sound_next sound_if one) auto
    with False show ?thesis by (simp only: parse_tables.simps if_False)
  qed
qed simp

lemma parse_database_sound:
  "bytes_left st < fuel \<Longrightarrow> sound 0 st snd (parse_database lib mk now fuel st)"
proof (induction fuel arbitrary: st)
  case (Suc fuel)
  have key: "sound 0 st2 snd (if strcmp key ''metadata'' = 0 then json_parse_database_metadata st2
      else (case next_token st2 of (val_token, st3) \<Rightarrow>
        if strcmp key ''tables'' = 0 then
          (if tk_type val_token \<noteq> TOKEN_ARRAY_START then Returns (ERROR_INVALID_INPUT, st3)
           else parse_tables lib mk now (bytes_left st3 + 1) False st3)
        else Returns (skip_token val_token st3)))" for key st2
    by (intro sound_if sound_next metadata_sound parse_tables_sound skip_run_sound) auto
  show ?case
    unfolding parse_database.simps Let_def
    using Suc(2) by (intro sound_next sound_if sound_run [OF key])
      (auto split!: prod.split intro!: sound_next sound_if Suc(1))
qed simp

lemma db_load_sound:
  "db_load_from_file lib mk ok now gc files fp \<noteq> OutOfFuel"
  "db_load_from_file lib mk ok now gc files fp = Returns (Some db, gc') \<Longrightarrow> c_int gc \<Longrightarrow> db_ok db \<and> c_int gc'"
proof -
  have run: "sound 0 st snd (parse_database lib mk now (bytes_left st + 1) st)" for st
    by (rule parse_database_sound) simp
  then have "parse_database lib mk now (bytes_left st + 1) st \<noteq> OutOfFuel" for st by (simp add: sound_def)
  then show "db_load_from_file lib mk ok now gc files fp \<noteq> OutOfFuel"
    by (auto simp: db_load_from_file_def split: option.splits prod.splits run.splits)
  assume "db_load_from_file lib mk ok now gc files fp = Returns (Some db, gc')" and gc: "c_int gc"
  then obtain content db0 token st st' where l: "db_create (shift_alloc 1 ok) = Some db0"
    "next_token (load_state content db0 gc (shift_alloc 5 ok)) = (token, st)"
    "parse_database lib mk now (bytes_left st + 1) st = Returns (SUCCESS, st')" "db = ls_db st'" "gc' = ls_counter st'"
    by (auto simp: db_load_from_file_def split: option.splits prod.splits run.splits if_splits)
  have "load_ok 0 (load_state content db0 gc (shift_alloc 5 ok))"
    using db_create_ok [OF l(1)] gc by (simp add: load_ok_def load_state_def)
  then have "load_ok 0 st" using follows_next(1) [OF l(2)] by (simp add: follows_def)
  moreover have "follows 0 st st'" using run [of st] unfolding l(3) by simp
  ultimately show "db_ok db \<and> c_int gc'" using l(4,5) by (simp add: follows_def load_ok_def)
qed

definition nameless_file :: string where
  \<comment> \<open>a table whose only field has no name\<close>
  "nameless_file = ''{'' @ quoted ''tables'' @ '':[{'' @ quoted ''name'' @ '':'' @ quoted ''t'' @ '','' @
     quoted ''fields'' @ '':[{}]}]}''"

text \<open>C5: whatever bytes a file holds, loading it ends, and the database it returns is well formed, so
  every call of the interface on it returns: schemas, record ids, counts and index managers are as if
  the database had been built by calls of \<open>db_add_table\<close> and \<open>db_insert_record\<close>. Only undefined
  behaviour can come between, and does: a field definition without a name reaches \<open>strdup\<close> as NULL.\<close>

theorem loaded_db_ok:
  assumes "c_int gc" and "files nm = Some nameless_file"
  shows "(case db_load_from_file lib mk ok now gc files fp of OutOfFuel \<Rightarrow> False | Undefined \<Rightarrow> True
     | Returns (result, gc') \<Rightarrow> (case result of None \<Rightarrow> True
        | Some db \<Rightarrow> state_ok (gc', db) \<and> (\<forall>c. \<exists>e s'. perform c (gc', db) = Some (e, s')))) \<and>
     db_load_from_file lib mk (\<lambda>_. True) now gc files (Some nm) = Undefined"
proof
  show "case db_load_from_file lib mk ok now gc files fp of OutOfFuel \<Rightarrow> False | Undefined \<Rightarrow> True
     | Returns (result, gc') \<Rightarrow> (case result of None \<Rightarrow> True
        | Some db \<Rightarrow> state_ok (gc', db) \<and> (\<forall>c. \<exists>e s'. perform c (gc', db) = Some (e, s')))"
    using db_load_sound(1) [of lib mk ok now gc files fp] db_load_sound(2) [of lib mk ok now gc files fp] assms(1)
      perform_defined
    by (auto split!: run.split option.split prod.split simp: state_ok_def)
  show "db_load_from_file lib mk (\<lambda>_. True) now gc files (Some nm) = Undefined"
    unfolding db_load_from_file_def option.case assms(2) nameless_file_def
    by code_simp
qed

lemma loaded_db_ok_witness:
  "case db_load_from_file no_floats (\<lambda>_. 0) (\<lambda>_. True) 0 1000
      [''f'' \<mapsto> ''{'' @ quoted ''tables'' @ '':[{'' @ quoted ''name'' @ '':'' @ quoted ''t'' @ '','' @
         quoted ''fields'' @ '':[{'' @ quoted ''name'' @ '':'' @ quoted ''k'' @ ''}]}]}'', ''g'' \<mapsto> nameless_file]
      (Some ''f'') of Returns (Some db, gc') \<Rightarrow> db_table_count db = 1 \<and> db_ok db | _ \<Rightarrow> False"
proof -
  let ?files = "[''f'' \<mapsto> ''{'' @ quoted ''tables'' @ '':[{'' @ quoted ''name'' @ '':'' @ quoted ''t'' @ '','' @
         quoted ''fields'' @ '':[{'' @ quoted ''name'' @ '':'' @ quoted ''k'' @ ''}]}]}'', ''g'' \<mapsto> nameless_file]"
  have "c_int 1000" by (simp add: c_int_def int_min_def int_max_def)
  then have "case db_load_from_file no_floats (\<lambda>_. 0) (\<lambda>_. True) 0 1000 ?files (Some ''f'') of
      OutOfFuel \<Rightarrow> False | Undefined \<Rightarrow> True | Returns (result, gc') \<Rightarrow> (case result of None \<Rightarrow> True
        | Some db \<Rightarrow> state_ok (gc', db) \<and> (\<forall>c. \<exists>e s'. perform c (gc', db) = Some (e, s')))"
    by (rule loaded_db_ok [where nm = "''g''", THEN conjunct1]) simp
  moreover have "case db_load_from_file no_floats (\<lambda>_. 0) (\<lambda>_. True) 0 1000 ?files (Some ''f'') of
      Returns (Some db, gc') \<Rightarrow> db_table_count db = 1 | _ \<Rightarrow> False" by code_simp
  ultimately show ?thesis by (auto simp: state_ok_def split: run.splits option.splits prod.splits)
qed

end
