(* ===== verification/Lx_Json_Save_Load.thy ===== *)
theory Lx_Json_Save_Load
  imports Lx_Json_Tokens Lx_Json_Load_Props
begin

text \<open>
  Saving and loading: what \<open>db_load_from_file\<close> makes of a file that \<open>db_save_to_file\<close> wrote, and of a
  backup. The loader is run on the token list of the file.
\<close>

section \<open>Running on tokens\<close>

definition ready :: "LoadState \<Rightarrow> tok list \<Rightarrow> bool" where
  \<comment> \<open>these tokens come next, and every allocation succeeds\<close>
  "ready st ts \<longleftrightarrow> ls_alloc st = (\<lambda>_. True) \<and> spells (cx_rest (ls_ctx st)) ts"

definition moved :: "LoadState \<Rightarrow> LoadState \<Rightarrow> bool" where
  "moved st st' \<longleftrightarrow> ls_db st' = ls_db st \<and> ls_counter st' = ls_counter st \<and> bytes_left st' \<le> bytes_left st"

definition ends :: "LoadState \<Rightarrow> 'a \<Rightarrow> tok list \<Rightarrow> ('a \<times> LoadState) run \<Rightarrow> bool" where
  \<comment> \<open>a run that returns \<open>x\<close> before these tokens, with nothing but the position changed\<close>
  "ends st x ts r \<longleftrightarrow> (\<exists>st'. r = Returns (x, st') \<and> ready st' ts \<and> moved st st')"

lemma moved_refl [simp]: "moved st st"
  by (simp add: moved_def)

lemma moved_trans: "moved st st1 \<Longrightarrow> moved st1 st2 \<Longrightarrow> moved st st2"
  by (simp add: moved_def)

lemma ends_Returns: "ready st ts \<Longrightarrow> ends st x ts (Returns (x, st))"
  by (auto simp: ends_def)

lemma ends_moved: "moved st st1 \<Longrightarrow> ends st1 x ts r \<Longrightarrow> ends st x ts r"
  by (auto simp: ends_def intro: moved_trans)

lemma ready_allocs [simp]: "ready st ts \<Longrightarrow> use_allocs k st = st" "ready st ts \<Longrightarrow> ls_alloc st = (\<lambda>_. True)"
  by (simp_all add: ready_def use_allocs_def shift_alloc_def)

lemma spells_parse:
  assumes "spells (cx_rest ctx) ((ty, v) # ts)" and "ts \<noteq> []"
  obtains t ctx' where "json_parse_token ctx = (t, ctx')" "tk_type t = ty" "tk_value t = v" "spells (cx_rest ctx') ts"
proof -
  from assms(1) obtain r s' where l: "lexes (cx_rest ctx) ty v s'" "toks s' ts r"
    by (auto simp: spells_def toks_simps)
  from lexesD [OF l(1) refl] obtain t ctx' where "json_parse_token ctx = (t, ctx')" "tk_type t = ty" "tk_value t = v"
    "cx_rest ctx' = s'" .
  with that l(2) assms(2) show thesis by (auto simp: spells_def)
qed

lemma ready_next:
  assumes "ready st ((ty, v) # ts)" and "ts \<noteq> []"
  obtains t st1 where "next_token st = (t, st1)" "tk_type t = ty" "tk_value t = v" "ready st1 ts" "moved st st1"
    "ty \<noteq> TOKEN_NONE \<Longrightarrow> ty \<noteq> TOKEN_EOF \<Longrightarrow> bytes_left st1 < bytes_left st"
proof -
  obtain t ctx where t: "json_parse_token (ls_ctx st) = (t, ctx)" "tk_type t = ty" "tk_value t = v" "spells (cx_rest ctx) ts"
    using spells_parse assms unfolding ready_def by blast
  then have n: "next_token st = (t, st\<lparr>ls_ctx := ctx\<rparr>)" by (simp add: next_token_def)
  from that [OF n t(2,3)] t(2,4) follows_next(2,3) [OF n] assms(1) show thesis
    by (auto simp: ready_def moved_def)
qed

lemma ends_next:
  assumes "ready st ((ty, v) # ts)" and "ts \<noteq> []"
    and "\<And>t st1. tk_type t = ty \<Longrightarrow> tk_value t = v \<Longrightarrow> ready st1 ts \<Longrightarrow> moved st st1 \<Longrightarrow>
      (ty \<noteq> TOKEN_NONE \<longrightarrow> ty \<noteq> TOKEN_EOF \<longrightarrow> bytes_left st1 < bytes_left st) \<Longrightarrow> ends st1 x us (f t st1)"
  shows "ends st x us (case next_token st of (t, st1) \<Rightarrow> f t st1)"
proof -
  from ready_next [OF assms(1,2)] obtain t st1 where s: "next_token st = (t, st1)" "tk_type t = ty" "tk_value t = v"
    "ready st1 ts" "moved st st1" "ty \<noteq> TOKEN_NONE \<Longrightarrow> ty \<noteq> TOKEN_EOF \<Longrightarrow> bytes_left st1 < bytes_left st" by blast
  from assms(3) [OF s(2-5)] s(6) have "ends st1 x us (f t st1)" by blast
  with s(1,5) show ?thesis by (auto intro: ends_moved)
qed

lemma ends_run:
  assumes "ends st y ts r" and "\<And>st1. ready st1 ts \<Longrightarrow> moved st st1 \<Longrightarrow> ends st1 x us (f (y, st1))"
  shows "ends st x us (case r of OutOfFuel \<Rightarrow> OutOfFuel | Undefined \<Rightarrow> Undefined | Returns z \<Rightarrow> f z)"
proof -
  from assms(1) obtain st1 where "r = Returns (y, st1)" "ready st1 ts" "moved st st1" by (auto simp: ends_def)
  with assms(2) [of st1] show ?thesis by (auto intro: ends_moved)
qed

lemma skip_plain: "tk_type t \<notin> {TOKEN_OBJECT_START, TOKEN_ARRAY_START} \<Longrightarrow> skip_token t st = (SUCCESS, st)"
  by (simp add: skip_token_def json_skip_token_value_def)

lemma skip_array:
  assumes "tk_type t = TOKEN_ARRAY_START" and "ready st (Str s # Close_Array # ts)" and "ts \<noteq> []"
  obtains st1 where "skip_token t st = (SUCCESS, st1)" "ready st1 ts" "moved st st1"
proof -
  from assms(2) have s: "spells (cx_rest (ls_ctx st)) (Str s # Close_Array # ts)" by (simp add: ready_def)
  from spells_parse [OF s list.distinct(2)] obtain k1 c1 where 1: "json_parse_token (ls_ctx st) = (k1, c1)" "tk_type k1 = TOKEN_STRING"
    "spells (cx_rest c1) (Close_Array # ts)" by blast
  from spells_parse [OF 1(3) assms(3)] obtain k2 c2 where 2: "json_parse_token c1 = (k2, c2)" "tk_type k2 = TOKEN_ARRAY_END"
    "spells (cx_rest c2) ts" by blast
  have e: "skip_token t st = (SUCCESS, st\<lparr>ls_ctx := c2\<rparr>)"
    using assms(1) 1 2 by (simp add: skip_token_def json_skip_token_value_def)
  have "bytes_left (st\<lparr>ls_ctx := c2\<rparr>) \<le> bytes_left st" using follows_skip(2) [of t st] e by simp
  with that [OF e] 2(3) assms(2) show thesis by (simp add: ready_def moved_def)
qed

lemma skip_object:
  assumes "tk_type t = TOKEN_OBJECT_START" and "ready st (Key k @ (ty, v) # Comma # Key k' @ (ty', v') # Close_Object # ts)"
    and "ts \<noteq> []" and "ty \<notin> {TOKEN_OBJECT_START, TOKEN_ARRAY_START}" and "ty' \<notin> {TOKEN_OBJECT_START, TOKEN_ARRAY_START}"
  obtains st1 where "skip_token t st = (SUCCESS, st1)" "ready st1 ts" "moved st st1"
proof -
  from assms(2) have s: "spells (cx_rest (ls_ctx st)) (Str k # Colon # (ty, v) # Comma # Str k' # Colon # (ty', v') # Close_Object # ts)"
    by (simp add: ready_def Key_def)
  from spells_parse [OF s list.distinct(2)] obtain k1 c1 where 1: "json_parse_token (ls_ctx st) = (k1, c1)" "tk_type k1 = TOKEN_STRING"
    "spells (cx_rest c1) (Colon # (ty, v) # Comma # Str k' # Colon # (ty', v') # Close_Object # ts)" by blast
  from spells_parse [OF 1(3) list.distinct(2)] obtain k2 c2 where 2: "json_parse_token c1 = (k2, c2)" "tk_type k2 = TOKEN_COLON"
    "spells (cx_rest c2) ((ty, v) # Comma # Str k' # Colon # (ty', v') # Close_Object # ts)" by blast
  from spells_parse [OF 2(3) list.distinct(2)] obtain k3 c3 where 3: "json_parse_token c2 = (k3, c3)" "tk_type k3 = ty"
    "spells (cx_rest c3) (Comma # Str k' # Colon # (ty', v') # Close_Object # ts)" by blast
  from spells_parse [OF 3(3) list.distinct(2)] obtain k4 c4 where 4: "json_parse_token c3 = (k4, c4)" "tk_type k4 = TOKEN_COMMA"
    "spells (cx_rest c4) (Str k' # Colon # (ty', v') # Close_Object # ts)" by blast
  from spells_parse [OF 4(3) list.distinct(2)] obtain k5 c5 where 5: "json_parse_token c4 = (k5, c5)" "tk_type k5 = TOKEN_STRING"
    "spells (cx_rest c5) (Colon # (ty', v') # Close_Object # ts)" by blast
  from spells_parse [OF 5(3) list.distinct(2)] obtain k6 c6 where 6: "json_parse_token c5 = (k6, c6)" "tk_type k6 = TOKEN_COLON"
    "spells (cx_rest c6) ((ty', v') # Close_Object # ts)" by blast
  from spells_parse [OF 6(3) list.distinct(2)] obtain k7 c7 where 7: "json_parse_token c6 = (k7, c7)" "tk_type k7 = ty'"
    "spells (cx_rest c7) (Close_Object # ts)" by blast
  from spells_parse [OF 7(3) assms(3)] obtain k8 c8 where 8: "json_parse_token c7 = (k8, c8)" "tk_type k8 = TOKEN_OBJECT_END"
    "spells (cx_rest c8) ts" by blast
  have "left c1 < left (ls_ctx st)" using json_parse_token_progress(3) [OF 1(1)] 1(2) by simp
  then obtain n where "length (cx_rest (ls_ctx st)) + 1 = Suc (Suc n)" by (cases "left (ls_ctx st)") (auto simp: left_def)
  then have e: "skip_token t st = (SUCCESS, st\<lparr>ls_ctx := c8\<rparr>)"
    using assms(1,4,5) 1 2 3 4 5 6 7 8 by (simp add: skip_token_def json_skip_token_value_def)
  have "bytes_left (st\<lparr>ls_ctx := c8\<rparr>) \<le> bytes_left st" using follows_skip(2) [of t st] e by simp
  with that [OF e] 8(3) assms(2) show thesis by (simp add: ready_def moved_def)
qed

lemma ready_token:
  assumes "ready st ((ty, v) # ts)" and "ts \<noteq> []"
  obtains t st1 where "next_token st = (t, st1)" "tk_type t = ty" "tk_value t = v" "ready st1 ts" "moved st st1"
  using assms by (rule ready_next)

lemma ready_key:
  assumes "ready st (Key k @ ts)" and "ts \<noteq> []"
  obtains kt st1 ct st2 where "next_token st = (kt, st1)" "tk_type kt = TOKEN_STRING" "tk_value kt = Some k"
    "next_token st1 = (ct, st2)" "tk_type ct = TOKEN_COLON" "ready st2 ts" "moved st st2" "bytes_left st2 < bytes_left st"
proof -
  from assms(1) have r: "ready st (Str k # Colon # ts)" by (simp add: Key_def)
  from ready_next [OF r list.distinct(2)] obtain kt st1 where 1: "next_token st = (kt, st1)" "tk_type kt = TOKEN_STRING"
    "tk_value kt = Some k" "ready st1 (Colon # ts)" "moved st st1" "bytes_left st1 < bytes_left st" by blast
  from ready_token [OF 1(4) assms(2)] obtain ct st2 where 2: "next_token st1 = (ct, st2)" "tk_type ct = TOKEN_COLON"
    "tk_value ct = None" "ready st2 ts" "moved st1 st2" .
  have "bytes_left st2 < bytes_left st" using 1(6) 2(5) by (simp add: moved_def)
  with that [OF 1(1-3) 2(1,2,4) moved_trans [OF 1(5) 2(5)]] show thesis .
qed

lemma ready_member:
  assumes "ready st (Key k @ (ty, v) # ts)" and "ts \<noteq> []"
  obtains kt st1 ct st2 vt st3 where "next_token st = (kt, st1)" "tk_type kt = TOKEN_STRING" "tk_value kt = Some k"
    "next_token st1 = (ct, st2)" "tk_type ct = TOKEN_COLON" "next_token st2 = (vt, st3)" "tk_type vt = ty" "tk_value vt = v"
    "ready st3 ts" "moved st st3" "bytes_left st3 < bytes_left st"
proof -
  from ready_key [OF assms(1) list.distinct(2)] obtain kt st1 ct st2 where
    1: "next_token st = (kt, st1)" "tk_type kt = TOKEN_STRING" "tk_value kt = Some k"
    "next_token st1 = (ct, st2)" "tk_type ct = TOKEN_COLON" "ready st2 ((ty, v) # ts)" "moved st st2"
    "bytes_left st2 < bytes_left st" .
  from ready_token [OF 1(6) assms(2)] obtain vt st3 where 2: "next_token st2 = (vt, st3)" "tk_type vt = ty" "tk_value vt = v"
    "ready st3 ts" "moved st2 st3" .
  have "bytes_left st3 < bytes_left st" using 1(8) 2(5) by (simp add: moved_def)
  with that [OF 1(1-5) 2(1-4) moved_trans [OF 1(7) 2(5)]] show thesis .
qed

section \<open>Metadata\<close>

lemma metadata_turn:
  assumes "bytes_left st < fuel" and "ready st (Key k @ (ty, v) # sep # ts)" and "ts \<noteq> []"
    and "ty = TOKEN_STRING \<or> ty = TOKEN_NUMBER" and "sep = Comma \<or> sep = Close_Object \<and> us = ts"
    and "sep = Comma \<Longrightarrow> (\<And>st1 fuel1. bytes_left st1 < fuel1 \<Longrightarrow> ready st1 ts \<Longrightarrow> ends st1 SUCCESS us (parse_metadata fuel1 st1))"
  shows "ends st SUCCESS us (parse_metadata fuel st)"
proof -
  obtain fuel' where fuel: "fuel = Suc fuel'" using assms(1) by (cases fuel) auto
  from ready_member [OF assms(2) list.distinct(2)] obtain kt st1 ct st2 vt st3 where
    m: "next_token st = (kt, st1)" "tk_type kt = TOKEN_STRING" "tk_value kt = Some k"
    "next_token st1 = (ct, st2)" "tk_type ct = TOKEN_COLON" "next_token st2 = (vt, st3)" "tk_type vt = ty"
    "tk_value vt = v" "ready st3 (sep # ts)" "moved st st3" "bytes_left st3 < bytes_left st" .
  obtain sty sv where sep: "sep = (sty, sv)" by fastforce
  from ready_token [OF m(9) [unfolded sep] assms(3)] obtain s st4 where n: "next_token st3 = (s, st4)" "tk_type s = sty"
    "tk_value s = sv" "ready st4 ts" "moved st3 st4" .
  have "skip_token vt st3 = (SUCCESS, st3)" by (rule skip_plain) (use m(7) assms(4) in auto)
  then have step: "parse_metadata fuel st = (if sty = TOKEN_COMMA then parse_metadata fuel' st4
      else if sty = TOKEN_OBJECT_END then Returns (SUCCESS, st4) else Returns (ERROR_INVALID_INPUT, st4))"
    using m n by (simp add: fuel parse_metadata.simps Let_def)
  have b: "bytes_left st4 < fuel'" using m(11) n(5) assms(1) fuel by (simp add: moved_def)
  show ?thesis
  proof (rule ends_moved [OF moved_trans [OF m(10) n(5)]])
    show "ends st4 SUCCESS us (parse_metadata fuel st)"
      using assms(5,6) b n(4) by (auto simp: step sep intro: ends_Returns)
  qed
qed

lemma metadata_ends:
  assumes "ready st ([Open_Object] @ Key ''name'' @ [Str a, Comma] @ Key ''version'' @ [Str b, Comma] @
     Key ''created_at'' @ [Str c, Comma] @ Key ''table_count'' @ [Num n, Close_Object] @ ts)" and "ts \<noteq> []"
  shows "ends st SUCCESS ts (json_parse_database_metadata st)"
proof -
  let ?rest = "Key ''name'' @ [Str a, Comma] @ Key ''version'' @ [Str b, Comma] @
     Key ''created_at'' @ [Str c, Comma] @ Key ''table_count'' @ [Num n, Close_Object] @ ts"
  have ne: "?rest \<noteq> []" by (simp add: Key_def)
  have "ready st (Open_Object # ?rest)" using assms(1) by simp
  from ready_token [OF this ne] obtain t st1 where
    n: "next_token st = (t, st1)" "tk_type t = TOKEN_OBJECT_START" "tk_value t = None" "ready st1 ?rest" "moved st st1" .
  have "ends st1 SUCCESS ts (parse_metadata (bytes_left st1 + 1) st1)"
    by (rule metadata_turn [where k = "''name''" and ts = "Key ''version'' @ [Str b, Comma] @
     Key ''created_at'' @ [Str c, Comma] @ Key ''table_count'' @ [Num n, Close_Object] @ ts"],
     simp, use n(4) in simp, simp add: Key_def, simp, rule disjI1, rule refl,
     rule metadata_turn [where k = "''version''" and ts = "Key ''created_at'' @ [Str c, Comma] @ Key ''table_count'' @ [Num n, Close_Object] @ ts"],
     assumption, simp, simp add: Key_def, simp, rule disjI1, rule refl,
     rule metadata_turn [where k = "''created_at''" and ts = "Key ''table_count'' @ [Num n, Close_Object] @ ts"],
     assumption, simp, simp add: Key_def, simp, rule disjI1, rule refl,
     rule metadata_turn [where k = "''table_count''" and ts = ts], assumption, simp, rule assms(2), simp, simp, simp)
  with n show ?thesis by (simp add: json_parse_database_metadata_def ends_moved)
qed

section \<open>Schemas\<close>

lemma definition_turn:
  fixes k v nm ty
  defines "nm1 \<equiv> (if k = ''name'' then Some v else nm)" and "ty1 \<equiv> (if k = ''type'' then string_to_field_type (Some v) else ty)"
  assumes "bytes_left st < fuel" and "ready st (Key k @ Str v # sep # ts)" and "ts \<noteq> []" and "k = ''name'' \<or> k = ''type''"
    and "sep = Comma \<or> sep = Close_Object \<and> us = ts \<and> x = Some (nm1, ty1)"
    and "sep = Comma \<Longrightarrow> (\<And>st1 fuel1. bytes_left st1 < fuel1 \<Longrightarrow> ready st1 ts \<Longrightarrow>
      ends st1 x us (parse_definition fuel1 st1 nm1 ty1))"
  shows "ends st x us (parse_definition fuel st nm ty)"
proof -
  obtain fuel' where fuel: "fuel = Suc fuel'" using assms(3) by (cases fuel) auto
  from ready_member [OF assms(4) list.distinct(2)] obtain kt st1 ct st2 vt st3 where
    m: "next_token st = (kt, st1)" "tk_type kt = TOKEN_STRING" "tk_value kt = Some k"
    "next_token st1 = (ct, st2)" "tk_type ct = TOKEN_COLON" "next_token st2 = (vt, st3)" "tk_type vt = TOKEN_STRING"
    "tk_value vt = Some v" "ready st3 (sep # ts)" "moved st st3" "bytes_left st3 < bytes_left st" .
  obtain sty sv where sep: "sep = (sty, sv)" by fastforce
  from ready_token [OF m(9) [unfolded sep] assms(5)] obtain s st4 where n: "next_token st3 = (s, st4)" "tk_type s = sty"
    "tk_value s = sv" "ready st4 ts" "moved st3 st4" .
  have a: "use_allocs 1 st3 = st3" "ls_alloc st3 0" using ready_allocs [OF m(9)] by simp_all
  have step: "parse_definition fuel st nm ty = (if sty = TOKEN_COMMA then parse_definition fuel' st4 nm1 ty1
      else if sty = TOKEN_OBJECT_END then Returns (Some (nm1, ty1), st4) else Returns (None, st4))"
    using m n a assms(6) by (auto simp: fuel parse_definition.simps Let_def nm1_def ty1_def)
  have b: "bytes_left st4 < fuel'" using m(11) n(5) assms(3) fuel by (simp add: moved_def)
  show ?thesis
  proof (rule ends_moved [OF moved_trans [OF m(10) n(5)]])
    show "ends st4 x us (parse_definition fuel st nm ty)"
      using assms(7,8) b n(4) by (auto simp: step sep intro: ends_Returns)
  qed
qed

lemma definition_constraints:
  assumes "bytes_left st < fuel" and "ts \<noteq> []"
    and "ready st (Key ''constraints'' @ Open_Array # Str s # Close_Array # Close_Object # ts)"
  shows "ends st (Some (nm, ty)) ts (parse_definition fuel st nm ty)"
proof -
  obtain fuel' where fuel: "fuel = Suc fuel'" using assms(1) by (cases fuel) auto
  from ready_member [OF assms(3) list.distinct(2)] obtain kt st1 ct st2 vt st3 where
    m: "next_token st = (kt, st1)" "tk_type kt = TOKEN_STRING" "tk_value kt = Some ''constraints''"
    "next_token st1 = (ct, st2)" "tk_type ct = TOKEN_COLON" "next_token st2 = (vt, st3)" "tk_type vt = TOKEN_ARRAY_START"
    "tk_value vt = None" "ready st3 (Str s # Close_Array # Close_Object # ts)" "moved st st3" "bytes_left st3 < bytes_left st" .
  from skip_array [OF m(7,9) list.distinct(2)] obtain st4 where s: "skip_token vt st3 = (SUCCESS, st4)"
    "ready st4 (Close_Object # ts)" "moved st3 st4" .
  from ready_token [OF s(2) assms(2)] obtain t st5 where n: "next_token st4 = (t, st5)" "tk_type t = TOKEN_OBJECT_END"
    "tk_value t = None" "ready st5 ts" "moved st4 st5" .
  have "parse_definition fuel st nm ty = Returns (Some (nm, ty), st5)"
    using m s n by (simp add: fuel parse_definition.simps Let_def)
  then show ?thesis
    using n(4) moved_trans [OF moved_trans [OF m(10) s(3)] n(5)] by (simp add: ends_def)
qed

lemma definition_ends:
  assumes "bytes_left st < fuel" and "ts \<noteq> []"
    and "ready st (Key ''name'' @ [Str nm, Comma] @ Key ''type'' @ [Str ty] @
      (if b then [Comma] @ Key ''constraints'' @ [Open_Array, Str ''PRIMARY KEY'', Close_Array] else []) @ [Close_Object] @ ts)"
  shows "ends st (Some (Some nm, string_to_field_type (Some ty))) ts (parse_definition fuel st None TYPE_STRING)"
proof (cases b)
  case True
  show ?thesis
    by (rule definition_turn [where k = "''name''" and v = nm and sep = Comma and ts = "Key ''type'' @ [Str ty, Comma] @ Key ''constraints'' @
          [Open_Array, Str ''PRIMARY KEY'', Close_Array, Close_Object] @ ts"],
        rule assms(1), use assms(3) True in simp, simp add: Key_def, simp, simp,
        rule definition_turn [where k = "''type''" and v = ty and sep = Comma and ts = "Key ''constraints'' @
          [Open_Array, Str ''PRIMARY KEY'', Close_Array, Close_Object] @ ts"],
        assumption, simp, simp add: Key_def, simp, simp, simp,
        rule definition_constraints, assumption, rule assms(2), simp)
next
  case False
  show ?thesis
    by (rule definition_turn [where k = "''name''" and v = nm and sep = Comma and ts = "Key ''type'' @ [Str ty, Close_Object] @ ts"],
        rule assms(1), use assms(3) False in simp, simp add: Key_def, simp, simp,
        rule definition_turn [where k = "''type''" and v = ty and sep = Close_Object and ts = ts],
        assumption, simp, rule assms(2), simp, simp, simp)
qed

lemma ready_upt:
  assumes "k < n" and "ready st (concat (map f [k..<n]) @ us)"
  shows "ready st (f k @ concat (map f [Suc k..<n]) @ us)"
  using assms by (simp add: upt_conv_Cons)

definition names_from :: "Table \<Rightarrow> nat \<Rightarrow> string option list" where
  "names_from t k = map (\<lambda>i. Some (t_field_names t ! i)) [k..<t_field_count t]"

definition types_from :: "Table \<Rightarrow> nat \<Rightarrow> FieldType list" where
  "types_from t k = map (\<lambda>i. string_to_field_type (Some (field_type_to_string (t_field_types t ! i)))) [k..<t_field_count t]"

lemma add_field_ends:
  assumes "ready st ts"
  shows "\<exists>sf'. add_field sf nm ty st = Returns (Some sf', st) \<and> sf_names sf' = sf_names sf @ [nm] \<and>
    sf_types sf' = sf_types sf @ [ty]"
  using ready_allocs [OF assms] by (simp add: add_field_def Let_def)

lemma definitions_end:
  assumes "k < t_field_count t" and "bytes_left st < fuel" and "ts \<noteq> []"
    and "ready st (concat (map (definition_tokens t) [k..<t_field_count t]) @ [Close_Array] @ ts)"
  shows "\<exists>sf'. ends st (Some sf') ts (parse_definitions fuel st sf) \<and> sf_names sf' = sf_names sf @ names_from t k \<and>
     sf_types sf' = sf_types sf @ types_from t k"
  using assms(1,2,4)
proof (induction "t_field_count t - k" arbitrary: k st fuel sf)
  case (Suc m)
  let ?n = "t_field_count t"
  let ?rest = "sep_tokens ?n k @ concat (map (definition_tokens t) [Suc k..<?n]) @ [Close_Array] @ ts"
  let ?body = "Key ''name'' @ [Str (t_field_names t ! k), Comma] @
     Key ''type'' @ [Str (field_type_to_string (t_field_types t ! k))] @
     (if k = 0 then [Comma] @ Key ''constraints'' @ [Open_Array, Str ''PRIMARY KEY'', Close_Array] else []) @ [Close_Object] @ ?rest"
  let ?ty = "string_to_field_type (Some (field_type_to_string (t_field_types t ! k)))"
  obtain fuel' where fuel: "fuel = Suc fuel'" using Suc(4) by (cases fuel) auto
  have r: "ready st (Open_Object # ?body)" using ready_upt [OF Suc(3,5)] by (simp add: definition_tokens_def)
  have rest_ne: "?rest \<noteq> []" and body_ne: "?body \<noteq> []" by simp_all
  from ready_next [OF r body_ne] obtain o1 st1 where o1: "next_token st = (o1, st1)" "tk_type o1 = TOKEN_OBJECT_START"
    "ready st1 ?body" "moved st st1" "bytes_left st1 < bytes_left st" by blast
  have "bytes_left st1 < bytes_left st1 + 1" by simp
  from definition_ends [OF this rest_ne o1(3)] obtain st2 where
    d: "parse_definition (bytes_left st1 + 1) st1 None TYPE_STRING = Returns (Some (Some (t_field_names t ! k), ?ty), st2)"
    "ready st2 ?rest" "moved st1 st2" unfolding ends_def by blast
  from add_field_ends [OF d(2), of sf] obtain sf1 where a: "add_field sf (Some (t_field_names t ! k)) ?ty st2 = Returns (Some sf1, st2)"
    "sf_names sf1 = sf_names sf @ [Some (t_field_names t ! k)]" "sf_types sf1 = sf_types sf @ [?ty]" by blast
  note up = names_from_def types_from_def upt_conv_Cons
  show ?case
  proof (cases "Suc k < ?n")
    case True
    let ?more = "concat (map (definition_tokens t) [Suc k..<?n]) @ [Close_Array] @ ts"
    have "ready st2 (Comma # ?more)" using d(2) True by (simp add: sep_tokens_def)
    moreover have "?more \<noteq> []" by simp
    ultimately obtain s st3 where s: "next_token st2 = (s, st3)" "tk_type s = TOKEN_COMMA"
      "tk_value s = None" "ready st3 ?more" "moved st2 st3" by (rule ready_token)
    have "bytes_left st3 < fuel'" using o1(5) d(3) s(5) Suc(4) fuel by (simp add: moved_def)
    moreover have "m = ?n - Suc k" using Suc(2) by simp
    ultimately obtain sf' where ih: "ends st3 (Some sf') ts (parse_definitions fuel' st3 sf1)"
      "sf_names sf' = sf_names sf1 @ names_from t (Suc k)" "sf_types sf' = sf_types sf1 @ types_from t (Suc k)"
      using Suc(1) [of "Suc k" st3 fuel' sf1] True s(4) by blast
    have "parse_definitions fuel st sf = parse_definitions fuel' st3 sf1"
      using o1 d a s by (simp add: fuel parse_definitions.simps)
    with ends_moved [OF moved_trans [OF moved_trans [OF o1(4) d(3)] s(5)] ih(1)] ih(2,3) a(2,3) True Suc(3) show ?thesis
      by (intro exI [of _ sf']) (simp add: up)
  next
    case False
    then have "ready st2 (Close_Array # ts)" using d(2) by (simp add: sep_tokens_def)
    from ready_token [OF this assms(3)] obtain s st3 where s: "next_token st2 = (s, st3)" "tk_type s = TOKEN_ARRAY_END"
      "tk_value s = None" "ready st3 ts" "moved st2 st3" .
    have "parse_definitions fuel st sf = Returns (Some sf1, st3)"
      using o1 d a s by (simp add: fuel parse_definitions.simps)
    with ends_moved [OF moved_trans [OF moved_trans [OF o1(4) d(3)] s(5)] ends_Returns [OF s(4)]] a(2,3) False Suc(3) show ?thesis
      by (intro exI [of _ sf1]) (simp add: up)
  qed
qed simp

lemma ready_value:
  assumes "ready st (Colon # (ty, v) # ts)" and "ts \<noteq> []"
  obtains ct st1 vt st2 where "next_token st = (ct, st1)" "tk_type ct = TOKEN_COLON" "next_token st1 = (vt, st2)"
    "tk_type vt = ty" "tk_value vt = v" "ready st2 ts" "moved st st2" "bytes_left st2 < bytes_left st"
proof -
  from ready_next [OF assms(1) list.distinct(2)] obtain ct st1 where 1: "next_token st = (ct, st1)" "tk_type ct = TOKEN_COLON"
    "ready st1 ((ty, v) # ts)" "moved st st1" "bytes_left st1 < bytes_left st" by blast
  from ready_token [OF 1(3) assms(2)] obtain vt st2 where 2: "next_token st1 = (vt, st2)" "tk_type vt = ty" "tk_value vt = v"
    "ready st2 ts" "moved st1 st2" .
  have "bytes_left st2 < bytes_left st" using 1(5) 2(5) by (simp add: moved_def)
  with that [OF 1(1,2) 2(1-4) moved_trans [OF 1(4) 2(5)]] show thesis .
qed

lemma ready_separated:
  assumes "ready st (Comma # Str k # ts)" and "ts \<noteq> []"
  obtains s st1 kt st2 where "next_token st = (s, st1)" "tk_type s = TOKEN_COMMA" "next_token st1 = (kt, st2)"
    "tk_type kt = TOKEN_STRING" "tk_value kt = Some k" "ready st2 ts" "moved st st2"
proof -
  from ready_token [OF assms(1) list.distinct(2)] obtain s st1 where 1: "next_token st = (s, st1)" "tk_type s = TOKEN_COMMA"
    "tk_value s = None" "ready st1 (Str k # ts)" "moved st st1" .
  from ready_token [OF 1(4) assms(2)] obtain kt st2 where 2: "next_token st1 = (kt, st2)" "tk_type kt = TOKEN_STRING"
    "tk_value kt = Some k" "ready st2 ts" "moved st1 st2" .
  show thesis by (rule that [OF 1(1,2) 2(1-4) moved_trans [OF 1(5) 2(5)]])
qed

lemma schema_object:
  assumes "bytes_left st < fuel" and "tk_type token = TOKEN_STRING" and "tk_value token = Some ''schema''"
    and "ready st (Colon # Open_Object # Str k # ts)" and "ts \<noteq> []"
    and "\<And>kt st1 fuel1. bytes_left st1 < fuel1 \<Longrightarrow> tk_type kt = TOKEN_STRING \<Longrightarrow> tk_value kt = Some k \<Longrightarrow> ready st1 ts \<Longrightarrow>
      \<exists>y. P y \<and> ends st1 (f y) us (parse_schema fuel1 kt st1 nm sf)"
  shows "\<exists>y. P y \<and> ends st (f y) us (parse_schema fuel token st nm sf)"
proof -
  obtain fuel' where fuel: "fuel = Suc fuel'" using assms(1) by (cases fuel) auto
  from ready_value [OF assms(4) list.distinct(2)] obtain ct st1 vt st2 where
    v: "next_token st = (ct, st1)" "tk_type ct = TOKEN_COLON" "next_token st1 = (vt, st2)" "tk_type vt = TOKEN_OBJECT_START"
    "tk_value vt = None" "ready st2 (Str k # ts)" "moved st st2" "bytes_left st2 < bytes_left st" .
  from ready_token [OF v(6) assms(5)] obtain kt st3 where n: "next_token st2 = (kt, st3)" "tk_type kt = TOKEN_STRING"
    "tk_value kt = Some k" "ready st3 ts" "moved st2 st3" .
  have "bytes_left st3 < fuel'" using v(8) n(5) assms(1) fuel by (simp add: moved_def)
  from assms(6) [OF this n(2-4)] obtain y where y: "P y" "ends st3 (f y) us (parse_schema fuel' kt st3 nm sf)" by blast
  have "parse_schema fuel token st nm sf = parse_schema fuel' kt st3 nm sf"
    using v n assms(2,3) by (simp add: fuel parse_schema.simps Let_def)
  with y(1) ends_moved [OF moved_trans [OF v(7) n(5)] y(2)] show ?thesis by (intro exI [of _ y]) simp
qed

lemma schema_name:
  assumes "bytes_left st < fuel" and "tk_type token = TOKEN_STRING" and "tk_value token = Some ''name''"
    and "ready st (Colon # Str v # Comma # Str k # ts)" and "ts \<noteq> []"
    and "\<And>kt st1 fuel1. bytes_left st1 < fuel1 \<Longrightarrow> tk_type kt = TOKEN_STRING \<Longrightarrow> tk_value kt = Some k \<Longrightarrow> ready st1 ts \<Longrightarrow>
      \<exists>y. P y \<and> ends st1 (f y) us (parse_schema fuel1 kt st1 (store_name MAX_TABLE_NAME v) sf)"
  shows "\<exists>y. P y \<and> ends st (f y) us (parse_schema fuel token st nm sf)"
proof -
  obtain fuel' where fuel: "fuel = Suc fuel'" using assms(1) by (cases fuel) auto
  from ready_value [OF assms(4) list.distinct(2)] obtain ct st1 vt st2 where
    v: "next_token st = (ct, st1)" "tk_type ct = TOKEN_COLON" "next_token st1 = (vt, st2)" "tk_type vt = TOKEN_STRING"
    "tk_value vt = Some v" "ready st2 (Comma # Str k # ts)" "moved st st2" "bytes_left st2 < bytes_left st" .
  from ready_separated [OF v(6) assms(5)] obtain s st3 kt st4 where
    n: "next_token st2 = (s, st3)" "tk_type s = TOKEN_COMMA" "next_token st3 = (kt, st4)"
    "tk_type kt = TOKEN_STRING" "tk_value kt = Some k" "ready st4 ts" "moved st2 st4" .
  have "bytes_left st4 < fuel'" using v(8) n(7) assms(1) fuel by (simp add: moved_def)
  from assms(6) [OF this n(4-6)] obtain y where
    y: "P y" "ends st4 (f y) us (parse_schema fuel' kt st4 (store_name MAX_TABLE_NAME v) sf)" by blast
  have "parse_schema fuel token st nm sf = parse_schema fuel' kt st4 (store_name MAX_TABLE_NAME v) sf"
    using v n assms(2,3) by (simp add: fuel parse_schema.simps Let_def)
  with y(1) ends_moved [OF moved_trans [OF v(7) n(7)] y(2)] show ?thesis by (intro exI [of _ y]) simp
qed

lemma schema_count:
  assumes "bytes_left st < fuel" and "tk_type token = TOKEN_STRING" and "tk_value token = Some ''record_count''"
    and "ready st (Colon # Num v # Close_Object # ts)" and "ts \<noteq> []"
  shows "ends st (Some (nm, sf)) ts (parse_schema fuel token st nm sf)"
proof -
  obtain fuel' where fuel: "fuel = Suc fuel'" using assms(1) by (cases fuel) auto
  from ready_value [OF assms(4) list.distinct(2)] obtain ct st1 vt st2 where
    v: "next_token st = (ct, st1)" "tk_type ct = TOKEN_COLON" "next_token st1 = (vt, st2)" "tk_type vt = TOKEN_NUMBER"
    "tk_value vt = Some (show_int v)" "ready st2 (Close_Object # ts)" "moved st st2" "bytes_left st2 < bytes_left st" .
  from ready_token [OF v(6) assms(5)] obtain s st3 where n: "next_token st2 = (s, st3)" "tk_type s = TOKEN_OBJECT_END"
    "tk_value s = None" "ready st3 ts" "moved st2 st3" .
  have "skip_token vt st2 = (SUCCESS, st2)" by (rule skip_plain) (simp add: v(4))
  then have "parse_schema fuel token st nm sf = Returns (Some (nm, sf), st3)"
    using v n assms(2,3) by (simp add: fuel parse_schema.simps Let_def)
  then show ?thesis using n(4) moved_trans [OF v(7) n(5)] by (simp add: ends_def)
qed

lemma schema_fields:
  assumes "bytes_left st < fuel" and "tk_type token = TOKEN_STRING" and "tk_value token = Some ''fields''" and "0 < t_field_count t"
    and "ready st (Colon # Open_Array # concat (map (definition_tokens t) [0..<t_field_count t]) @ Close_Array # Comma # Str k # ts)"
    and "ts \<noteq> []"
    and "\<And>kt st1 fuel1 sf'. bytes_left st1 < fuel1 \<Longrightarrow> tk_type kt = TOKEN_STRING \<Longrightarrow> tk_value kt = Some k \<Longrightarrow> ready st1 ts \<Longrightarrow>
      sf_names sf' = sf_names sf @ names_from t 0 \<Longrightarrow> sf_types sf' = sf_types sf @ types_from t 0 \<Longrightarrow>
      \<exists>y. P y \<and> ends st1 (Some (nm, y)) us (parse_schema fuel1 kt st1 nm sf')"
  shows "\<exists>y. P y \<and> ends st (Some (nm, y)) us (parse_schema fuel token st nm sf)"
proof -
  obtain fuel' where fuel: "fuel = Suc fuel'" using assms(1) by (cases fuel) auto
  let ?rest = "concat (map (definition_tokens t) [0..<t_field_count t]) @ [Close_Array] @ Comma # Str k # ts"
  have "ready st (Colon # Open_Array # ?rest)" "?rest \<noteq> []" using assms(5) by simp_all
  from ready_value [OF this] obtain ct st1 vt st2 where
    v: "next_token st = (ct, st1)" "tk_type ct = TOKEN_COLON" "next_token st1 = (vt, st2)" "tk_type vt = TOKEN_ARRAY_START"
    "tk_value vt = None" "ready st2 ?rest" "moved st st2" "bytes_left st2 < bytes_left st" .
  have "bytes_left st2 < bytes_left st2 + 1" by simp
  from definitions_end [OF assms(4) this list.distinct(2) v(6), of sf] obtain sf' st3 where
    d: "parse_definitions (bytes_left st2 + 1) st2 sf = Returns (Some sf', st3)" "ready st3 (Comma # Str k # ts)" "moved st2 st3"
    "sf_names sf' = sf_names sf @ names_from t 0" "sf_types sf' = sf_types sf @ types_from t 0" unfolding ends_def by blast
  from ready_separated [OF d(2) assms(6)] obtain s st4 kt st5 where
    n: "next_token st3 = (s, st4)" "tk_type s = TOKEN_COMMA" "next_token st4 = (kt, st5)"
    "tk_type kt = TOKEN_STRING" "tk_value kt = Some k" "ready st5 ts" "moved st3 st5" .
  have "bytes_left st5 < fuel'" using v(8) d(3) n(7) assms(1) fuel by (simp add: moved_def)
  from assms(7) [OF this n(4-6) d(4,5)] obtain y where
    y: "P y" "ends st5 (Some (nm, y)) us (parse_schema fuel' kt st5 nm sf')" by blast
  have "parse_schema fuel token st nm sf = parse_schema fuel' kt st5 nm sf'"
    using v d n assms(2,3) by (simp add: fuel parse_schema.simps Let_def)
  with y ends_moved [OF moved_trans [OF moved_trans [OF v(7) d(3)] n(7)] y(2)] show ?thesis by (intro exI [of _ y]) simp
qed

definition empty_copy :: "Table \<Rightarrow> Table" where
  \<comment> \<open>a new table of the same schema\<close>
  "empty_copy t = new_table (\<lambda>_. True) (t_name t) (t_field_names t) (t_field_types t) (t_field_count t)"

lemma names_types_from:
  assumes "plain_table t"
  shows "names_from t 0 = map Some (t_field_names t)" and "types_from t 0 = t_field_types t"
proof -
  have l: "length (t_field_names t) = t_field_count t" "length (t_field_types t) = t_field_count t"
    "\<forall>ty \<in> set (t_field_types t). ty = TYPE_INT \<or> ty = TYPE_STRING \<or> ty = TYPE_BOOL"
    using assms by (auto simp: plain_table_def schema_ok_def)
  show "names_from t 0 = map Some (t_field_names t)" using l(1) by (simp add: names_from_def list_eq_iff_nth_eq)
  have "string_to_field_type (Some (field_type_to_string (t_field_types t ! i))) = t_field_types t ! i" if "i < t_field_count t" for i
    using l(2,3) that nth_mem [of i "t_field_types t"]
    by (auto simp: string_to_field_type_def strcasecmp_eval dest!: bspec [of _ _ "t_field_types t ! i"])
  then show "types_from t 0 = t_field_types t" using l(2) by (simp add: types_from_def list_eq_iff_nth_eq)
qed

lemma parse_schema_ends:
  assumes "plain_table t" and "bytes_left st < fuel" and "tk_type token = TOKEN_STRING" and "tk_value token = Some ''schema''"
    and "ready st (tl (schema_tokens t) @ ts)" and "ts \<noteq> []"
  shows "\<exists>sf. sf_names sf = map Some (t_field_names t) \<and> sf_types sf = t_field_types t \<and>
    ends st (Some (t_name t, sf)) ts (parse_schema fuel token st [] no_fields)"
proof -
  have n: "store_name MAX_TABLE_NAME (t_name t) = t_name t" "0 < t_field_count t"
    using assms(1) by (auto simp: plain_table_def schema_ok_def plain_text_def MAX_TABLE_NAME_def)
  let ?defs = "concat (map (definition_tokens t) [0..<t_field_count t])"
  let ?P = "\<lambda>sf. sf_names sf = map Some (t_field_names t) \<and> sf_types sf = t_field_types t"
  have r: "ready st (Colon # Open_Object # Str ''name'' # Colon # Str (t_name t) # Comma # Str ''fields'' # Colon # Open_Array #
      ?defs @ Close_Array # Comma # Str ''record_count'' # Colon # Num (int (t_record_count t)) # Close_Object # ts)"
    using assms(5) by (simp add: schema_tokens_def Key_def)
  have fields: "\<exists>y. ?P y \<and> ends st1 (Some (t_name t, y)) ts (parse_schema fuel1 kt st1 (t_name t) no_fields)"
    if "bytes_left st1 < fuel1" "tk_type kt = TOKEN_STRING" "tk_value kt = Some ''fields''"
      "ready st1 (Colon # Open_Array # ?defs @ Close_Array # Comma # Str ''record_count'' #
         Colon # Num (int (t_record_count t)) # Close_Object # ts)" for st1 fuel1 kt
    by (rule schema_fields [OF that(1-3) n(2) that(4)], simp, rule exI, rule conjI [OF _ schema_count], simp_all add: assms(6))
      (simp_all add: names_types_from [OF assms(1)] no_fields_def)
  have "\<exists>y. ?P y \<and> ends st (Some (t_name t, y)) ts (parse_schema fuel token st [] no_fields)"
  proof (rule schema_object [OF assms(2-4) r])
    fix kt :: JsonToken and st1 :: LoadState and fuel1
    assume "bytes_left st1 < fuel1" "tk_type kt = TOKEN_STRING" "tk_value kt = Some ''name''"
      "ready st1 (Colon # Str (t_name t) # Comma # Str ''fields'' # Colon # Open_Array #
         ?defs @ Close_Array # Comma # Str ''record_count'' # Colon # Num (int (t_record_count t)) # Close_Object # ts)"
    then show "\<exists>y. ?P y \<and> ends st1 (Some (t_name t, y)) ts (parse_schema fuel1 kt st1 [] no_fields)"
      by (rule schema_name) (use fields in \<open>simp_all add: n(1)\<close>)
  qed simp
  then show ?thesis by blast
qed

lemma empty_copy_frame [simp]:
  assumes "plain_table t"
  shows "t_name (empty_copy t) = t_name t" "t_field_names (empty_copy t) = t_field_names t"
    "t_field_types (empty_copy t) = t_field_types t" "t_field_count (empty_copy t) = t_field_count t"
    "t_constraints (empty_copy t) = t_constraints t" "t_records (empty_copy t) = []"
proof -
  have l: "length (t_field_names t) = t_field_count t" "length (t_field_types t) = t_field_count t"
    "t_constraints t = map default_constraint [0..<t_field_count t]" "nul_free (t_name t)" "length (t_name t) < 64"
    using assms by (simp_all add: plain_table_def schema_ok_def plain_text_def MAX_TABLE_NAME_def)
  have nth: "map (\<lambda>i. t_field_names t ! i) [0..<t_field_count t] = t_field_names t"
    "map (\<lambda>i. t_field_types t ! i) [0..<t_field_count t] = t_field_types t"
    using map_nth [of "t_field_names t"] map_nth [of "t_field_types t"] l(1,2) by simp_all
  show "t_name (empty_copy t) = t_name t" "t_field_names (empty_copy t) = t_field_names t"
    "t_field_types (empty_copy t) = t_field_types t" "t_field_count (empty_copy t) = t_field_count t"
    "t_constraints (empty_copy t) = t_constraints t" "t_records (empty_copy t) = []"
    using l nth by (simp_all add: empty_copy_def new_table_def MAX_TABLE_NAME_def)
qed

lemma add_table_copy:
  assumes "plain_table t" and "db_ok db" and "db_table_count db < MAX_TABLES" and "t_name t \<notin> t_name ` set (db_tables db)"
  obtains db' where "db_add_table (\<lambda>_. True) db (Some (t_name t)) (Some (t_field_names t)) (Some (t_field_types t))
      (int (t_field_count t)) = (SUCCESS, Some (db_table_count db), db')"
    "db_tables db' = db_tables db @ [empty_copy t]" "db_table_count db' = Suc (db_table_count db)"
proof -
  have c: "db_table_count db = length (db_tables db)" using assms(2) by (simp add: db_ok_def tables_ok_def)
  have "1 \<le> t_field_count t" "t_field_count t \<le> MAX_FIELDS_PER_TABLE" using assms(1) by (simp_all add: plain_table_def schema_ok_def)
  moreover have "\<not> list_ex (\<lambda>u. strcmp (t_name u) (t_name t) = 0) (take (db_table_count db) (db_tables db))"
    using assms(4) c by (auto simp: list_ex_iff rev_image_eqI)
  ultimately show thesis
    using that assms(3) c by (simp add: db_add_table_def Let_def empty_copy_def store_slot_def list_ex_iff grow_tables_def)
qed

lemma table_schema_ends:
  assumes "plain_table t" and "ready st (schema_tokens t @ ts)" and "ts \<noteq> []"
    and "db_ok (ls_db st)" and "db_table_count (ls_db st) < MAX_TABLES" and "t_name t \<notin> t_name ` set (db_tables (ls_db st))"
  obtains st' where "json_parse_table_schema st = Returns (SUCCESS, Some (db_table_count (ls_db st)), st')"
    "ready st' ts" "bytes_left st' \<le> bytes_left st" "ls_counter st' = ls_counter st"
    "db_tables (ls_db st') = db_tables (ls_db st) @ [empty_copy t]" "db_table_count (ls_db st') = Suc (db_table_count (ls_db st))"
    "db_ok (ls_db st')"
proof -
  have len: "length (t_field_names t) = t_field_count t" "t_field_names t \<noteq> []" "t_name t \<noteq> []"
    using assms(1) by (auto simp: plain_table_def schema_ok_def)
  have "ready st (Str ''schema'' # (tl (schema_tokens t) @ ts))" "tl (schema_tokens t) @ ts \<noteq> []"
    using assms(2,3) by (simp_all add: schema_tokens_def Key_def)
  from ready_token [OF this] obtain token st1 where n: "next_token st = (token, st1)" "tk_type token = TOKEN_STRING"
    "tk_value token = Some ''schema''" "ready st1 (tl (schema_tokens t) @ ts)" "moved st st1" .
  have "bytes_left st1 < bytes_left st1 + 1" by simp
  from parse_schema_ends [OF assms(1) this n(2-4) assms(3)] obtain sf st2 where
    s: "sf_names sf = map Some (t_field_names t)" "sf_types sf = t_field_types t"
    "parse_schema (bytes_left st1 + 1) token st1 [] no_fields = Returns (Some (t_name t, sf), st2)"
    "ready st2 ts" "moved st1 st2" unfolding ends_def by blast
  have db: "ls_db st2 = ls_db st" using n(5) s(5) by (simp add: moved_def)
  obtain db' where a: "db_add_table (\<lambda>_. True) (ls_db st) (Some (t_name t)) (Some (t_field_names t)) (Some (t_field_types t))
      (int (t_field_count t)) = (SUCCESS, Some (db_table_count (ls_db st)), db')"
    "db_tables db' = db_tables (ls_db st) @ [empty_copy t]" "db_table_count db' = Suc (db_table_count (ls_db st))"
    using add_table_copy [OF assms(1,4-6)] .
  have "map (case_option [] (\<lambda>s. s)) (sf_names sf) = t_field_names t" by (simp add: s(1) comp_def)
  moreover have "find_index (\<lambda>n. n = None) (sf_names sf) = None" by (auto simp: find_index_None_iff s(1))
  ultimately have "add_parsed_table (ls_alloc st2) (ls_db st2) (t_name t) sf = Returns (SUCCESS, Some (db_table_count (ls_db st)), db')"
    using a(1) len(1) s(1,2) ready_allocs(2) [OF s(4)] by (simp add: add_parsed_table_def db)
  moreover have "use_allocs k (st2\<lparr>ls_db := db'\<rparr>) = st2\<lparr>ls_db := db'\<rparr>" for k
    using ready_allocs(2) [OF s(4)] by (simp add: use_allocs_def shift_alloc_def)
  ultimately have "json_parse_table_schema st = Returns (SUCCESS, Some (db_table_count (ls_db st)), st2\<lparr>ls_db := db'\<rparr>)"
    using n(1,2) s(1,3) len by (simp add: json_parse_table_schema_def)
  from that [OF this] show thesis
    using s(4,5) n(5) a(2,3) db_add_table_ok [OF assms(4) a(1)] by (simp add: ready_def moved_def bytes_left_def)
qed

section \<open>Records\<close>

definition kept :: "Field \<Rightarrow> FieldValue \<Rightarrow> bool" where
  \<comment> \<open>what is left of a value: a null becomes zero bytes\<close>
  "kept f v \<longleftrightarrow> same_content f v \<and> (f_type f = TYPE_NULL \<longrightarrow> v = zero_value)"

lemma value_of_token_kept:
  assumes "f_type f \<in> text_types" and "f_type f \<noteq> TYPE_NULL \<Longrightarrow> ty = f_type f"
    and "json_parse_token ctx = (token, ctx')" and "tk_type token = fst (value_token f)" and "tk_value token = snd (value_token f)"
  obtains v where "json_parse_field_value lib mk ctx ty = (v, ctx')" "kept f (f_value v)"
proof -
  have nf: "nul_free (string_value x)" for x by (simp add: string_value_def)
  from assms(1) consider "f_type f = TYPE_INT" | "f_type f = TYPE_STRING" | "f_type f = TYPE_BOOL" | "f_type f = TYPE_NULL"
    by (auto simp: text_types_def)
  then have "kept f (f_value (fst (json_parse_field_value lib mk ctx ty)))"
    using assms(2-5) nul_free_escaped [OF nf]
    by cases (simp_all add: json_parse_field_value_def value_token_def value_of_token_def kept_def same_content_def
        strncpy_zero [unfolded One_nat_def] zero_field_def)
  with assms(3) show thesis by (intro that [of "fst (json_parse_field_value lib mk ctx ty)"])
    (simp_all add: json_parse_field_value_def)
qed

lemma fields_read:
  assumes "plain_names t" and "texts_ok t r" and "ts \<noteq> []"
    and "k < t_field_count t" and "left ctx < fuel" and "length fs = t_field_count t"
    and "spells (cx_rest ctx) (concat (map (member_tokens t r) [k..<t_field_count t]) @ [Close_Object] @ ts)"
  shows "\<exists>fs' ctx'. read_fields lib mk t fuel ctx fs = Returns (fs', ctx') \<and> spells (cx_rest ctx') ts \<and>
     length fs' = t_field_count t \<and> (\<forall>i < k. fs' ! i = fs ! i) \<and>
     (\<forall>i < t_field_count t. k \<le> i \<longrightarrow> kept (r_fields r ! i) (f_value (fs' ! i)))"
  using assms(4-7)
proof (induction "t_field_count t - k" arbitrary: k ctx fuel fs)
  case (Suc m)
  let ?n = "t_field_count t" and ?f = "r_fields r ! k" and ?name = "t_field_names t ! k"
  let ?more = "concat (map (member_tokens t r) [Suc k..<?n]) @ [Close_Object] @ ts"
  obtain fuel' where fuel: "fuel = Suc fuel'" using Suc(4) by (cases fuel) auto
  have f: "f_type ?f \<in> text_types" "f_type ?f \<noteq> TYPE_NULL \<Longrightarrow> t_field_types t ! k = f_type ?f"
    using assms(2) Suc(3) by (auto simp: texts_ok_def)
  obtain vty vv where vt: "value_token ?f = (vty, vv)" by fastforce
  have r: "spells (cx_rest ctx) (Str ?name # Colon # (vty, vv) # sep_tokens ?n k @ ?more)" "sep_tokens ?n k @ ?more \<noteq> []"
    using Suc(6) upt_conv_Cons [OF Suc(3)] by (simp_all add: member_tokens_def Key_def vt)
  from spells_parse [OF r(1) list.distinct(2)] obtain kt c1 where key: "json_parse_token ctx = (kt, c1)"
    "tk_type kt = TOKEN_STRING" "tk_value kt = Some ?name" "spells (cx_rest c1) (Colon # (vty, vv) # sep_tokens ?n k @ ?more)" .
  from spells_parse [OF key(4) list.distinct(2)] obtain ct c2 where colon: "json_parse_token c1 = (ct, c2)"
    "tk_type ct = TOKEN_COLON" "tk_value ct = None" "spells (cx_rest c2) ((vty, vv) # sep_tokens ?n k @ ?more)" .
  from spells_parse [OF colon(4) r(2)] obtain v c3 where val: "json_parse_token c2 = (v, c3)"
    "tk_type v = vty" "tk_value v = vv" "spells (cx_rest c3) (sep_tokens ?n k @ ?more)" .
  from value_of_token_kept [OF f val(1)] val(2,3) vt obtain parsed where
    parsed: "json_parse_field_value lib mk c2 (t_field_types t ! k) = (parsed, c3)" "kept ?f (f_value parsed)"
    by (metis fst_conv snd_conv)
  define fs1 where "fs1 = store_parsed fs k parsed"
  have member: "json_field_member lib mk t c2 ?name fs = (fs1, c3)"
    using find_field_nth [OF assms(1) Suc(3)] parsed(1) by (simp add: json_field_member_def fs1_def)
  have fs1: "length fs1 = ?n" "\<And>i. i \<noteq> k \<Longrightarrow> fs1 ! i = fs ! i" "kept ?f (f_value (fs1 ! k))"
    using Suc(3,5) parsed(2) by (simp_all add: fs1_def store_parsed_def)
  show ?case
  proof (cases "Suc k < ?n")
    case True
    have "spells (cx_rest c3) (Comma # ?more)" "?more \<noteq> []" using val(4) True by (simp_all add: sep_tokens_def)
    from spells_parse [OF this] obtain s c4 where sep: "json_parse_token c3 = (s, c4)" "tk_type s = TOKEN_COMMA"
      "tk_value s = None" "spells (cx_rest c4) ?more" .
    have "left c4 \<le> left c1"
      using json_parse_token_progress(2) [OF colon(1)] json_field_member_left [OF member]
        json_parse_token_progress(2) [OF sep(1)] by simp
    with json_parse_token_less [OF key(1,2)] Suc(4) fuel have "left c4 < fuel'" by simp
    moreover have "m = ?n - Suc k" using Suc(2) by simp
    ultimately obtain fs' ctx' where ih: "read_fields lib mk t fuel' c4 fs1 = Returns (fs', ctx')" "spells (cx_rest ctx') ts"
      "length fs' = ?n" "\<forall>i < Suc k. fs' ! i = fs1 ! i"
      "\<forall>i < ?n. Suc k \<le> i \<longrightarrow> kept (r_fields r ! i) (f_value (fs' ! i))"
      using Suc(1) [of "Suc k" c4 fuel' fs1] True fs1(1) sep(4) by blast
    have "read_fields lib mk t fuel ctx fs = Returns (fs', ctx')"
      using key colon member sep ih(1) by (simp add: fuel)
    moreover have "kept (r_fields r ! i) (f_value (fs' ! i))" if "i < ?n" "k \<le> i" for i
      using that ih(4,5) fs1(3) by (cases "i = k") auto
    ultimately show ?thesis using ih(2-4) fs1(2) by (intro exI [of _ fs'] exI [of _ ctx']) auto
  next
    case False
    then have "spells (cx_rest c3) (Close_Object # ts)" using val(4) by (simp add: sep_tokens_def)
    from spells_parse [OF this assms(3)] obtain s c4 where sep: "json_parse_token c3 = (s, c4)" "tk_type s = TOKEN_OBJECT_END"
      "tk_value s = None" "spells (cx_rest c4) ts" .
    have "read_fields lib mk t fuel ctx fs = Returns (fs1, c4)"
      using key colon member sep by (simp add: fuel)
    moreover have "kept (r_fields r ! i) (f_value (fs1 ! i))" if "i < ?n" "k \<le> i" for i
    proof -
      have "i = k" using that False by simp
      with fs1(3) show ?thesis by simp
    qed
    ultimately show ?thesis using sep(4) fs1(1,2) by (intro exI [of _ fs1] exI [of _ c4]) auto
  qed
qed simp

lemma members_metadata:
  assumes "bytes_left st < fuel" and "ts \<noteq> []"
    and "ready st (Key ''metadata'' @ Open_Object # Key ''timestamp'' @ Str s # Comma # Key ''version'' @ Num v # Close_Object # Close_Object # ts)"
  shows "ends st (Some (k, fs)) ts (parse_members lib mk t fuel st k fs)"
proof -
  obtain fuel' where fuel: "fuel = Suc fuel'" using assms(1) by (cases fuel) auto
  let ?rest = "Key ''timestamp'' @ Str s # Comma # Key ''version'' @ Num v # Close_Object # Close_Object # ts"
  have "ready st (Key ''metadata'' @ Open_Object # ?rest)" "?rest \<noteq> []" using assms(3) by simp_all
  from ready_member [OF this] obtain kt st1 ct st2 vt st3 where
    m: "next_token st = (kt, st1)" "tk_type kt = TOKEN_STRING" "tk_value kt = Some ''metadata''"
    "next_token st1 = (ct, st2)" "tk_type ct = TOKEN_COLON" "next_token st2 = (vt, st3)" "tk_type vt = TOKEN_OBJECT_START"
    "tk_value vt = None" "ready st3 ?rest" "moved st st3" "bytes_left st3 < bytes_left st" .
  from skip_object [OF m(7,9) list.distinct(2)] obtain st4 where s: "skip_token vt st3 = (SUCCESS, st4)"
    "ready st4 (Close_Object # ts)" "moved st3 st4" by auto
  from ready_token [OF s(2) assms(2)] obtain c st5 where n: "next_token st4 = (c, st5)" "tk_type c = TOKEN_OBJECT_END"
    "tk_value c = None" "ready st5 ts" "moved st4 st5" .
  have "parse_members lib mk t fuel st k fs = Returns (Some (k, fs), st5)"
    using m s n by (simp add: fuel parse_members.simps Let_def)
  then show ?thesis using n(4) moved_trans [OF moved_trans [OF m(10) s(3)] n(5)] by (simp add: ends_def)
qed

lemma parse_fields_ends:
  assumes "plain_names t" and "texts_ok t r" and "ts \<noteq> []" and "0 < t_field_count t" and "length fs = t_field_count t"
    and "ready st (concat (map (member_tokens t r) [0..<t_field_count t]) @ [Close_Object] @ ts)"
  obtains fs' where "ends st (Some fs') ts (parse_fields lib mk t st fs)" "length fs' = t_field_count t"
    "\<forall>i < t_field_count t. kept (r_fields r ! i) (f_value (fs' ! i))"
proof -
  have s: "spells (cx_rest (ls_ctx st)) (concat (map (member_tokens t r) [0..<t_field_count t]) @ [Close_Object] @ ts)"
    using assms(6) by (simp add: ready_def)
  have l: "left (ls_ctx st) < bytes_left st + 1" by (simp add: bytes_left_def)
  from fields_read [OF assms(1-4) l assms(5) s, of lib mk] obtain fs' ctx' where
    f: "read_fields lib mk t (bytes_left st + 1) (ls_ctx st) fs = Returns (fs', ctx')" "spells (cx_rest ctx') ts"
    "length fs' = t_field_count t" "\<forall>i < t_field_count t. kept (r_fields r ! i) (f_value (fs' ! i))" by auto
  have "left ctx' \<le> left (ls_ctx st)" using read_fields_enough [OF l, of lib mk t fs] f(1) by blast
  with f(1,2) assms(6) have "ends st (Some fs') ts (parse_fields lib mk t st fs)"
    by (simp add: ends_def parse_fields_def ready_def moved_def bytes_left_def del: read_fields.simps)
  with that f(3,4) show thesis by blast
qed

lemma members_end:
  assumes "plain_names t" and "texts_ok t r" and "ts \<noteq> []" and "0 < t_field_count t" and "length fs = t_field_count t"
    and "c_int (r_id r)" and "bytes_left st < fuel" and "ready st (tl (record_tokens env t r) @ ts)"
  obtains fs' where "ends st (Some (r_id r, fs')) ts (parse_members lib mk t fuel st j fs)" "length fs' = t_field_count t"
    "\<forall>i < t_field_count t. kept (r_fields r ! i) (f_value (fs' ! i))"
proof -
  obtain fuel1 where fuel1: "fuel = Suc fuel1" using assms(7) by (cases fuel) auto
  let ?meta = "Key ''metadata'' @ Open_Object # Key ''timestamp'' @ Str (time_text env (r_timestamp r)) # Comma #
     Key ''version'' @ Num (r_version r mod 2 ^ 32) # Close_Object # Close_Object # ts"
  let ?fields = "concat (map (member_tokens t r) [0..<t_field_count t]) @ [Close_Object] @ Comma # ?meta"
  have "ready st (Key ''id'' @ Num (r_id r) # Comma # Key ''fields'' @ Open_Object # ?fields)"
    using assms(8) by (simp add: record_tokens_def)
  from ready_member [OF this list.distinct(2)] obtain kt st1 ct st2 vt st3 where
    m: "next_token st = (kt, st1)" "tk_type kt = TOKEN_STRING" "tk_value kt = Some ''id''"
    "next_token st1 = (ct, st2)" "tk_type ct = TOKEN_COLON" "next_token st2 = (vt, st3)" "tk_type vt = TOKEN_NUMBER"
    "tk_value vt = Some (show_int (r_id r))" "ready st3 (Comma # Key ''fields'' @ Open_Object # ?fields)" "moved st st3"
    "bytes_left st3 < bytes_left st" .
  have ne: "Key ''fields'' @ Open_Object # ?fields \<noteq> []" "?fields \<noteq> []" "?meta \<noteq> []" by (simp_all add: Key_def)
  from ready_token [OF m(9) ne(1)] obtain c st4 where c: "next_token st3 = (c, st4)" "tk_type c = TOKEN_COMMA"
    "tk_value c = None" "ready st4 (Key ''fields'' @ Open_Object # ?fields)" "moved st3 st4" .
  have b4: "bytes_left st4 < fuel1" using m(11) c(5) assms(7) fuel1 by (simp add: moved_def)
  then obtain fuel2 where fuel2: "fuel1 = Suc fuel2" by (cases fuel1) auto
  from ready_member [OF c(4) ne(2)] obtain kt' st5 ct' st6 vt' st7 where
    m': "next_token st4 = (kt', st5)" "tk_type kt' = TOKEN_STRING" "tk_value kt' = Some ''fields''"
    "next_token st5 = (ct', st6)" "tk_type ct' = TOKEN_COLON" "next_token st6 = (vt', st7)" "tk_type vt' = TOKEN_OBJECT_START"
    "tk_value vt' = None" "ready st7 ?fields" "moved st4 st7" "bytes_left st7 < bytes_left st4" .
  from parse_fields_ends [OF assms(1,2) list.distinct(2) assms(4,5) m'(9)] obtain fs' where
    f: "ends st7 (Some fs') (Comma # ?meta) (parse_fields lib mk t st7 fs)" "length fs' = t_field_count t"
    "\<forall>i < t_field_count t. kept (r_fields r ! i) (f_value (fs' ! i))" .
  from f(1) obtain st8 where s8: "parse_fields lib mk t st7 fs = Returns (Some fs', st8)" "ready st8 (Comma # ?meta)" "moved st7 st8"
    by (auto simp: ends_def)
  from ready_token [OF s8(2) ne(3)] obtain c' st9 where c': "next_token st8 = (c', st9)" "tk_type c' = TOKEN_COMMA"
    "tk_value c' = None" "ready st9 ?meta" "moved st8 st9" .
  have "bytes_left st9 < fuel2" using m'(11) s8(3) c'(5) b4 fuel2 by (simp add: moved_def)
  from members_metadata [OF this assms(3) c'(4)] have
    last: "ends st9 (Some (r_id r, fs')) ts (parse_members lib mk t fuel2 st9 (r_id r) fs')" .
  have "parse_members lib mk t fuel st j fs = parse_members lib mk t fuel2 st9 (r_id r) fs'"
    using m c m' s8 c' assms(6) by (simp add: fuel1 fuel2 parse_members.simps Let_def)
  with ends_moved [OF moved_trans [OF moved_trans [OF moved_trans [OF moved_trans [OF m(10) c(5)] m'(10)] s8(3)] c'(5)] last]
    that f(2,3) show thesis by simp
qed

definition same_schema :: "Table \<Rightarrow> Table \<Rightarrow> bool" where
  "same_schema t t' \<longleftrightarrow> t_name t' = t_name t \<and> t_field_names t' = t_field_names t \<and> t_field_types t' = t_field_types t \<and>
     t_constraints t' = t_constraints t \<and> t_field_count t' = t_field_count t"

definition reloaded_record :: "Table \<Rightarrow> int \<Rightarrow> Record \<Rightarrow> Record \<Rightarrow> bool" where
  \<comment> \<open>what the loader makes of a saved record: its id becomes the first value too\<close>
  "reloaded_record t now r r' \<longleftrightarrow> r_id r' = r_id r \<and> r_field_count r' = t_field_count t \<and> r_timestamp r' = now \<and> r_version r' = 1 \<and>
     map f_type (r_fields r') = t_field_types t \<and> int_value (f_value (r_fields r' ! 0)) = r_id r \<and>
     (\<forall>i < t_field_count t. 0 < i \<longrightarrow> kept (r_fields r ! i) (f_value (r_fields r' ! i)))"

lemma same_schemaD:
  assumes "same_schema t t'"
  shows "plain_names t' = plain_names t" "texts_ok t' r = texts_ok t r" "record_tokens env t' r = record_tokens env t r"
    "reloaded_record t' now r = reloaded_record t now r" "t_field_count t' = t_field_count t"
proof -
  have "member_tokens t' r = member_tokens t r" using assms by (intro ext) (simp add: same_schema_def member_tokens_def)
  with assms show "record_tokens env t' r = record_tokens env t r" by (simp add: same_schema_def record_tokens_def)
  show "plain_names t' = plain_names t" "texts_ok t' r = texts_ok t r"
    "reloaded_record t' now r = reloaded_record t now r" "t_field_count t' = t_field_count t"
    using assms by (simp_all add: same_schema_def plain_names_def texts_ok_def reloaded_record_def fun_eq_iff)
qed

lemma set_key_field_first:
  assumes "table_ok t"
  shows "set_key_field t k fs = fs[0 := (fs ! 0)\<lparr>f_value := set_int_value k (f_value (fs ! 0)), f_type := TYPE_INT\<rparr>]"
proof -
  have "0 < t_field_count t" using assms by (simp add: table_ok_def schema_ok_def)
  with assms show ?thesis by (simp add: set_key_field_def upt_rec default_constraint_def)
qed

lemma insert_parsed_ends:
  assumes "table_ok t" and "db_tables (ls_db st) ! slot = t" and "ready st ts" and "length fs = t_field_count t"
    and "\<forall>i < t_field_count t. kept (r_fields r ! i) (f_value (fs ! i))" and "list_all field_ok fs"
    and "c_int (r_id r)" and "r_id r \<noteq> -1" and "r_id r \<notin> r_id ` set (t_records t)" and "length (t_records t) < MAX_RECORDS_PER_TABLE"
  obtains r' where "insert_parsed now slot (r_id r) fs st = (SUCCESS, st\<lparr>ls_db := put_table (ls_db st) slot (link_record t r')\<rparr>)"
    "reloaded_record t now r r'" "table_ok (link_record t r')"
proof -
  let ?vals = "set_key_field t (r_id r) fs"
  let ?r = "new_record now t (r_id r) ?vals"
  have n: "0 < t_field_count t" "length (t_field_types t) = t_field_count t" "t_record_count t = length (t_records t)"
    using assms(1) by (simp_all add: table_ok_def schema_ok_def rows_ok_def)
  have v: "?vals ! 0 = (fs ! 0)\<lparr>f_value := set_int_value (r_id r) (f_value (fs ! 0)), f_type := TYPE_INT\<rparr>"
    "\<And>i. 0 < i \<Longrightarrow> ?vals ! i = fs ! i" using n(1) assms(4) by (simp_all add: set_key_field_first [OF assms(1)])
  have "pk_record_id t ?vals = r_id r" using assms(7) by (simp add: pk_record_id_eq [OF assms(1)] v)
  then have "table_insert_record (ls_alloc st) now (ls_counter st) t ?vals = (SUCCESS, Some (r_id r), ls_counter st, link_record t ?r)"
    using assms(8-10) n(3) ready_allocs(2) [OF assms(3)] v(1) not_null_never [OF assms(1)]
    by (auto simp: table_insert_record_def table_find_record_None Let_def)
  then have i: "insert_parsed now slot (r_id r) fs st = (SUCCESS, st\<lparr>ls_db := put_table (ls_db st) slot (link_record t ?r)\<rparr>)"
    using assms(2,8) by (simp add: insert_parsed_def Let_def)
  have "fields_ok (t_field_count t) ?vals" using assms(4,6) by (intro set_key_field_ok) (simp add: fields_ok_def)
  then have "record_ok (t_field_count t) ?r" by (intro record_ok_new assms(7)) (simp add: values_ok_def fields_ok_def)
  then have ok: "table_ok (link_record t ?r)" using assms(9,10) n(3) by (intro table_ok_link assms(1)) simp_all
  have "map f_type (r_fields ?r) = t_field_types t"
    using n(2) map_nth [of "t_field_types t"] by (simp add: new_record_def copied_fields_def comp_def)
  then have "reloaded_record t now r ?r"
    using n(1) v assms(5,7) by (auto simp: reloaded_record_def new_record_def copied_fields_def)
  with that i ok show thesis by blast
qed

lemma separated_Cons: "separated (us # rest) = us @ (if rest = [] then [] else Comma # separated rest)"
  by (cases rest) simp_all

lemma put_table_twice [simp]: "put_table (put_table db i t) i t' = put_table db i t'"
  by (simp add: put_table_def)

lemma put_table_same: "i < length (db_tables db) \<Longrightarrow> put_table db i (db_tables db ! i) = db"
  by (simp add: put_table_def)

lemma ready_db [simp]: "ready (st\<lparr>ls_db := db\<rparr>) ts \<longleftrightarrow> ready st ts" "bytes_left (st\<lparr>ls_db := db\<rparr>) = bytes_left st"
  by (simp_all add: ready_def bytes_left_def)

definition records_loaded :: "Table \<Rightarrow> int \<Rightarrow> Record list \<Rightarrow> Table \<Rightarrow> Table \<Rightarrow> bool" where
  \<comment> \<open>the records of a file, in front of those that are there, the last one first\<close>
  "records_loaded t now rs t1 t2 \<longleftrightarrow> same_schema t t2 \<and> table_ok t2 \<and> t_index_manager t2 = t_index_manager t1 \<and>
     (\<exists>rs'. list_all2 (reloaded_record t now) rs rs' \<and> t_records t2 = rev rs' @ t_records t1)"

lemma records_loaded_Cons:
  assumes "reloaded_record t now r r'" and "records_loaded t now rs (link_record t1 r') t2"
  shows "records_loaded t now (r # rs) t1 t2"
proof -
  from assms(2) obtain rs' where "same_schema t t2" "table_ok t2" "t_index_manager t2 = t_index_manager t1" "list_all2 (reloaded_record t now) rs rs'"
    "t_records t2 = rev rs' @ r' # t_records t1" by (auto simp: records_loaded_def)
  with assms(1) show ?thesis by (auto simp: records_loaded_def intro!: exI [of _ "r' # rs'"])
qed

definition db_ends :: "LoadState \<Rightarrow> 'a \<Rightarrow> Database \<Rightarrow> tok list \<Rightarrow> ('a \<times> LoadState) run \<Rightarrow> bool" where
  \<comment> \<open>a run that returns before these tokens with this database\<close>
  "db_ends st x db ts r \<longleftrightarrow> (\<exists>st'. r = Returns (x, st') \<and> ready st' ts \<and> ls_db st' = db \<and> ls_counter st' = ls_counter st \<and>
     bytes_left st' \<le> bytes_left st)"

lemma record_end:
  assumes "table_ok t1" and "same_schema t t1" and "slot < length (db_tables (ls_db st))" and "db_tables (ls_db st) ! slot = t1"
    and "plain_names t" and "texts_ok t r" and "ts \<noteq> []" and "ready st (record_tokens env t r @ ts)"
    and "c_int (r_id r)" and "r_id r \<noteq> -1" and "r_id r \<notin> r_id ` set (t_records t1)" and "length (t_records t1) < MAX_RECORDS_PER_TABLE"
  obtains o1 st1 r' fs st2 where "next_token st = (o1, st1)" "tk_type o1 = TOKEN_OBJECT_START" "ls_alloc st1 = (\<lambda>_. True)"
    "ls_db st1 = ls_db st"
    "parse_members lib mk t1 (bytes_left st1 + 1) st1 (-1) (initial_fields t1) = Returns (Some (r_id r, fs), st2)"
    "insert_parsed now slot (r_id r) fs st2 = (SUCCESS, st2\<lparr>ls_db := put_table (ls_db st) slot (link_record t1 r')\<rparr>)"
    "reloaded_record t now r r'" "table_ok (link_record t1 r')" "ready st2 ts" "moved st st2" "bytes_left st2 < bytes_left st"
proof -
  note same = same_schemaD [OF assms(2)]
  have n: "0 < t_field_count t1" using assms(1) by (simp add: table_ok_def schema_ok_def)
  have "ready st (Open_Object # (tl (record_tokens env t r) @ ts))" "tl (record_tokens env t r) @ ts \<noteq> []"
    using assms(7,8) by (simp_all add: record_tokens_def)
  from ready_next [OF this] obtain o1 st1 where o1: "next_token st = (o1, st1)" "tk_type o1 = TOKEN_OBJECT_START"
    "ready st1 (tl (record_tokens env t r) @ ts)" "moved st st1" "bytes_left st1 < bytes_left st" by blast
  have init: "length (initial_fields t1) = t_field_count t1" "bytes_left st1 < bytes_left st1 + 1"
    by (simp_all add: initial_fields_def)
  from members_end [of t1 r ts "initial_fields t1" st1 "bytes_left st1 + 1" env lib mk "-1"]
    assms(5-7,9) init n o1(3) same obtain fs where
    f: "ends st1 (Some (r_id r, fs)) ts (parse_members lib mk t1 (bytes_left st1 + 1) st1 (-1) (initial_fields t1))"
    "length fs = t_field_count t1" "\<forall>i < t_field_count t1. kept (r_fields r ! i) (f_value (fs ! i))" by auto
  then obtain st2 where s2: "parse_members lib mk t1 (bytes_left st1 + 1) st1 (-1) (initial_fields t1) = Returns (Some (r_id r, fs), st2)"
    "ready st2 ts" "moved st1 st2" by (auto simp: ends_def)
  have db: "ls_db st2 = ls_db st" using o1(4) s2(3) by (simp add: moved_def)
  have "list_all field_ok fs"
    using parse_members_ok [OF initial_fields_ok, of t1 st1 lib mk t1 "bytes_left st1 + 1" "-1"] s2(1) by (simp add: fields_ok_def)
  moreover have "db_tables (ls_db st2) ! slot = t1" using db assms(4) by simp
  ultimately obtain r' where r': "insert_parsed now slot (r_id r) fs st2 = (SUCCESS, st2\<lparr>ls_db := put_table (ls_db st2) slot (link_record t1 r')\<rparr>)"
    "reloaded_record t1 now r r'" "table_ok (link_record t1 r')"
    using insert_parsed_ends [OF assms(1) _ s2(2) f(2,3) _ assms(9-12), of slot now] by blast
  have "bytes_left st2 < bytes_left st" using o1(5) s2(3) by (simp add: moved_def)
  moreover have "ls_alloc st1 = (\<lambda>_. True)" "ls_db st1 = ls_db st" using o1(3,4) by (simp_all add: moved_def)
  ultimately show thesis
    using that [OF o1(1,2) _ _ s2(1) _ _ r'(3) s2(2) moved_trans [OF o1(4) s2(3)]] r'(1,2) db same(4) by simp
qed

definition savable :: "Table \<Rightarrow> Record \<Rightarrow> bool" where
  "savable t r \<longleftrightarrow> texts_ok t r \<and> c_int (r_id r) \<and> r_id r \<noteq> -1"

lemma records_end:
  assumes "plain_names t" and "ts \<noteq> []"
    and "table_ok t1" and "same_schema t t1" and "slot < length (db_tables (ls_db st))" and "db_tables (ls_db st) ! slot = t1"
    and "list_all (savable t) rs" and "distinct (map r_id rs)" and "r_id ` set rs \<inter> r_id ` set (t_records t1) = {}"
    and "length rs + length (t_records t1) \<le> MAX_RECORDS_PER_TABLE"
    and "bytes_left st < fuel" and "ready st (separated (map (record_tokens env t) rs) @ Close_Array # ts)"
  shows "\<exists>t2. records_loaded t now rs t1 t2 \<and>
    db_ends st SUCCESS (put_table (ls_db st) slot t2) ts (parse_records lib mk now slot fuel st)"
  using assms(3-12)
proof (induction rs arbitrary: t1 st fuel)
  case Nil
  obtain fuel' where fuel: "fuel = Suc fuel'" using Nil(9) by (cases fuel) auto
  have "ready st (Close_Array # ts)" using Nil(10) by simp
  from ready_token [OF this assms(2)] obtain c st1 where c: "next_token st = (c, st1)" "tk_type c = TOKEN_ARRAY_END"
    "tk_value c = None" "ready st1 ts" "moved st st1" .
  then have "parse_records lib mk now slot fuel st = Returns (SUCCESS, st1)" by (simp add: fuel parse_records.simps)
  moreover have "put_table (ls_db st) slot t1 = ls_db st" using put_table_same [OF Nil(3)] Nil(4) by simp
  ultimately have "db_ends st SUCCESS (put_table (ls_db st) slot t1) ts (parse_records lib mk now slot fuel st)"
    using c(4,5) by (simp add: db_ends_def moved_def)
  moreover have "records_loaded t now [] t1 t1" using Nil(1,2) by (simp add: records_loaded_def)
  ultimately show ?case by blast
next
  case (Cons r rs)
  let ?next = "(if rs = [] then [] else Comma # separated (map (record_tokens env t) rs)) @ Close_Array # ts"
  obtain fuel' where fuel: "fuel = Suc fuel'" using Cons(10) by (cases fuel) auto
  have r: "texts_ok t r" "c_int (r_id r)" "r_id r \<noteq> -1" using Cons(6) by (simp_all add: savable_def)
  have follow: "?next \<noteq> []" "ready st (record_tokens env t r @ ?next)" using Cons(11) by (simp_all add: separated_Cons)
  have fresh: "r_id r \<notin> r_id ` set (t_records t1)" "length (t_records t1) < MAX_RECORDS_PER_TABLE" using Cons(8,9) by auto
  from record_end [OF Cons(2-5) assms(1) r(1) follow r(2,3) fresh, of lib mk now] obtain o1 st1 r' fs st2 where e: "next_token st = (o1, st1)" "tk_type o1 = TOKEN_OBJECT_START"
    "ls_alloc st1 = (\<lambda>_. True)" "ls_db st1 = ls_db st"
    "parse_members lib mk t1 (bytes_left st1 + 1) st1 (-1) (initial_fields t1) = Returns (Some (r_id r, fs), st2)"
    "insert_parsed now slot (r_id r) fs st2 = (SUCCESS, st2\<lparr>ls_db := put_table (ls_db st) slot (link_record t1 r')\<rparr>)"
    "reloaded_record t now r r'" "table_ok (link_record t1 r')" "ready st2 ?next" "moved st st2" "bytes_left st2 < bytes_left st" .
  define st3 where "st3 = st2\<lparr>ls_db := put_table (ls_db st) slot (link_record t1 r')\<rparr>"
  have st3: "ready st3 ?next" "use_allocs k st3 = st3" "bytes_left st3 = bytes_left st2" "ls_counter st3 = ls_counter st"
    "ls_db st3 = put_table (ls_db st) slot (link_record t1 r')" for k
    using e(9,10) ready_allocs [of st3 ?next] by (simp_all add: st3_def moved_def)
  have a1: "use_allocs 1 st1 = st1" using e(3) by (simp add: use_allocs_def shift_alloc_def)
  have step: "parse_records lib mk now slot fuel st = (case next_token st3 of (sep, st4) \<Rightarrow>
      if tk_type sep = TOKEN_COMMA then parse_records lib mk now slot fuel' st4
      else if tk_type sep = TOKEN_ARRAY_END then Returns (SUCCESS, st4) else Returns (ERROR_INVALID_INPUT, st4))"
    using e(1-6) Cons(5) st3(2) a1 by (simp add: fuel parse_records.simps Let_def st3_def)
  show ?case
  proof (cases "rs = []")
    case True
    then have "ready st3 (Close_Array # ts)" using st3(1) by simp
    from ready_token [OF this assms(2)] obtain c st4 where c: "next_token st3 = (c, st4)" "tk_type c = TOKEN_ARRAY_END"
      "tk_value c = None" "ready st4 ts" "moved st3 st4" .
    with step have "parse_records lib mk now slot fuel st = Returns (SUCCESS, st4)" by simp
    then have "db_ends st SUCCESS (put_table (ls_db st) slot (link_record t1 r')) ts (parse_records lib mk now slot fuel st)"
      using c(4,5) st3(3-5) e(11) by (simp add: db_ends_def moved_def)
    moreover have "same_schema t (link_record t1 r')" using Cons(3) by (simp add: same_schema_def)
    then have "records_loaded t now (r # rs) t1 (link_record t1 r')"
      using e(7,8) True by (intro records_loaded_Cons) (simp_all add: records_loaded_def)
    ultimately show ?thesis by blast
  next
    case False
    let ?more = "separated (map (record_tokens env t) rs) @ Close_Array # ts"
    have "ready st3 (Comma # ?more)" "?more \<noteq> []" using st3(1) False by simp_all
    from ready_token [OF this] obtain c st4 where c: "next_token st3 = (c, st4)" "tk_type c = TOKEN_COMMA"
      "tk_value c = None" "ready st4 ?more" "moved st3 st4" .
    let ?t = "link_record t1 r'"
    have db: "ls_db st4 = put_table (ls_db st) slot ?t" "ls_counter st4 = ls_counter st" "bytes_left st4 \<le> bytes_left st2"
      using c(5) st3(3-5) by (simp_all add: moved_def)
    have same: "same_schema t ?t" using Cons(3) by (simp add: same_schema_def)
    have slot: "slot < length (db_tables (ls_db st4))" "db_tables (ls_db st4) ! slot = ?t"
      using Cons(4) by (simp_all add: db(1) put_table_def)
    have rs: "list_all (savable t) rs" "distinct (map r_id rs)" "length rs + length (t_records ?t) \<le> MAX_RECORDS_PER_TABLE"
      using Cons(6,7,9) by simp_all
    have new: "r_id ` set rs \<inter> r_id ` set (t_records ?t) = {}"
      using Cons(7,8) e(7) by (auto simp: reloaded_record_def)
    have "bytes_left st4 < fuel'" using db(3) e(11) Cons(10) fuel by simp
    from Cons(1) [OF e(8) same slot rs(1,2) new rs(3) this c(4)] obtain t2 where ih: "records_loaded t now rs ?t t2"
      "db_ends st4 SUCCESS (put_table (ls_db st4) slot t2) ts (parse_records lib mk now slot fuel' st4)" by blast
    have "parse_records lib mk now slot fuel st = parse_records lib mk now slot fuel' st4" using step c by simp
    then have "db_ends st SUCCESS (put_table (ls_db st) slot t2) ts (parse_records lib mk now slot fuel st)"
      using ih(2) db e(11) by (auto simp: db_ends_def)
    with records_loaded_Cons [OF e(7) ih(1)] show ?thesis by blast
  qed
qed

section \<open>Tables\<close>

definition record_array :: "json_env \<Rightarrow> Table \<Rightarrow> tok list" where
  "record_array env t = separated (map (record_tokens env t) (t_records t))"

lemma empty_copy_ok:
  assumes "plain_table t"
  shows "same_schema t (empty_copy t)" and "table_ok (empty_copy t)" and "t_index_manager (empty_copy t) \<noteq> None"
proof -
  show "same_schema t (empty_copy t)" using assms by (simp add: same_schema_def)
  have "1 \<le> t_field_count t" "t_field_count t \<le> MAX_FIELDS_PER_TABLE" using assms by (simp_all add: plain_table_def schema_ok_def)
  with new_table_ok [of "\<lambda>_. True"] show "table_ok (empty_copy t)" "t_index_manager (empty_copy t) \<noteq> None"
    by (simp_all add: empty_copy_def)
qed

lemma table_records_end:
  assumes "plain_table t" and "ts \<noteq> []" and "slot < length (db_tables (ls_db st))" and "db_tables (ls_db st) ! slot = empty_copy t"
    and "ready st (Open_Array # record_array env t @ Close_Array # ts)"
  obtains t2 where "records_loaded t now (t_records t) (empty_copy t) t2"
    "db_ends st SUCCESS (put_table (ls_db st) slot t2) ts (json_parse_table_records lib mk now slot st)"
proof -
  have ne: "record_array env t @ Close_Array # ts \<noteq> []" by simp
  from ready_token [OF assms(5) ne] obtain o1 st1 where o1: "next_token st = (o1, st1)" "tk_type o1 = TOKEN_ARRAY_START"
    "tk_value o1 = None" "ready st1 (record_array env t @ Close_Array # ts)" "moved st st1" .
  have t: "plain_names t" "list_all (savable t) (t_records t)" "distinct (map r_id (t_records t))"
    "length (t_records t) + length (t_records (empty_copy t)) \<le> MAX_RECORDS_PER_TABLE"
    "r_id ` set (t_records t) \<inter> r_id ` set (t_records (empty_copy t)) = {}"
    using assms(1) by (simp_all add: plain_table_def savable_def list_all_iff)
  have db: "ls_db st1 = ls_db st" "ls_counter st1 = ls_counter st" "bytes_left st1 \<le> bytes_left st"
    using o1(5) by (simp_all add: moved_def)
  have b: "bytes_left st1 < bytes_left st1 + 1" by simp
  from records_end [OF t(1) assms(2) empty_copy_ok(2,1) _ _ t(2,3,5,4) b o1(4) [unfolded record_array_def],
      of slot now lib mk] assms(1,3,4) db(1) obtain t2 where
    r: "records_loaded t now (t_records t) (empty_copy t) t2"
    "db_ends st1 SUCCESS (put_table (ls_db st) slot t2) ts (parse_records lib mk now slot (bytes_left st1 + 1) st1)" by auto
  have "db_ends st SUCCESS (put_table (ls_db st) slot t2) ts (json_parse_table_records lib mk now slot st)"
    using r(2) o1(1,2) db by (auto simp: db_ends_def json_parse_table_records_def)
  with that r(1) show thesis by blast
qed

lemma table_rest_ends:
  assumes "plain_table t" and "ts \<noteq> []" and "slot < length (db_tables (ls_db st))" and "db_tables (ls_db st) ! slot = empty_copy t"
    and "ready st (Comma # Key ''records'' @ Open_Array # record_array env t @ Close_Array # Close_Object # (ty, None) # ts)"
    and "ty = TOKEN_COMMA \<or> ty = TOKEN_ARRAY_END"
  obtains t2 st' where "records_loaded t now (t_records t) (empty_copy t) t2"
    "parse_table_rest lib mk now slot st = Returns (SUCCESS, (if ty = TOKEN_COMMA then Some False else None), st')"
    "ready st' ts" "ls_db st' = put_table (ls_db st) slot t2" "ls_counter st' = ls_counter st" "bytes_left st' \<le> bytes_left st"
proof -
  let ?rest = "Open_Array # record_array env t @ Close_Array # Close_Object # (ty, None) # ts"
  have "Key ''records'' @ ?rest \<noteq> []" by simp
  from ready_token [OF assms(5) this] obtain c st1 where c: "next_token st = (c, st1)" "tk_type c = TOKEN_COMMA"
    "tk_value c = None" "ready st1 (Key ''records'' @ ?rest)" "moved st st1" .
  from ready_key [OF c(4) list.distinct(2)] obtain kt st2 ct st3 where k: "next_token st1 = (kt, st2)" "tk_type kt = TOKEN_STRING"
    "tk_value kt = Some ''records''" "next_token st2 = (ct, st3)" "tk_type ct = TOKEN_COLON" "ready st3 ?rest" "moved st1 st3"
    "bytes_left st3 < bytes_left st1" .
  have db3: "ls_db st3 = ls_db st" "ls_counter st3 = ls_counter st" "bytes_left st3 \<le> bytes_left st"
    using moved_trans [OF c(5) k(7)] by (simp_all add: moved_def)
  from table_records_end [OF assms(1) list.distinct(2) _ _ k(6), of slot now lib mk] assms(3,4) db3(1) obtain t2 where
    t2: "records_loaded t now (t_records t) (empty_copy t) t2"
    "db_ends st3 SUCCESS (put_table (ls_db st) slot t2) (Close_Object # (ty, None) # ts) (json_parse_table_records lib mk now slot st3)"
    by auto
  then obtain st4 where r: "json_parse_table_records lib mk now slot st3 = Returns (SUCCESS, st4)"
    "ready st4 (Close_Object # (ty, None) # ts)" "ls_db st4 = put_table (ls_db st) slot t2" "ls_counter st4 = ls_counter st3"
    "bytes_left st4 \<le> bytes_left st3" by (auto simp: db_ends_def)
  from ready_token [OF r(2) list.distinct(2)] obtain e5 st5 where e5: "next_token st4 = (e5, st5)" "tk_type e5 = TOKEN_OBJECT_END"
    "tk_value e5 = None" "ready st5 ((ty, None) # ts)" "moved st4 st5" .
  from ready_token [OF e5(4) assms(2)] obtain s st6 where s: "next_token st5 = (s, st6)" "tk_type s = ty"
    "tk_value s = None" "ready st6 ts" "moved st5 st6" .
  have sib: "parse_siblings lib mk now slot (bytes_left st4 + 1) st4 = Returns (SUCCESS, st5)"
    using e5 by (simp add: parse_siblings.simps)
  have "parse_table_rest lib mk now slot st = Returns (SUCCESS, (if ty = TOKEN_COMMA then Some False else None), st6)"
    using c k r(1) sib s assms(6) by (auto simp: parse_table_rest_def parse_sibling_def Let_def)
  moreover have "ls_db st6 = put_table (ls_db st) slot t2" "ls_counter st6 = ls_counter st" "bytes_left st6 \<le> bytes_left st"
    using moved_trans [OF e5(5) s(5)] r(3-5) db3 by (simp_all add: moved_def)
  ultimately show thesis using that t2(1) s(4) by blast
qed

lemma table_tokens_eq:
  "table_tokens env t @ us = Open_Object # schema_tokens t @ Comma # Key ''records'' @ Open_Array # record_array env t @
     Close_Array # Close_Object # us"
  by (simp add: table_tokens_def record_array_def)

lemma one_table_ends:
  assumes "plain_table t" and "ts \<noteq> []" and "ty = TOKEN_COMMA \<or> ty = TOKEN_ARRAY_END"
    and "ready st (table_tokens env t @ (ty, None) # ts)"
    and "db_ok (ls_db st)" and "db_table_count (ls_db st) < MAX_TABLES" and "t_name t \<notin> t_name ` set (db_tables (ls_db st))"
  obtains o1 st1 slot st2 t2 st3 where "next_token st = (o1, st1)" "tk_type o1 = TOKEN_OBJECT_START"
    "json_parse_table_schema st1 = Returns (SUCCESS, Some slot, st2)"
    "parse_table_rest lib mk now slot st2 = Returns (SUCCESS, (if ty = TOKEN_COMMA then Some False else None), st3)"
    "records_loaded t now (t_records t) (empty_copy t) t2" "ready st3 ts"
    "db_tables (ls_db st3) = db_tables (ls_db st) @ [t2]" "db_table_count (ls_db st3) = Suc (db_table_count (ls_db st))"
    "db_ok (ls_db st3)" "ls_counter st3 = ls_counter st" "bytes_left st3 < bytes_left st"
proof -
  let ?records = "Comma # Key ''records'' @ Open_Array # record_array env t @ Close_Array # Close_Object # (ty, None) # ts"
  have "ready st (Open_Object # schema_tokens t @ ?records)" "schema_tokens t @ ?records \<noteq> []"
    using assms(4) by (simp_all add: table_tokens_eq)
  from ready_next [OF this] obtain o1 st1 where o1: "next_token st = (o1, st1)" "tk_type o1 = TOKEN_OBJECT_START"
    "ready st1 (schema_tokens t @ ?records)" "moved st st1" "bytes_left st1 < bytes_left st" by blast
  have db1: "ls_db st1 = ls_db st" "ls_counter st1 = ls_counter st" using o1(4) by (simp_all add: moved_def)
  from table_schema_ends [OF assms(1) o1(3) list.distinct(2)] assms(5-7) db1(1) obtain st2 where
    s: "json_parse_table_schema st1 = Returns (SUCCESS, Some (db_table_count (ls_db st)), st2)"
    "ready st2 ?records" "bytes_left st2 \<le> bytes_left st1" "ls_counter st2 = ls_counter st1"
    "db_tables (ls_db st2) = db_tables (ls_db st) @ [empty_copy t]" "db_table_count (ls_db st2) = Suc (db_table_count (ls_db st))"
    "db_ok (ls_db st2)" by auto
  have slot: "db_table_count (ls_db st) = length (db_tables (ls_db st))" using assms(5) by (simp add: db_ok_def tables_ok_def)
  then have "db_table_count (ls_db st) < length (db_tables (ls_db st2))"
    "db_tables (ls_db st2) ! db_table_count (ls_db st) = empty_copy t" by (simp_all add: s(5))
  from table_rest_ends [OF assms(1,2) this s(2) assms(3), of now lib mk] obtain t2 st3 where
    r: "records_loaded t now (t_records t) (empty_copy t) t2"
    "parse_table_rest lib mk now (db_table_count (ls_db st)) st2 = Returns (SUCCESS, (if ty = TOKEN_COMMA then Some False else None), st3)"
    "ready st3 ts" "ls_db st3 = put_table (ls_db st2) (db_table_count (ls_db st)) t2" "ls_counter st3 = ls_counter st2"
    "bytes_left st3 \<le> bytes_left st2" .
  have "table_ok t2" "t_index_manager t2 \<noteq> None" using r(1) empty_copy_ok(3) [OF assms(1)] by (simp_all add: records_loaded_def)
  then have "db_ok (ls_db st3)" unfolding r(4) by (intro db_ok_put_table s(7))
  moreover have "db_tables (ls_db st3) = db_tables (ls_db st) @ [t2]" "db_table_count (ls_db st3) = Suc (db_table_count (ls_db st))"
    unfolding r(4) using s(5,6) slot by (simp_all add: put_table_def)
  moreover have "ls_counter st3 = ls_counter st" "bytes_left st3 < bytes_left st"
    using r(5,6) s(3,4) db1(2) o1(5) by simp_all
  ultimately show thesis using that [OF o1(1,2) s(1) r(2,1,3)] by blast
qed

definition reloaded_table :: "int \<Rightarrow> Table \<Rightarrow> Table \<Rightarrow> bool" where
  \<comment> \<open>the same schema, and the same records in the opposite order\<close>
  "reloaded_table now t t' \<longleftrightarrow> same_schema t t' \<and> list_all2 (reloaded_record t now) (rev (t_records t)) (t_records t')"

lemma records_loaded_reloaded:
  "plain_table t \<Longrightarrow> records_loaded t now (t_records t) (empty_copy t) t2 \<Longrightarrow> reloaded_table now t t2"
  by (auto simp: records_loaded_def reloaded_table_def)

lemma tables_end:
  assumes "ts \<noteq> []" and "list_all plain_table us" and "distinct (map t_name us)"
    and "t_name ` set us \<inter> t_name ` set (db_tables (ls_db st)) = {}" and "db_ok (ls_db st)"
    and "db_table_count (ls_db st) + length us \<le> MAX_TABLES" and "bytes_left st < fuel"
    and "ready st (separated (map (table_tokens env) us) @ Close_Array # ts)"
  shows "\<exists>us' st'. list_all2 (reloaded_table now) us us' \<and> parse_tables lib mk now fuel False st = Returns (SUCCESS, st') \<and>
    ready st' ts \<and> db_tables (ls_db st') = db_tables (ls_db st) @ us' \<and> db_ok (ls_db st') \<and> ls_counter st' = ls_counter st \<and>
    bytes_left st' \<le> bytes_left st"
  using assms(2-8)
proof (induction us arbitrary: st fuel)
  case Nil
  obtain fuel' where fuel: "fuel = Suc fuel'" using Nil(6) by (cases fuel) auto
  have "ready st (Close_Array # ts)" using Nil(7) by simp
  from ready_token [OF this assms(1)] obtain c st1 where c: "next_token st = (c, st1)" "tk_type c = TOKEN_ARRAY_END"
    "tk_value c = None" "ready st1 ts" "moved st st1" .
  then have "parse_tables lib mk now fuel False st = Returns (SUCCESS, st1)" by (simp add: fuel parse_tables.simps)
  with c(4,5) Nil(4) show ?case by (intro exI [of _ "[]"] exI [of _ st1]) (simp add: moved_def)
next
  case (Cons t us)
  obtain fuel' where fuel: "fuel = Suc fuel'" using Cons(7) by (cases fuel) auto
  have t: "plain_table t" "db_table_count (ls_db st) < MAX_TABLES" "t_name t \<notin> t_name ` set (db_tables (ls_db st))"
    using Cons(2,4,6) by auto
  show ?case
  proof (cases "us = []")
    case True
    then have r: "ready st (table_tokens env t @ Close_Array # ts)" using Cons(8) by simp
    from one_table_ends [OF t(1) assms(1) disjI2 [OF refl] r Cons(5) t(2,3), of lib mk now] obtain o1 st1 slot st2 t2 st3 where
      o1: "next_token st = (o1, st1)" "tk_type o1 = TOKEN_OBJECT_START" "json_parse_table_schema st1 = Returns (SUCCESS, Some slot, st2)"
      "parse_table_rest lib mk now slot st2 = Returns (SUCCESS, (if TOKEN_ARRAY_END = TOKEN_COMMA then Some False else None), st3)"
      "records_loaded t now (t_records t) (empty_copy t) t2" "ready st3 ts"
      "db_tables (ls_db st3) = db_tables (ls_db st) @ [t2]" "db_table_count (ls_db st3) = Suc (db_table_count (ls_db st))"
      "db_ok (ls_db st3)" "ls_counter st3 = ls_counter st" "bytes_left st3 < bytes_left st" .
    then have "parse_tables lib mk now fuel False st = Returns (SUCCESS, st3)" by (simp add: fuel parse_tables.simps)
    with o1(6-11) records_loaded_reloaded [OF t(1) o1(5)] True show ?thesis
      by (intro exI [of _ "[t2]"] exI [of _ st3]) simp
  next
    case False
    let ?more = "separated (map (table_tokens env) us) @ Close_Array # ts"
    have r: "ready st (table_tokens env t @ Comma # ?more)" using Cons(8) False by (simp add: separated_Cons)
    have ne: "?more \<noteq> []" by simp
    from one_table_ends [OF t(1) ne disjI1 [OF refl] r Cons(5) t(2,3), of lib mk now] obtain o1 st1 slot st2 t2 st3 where
      o1: "next_token st = (o1, st1)" "tk_type o1 = TOKEN_OBJECT_START" "json_parse_table_schema st1 = Returns (SUCCESS, Some slot, st2)"
      "parse_table_rest lib mk now slot st2 = Returns (SUCCESS, (if TOKEN_COMMA = TOKEN_COMMA then Some False else None), st3)"
      "records_loaded t now (t_records t) (empty_copy t) t2" "ready st3 ?more"
      "db_tables (ls_db st3) = db_tables (ls_db st) @ [t2]" "db_table_count (ls_db st3) = Suc (db_table_count (ls_db st))"
      "db_ok (ls_db st3)" "ls_counter st3 = ls_counter st" "bytes_left st3 < bytes_left st" .
    have us: "list_all plain_table us" "distinct (map t_name us)" "db_table_count (ls_db st3) + length us \<le> MAX_TABLES"
      "bytes_left st3 < fuel'" using Cons(2,3,6,7) o1(8,11) fuel by simp_all
    have "t_name t2 = t_name t" using o1(5) by (simp add: records_loaded_def same_schema_def)
    then have new: "t_name ` set us \<inter> t_name ` set (db_tables (ls_db st3)) = {}" using Cons(3,4) o1(7) by auto
    from Cons(1) [OF us(1,2) new o1(9) us(3,4) o1(6)] obtain us' st' where ih: "list_all2 (reloaded_table now) us us'"
      "parse_tables lib mk now fuel' False st3 = Returns (SUCCESS, st')" "ready st' ts"
      "db_tables (ls_db st') = db_tables (ls_db st3) @ us'" "db_ok (ls_db st')" "ls_counter st' = ls_counter st3"
      "bytes_left st' \<le> bytes_left st3" by blast
    have "parse_tables lib mk now fuel False st = Returns (SUCCESS, st')"
      using o1(1-4) ih(2) by (simp add: fuel parse_tables.simps)
    with ih o1(7,10,11) records_loaded_reloaded [OF t(1) o1(5)] show ?thesis
      by (intro exI [of _ "t2 # us'"] exI [of _ st']) simp
  qed
qed

section \<open>Files\<close>

lemma separated_snoc: "separated (uss @ [us]) = (if uss = [] then us else separated uss @ Comma # us)"
  by (induction uss) (auto simp: separated_Cons)

lemma concat_separated:
  "concat (map (\<lambda>i. (if 0 < i then [Comma] else []) @ f (xs ! i)) [0..<length xs]) = separated (map f xs)"
proof (induction xs rule: rev_induct)
  case (snoc x xs)
  define g where "g = (\<lambda>ys i. (if 0 < i then [Comma] else []) @ f (ys ! i))"
  have "concat (map (g (xs @ [x])) [0..<length xs]) = concat (map (g xs) [0..<length xs])"
    by (intro arg_cong [where f = concat] map_cong) (auto simp: g_def nth_append)
  moreover have "concat (map (g xs) [0..<length xs]) = separated (map f xs)" using snoc by (simp add: g_def)
  moreover have "g (xs @ [x]) (length xs) = (if xs = [] then [] else [Comma]) @ f x" by (simp add: g_def)
  ultimately have "concat (map (g (xs @ [x])) [0..<length (xs @ [x])]) = separated (map f (xs @ [x]))"
    by (simp add: separated_snoc)
  then show ?case by (simp add: g_def)
qed simp

lemma database_end:
  assumes "bytes_left st < fuel" and "ts \<noteq> []"
    and "ready st (metadata_tokens env saved db @ [Comma] @ Key ''tables'' @ [Open_Array] @
      separated (map (table_tokens env) us) @ Close_Array # Close_Object # ts)"
    and "list_all plain_table us" and "distinct (map t_name us)" and "db_ok (ls_db st)" and "db_tables (ls_db st) = []"
    and "length us \<le> MAX_TABLES"
  obtains us' st' where "list_all2 (reloaded_table now) us us'" "parse_database lib mk now fuel st = Returns (SUCCESS, st')"
    "db_tables (ls_db st') = us'" "ls_counter st' = ls_counter st"
proof -
  obtain fuel1 where fuel1: "fuel = Suc fuel1" using assms(1) by (cases fuel) auto
  let ?array = "separated (map (table_tokens env) us) @ Close_Array # Close_Object # ts"
  let ?tables = "Key ''tables'' @ Open_Array # ?array"
  let ?meta = "[Open_Object] @ Key ''name'' @ [Str ''Database'', Comma] @ Key ''version'' @ [Str ''1.0.0'', Comma] @
     Key ''created_at'' @ [Str (time_text env saved), Comma] @ Key ''table_count'' @ [Num (int (db_table_count db)), Close_Object] @
     Comma # ?tables"
  have "ready st (Key ''metadata'' @ ?meta)" "?meta \<noteq> []" using assms(3) by (simp_all add: metadata_tokens_def)
  from ready_key [OF this] obtain kt st1 ct st2 where k: "next_token st = (kt, st1)" "tk_type kt = TOKEN_STRING"
    "tk_value kt = Some ''metadata''" "next_token st1 = (ct, st2)" "tk_type ct = TOKEN_COLON" "ready st2 ?meta" "moved st st2"
    "bytes_left st2 < bytes_left st" .
  from metadata_ends [OF k(6) list.distinct(2)] obtain st3 where
    m: "json_parse_database_metadata st2 = Returns (SUCCESS, st3)" "ready st3 (Comma # ?tables)" "moved st2 st3"
    by (auto simp: ends_def)
  have ne: "?tables \<noteq> []" "?array \<noteq> []" by simp_all
  from ready_token [OF m(2) ne(1)] obtain c st4 where c: "next_token st3 = (c, st4)" "tk_type c = TOKEN_COMMA"
    "tk_value c = None" "ready st4 ?tables" "moved st3 st4" .
  have b4: "bytes_left st4 < fuel1" using k(8) m(3) c(5) assms(1) fuel1 by (simp add: moved_def)
  then obtain fuel2 where fuel2: "fuel1 = Suc fuel2" by (cases fuel1) auto
  from ready_member [OF c(4) ne(2)] obtain kt' st5 ct' st6 vt' st7 where
    k': "next_token st4 = (kt', st5)" "tk_type kt' = TOKEN_STRING" "tk_value kt' = Some ''tables''"
    "next_token st5 = (ct', st6)" "tk_type ct' = TOKEN_COLON" "next_token st6 = (vt', st7)" "tk_type vt' = TOKEN_ARRAY_START"
    "tk_value vt' = None" "ready st7 ?array" "moved st4 st7" "bytes_left st7 < bytes_left st4" .
  have db7: "ls_db st7 = ls_db st" "ls_counter st7 = ls_counter st"
    using moved_trans [OF moved_trans [OF moved_trans [OF k(7) m(3)] c(5)] k'(10)] by (simp_all add: moved_def)
  have t: "t_name ` set us \<inter> t_name ` set (db_tables (ls_db st7)) = {}" "db_ok (ls_db st7)"
    "db_table_count (ls_db st7) + length us \<le> MAX_TABLES" "bytes_left st7 < bytes_left st7 + 1"
    using assms(6-8) db7(1) by (simp_all add: db_ok_def tables_ok_def)
  from tables_end [OF list.distinct(2) assms(4,5) t k'(9), of now lib mk] obtain us' st8 where
    r: "list_all2 (reloaded_table now) us us'" "parse_tables lib mk now (bytes_left st7 + 1) False st7 = Returns (SUCCESS, st8)"
    "ready st8 (Close_Object # ts)" "db_tables (ls_db st8) = us'" "ls_counter st8 = ls_counter st"
    using assms(7) db7 by auto
  from ready_token [OF r(3) assms(2)] obtain e9 st9 where e9: "next_token st8 = (e9, st9)" "tk_type e9 = TOKEN_OBJECT_END"
    "tk_value e9 = None" "ready st9 ts" "moved st8 st9" .
  have "parse_database lib mk now fuel st = parse_database lib mk now fuel1 st4"
    using k m(1) c by (simp add: fuel1 parse_database.simps Let_def)
  also have "\<dots> = Returns (SUCCESS, st9)"
    using k' r(2) e9 by (simp add: fuel2 parse_database.simps Let_def)
  finally show thesis using that [OF r(1)] r(4,5) e9(5) by (simp add: moved_def)
qed

lemma saved_db_loads_back:
  assumes "db_ok db" and "list_all plain_table (db_tables db)" and "distinct (map t_name (db_tables db))" and "time_ok env"
  obtains s db' where "serialize_text True (\<lambda>_. True) (write_database env saved db) = Some (Some s)"
    "list_all2 (reloaded_table now) (db_tables db) (db_tables db')"
    "\<forall>files nm. files nm = Some s \<longrightarrow> db_load_from_file lib mk (\<lambda>_. True) now gc files (Some nm) = Returns (Some db', gc)"
proof -
  have n: "db_table_count db = length (db_tables db)" "length (db_tables db) \<le> MAX_TABLES"
    using assms(1) by (auto simp: db_ok_def tables_ok_def)
  then have "\<forall>i < db_table_count db. plain_table (db_tables db ! i)" using assms(2) by (simp add: list_all_length)
  from saved_tokens [OF assms(4) this, of saved] obtain s where
    s: "serialize_text True (\<lambda>_. True) (write_database env saved db) = Some (Some s)"
    "spells s (database_tokens env saved db @ [(TOKEN_EOF, None)])" .
  have al: "shift_alloc k (\<lambda>_. True) = (\<lambda>_. True)" for k by (simp add: shift_alloc_def)
  obtain db0 where db0: "db_create (\<lambda>_. True) = Some db0" "db_tables db0 = []" by (simp add: db_create_def)
  define st where "st = load_state s db0 gc (\<lambda>_. True)"
  let ?rest = "metadata_tokens env saved db @ [Comma] @ Key ''tables'' @ [Open_Array] @
      separated (map (table_tokens env) (db_tables db)) @ Close_Array # Close_Object # [(TOKEN_EOF, None)]"
  have "spells s (Open_Object # ?rest)"
    using s(2) by (simp add: database_tokens_def n(1) concat_separated [of "table_tokens env", simplified])
  then have "ready st (Open_Object # ?rest)" "?rest \<noteq> []"
    by (simp_all add: st_def ready_def load_state_def json_context_def cx_rest_def)
  from ready_next [OF this] obtain o1 st1 where o1: "next_token st = (o1, st1)" "tk_type o1 = TOKEN_OBJECT_START"
    "ready st1 ?rest" "moved st st1" "bytes_left st1 < bytes_left st" by blast
  have st: "ls_db st1 = db0" "ls_counter st1 = gc" "s \<noteq> []"
    using o1(4,5) by (auto simp: st_def moved_def load_state_def bytes_left_def left_def json_context_def cx_rest_def)
  have "bytes_left st1 < bytes_left st1 + 1" by simp
  from database_end [OF this list.distinct(2) o1(3) assms(2,3) _ _ n(2), of now lib mk] st(1) db0 db_create_ok [OF db0(1)]
  obtain us' st' where r: "list_all2 (reloaded_table now) (db_tables db) us'"
    "parse_database lib mk now (bytes_left st1 + 1) st1 = Returns (SUCCESS, st')" "db_tables (ls_db st') = us'" "ls_counter st' = ls_counter st1"
    by auto
  have "db_load_from_file lib mk (\<lambda>_. True) now gc files (Some nm) = Returns (Some (ls_db st'), gc)" if "files nm = Some s" for files nm
    using that st(2,3) o1(1,2) r(2,4) db0(1) al by (simp add: db_load_from_file_def st_def [symmetric])
  with that s(1) r(1,3) show thesis by blast
qed

text \<open>C4: saving and loading: a well-formed database whose tables have distinct names that need no
  escaping, columns of type int, string or boolean and values of their column's type or null is saved,
  and loading the file gives the same tables in the same order, with the same schemas and, in the
  opposite order, the same records: the ids are kept, the ints and booleans too, and of a string the
  first 255 bytes of its escaped text. Three things are lost: timestamp and version become the
  current time and 1, a null becomes zero bytes of the column's type, and the value of the first
  column is overwritten by the id. Restoring such a file as a backup over an open database never
  returns: \<open>index_manager_free\<close> frees pointers that were never set.\<close>

theorem saved_db_loads:
  assumes "db_ok db" and "list_all plain_table (db_tables db)" and "distinct (map t_name (db_tables db))" and "time_ok env"
    and "db_index_manager cur \<noteq> None"
  shows "\<exists>s db'. db_save_to_file env (\<lambda>_. True) saved True (length s) files (Some db) (Some nm) = Some (SUCCESS, files(nm \<mapsto> s)) \<and>
     db_load_from_file lib mk (\<lambda>_. True) now gc (files(nm \<mapsto> s)) (Some nm) = Returns (Some db', gc) \<and>
     list_all2 (reloaded_table now) (db_tables db) (db_tables db') \<and>
     db_restore_backup lib mk (\<lambda>_. True) now gc (files(nm \<mapsto> s)) (Some cur) (Some nm) = Undefined"
proof -
  obtain s db' where s: "serialize_text True (\<lambda>_. True) (write_database env saved db) = Some (Some s)"
    "list_all2 (reloaded_table now) (db_tables db) (db_tables db')"
    "\<forall>files nm. files nm = Some s \<longrightarrow> db_load_from_file lib mk (\<lambda>_. True) now gc files (Some nm) = Returns (Some db', gc)"
    using saved_db_loads_back [OF assms(1-4), where saved = saved and now = now and lib = lib and mk = mk and gc = gc] .
  have "db_load_from_file lib mk (\<lambda>_. True) now gc (files(nm \<mapsto> s)) (Some nm) = Returns (Some db', gc)"
    using s(3) by simp
  then show ?thesis using s(1,2) assms(5) by (intro exI [of _ s] exI [of _ db']) (simp add: db_save_to_file_def db_restore_backup_def)
qed

definition sample_saved :: Database where
  \<comment> \<open>the table of \<open>sample_schema\<close> with one record\<close>
  "sample_saved = put_table (snd (snd (db_add_table (\<lambda>_. True) (the (db_create (\<lambda>_. True))) (Some ''users'')
     (Some [''n'', ''name'']) (Some [TYPE_INT, TYPE_STRING]) 2))) 0 (link_record sample_schema sample_record)"

lemma sample_saved_tables: "db_tables sample_saved = [link_record sample_schema sample_record]"
  "db_index_manager sample_saved \<noteq> None"
  by (simp_all add: sample_saved_def put_table_def db_create_def db_add_table_def Let_def MAX_TABLES_def MAX_FIELDS_PER_TABLE_def
      list_ex_iff store_slot_def grow_tables_def update_simple_statistics_def create_simple_index_manager_def shift_alloc_def)

lemma sample_schema_ok: "table_ok sample_schema \<and> t_index_manager sample_schema \<noteq> None"
  unfolding sample_schema_def by (rule new_table_ok) (simp_all add: MAX_FIELDS_PER_TABLE_def)

lemma sample_record_ok: "record_ok 2 sample_record"
  by (simp add: record_ok_def sample_record_def field_ok_def c_int_def int_min_def int_max_def)

lemma sample_linked_ok: "table_ok (link_record sample_schema sample_record)"
proof (rule table_ok_link)
  show "table_ok sample_schema" using sample_schema_ok by simp
  show "record_ok (t_field_count sample_schema) sample_record" by (simp add: sample_schema_fields sample_record_ok)
  have "t_records sample_schema = []" "t_record_count sample_schema = 0" by (simp_all add: sample_schema_def new_table_def)
  then show "r_id sample_record \<notin> r_id ` set (t_records sample_schema)" "t_record_count sample_schema < MAX_RECORDS_PER_TABLE"
    by (simp_all add: MAX_RECORDS_PER_TABLE_def)
qed

lemma sample_saved_ok: "db_ok sample_saved"
proof -
  obtain e out db where a: "db_add_table (\<lambda>_. True) (the (db_create (\<lambda>_. True))) (Some ''users'')
     (Some [''n'', ''name'']) (Some [TYPE_INT, TYPE_STRING]) 2 = (e, out, db)" by (rule prod_cases3)
  have "db_ok (the (db_create (\<lambda>_. True)))" by (rule db_create_ok [of "\<lambda>_. True"]) (simp add: db_create_def)
  from db_add_table_ok [OF this a] show ?thesis
    unfolding sample_saved_def a snd_conv by (rule db_ok_put_table) (use sample_linked_ok sample_schema_ok in simp_all)
qed

lemma sample_saved_plain: "plain_table (link_record sample_schema sample_record)"
proof -
  have "schema_ok (link_record sample_schema sample_record)" using sample_linked_ok by (simp add: table_ok_def)
  moreover have "plain_names (link_record sample_schema sample_record)" using sample_plain by (simp add: plain_names_def)
  moreover have "texts_ok (link_record sample_schema sample_record) sample_record" using sample_texts by (simp add: texts_ok_def)
  moreover have "t_name sample_schema = ''users''" "t_records sample_schema = []"
    by (simp_all add: sample_schema_def new_table_def MAX_TABLE_NAME_def)
  moreover have "c_int (r_id sample_record)" "r_id sample_record \<noteq> -1"
    by (simp_all add: sample_record_def c_int_def int_min_def int_max_def)
  moreover have "plain_text ''users''" by (simp add: plain_text_def unescaped_def)
  ultimately show ?thesis
    by (simp add: plain_table_def sample_schema_fields MAX_TABLE_NAME_def MAX_RECORDS_PER_TABLE_def)
qed

lemma sample_time_ok: "time_ok sample_env"
  by (simp add: time_ok_def sample_env_def plain_text_def unescaped_def)

lemma saved_db_loads_witness:
  "\<exists>s db' r. db_save_to_file sample_env (\<lambda>_. True) 0 True (length s) Map.empty (Some sample_saved) (Some ''f'') = Some (SUCCESS, [''f'' \<mapsto> s]) \<and>
     db_load_from_file no_floats (\<lambda>_. 0) (\<lambda>_. True) 60 1000 [''f'' \<mapsto> s] (Some ''f'') = Returns (Some db', 1000) \<and>
     map t_records (db_tables db') = [[r]] \<and> r_id r = 7 \<and> r_version r = 1 \<and> r_timestamp r = 60 \<and>
     int_value (f_value (r_fields r ! 0)) = 7 \<and> string_value (f_value (r_fields r ! 1)) = [CHR ''a'', CHR 0x5C, CHR 0x22]"
proof -
  from saved_db_loads [OF sample_saved_ok _ _ sample_time_ok sample_saved_tables(2), of 0 Map.empty "''f''" no_floats "\<lambda>_. 0" 60 1000]
  obtain s db' where s: "db_save_to_file sample_env (\<lambda>_. True) 0 True (length s) Map.empty (Some sample_saved) (Some ''f'') = Some (SUCCESS, [''f'' \<mapsto> s])"
    "db_load_from_file no_floats (\<lambda>_. 0) (\<lambda>_. True) 60 1000 [''f'' \<mapsto> s] (Some ''f'') = Returns (Some db', 1000)"
    "list_all2 (reloaded_table 60) (db_tables sample_saved) (db_tables db')"
    using sample_saved_plain by (auto simp: sample_saved_tables)
  then obtain t' where t': "db_tables db' = [t']" "reloaded_table 60 (link_record sample_schema sample_record) t'"
    by (auto simp: sample_saved_tables list_all2_Cons1)
  have "t_records sample_schema = []" by (simp add: sample_schema_def new_table_def)
  with t'(2) obtain r where r: "t_records t' = [r]" "reloaded_record (link_record sample_schema sample_record) 60 sample_record r"
    by (auto simp: reloaded_table_def list_all2_Cons1)
  then have "kept (r_fields sample_record ! 1) (f_value (r_fields r ! 1))" "int_value (f_value (r_fields r ! 0)) = 7"
    "r_id r = 7" "r_version r = 1" "r_timestamp r = 60"
    by (auto simp: reloaded_record_def sample_schema_fields sample_record_def)
  then show ?thesis using s(1,2) t'(1) r(1)
    by (intro exI [of _ s] exI [of _ db'] exI [of _ r])
      (simp add: kept_def same_content_def sample_record_def escaped_def escape_char_def MAX_FIELD_LEN_def)
qed

end
