(* ===== verification/Lx_Export.thy ===== *)
theory Lx_Export
  imports Lx_Json_Load_Props
begin

text \<open>
  The conversions of \<open>src/src/export_import.c\<close>: a database file to JSON and back, which load and save
  again, and a table to CSV.

  Files are a map from paths to contents; \<open>can_write\<close> says whether the target can be opened and
  \<open>written\<close> what \<open>fwrite\<close> returns. The texts \<open>printf\<close> gives floating point numbers with two and four
  decimals are the arguments \<open>f2\<close> and \<open>f4\<close>. \<open>None\<close> is undefined behaviour. The static id counter
  ends with the result.
\<close>

section \<open>JSON to JSON\<close>

definition convert_file ::
  "float_lib \<Rightarrow> (int list \<Rightarrow> int) \<Rightarrow> json_env \<Rightarrow> alloc \<Rightarrow> alloc \<Rightarrow> int \<Rightarrow> int \<Rightarrow> bool \<Rightarrow> nat \<Rightarrow> file_system \<Rightarrow>
   string option \<Rightarrow> string option \<Rightarrow> (int \<times> file_system \<times> int) option" where
  \<comment> \<open>the common body: the options only set \<open>pretty\<close> and \<open>compress\<close>, which \<open>db_save_to_file\<close> ignores\<close>
  "convert_file lib mk env ok ok' now gc can_write written files source target =
     (case db_load_from_file lib mk ok now gc files source of
        Returns (Some db, gc') \<Rightarrow>
          (case db_save_to_file env ok' now can_write written files (Some db) target of None \<Rightarrow> None
           | Some (result, files') \<Rightarrow> Some (if result = SUCCESS then 0 else -1, files', gc'))
      | Returns (None, gc') \<Rightarrow> Some (-1, files, gc')
      | _ \<Rightarrow> None)"

definition export_to_json where
  "export_to_json lib mk env ok ok' now gc can_write written files db_path export_path =
     convert_file lib mk env ok ok' now gc can_write written files db_path export_path"

definition import_from_json where
  "import_from_json lib mk env ok ok' now gc can_write written files json_path db_path =
     convert_file lib mk env ok ok' now gc can_write written files json_path db_path"

section \<open>A table to CSV\<close>

definition csv_value :: "(nat \<Rightarrow> string) \<Rightarrow> (nat \<Rightarrow> string) \<Rightarrow> Field \<Rightarrow> string" where
  "csv_value f2 f4 f = (case f_type f of
       TYPE_INT \<Rightarrow> show_int (int_value (f_value f))
     | TYPE_STRING \<Rightarrow> [CHR 0x22] @ string_value (f_value f) @ [CHR 0x22]
     | TYPE_FLOAT \<Rightarrow> f2 (float_bits (f_value f))
     | TYPE_DOUBLE \<Rightarrow> f4 (double_bits (f_value f))
     | TYPE_BOOL \<Rightarrow> (if bool_value (f_value f) then ''true'' else ''false'')
     | _ \<Rightarrow> [])"

definition csv_header :: "Table \<Rightarrow> string" where
  "csv_header table = ''id'' @ concat (map (\<lambda>i. '','' @ t_field_names table ! i) [0..<t_field_count table]) @ [CHR 0x0A]"

definition csv_row :: "(nat \<Rightarrow> string) \<Rightarrow> (nat \<Rightarrow> string) \<Rightarrow> Table \<Rightarrow> Record \<Rightarrow> string" where
  "csv_row f2 f4 table record = show_int (r_id record) @
     concat (map (\<lambda>i. '','' @ csv_value f2 f4 (r_fields record ! i)) [0..<t_field_count table]) @ [CHR 0x0A]"

definition export_to_csv ::
  "float_lib \<Rightarrow> (int list \<Rightarrow> int) \<Rightarrow> (nat \<Rightarrow> string) \<Rightarrow> (nat \<Rightarrow> string) \<Rightarrow> alloc \<Rightarrow> int \<Rightarrow> int \<Rightarrow> bool \<Rightarrow> file_system \<Rightarrow>
   string option \<Rightarrow> string \<Rightarrow> string option \<Rightarrow> (int \<times> file_system \<times> int) option" where
  "export_to_csv lib mk f2 f4 ok now gc can_write files db_path export_path table_name =
     (case db_load_from_file lib mk ok now gc files db_path of
        Returns (Some db, gc') \<Rightarrow>
          (case db_get_table db table_name of None \<Rightarrow> Some (-1, files, gc')
           | Some i \<Rightarrow>
               if \<not> can_write then Some (-1, files, gc')
               else
                 let table = db_tables db ! i in
                 Some (0, files(export_path \<mapsto> csv_header table @ concat (map (csv_row f2 f4 table) (t_records table))), gc'))
      | Returns (None, gc') \<Rightarrow> Some (-1, files, gc')
      | _ \<Rightarrow> None)"

end
