(* ===== verification/Lx_Screens.thy ===== *)
theory Lx_Screens
  imports Main
begin

text \<open>
  The fixed texts of \<open>src/src/main.c\<close>: the banner, the menus, the help and the lists of choices, line
  by line, without the blank lines, the frames and the colours. Bytes above 127 are UTF-8.
\<close>

definition bullet :: string where "bullet = [CHR 0xE2, CHR 0x80, CHR 0xA2]"
definition arrow :: string where "arrow = [CHR 0xE2, CHR 0x86, CHR 0x92]"
definition check_mark :: string where "check_mark = [CHR 0xE2, CHR 0x9C, CHR 0x93]"
definition cross_mark :: string where "cross_mark = [CHR 0xE2, CHR 0x9C, CHR 0x97]"
definition backslash :: string where "backslash = [CHR 0x5C]"
definition apostrophe :: string where "apostrophe = [CHR 0x27]"

definition print_banner_text :: "string list" where
  "print_banner_text = [
     ''  _                 _       _      '',
     '' | |               (_)     (_)     '',
     '' | |_   _ _ __ ___  _ _ __  ___  __'',
     '' | | | | | '' @ apostrophe @ ''_ ` _ '' @ backslash @ ''| | '' @ apostrophe @ ''_ '' @ backslash @ ''| '' @ backslash @ '' '' @ backslash @ ''/ /'',
     '' | | |_| | | | | | | | | | | |>  < '',
     '' |_|'' @ backslash @ ''__,_|_| |_| |_|_|_| |_|_/_/'' @ backslash @ ''_'' @ backslash,
     ''          In-Memory JSON Database'',
     ''                  Version: 1.0.0'',
     ''========================================================'']"

definition print_main_menu_text :: "string list" where
  "print_main_menu_text = [
     ''MAIN MENU'',
     ''1. Database Operations     2. Table Operations'',
     ''3. Index Operations       4. Query Operations'',
     ''5. Maintenance Operations 6. Configuration'',
     ''7. Help & Tutorial        8. Benchmark & Tools'',
     ''0. Exit'',
     ''Select option (1-8, 0 to exit): '']"

definition print_database_menu_text :: "string list" where
  "print_database_menu_text = [
     ''DATABASE OPERATIONS'',
     ''1. Create New Database          2. Open Database'',
     ''3. Close Database               4. Backup Database'',
     ''5. Restore Database             6. Database Information'',
     ''7. Save Database                8. Compact Database'',
     ''9. Rename Database              0. Back to Main Menu'']"

definition print_table_menu_text :: "string list" where
  "print_table_menu_text = [
     ''TABLE OPERATIONS'',
     ''1. Create Table                 2. List Tables'',
     ''3. Describe Table               4. Alter Table'',
     ''5. Truncate Table               6. Drop Table'',
     ''7. Import Table                 8. Export Table'',
     ''9. Table Statistics             0. Back to Main Menu'']"

definition print_index_menu_text :: "string list" where
  "print_index_menu_text = [
     ''INDEX OPERATIONS'',
     ''1. Create Index                 2. List Indexes'',
     ''3. Drop Index                   4. Rebuild Indexes'',
     ''5. Optimize Indexes             6. Index Statistics'',
     ''7. Recommend Indexes            8. Compare Index Types'',
     ''9. Full-Text Search             0. Back to Main Menu'']"

definition print_query_menu_text :: "string list" where
  "print_query_menu_text = [
     ''QUERY OPERATIONS'',
     ''1. Execute Query                2. Execute Script'',
     ''3. Query History                4. Save Query Result'',
     ''5. Explain Query                6. Query Templates'',
     ''7. Stored Procedures            8. Query Optimization'',
     ''9. Transaction Management       0. Back to Main Menu'']"

definition print_maintenance_menu_text :: "string list" where
  "print_maintenance_menu_text = [
     ''MAINTENANCE OPERATIONS'',
     ''1. Vacuum Database              2. Analyze Database'',
     ''3. Check Integrity              4. Repair Database'',
     ''5. Database Statistics          6. Cleanup Logs'',
     ''7. Update Statistics            8. Rebuild Database'',
     ''9. Schedule Maintenance         0. Back to Main Menu'']"

definition print_config_menu_text :: "string list" where
  "print_config_menu_text = [
     ''CONFIGURATION'',
     ''1. Show Configuration           2. Set Configuration'',
     ''3. Reset Configuration          4. Export Configuration'',
     ''5. Import Configuration         6. Configuration Wizard'',
     ''7. Security Settings            8. Performance Settings'',
     ''9. Plugin Management            0. Back to Main Menu'']"

definition print_help_menu_text :: "string list" where
  "print_help_menu_text = [
     ''HELP & TUTORIAL'',
     ''1. Quick Start Guide            2. SQL Reference'',
     ''3. Interactive Tutorial         4. Examples'',
     ''5. Cheat Sheet                  6. FAQ'',
     ''7. Troubleshooting              8. Advanced Topics'',
     ''9. About Luminix                0. Back to Main Menu'']"

definition print_tools_menu_text :: "string list" where
  "print_tools_menu_text = [
     ''BENCHMARK & TOOLS'',
     ''1. Run Benchmark                2. Stress Test'',
     ''3. Performance Monitor          4. Memory Profiler'',
     ''5. Query Analyzer               6. Index Analyzer'',
     ''7. Data Generator               8. Migration Tool'',
     ''9. Report Generator             0. Back to Main Menu'']"

definition print_welcome_text :: "string list" where
  "print_welcome_text = [
     ''Welcome to Luminix Database Management System!'',
     ''Type '' @ apostrophe @ ''help'' @ apostrophe @ '' for assistance or '' @ apostrophe @ ''tutorial'' @ apostrophe @ '' for a guided tour.'',
     ''Use menu numbers or shortcut commands ('' @ backslash @ ''q, '' @ backslash @ ''t, etc.)'']"

definition help_general_text :: "string list" where
  "help_general_text = [
     ''Luminix Database Help'',
     ''====================='',
     ''Available topics:'',
     ''  sql         - SQL query syntax'',
     ''  commands    - Interactive commands'',
     ''  tables      - Table operations'',
     ''  indexes     - Index operations'',
     ''  queries     - Query execution'',
     ''  maintenance - Database maintenance'',
     ''  config      - Configuration'',
     ''  examples    - Example usage'',
     ''Type '' @ apostrophe @ ''help <topic>'' @ apostrophe @ '' for specific help.'']"

definition help_sql_text :: "string list" where
  "help_sql_text = [
     ''SQL Query Syntax'',
     ''================'',
     ''Supported SQL commands:'',
     ''  CREATE TABLE <name> (<col1> <type>, ...)'',
     ''  INSERT INTO <table> VALUES (<val1>, ...)'',
     ''  SELECT <cols> FROM <table> [WHERE <condition>]'',
     ''  UPDATE <table> SET <col>=<val> [WHERE <condition>]'',
     ''  DELETE FROM <table> [WHERE <condition>]'',
     ''  CREATE INDEX ON <table>(<column>)'',
     ''  DROP INDEX ON <table>(<column>)'',
     ''Data types: INT, STRING, FLOAT, DOUBLE, BOOL, DATETIME'',
     ''Examples:'',
     ''  CREATE TABLE employees (id INT, name STRING, salary FLOAT)'',
     ''  INSERT INTO employees VALUES (1, '' @ apostrophe @ ''John Doe'' @ apostrophe @ '', 50000.0)'',
     ''  SELECT * FROM employees WHERE salary > 40000'',
     ''Interactive Commands'']"

definition help_commands_text :: "string list" where
  "help_commands_text = [
     ''===================='',
     ''Main menu commands:'',
     ''  1  - Database operations'',
     ''  2  - Table operations'',
     ''  3  - Index operations'',
     ''  4  - Query operations'',
     ''  5  - Maintenance operations'',
     ''  6  - Configuration'',
     ''  7  - Help'',
     ''  0  - Exit'',
     ''Shortcut commands (at main prompt):'',
     ''  '' @ backslash @ ''q       - Execute SQL query'',
     ''  '' @ backslash @ ''t       - List tables'',
     ''  '' @ backslash @ ''d <tab> - Describe table'',
     ''  '' @ backslash @ ''i       - Import data'',
     ''  '' @ backslash @ ''e       - Export data'',
     ''  '' @ backslash @ ''h       - Show history'',
     ''  '' @ backslash @ ''c       - Clear screen'',
     ''  '' @ backslash @ ''?       - Show help'']"

definition interactive_tutorial_text :: "string list" where
  "interactive_tutorial_text = [
     ''Luminix Interactive Tutorial'',
     ''============================='',
     ''Step 1: Creating a database'',
     ''  From the main menu, select '' @ apostrophe @ ''1'' @ apostrophe @ '' for Database operations'',
     ''  Then select '' @ apostrophe @ ''1'' @ apostrophe @ '' to create a new database'',
     ''  Enter a name for your database'',
     ''Step 2: Creating a table'',
     ''  Select '' @ apostrophe @ ''2'' @ apostrophe @ '' for Table operations'',
     ''  Select '' @ apostrophe @ ''1'' @ apostrophe @ '' to create a new table'',
     ''  Enter table name and define columns'',
     ''Step 3: Inserting data'',
     ''  Use SQL: INSERT INTO <table> VALUES (...)'',
     ''  Or use interactive insert from Table operations menu'',
     ''Step 4: Querying data'',
     ''  Select '' @ apostrophe @ ''4'' @ apostrophe @ '' for Query operations'',
     ''  Select '' @ apostrophe @ ''1'' @ apostrophe @ '' to execute SQL queries'',
     ''  Try: SELECT * FROM <table>'',
     ''Step 5: Creating indexes'',
     ''  Select '' @ apostrophe @ ''3'' @ apostrophe @ '' for Index operations'',
     ''  Create indexes on frequently queried columns'',
     ''Ready to try? Press Enter to continue...'']"

definition show_examples_text :: "string list" where
  "show_examples_text = [
     ''Example Usage'',
     ''============='',
     ''1. Basic CRUD Operations:'',
     ''   CREATE TABLE users (id INT, name STRING, email STRING)'',
     ''   INSERT INTO users VALUES (1, '' @ apostrophe @ ''OrionGD'' @ apostrophe @ '', '' @ apostrophe @ ''oriongd@luminix.com'' @ apostrophe @ '')'',
     ''   SELECT * FROM users WHERE id = 1'',
     ''   UPDATE users SET email = '' @ apostrophe @ ''oriongd@luminix.com'' @ apostrophe @ '' WHERE id = 1'',
     ''   DELETE FROM users WHERE id = 1'',
     ''2. Indexing:'',
     ''   CREATE INDEX ON users(email)  -- Hash index'',
     ''   CREATE INDEX ON users(id)     -- B-tree index'',
     ''3. Complex Queries:'',
     ''   SELECT name, COUNT(*) FROM users GROUP BY name'',
     ''   SELECT * FROM users ORDER BY name DESC'',
     ''   SELECT * FROM users WHERE name LIKE '' @ apostrophe @ ''A%'' @ apostrophe,
     ''4. Import/Export:'',
     ''   '' @ backslash @ ''i users.json                -- Import from JSON'',
     ''   '' @ backslash @ ''e users.csv                 -- Export to CSV'',
     ''5. Maintenance:'',
     ''   VACUUM                       -- Reclaim space'',
     ''   ANALYZE                      -- Update statistics'',
     ''   CHECK INTEGRITY              -- Verify data consistency'']"

definition show_cheat_sheet_text :: "string list" where
  "show_cheat_sheet_text = [
     ''Luminix Cheat Sheet'',
     ''==================='',
     ''SQL Quick Reference:'',
     ''  CREATE TABLE t (id INT, name STRING)      -- Create table'',
     ''  INSERT INTO t VALUES (1, '' @ apostrophe @ ''test'' @ apostrophe @ '')          -- Insert row'',
     ''  SELECT * FROM t                           -- Select all'',
     ''  SELECT * FROM t WHERE id = 1              -- Filter'',
     ''  UPDATE t SET name = '' @ apostrophe @ ''new'' @ apostrophe @ '' WHERE id = 1    -- Update'',
     ''  DELETE FROM t WHERE id = 1                -- Delete'',
     ''  CREATE INDEX ON t(id)                     -- Create index'',
     ''Interactive Commands:'',
     ''  '' @ backslash @ ''q <sql>          -- Execute SQL'',
     ''  '' @ backslash @ ''t                -- List tables'',
     ''  '' @ backslash @ ''d <table>        -- Describe table'',
     ''  '' @ backslash @ ''i <file>         -- Import'',
     ''  '' @ backslash @ ''e <file>         -- Export'',
     ''  '' @ backslash @ ''h               -- History'',
     ''  '' @ backslash @ ''c               -- Clear'',
     ''  '' @ backslash @ ''?               -- Help'',
     ''  '' @ backslash @ ''x               -- Exit'',
     ''Data Types:'',
     ''  INT              -- Integer'',
     ''  STRING           -- Text'',
     ''  FLOAT            -- Floating point'',
     ''  DOUBLE           -- Double precision'',
     ''  BOOL             -- Boolean'',
     ''  DATETIME         -- Date/time'',
     ''Index Types:'',
     ''  HASH             -- Fast equality (default)'',
     ''  BTREE            -- Ordered, range queries'',
     ''  SKIPLIST         -- Concurrent access'',
     ''  BITMAP           -- Low cardinality'',
     ''  FULLTEXT         -- Text search'']"

definition faq_text :: "string list" where
  "faq_text = [
     ''Frequently Asked Questions'',
     ''=========================='',
     ''Q: How do I create a database?'',
     ''A: Use '' @ apostrophe @ ''CREATE DATABASE'' @ apostrophe @ '' or menu option 1.1'',
     ''Q: How do I import data from JSON?'',
     ''A: Use Table Operations '' @ arrow @ '' Import Table'',
     ''Q: How do I optimize query performance?'',
     ''A: Create indexes on frequently queried columns'']"

definition troubleshooting_text :: "string list" where
  "troubleshooting_text = [
     ''Troubleshooting'',
     ''==============='',
     ''1. Database won'' @ apostrophe @ ''t open: Check file permissions'',
     ''2. Queries are slow: Create indexes, run VACUUM'',
     ''3. Out of memory: Increase cache size in config'',
     ''4. Data corruption: Restore from backup'']"

definition advanced_topics_text :: "string list" where
  "advanced_topics_text = [
     ''Advanced Topics'',
     ''==============='',
     bullet @ '' Transaction management'',
     bullet @ '' Replication setup'',
     bullet @ '' Custom plugins'',
     bullet @ '' Performance tuning'',
     bullet @ '' Security configuration'']"

definition about_luminix_text :: "string list" where
  "about_luminix_text = [
     ''About Luminix'',
     ''============='',
     ''Version: 1.0.0'',
     ''Author: Luminix Development Team'',
     ''License: MIT'',
     ''Website: https://github.com/luminix/db'',
     ''An in-memory JSON database'',
     ''built in C for high performance applications.'']"

definition alter_menu_text :: "string list" where
  "alter_menu_text = [
     ''Alter Table Operations:'',
     ''1. Add Column'',
     ''2. Drop Column'',
     ''3. Rename Column'',
     ''4. Modify Column Type'',
     ''5. Add Constraint'',
     ''6. Drop Constraint'',
     ''0. Cancel'']"

definition index_types_menu_text :: "string list" where
  "index_types_menu_text = [
     ''Index types:'',
     ''1. Hash Index (fast equality lookups)'',
     ''2. B-Tree Index (ordered, range queries)'',
     ''3. Skip List Index (concurrent access)'',
     ''4. Bitmap Index (low cardinality fields)'',
     ''5. Full-Text Index (text search)'']"

definition vacuum_menu_text :: "string list" where
  "vacuum_menu_text = [
     ''Vacuum operations:'',
     ''1. Full vacuum (reclaim space)'',
     ''2. Analyze only (update statistics)'',
     ''3. Vacuum specific table'',
     ''4. Analyze specific table'']"

definition repair_menu_text :: "string list" where
  "repair_menu_text = [
     ''Repair operations:'',
     ''1. Repair specific table'',
     ''2. Repair all tables'',
     ''3. Rebuild indexes'',
     ''4. Recover from backup'']"

definition benchmark_menu_text :: "string list" where
  "benchmark_menu_text = [
     ''Select benchmark type:'',
     ''1. Insert performance'',
     ''2. Query performance'',
     ''3. Mixed workload'',
     ''4. Index performance'',
     ''5. Complete benchmark suite'']"

definition usage_options_text :: "string list" where
  "usage_options_text = [
     ''Options:'',
     ''  --help, -h       Show this help message'',
     ''  --version, -v    Show version information'',
     ''  --database, -d   Open database file'',
     ''  --execute, -e    Execute SQL command'',
     ''  --script, -s     Execute SQL script file'',
     ''  --batch, -b      Batch mode (no interactive shell)'']"

end
