(* ===== verification/Lx_Shell.thy ===== *)
theory Lx_Shell
  imports Lx_Query Lx_Export Lx_Screens
begin

text \<open>
  The terminal of \<open>src/src/main.c\<close>: its globals, how it reads answers, the query history and the
  printing of records and results.

  A command of the shell takes its state and returns the next one, or is \<open>Undefined\<close>, or runs out of
  fuel. \<open>sh_in\<close> are the bytes of the standard input that are left. \<open>fgets\<close> at the end of the input
  leaves the array as it is, so an answer that is not there is read from an array that was never
  set: \<open>Undefined\<close>. An answer that does not fit its array leaves its rest to the next one. \<open>sh_out\<close> is
  what was printed, in order: texts, rows of drawn tables by their cells, and the coloured messages by
  their text; blank lines, frames and colours are left out. \<open>sh_events\<close> are the outcomes of the calls that reach
  outside: allocations, the clock, files and directories, one event for each. The allocations of
  \<open>getline\<close> are taken to succeed.
\<close>

section \<open>State\<close>

datatype printed = Text string | Row "string list" | Success string | Warning string | Info string
  | Failure int string | Counters DatabaseStatistics

record event =
  ev_alloc :: alloc
  ev_now :: int
  ev_tm :: tm
  ev_can_write :: bool
  ev_written :: nat
  ev_entries :: "string list option"
  ev_elapsed :: string

record shell_env =
  se_json :: json_env
  se_lib :: float_lib
  se_mk :: "int list \<Rightarrow> int"
  se_float :: "nat \<Rightarrow> string"
  se_double :: "nat \<Rightarrow> string"
  se_index_size :: nat

record Shell =
  sh_env :: shell_env
  sh_in :: string
  sh_out :: "printed list"
  sh_db :: "Database option"
  sh_counter :: int
  sh_files :: file_system
  sh_events :: "nat \<Rightarrow> event"
  sh_history :: "string list"
  sh_history_index :: nat
  sh_history_count :: nat
  sh_running :: bool

type_synonym cmd = "Shell \<Rightarrow> Shell run"

section \<open>Commands\<close>

fun steps :: "cmd list \<Rightarrow> cmd" where
  "steps [] st = Returns st"
| "steps (c # cs) st = (case c st of OutOfFuel \<Rightarrow> OutOfFuel | Undefined \<Rightarrow> Undefined | Returns st' \<Rightarrow> steps cs st')"

definition say :: "printed \<Rightarrow> cmd" where
  "say p st = Returns (st\<lparr>sh_out := sh_out st @ [p]\<rparr>)"

definition sayln :: "string \<Rightarrow> cmd" where
  "sayln s = say (Text (s @ [newline]))"

definition say_lines :: "string list \<Rightarrow> cmd" where
  "say_lines ls = steps (map sayln ls)"

definition say_rows :: "string list list \<Rightarrow> cmd" where
  "say_rows rs = steps (map (\<lambda>r. say (Row r)) rs)"

definition fgets :: "nat \<Rightarrow> string \<Rightarrow> (string \<times> string) option" where
  \<comment> \<open>at most \<open>n - 1\<close> bytes, to the first newline; \<open>None\<close> at the end\<close>
  "fgets n s = (if s = [] then None
     else let l = takeWhile (\<lambda>c. c \<noteq> newline) (take (n - 1) s);
              k = min (Suc (length l)) (min (n - 1) (length s))
          in Some (take k s, drop k s))"

definition ask :: "string \<Rightarrow> nat \<Rightarrow> (string \<Rightarrow> cmd) \<Rightarrow> cmd" where
  \<comment> \<open>the prompt, \<open>fgets\<close> into an array of \<open>n\<close> bytes, and the newline cut off\<close>
  "ask prompt n k st = (case fgets n (sh_in st) of None \<Rightarrow> Undefined
     | Some (line, rest) \<Rightarrow> k (cli_input line) (st\<lparr>sh_in := rest, sh_out := sh_out st @ [Text prompt]\<rparr>))"

definition ask_or :: "string \<Rightarrow> nat \<Rightarrow> string \<Rightarrow> (string \<Rightarrow> cmd) \<Rightarrow> cmd" where
  \<comment> \<open>into an array that was set\<close>
  "ask_or prompt n dflt k st = (case fgets n (sh_in st) of
       None \<Rightarrow> k dflt (st\<lparr>sh_out := sh_out st @ [Text prompt]\<rparr>)
     | Some (line, rest) \<Rightarrow> k (cli_input line) (st\<lparr>sh_in := rest, sh_out := sh_out st @ [Text prompt]\<rparr>))"

definition ask_number :: "string \<Rightarrow> nat \<Rightarrow> (int \<Rightarrow> cmd) \<Rightarrow> cmd" where
  "ask_number prompt n k = ask prompt n (\<lambda>s. k (atoi s))"

definition yes :: "string \<Rightarrow> bool" where
  \<comment> \<open>\<open>tolower(response[0]) == 'y'\<close>\<close>
  "yes s = (case s of [] \<Rightarrow> False | c # _ \<Rightarrow> tolower c = CHR ''y'')"

definition ask_yes :: "string \<Rightarrow> (bool \<Rightarrow> cmd) \<Rightarrow> cmd" where
  "ask_yes prompt k = ask prompt 4 (\<lambda>s. k (yes s))"

definition with_event :: "(event \<Rightarrow> cmd) \<Rightarrow> cmd" where
  "with_event k st = k (sh_events st 0) (st\<lparr>sh_events := (\<lambda>n. sh_events st (Suc n))\<rparr>)"

definition set_db :: "Database option \<Rightarrow> cmd" where
  "set_db dp st = Returns (st\<lparr>sh_db := dp\<rparr>)"

definition press_enter :: cmd where
  \<comment> \<open>\<open>getchar\<close>\<close>
  "press_enter st = Returns (st\<lparr>sh_in := tl (sh_in st), sh_out := sh_out st @ [Text ''Press Enter to continue...'']\<rparr>)"

section \<open>Errors\<close>

fun error_message :: "ErrorCode \<Rightarrow> string" where
  "error_message SUCCESS = ''Success''"
| "error_message ERROR_GENERIC = ''Generic error''"
| "error_message ERROR_NOT_FOUND = ''Not found''"
| "error_message ERROR_DUPLICATE_KEY = ''Duplicate key''"
| "error_message ERROR_INVALID_INPUT = ''Invalid input''"
| "error_message ERROR_MEMORY_ALLOCATION = ''Memory allocation failed''"
| "error_message ERROR_IO_OPERATION = ''I/O operation failed''"
| "error_message ERROR_PERMISSION_DENIED = ''Permission denied''"
| "error_message ERROR_CORRUPT_DATA = ''Data corruption detected''"
| "error_message ERROR_TABLE_FULL = ''Table is full''"
| "error_message ERROR_INDEX_EXISTS = ''Index already exists''"
| "error_message ERROR_INDEX_NOT_FOUND = ''Index not found''"
| "error_message ERROR_TYPE_MISMATCH = ''Type mismatch''"
| "error_message ERROR_CONSTRAINT_VIOLATION = ''Constraint violation''"
| "error_message ERROR_TRANSACTION_CONFLICT = ''Transaction conflict''"
| "error_message ERROR_DEADLOCK_DETECTED = ''Deadlock detected''"
| "error_message ERROR_TIMEOUT = ''Operation timed out''"
| "error_message _ = ''Unknown error''"

definition print_error_code :: "ErrorCode \<Rightarrow> cmd" where
  "print_error_code e = say (Failure (error_value e) (error_message e))"

definition with_db :: "(Database \<Rightarrow> cmd) \<Rightarrow> cmd" where
  \<comment> \<open>\<open>if (!g_database) { print_error_code(ERROR_NOT_FOUND); return; }\<close>\<close>
  "with_db k st = (case sh_db st of None \<Rightarrow> print_error_code ERROR_NOT_FOUND st | Some db \<Rightarrow> k db st)"

definition report :: "ErrorCode \<Rightarrow> string \<Rightarrow> cmd" where
  \<comment> \<open>the message of a success, or the error\<close>
  "report result message = (if result = SUCCESS then say (Success message) else print_error_code result)"

section \<open>The query history\<close>

definition MAX_QUERY_LEN :: nat where "MAX_QUERY_LEN = 4096"

definition HISTORY_SIZE :: nat where "HISTORY_SIZE = 100"

definition add_to_history :: "string option \<Rightarrow> Shell \<Rightarrow> Shell" where
  "add_to_history qp st = (case qp of None \<Rightarrow> st
     | Some query \<Rightarrow>
         if query = [] then st
         else if 0 < sh_history_count st \<and> strcmp (sh_history st ! sh_history_index st) query = 0 then st
         else st\<lparr>sh_history := (sh_history st)[sh_history_index st := take (MAX_QUERY_LEN - 1) query],
                sh_history_index := (sh_history_index st + 1) mod HISTORY_SIZE,
                sh_history_count := (if sh_history_count st < HISTORY_SIZE then sh_history_count st + 1 else sh_history_count st)\<rparr>)"

definition history_start :: "Shell \<Rightarrow> nat" where
  "history_start st = (sh_history_index st + HISTORY_SIZE - sh_history_count st) mod HISTORY_SIZE"

definition history_entry :: "Shell \<Rightarrow> nat \<Rightarrow> string" where
  \<comment> \<open>the \<open>i\<close>-th query listed\<close>
  "history_entry st i = sh_history st ! ((history_start st + i) mod HISTORY_SIZE)"

definition history_display :: "string \<Rightarrow> string option" where
  \<comment> \<open>the copy that is shown: of a query of exactly 60 bytes the copy is not terminated\<close>
  "history_display q = (if length q < 60 then Some q else if 60 < length q then Some (take 57 q @ ''...'') else None)"

section \<open>Padding\<close>

definition pad_right :: "nat \<Rightarrow> string \<Rightarrow> string" where
  \<comment> \<open>\<open>%-*s\<close>\<close>
  "pad_right n s = s @ replicate (n - length s) (CHR '' '')"

definition pad_left :: "nat \<Rightarrow> string \<Rightarrow> string" where
  \<comment> \<open>\<open>%*s\<close>\<close>
  "pad_left n s = replicate (n - length s) (CHR '' '') @ s"

definition show_nat :: "nat \<Rightarrow> string" where
  "show_nat n = show_int (int n)"

section \<open>Printing records, tables and results\<close>

datatype OutputFormat = FORMAT_TABLE | FORMAT_JSON | FORMAT_CSV | FORMAT_XML

definition field_shown :: "shell_env \<Rightarrow> string \<Rightarrow> Field \<Rightarrow> string" where
  \<comment> \<open>the value as \<open>printf\<close> shows it, and a text for the other types\<close>
  "field_shown env other f = (case f_type f of
       TYPE_INT \<Rightarrow> show_int (int_value (f_value f))
     | TYPE_STRING \<Rightarrow> string_value (f_value f)
     | TYPE_FLOAT \<Rightarrow> se_float env (float_bits (f_value f))
     | TYPE_DOUBLE \<Rightarrow> se_double env (double_bits (f_value f))
     | TYPE_BOOL \<Rightarrow> if bool_value (f_value f) then ''true'' else ''false''
     | _ \<Rightarrow> other)"

definition print_record_text :: "Record \<Rightarrow> Table \<Rightarrow> cmd" where
  "print_record_text r t st = say (Text (''ID: '' @ show_int (r_id r) @ '' | '' @
     concat (map (\<lambda>i. t_field_names t ! i @ '': '' @ field_shown (sh_env st) ''NULL'' (r_fields r ! i) @
        (if int i < int (t_field_count t) - 1 then '', '' else [])) [0..<t_field_count t]) @ [newline])) st"

definition print_table :: "Table \<Rightarrow> cmd" where
  "print_table t = steps (
     say (Text (''Table: '' @ t_name t @ '' (Records: '' @ show_nat (t_record_count t) @ '')'' @ [newline])) #
     map (\<lambda>r. print_record_text r t) (t_records t))"

definition print_json :: "(shell_env \<Rightarrow> alloc \<Rightarrow> string option option) \<Rightarrow> cmd" where
  \<comment> \<open>a text of the serializer, if it is not NULL\<close>
  "print_json f = with_event (\<lambda>ev st. case f (sh_env st) (ev_alloc ev) of None \<Rightarrow> Undefined
     | Some None \<Rightarrow> Returns st | Some (Some json) \<Rightarrow> say (Text (json @ [newline])) st)"

definition pretty_options :: JsonSerializeOptions where
  "pretty_options = \<lparr>so_pretty = True, so_include_data = False\<rparr>"

definition print_record_formatted :: "Record \<Rightarrow> Table \<Rightarrow> OutputFormat \<Rightarrow> cmd" where
  "print_record_formatted r t format = (case format of
       FORMAT_TABLE \<Rightarrow> print_record_text r t
     | FORMAT_JSON \<Rightarrow> print_json (\<lambda>env ok. record_to_json (se_json env) ok (Some r) (Some t) (Some pretty_options))
     | FORMAT_CSV \<Rightarrow> (\<lambda>st. say (Text (csv_row (se_float (sh_env st)) (se_double (sh_env st)) t r)) st)
     | FORMAT_XML \<Rightarrow> (\<lambda>st. say (Text (''<record id='' @ quoted (show_int (r_id r)) @ ''>'' @ [newline] @
         concat (map (\<lambda>i. ''  <'' @ t_field_names t ! i @ ''>'' @ field_shown (sh_env st) [] (r_fields r ! i) @
            ''</'' @ t_field_names t ! i @ ''>'' @ [newline]) [0..<t_field_count t]) @ ''</record>'' @ [newline])) st))"

definition print_table_formatted :: "Table \<Rightarrow> OutputFormat \<Rightarrow> cmd" where
  "print_table_formatted t format = (case format of
       FORMAT_TABLE \<Rightarrow> print_table t
     | FORMAT_JSON \<Rightarrow> print_json (\<lambda>env ok. table_to_json (se_json env) ok (Some t) (Some pretty_options))
     | FORMAT_CSV \<Rightarrow> steps (say (Text (csv_header t)) # map (\<lambda>r. print_record_formatted r t FORMAT_CSV) (t_records t))
     | FORMAT_XML \<Rightarrow> steps (say (Text (''<table name='' @ quoted (t_name t) @ ''>'' @ [newline])) #
         map (\<lambda>r. print_record_formatted r t FORMAT_XML) (t_records t) @ [say (Text (''</table>'' @ [newline]))]))"

definition query_result_get_row_count :: "QueryResult option \<Rightarrow> nat" where
  "query_result_get_row_count rp = (case rp of None \<Rightarrow> 0 | Some result \<Rightarrow> q_row_count result)"

definition query_result_get_column_count :: "QueryResult option \<Rightarrow> nat" where
  "query_result_get_column_count rp = (case rp of None \<Rightarrow> 0 | Some result \<Rightarrow> q_column_count result)"

definition query_result_get_column_name :: "QueryResult option \<Rightarrow> int \<Rightarrow> string option" where
  "query_result_get_column_name rp col = (case rp of None \<Rightarrow> None
     | Some result \<Rightarrow> if col < 0 \<or> int (q_column_count result) \<le> col then None else Some (q_column_names result ! nat col))"

definition query_result_get_column_type :: "QueryResult option \<Rightarrow> int \<Rightarrow> FieldType" where
  "query_result_get_column_type rp col = (case rp of None \<Rightarrow> TYPE_UNKNOWN
     | Some result \<Rightarrow> if col < 0 \<or> int (q_column_count result) \<le> col then TYPE_UNKNOWN else q_column_types result ! nat col)"

definition query_result_get_field :: "QueryResult option \<Rightarrow> int \<Rightarrow> int \<Rightarrow> Field option" where
  "query_result_get_field rp row col = (case rp of None \<Rightarrow> None
     | Some result \<Rightarrow>
         if row < 0 \<or> int (q_row_count result) \<le> row \<or> col < 0 \<or> int (q_column_count result) \<le> col then None
         else Some (q_rows result ! nat row ! nat col))"

definition column_name :: "QueryResult \<Rightarrow> nat \<Rightarrow> string" where
  "column_name result i = the (query_result_get_column_name (Some result) (int i))"

definition result_field :: "QueryResult \<Rightarrow> nat \<Rightarrow> nat \<Rightarrow> Field" where
  "result_field result i j = the (query_result_get_field (Some result) (int i) (int j))"

definition result_table :: "shell_env \<Rightarrow> QueryResult \<Rightarrow> string" where
  \<comment> \<open>a cell is cut to the 255 bytes of the buffer\<close>
  "result_table env result =
     (let rows = query_result_get_row_count (Some result); cols = query_result_get_column_count (Some result) in
      [newline] @ concat (map (\<lambda>i. pad_right 20 (column_name result i)) [0..<cols]) @ [newline] @
      concat (map (\<lambda>i. replicate 20 (CHR ''-'')) [0..<cols]) @ [newline] @
      concat (map (\<lambda>i. concat (map (\<lambda>j. pad_right 20 (take 255 (field_shown env [] (result_field result i j)))) [0..<cols]) @
        [newline]) [0..<rows]) @
      [newline] @ show_nat rows @ '' row'' @ (if rows = 1 then [] else ''s'') @ '' returned'' @ [newline])"

definition result_csv :: "shell_env \<Rightarrow> QueryResult \<Rightarrow> string" where
  "result_csv env result =
     (let rows = query_result_get_row_count (Some result); cols = query_result_get_column_count (Some result);
          comma = (\<lambda>j. if 0 < j then '','' else [])
      in concat (map (\<lambda>i. comma i @ column_name result i) [0..<cols]) @ [newline] @
         concat (map (\<lambda>i. concat (map (\<lambda>j. comma j @
           csv_value (se_float env) (se_double env) (result_field result i j)) [0..<cols]) @ [newline]) [0..<rows]))"

definition result_xml :: "shell_env \<Rightarrow> QueryResult \<Rightarrow> string list" where
  \<comment> \<open>the lines\<close>
  "result_xml env result =
     (let rows = query_result_get_row_count (Some result); cols = query_result_get_column_count (Some result) in
      [''<?xml version='' @ quoted ''1.0'' @ '' encoding='' @ quoted ''UTF-8'' @ ''?>'', ''<queryResult>'', ''  <metadata>'',
       ''    <rowCount>'' @ show_nat rows @ ''</rowCount>'', ''    <columnCount>'' @ show_nat cols @ ''</columnCount>'',
       ''  </metadata>'', ''  <columns>''] @
      map (\<lambda>i. ''    <column name='' @ quoted (column_name result i) @ '' type='' @
        quoted (field_type_to_string (query_result_get_column_type (Some result) (int i))) @ ''/>'') [0..<cols] @
      [''  </columns>'', ''  <rows>''] @
      concat (map (\<lambda>i. [''    <row id='' @ quoted (show_nat (i + 1)) @ ''>''] @
        map (\<lambda>j. ''      <'' @ column_name result j @ ''>'' @ field_shown env [] (result_field result i j) @
          ''</'' @ column_name result j @ ''>'') [0..<cols] @ [''    </row>'']) [0..<rows]) @
      [''  </rows>'', ''</queryResult>''])"

definition print_query_result_formatted :: "QueryResult option \<Rightarrow> OutputFormat \<Rightarrow> cmd" where
  "print_query_result_formatted rp format = (case rp of None \<Rightarrow> Returns
     | Some result \<Rightarrow> (case format of
           FORMAT_TABLE \<Rightarrow> (\<lambda>st. say (Text (result_table (sh_env st) result)) st)
         | FORMAT_JSON \<Rightarrow> print_json (\<lambda>env ok. query_result_to_json (se_json env) ok (Some result) (Some pretty_options))
         | FORMAT_CSV \<Rightarrow> (\<lambda>st. say (Text (result_csv (sh_env st) result)) st)
         | FORMAT_XML \<Rightarrow> (\<lambda>st. steps (map (\<lambda>l. say (Text (l @ [newline]))) (result_xml (sh_env st) result)) st)))"

definition write_file :: "string \<Rightarrow> string \<Rightarrow> string \<Rightarrow> cmd" where
  \<comment> \<open>\<open>fopen\<close>, the text, \<open>fclose\<close>, a message; what is written may fall short\<close>
  "write_file path content message = with_event (\<lambda>ev st.
     if \<not> ev_can_write ev then Returns st
     else say (Success message) (st\<lparr>sh_files := (sh_files st)(path \<mapsto> take (ev_written ev) content)\<rparr>))"

definition file_format :: "int \<Rightarrow> string" where
  "file_format choice = (if choice = 2 then ''csv'' else if choice = 3 then ''xml'' else ''json'')"

definition save_query_result :: "QueryResult option \<Rightarrow> cmd" where
  "save_query_result rp = (case rp of None \<Rightarrow> Returns
     | Some result \<Rightarrow>
         ask ''Enter output file path: '' (MAX_FIELD_LEN * 2) (\<lambda>file_path.
         ask_number ''Enter file format (1=JSON, 2=CSV, 3=XML): '' 10 (\<lambda>format_choice.
           let format = file_format format_choice in
           if format = ''json'' then with_event (\<lambda>ev st.
             case query_result_to_json (se_json (sh_env st)) (ev_alloc ev) (Some result) (Some pretty_options) of
               None \<Rightarrow> Undefined | Some None \<Rightarrow> Returns st
             | Some (Some json) \<Rightarrow> write_file file_path json ''Result saved to JSON file'' st)
           else if format = ''csv''
           then (\<lambda>st. write_file file_path (result_csv (sh_env st) result) ''Result saved to CSV file'' st)
           else Returns)))"

end
