(* ===== verification/Lx_Menus.thy ===== *)
theory Lx_Menus
  imports Lx_Shell
begin

text \<open>
  The commands of \<open>src/src/main.c\<close> on databases, tables and indexes, and the saved state.

  Freeing a database releases memory and nothing else.
\<close>

section \<open>The calls that are not implemented\<close>

definition db_explain_query :: "Database \<Rightarrow> string \<Rightarrow> ErrorCode \<times> string option" where
  "db_explain_query db query = (ERROR_NOT_IMPLEMENTED, None)"

definition db_analyze :: "Database \<Rightarrow> ErrorCode \<times> Database" where
  "db_analyze db = (ERROR_NOT_IMPLEMENTED, db)"

definition db_vacuum_table :: "Database \<Rightarrow> string \<Rightarrow> ErrorCode \<times> Database" where
  "db_vacuum_table db table_name = (ERROR_NOT_IMPLEMENTED, db)"

definition db_analyze_table :: "Database \<Rightarrow> string \<Rightarrow> ErrorCode \<times> Database" where
  "db_analyze_table db table_name = (ERROR_NOT_IMPLEMENTED, db)"

definition db_repair_table :: "Database \<Rightarrow> string \<Rightarrow> ErrorCode \<times> Database" where
  "db_repair_table db table_name = (ERROR_NOT_IMPLEMENTED, db)"

definition db_list_config :: "Database \<Rightarrow> ErrorCode \<times> string list option" where
  "db_list_config db = (ERROR_NOT_IMPLEMENTED, None)"

definition db_set_config :: "Database \<Rightarrow> string \<Rightarrow> string \<Rightarrow> ErrorCode \<times> Database" where
  "db_set_config db key v = (ERROR_NOT_IMPLEMENTED, db)"

definition db_export_schema :: "Database \<Rightarrow> string \<Rightarrow> ErrorCode" where
  "db_export_schema db file_path = ERROR_NOT_IMPLEMENTED"

definition db_import_schema :: "Database \<Rightarrow> string \<Rightarrow> ErrorCode \<times> Database" where
  "db_import_schema db file_path = (ERROR_NOT_IMPLEMENTED, db)"

definition db_import_table :: "Database \<Rightarrow> string \<Rightarrow> string \<Rightarrow> string \<Rightarrow> ErrorCode \<times> Database" where
  "db_import_table db table_name format file_path = (ERROR_NOT_IMPLEMENTED, db)"

definition db_export_table :: "Database \<Rightarrow> string \<Rightarrow> string \<Rightarrow> string \<Rightarrow> ErrorCode" where
  "db_export_table db table_name format file_path = ERROR_NOT_IMPLEMENTED"

definition db_rebuild_indexes :: "Database \<Rightarrow> ErrorCode \<times> Database" where
  "db_rebuild_indexes db = (ERROR_NOT_IMPLEMENTED, db)"

definition db_alter_table_add_column ::
  "Database \<Rightarrow> string \<Rightarrow> string \<Rightarrow> FieldType \<Rightarrow> Constraint \<Rightarrow> ErrorCode \<times> Database" where
  "db_alter_table_add_column db table_name col type constraint = (ERROR_NOT_IMPLEMENTED, db)"

definition db_alter_table_drop_column :: "Database \<Rightarrow> string \<Rightarrow> string \<Rightarrow> ErrorCode \<times> Database" where
  "db_alter_table_drop_column db table_name col = (ERROR_NOT_IMPLEMENTED, db)"

definition finish :: "ErrorCode \<times> Database \<Rightarrow> string \<Rightarrow> cmd" where
  \<comment> \<open>the database that a call leaves, and the message of its result\<close>
  "finish r message = steps [set_db (Some (snd r)), report (fst r) message]"

section \<open>Saved state\<close>

definition get_database_name :: "Database \<Rightarrow> string" where
  "get_database_name db = ''Database''"

definition get_database_path :: "Database \<Rightarrow> string" where
  "get_database_path db = ''.''"

definition state_file_name :: "Database \<Rightarrow> string" where
  "state_file_name db = take 255 (get_database_name db @ ''.state.json'')"

definition save_state :: cmd where
  "save_state st = (case sh_db st of None \<Rightarrow> Returns st
     | Some db \<Rightarrow> with_event (\<lambda>ev st1.
         let state_file = state_file_name db in
         case db_save_to_file (se_json (sh_env st1)) (ev_alloc ev) (ev_now ev) (ev_can_write ev) (ev_written ev)
                (sh_files st1) (Some db) (Some state_file) of
           None \<Rightarrow> Undefined
         | Some (result, files') \<Rightarrow> sayln
             (if result = SUCCESS then ''State saved to '' @ state_file
              else ''Warning: Failed to save state: '' @ show_int (error_value result)) (st1\<lparr>sh_files := files'\<rparr>)) st)"

definition default_state_file :: string where
  "default_state_file = ''default.state.json''"

definition load_saved_state :: cmd where
  "load_saved_state st = (if sh_files st default_state_file = None then Returns st
     else ask_yes ''Found saved state. Restore? (y/n): '' (\<lambda>y. if \<not> y then Returns
       else with_event (\<lambda>ev st1.
         case db_load_from_file (se_lib (sh_env st1)) (se_mk (sh_env st1)) (ev_alloc ev) (ev_now ev) (sh_counter st1)
                (sh_files st1) (Some default_state_file) of
           OutOfFuel \<Rightarrow> OutOfFuel
         | Undefined \<Rightarrow> Undefined
         | Returns (dp, gc) \<Rightarrow> steps
             (if dp = None then [] else [sayln (''State restored from '' @ default_state_file)])
             (st1\<lparr>sh_db := dp, sh_counter := gc\<rparr>))) st)"

definition cleanup :: cmd where
  "cleanup = steps [
     sayln ''Cleaning up resources...'',
     \<lambda>st. if sh_db st = None then Returns st else steps [save_state, set_db None] st,
     sayln ''Cleanup completed.'']"

section \<open>Databases\<close>

definition create_database_interactive :: cmd where
  \<comment> \<open>the answers fill a configuration that nothing reads\<close>
  "create_database_interactive =
     ask ''Enter database name: '' MAX_TABLE_NAME (\<lambda>name.
     ask_or ''Enter storage path (optional, current directory if empty): '' (MAX_FIELD_LEN * 2) [] (\<lambda>path.
     with_event (\<lambda>ev.
       let dp = db_create (ev_alloc ev) in
       steps [set_db dp, if dp \<noteq> None then say (Success ''Database created successfully'')
                         else print_error_code ERROR_GENERIC])))"

definition open_database_interactive :: cmd where
  "open_database_interactive =
     ask ''Enter database path (directory or .json file): '' (MAX_FIELD_LEN * 2) (\<lambda>path. with_event (\<lambda>ev st.
       case db_open (se_lib (sh_env st)) (se_mk (sh_env st)) (ev_alloc ev) (ev_now ev) (sh_counter st) (sh_files st)
              (Some path) of
         OutOfFuel \<Rightarrow> OutOfFuel
       | Undefined \<Rightarrow> Undefined
       | Returns (dp, gc) \<Rightarrow> steps (case dp of None \<Rightarrow> [print_error_code ERROR_GENERIC]
            | Some db \<Rightarrow> [say (Success ''Database opened successfully''),
                sayln (''Database: '' @ get_database_name db),
                sayln (''Tables: '' @ show_nat (db_get_table_count (Some db)))])
           (st\<lparr>sh_db := dp, sh_counter := gc\<rparr>)))"

definition close_database_interactive :: cmd where
  "close_database_interactive st = (if sh_db st = None then say (Warning ''No database is open'') st
     else ask_yes ''Save changes before closing? (y/n): '' (\<lambda>y.
       steps ((if y then [save_state] else []) @ [set_db None, say (Success ''Database closed'')])) st)"

definition backup_database_interactive :: cmd where
  "backup_database_interactive = with_db (\<lambda>db.
     ask ''Enter backup directory: '' (MAX_FIELD_LEN * 2) (\<lambda>backup_path. with_event (\<lambda>ev st.
       case db_create_backup (se_json (sh_env st)) (ev_alloc ev) (ev_now ev) (ev_tm ev) (ev_can_write ev)
              (ev_written ev) (sh_files st) (Some db) (Some backup_path) of
         None \<Rightarrow> Undefined
       | Some (result, files') \<Rightarrow> report result ''Backup created successfully'' (st\<lparr>sh_files := files'\<rparr>))))"

definition restore_database_interactive :: cmd where
  "restore_database_interactive =
     ask ''Enter backup directory: '' (MAX_FIELD_LEN * 2) (\<lambda>backup_dir. with_event (\<lambda>ev.
       case db_list_backups (ev_entries ev) (Some backup_dir) of (result, backups) \<Rightarrow>
       if result \<noteq> SUCCESS \<or> backups = [] then print_error_code result
       else steps [
         say_lines (''Available backups:'' # map (\<lambda>i. show_nat (i + 1) @ ''. '' @ backups ! i) [0..<length backups]),
         ask_number (''Select backup to restore (1-'' @ show_nat (length backups) @ ''): '') 10 (\<lambda>choice.
           if choice < 1 \<or> int (length backups) < choice then print_error_code ERROR_INVALID_INPUT
           else let backup_file = take (MAX_FIELD_LEN * 2 - 1) (backup_dir @ ''/'' @ backups ! nat (choice - 1)) in
           ask_yes (''Restore backup '' @ backup_file @ ''? This will overwrite current database. (y/n): '') (\<lambda>y.
             if \<not> y then say (Info ''Restore cancelled'')
             else with_event (\<lambda>ev1 st.
               case db_restore_backup (se_lib (sh_env st)) (se_mk (sh_env st)) (ev_alloc ev1) (ev_now ev1)
                      (sh_counter st) (sh_files st) (sh_db st) (Some backup_file) of
                 OutOfFuel \<Rightarrow> OutOfFuel
               | Undefined \<Rightarrow> Undefined
               | Returns (result', dp, gc) \<Rightarrow>
                   report result' ''Backup restored successfully'' (st\<lparr>sh_db := dp, sh_counter := gc\<rparr>))))]))"

section \<open>Tables\<close>

definition chosen_type :: "int \<Rightarrow> FieldType" where
  "chosen_type choice = (if choice = 1 then TYPE_INT else if choice = 3 then TYPE_FLOAT else if choice = 4 then TYPE_DOUBLE
     else if choice = 5 then TYPE_BOOL else if choice = 6 then TYPE_DATETIME else TYPE_STRING)"

fun ask_fields ::
  "alloc \<Rightarrow> nat \<Rightarrow> nat \<Rightarrow> (string option \<times> FieldType \<times> Constraint) list \<Rightarrow>
   ((string option \<times> FieldType \<times> Constraint) list \<Rightarrow> cmd) \<Rightarrow> cmd" where
  \<comment> \<open>the questions on the \<open>n\<close> fields that are left; allocation \<open>3 + i\<close> is the name of field \<open>i\<close>\<close>
  "ask_fields ok 0 i asked k = k asked"
| "ask_fields ok (Suc n) i asked k =
     ask (''Field '' @ show_nat (i + 1) @ '' name: '') MAX_FIELD_LEN (\<lambda>field_name.
     ask_number ''Field type (1=int, 2=string, 3=float, 4=double, 5=bool, 6=datetime): '' 10 (\<lambda>type_choice.
     ask_yes ''Is this field primary key? (y/n): '' (\<lambda>pk.
     ask_yes ''Allow NULL values? (y/n): '' (\<lambda>null.
     ask_yes ''Unique values? (y/n): '' (\<lambda>uniq.
       ask_fields ok n (Suc i) (asked @ [(if ok (3 + i) then Some field_name else None, chosen_type type_choice,
         \<lparr>c_nullable = null, c_unique = uniq, c_primary_key = pk, c_foreign_key = False\<rparr>)]) k)))))"

definition asked_fields :: "(string option \<times> FieldType \<times> Constraint) list \<Rightarrow> SchemaFields" where
  "asked_fields asked = \<lparr>sf_names = map fst asked, sf_types = map (\<lambda>(_, t, _). t) asked, sf_capacity = length asked\<rparr>"

definition set_constraints :: "Constraint list \<Rightarrow> Table \<Rightarrow> Table" where
  "set_constraints cs t = t\<lparr>t_constraints := cs @ drop (length cs) (t_constraints t)\<rparr>"

definition create_asked_table ::
  "alloc \<Rightarrow> string \<Rightarrow> (string option \<times> FieldType \<times> Constraint) list \<Rightarrow> Database \<Rightarrow> cmd" where
  \<comment> \<open>\<open>db_add_table\<close>, and then the constraints are stored in the new table\<close>
  "create_asked_table ok table_name asked db st =
     (case add_parsed_table (shift_alloc (3 + length asked) ok) db table_name (asked_fields asked) of
        OutOfFuel \<Rightarrow> OutOfFuel
      | Undefined \<Rightarrow> Undefined
      | Returns (result, slot, db1) \<Rightarrow> (case slot of
            Some i \<Rightarrow> if result = SUCCESS
              then steps [set_db (Some (put_table db1 i
                     (set_constraints (map (\<lambda>(_, _, c). c) asked) (db_tables db1 ! i)))),
                   say (Success ''Table created successfully'')] st
              else steps [set_db (Some db1), print_error_code result] st
          | None \<Rightarrow> steps [set_db (Some db1), print_error_code result] st))"

definition create_table_interactive :: cmd where
  "create_table_interactive = with_db (\<lambda>db.
     ask ''Enter table name: '' MAX_TABLE_NAME (\<lambda>table_name.
     ask_number ''Enter number of fields: '' 10 (\<lambda>field_count.
       if field_count \<le> 0 \<or> int MAX_FIELDS_PER_TABLE < field_count then print_error_code ERROR_INVALID_INPUT
       else with_event (\<lambda>ev.
         let ok = ev_alloc ev in
         if \<not> ok 0 \<or> \<not> ok 1 \<or> \<not> ok 2 then print_error_code ERROR_MEMORY_ALLOCATION
         else ask_fields ok (nat field_count) 0 [] (\<lambda>asked. create_asked_table ok table_name asked db)))))"

definition list_tables_interactive :: cmd where
  "list_tables_interactive = with_db (\<lambda>db. with_event (\<lambda>ev.
     case db_list_tables (ev_alloc ev) db of
       (None, _) \<Rightarrow> say (Info ''No tables found'')
     | (Some tables, n) \<Rightarrow>
         if n = 0 then say (Info ''No tables found'')
         else steps [
           sayln (''Tables ('' @ show_nat n @ ''):''),
           say_rows ([''No.'', ''Name'', ''Records''] #
             map (\<lambda>i. [show_nat (i + 1), tables ! i,
                 case db_get_table db (Some (tables ! i)) of None \<Rightarrow> ''0''
                   | Some k \<Rightarrow> show_nat (t_record_count (db_tables db ! k))]) [0..<n])]))"

definition get_index_by_id :: "IndexManager option \<Rightarrow> int \<Rightarrow> Index option" where
  "get_index_by_id mp i = (case mp of None \<Rightarrow> None
     | Some manager \<Rightarrow> if i < 0 \<or> int (im_index_count manager) \<le> i then None else Some (im_indexes manager ! nat i))"

definition index_get_field_name :: "Index option \<Rightarrow> string" where
  "index_get_field_name ip = (case ip of None \<Rightarrow> ''unknown'' | Some index \<Rightarrow> ix_field_name index)"

definition index_get_type_string :: "Index option \<Rightarrow> string" where
  "index_get_type_string ip = (case ip of None \<Rightarrow> ''UNKNOWN''
     | Some index \<Rightarrow> (case ix_type index of INDEX_HASH \<Rightarrow> ''HASH'' | INDEX_BTREE \<Rightarrow> ''B-TREE'' | INDEX_SKIPLIST \<Rightarrow> ''SKIPLIST''
         | INDEX_BITMAP \<Rightarrow> ''BITMAP'' | INDEX_FULLTEXT \<Rightarrow> ''FULLTEXT'' | INDEX_NONE \<Rightarrow> ''UNKNOWN''))"

definition index_get_memory_usage :: "shell_env \<Rightarrow> Index option \<Rightarrow> nat" where
  "index_get_memory_usage env ip = (case ip of None \<Rightarrow> 0 | Some _ \<Rightarrow> se_index_size env)"

definition index_optimize :: "Index option \<Rightarrow> ErrorCode" where
  "index_optimize ip = (case ip of None \<Rightarrow> ERROR_NOT_FOUND | Some _ \<Rightarrow> SUCCESS)"

definition indexes_by_id :: "IndexManager option \<Rightarrow> (nat \<Rightarrow> Index option \<Rightarrow> 'a) \<Rightarrow> 'a list" where
  \<comment> \<open>\<open>for (i = 0; i < index_manager_get_count(m); i++) if (get_index_by_id(m, i)) ...\<close>\<close>
  "indexes_by_id mp f = concat (map (\<lambda>i. case get_index_by_id mp (int i) of None \<Rightarrow> []
      | Some index \<Rightarrow> [f i (Some index)]) [0..<index_manager_get_count mp])"

definition index_line :: "Index option \<Rightarrow> string" where
  "index_line ip = index_get_field_name ip @ '' ('' @ index_get_type_string ip @ '')''"

definition bullet_line :: "Index option \<Rightarrow> string" where
  "bullet_line ip = ''  '' @ bullet @ '' '' @ index_line ip"

definition constraint_text :: "Constraint \<Rightarrow> string" where
  "constraint_text c =
     (let s = (if c_primary_key c then ''PK '' else []) @ (if c_unique c then ''UNIQUE '' else []) @
              (if \<not> c_nullable c then ''NOT NULL '' else [])
      in if s = [] then ''-'' else s)"

definition describe_table_interactive :: cmd where
  "describe_table_interactive = with_db (\<lambda>db.
     ask ''Enter table name: '' MAX_TABLE_NAME (\<lambda>table_name.
       case db_get_table db (Some table_name) of
         None \<Rightarrow> print_error_code ERROR_NOT_FOUND
       | Some k \<Rightarrow>
           let t = db_tables db ! k; m = t_index_manager t in steps [
           say_lines [''Table: '' @ t_name t, ''Records: '' @ show_nat (t_record_count t),
             ''Fields: '' @ show_nat (t_field_count t), ''Schema:''],
           say_rows ([''No.'', ''Name'', ''Type'', ''Constraints''] #
             map (\<lambda>i. [show_nat (i + 1), t_field_names t ! i, field_type_to_string (t_field_types t ! i),
                 constraint_text (t_constraints t ! i)]) [0..<t_field_count t]),
           say_lines (if m \<noteq> None \<and> 0 < index_manager_get_count m
             then (''Indexes ('' @ show_nat (index_manager_get_count m) @ ''):'') #
               indexes_by_id m (\<lambda>_. bullet_line) else [])]))"


definition column_type :: "int \<Rightarrow> FieldType" where
  "column_type choice = (if choice = 1 then TYPE_INT else if choice = 3 then TYPE_FLOAT else if choice = 4 then TYPE_DOUBLE
     else if choice = 5 then TYPE_BOOL else TYPE_STRING)"

definition alter_table_interactive :: cmd where
  "alter_table_interactive = with_db (\<lambda>db. steps [say_lines alter_menu_text,
     ask_number ''Select operation: '' 10 (\<lambda>choice.
       if choice = 0 then Returns
       else ask ''Enter table name: '' MAX_TABLE_NAME (\<lambda>table_name.
         if db_get_table db (Some table_name) = None then print_error_code ERROR_NOT_FOUND
         else if choice = 1 then
           ask ''Enter new column name: '' MAX_FIELD_LEN (\<lambda>col.
           ask_number ''Enter column type (1=int, 2=string, 3=float, 4=double, 5=bool): '' 10 (\<lambda>type_choice.
             finish (db_alter_table_add_column db table_name col (column_type type_choice)
                 \<lparr>c_nullable = True, c_unique = False, c_primary_key = False, c_foreign_key = False\<rparr>)
               ''Column added successfully''))
         else if choice = 2 then
           ask ''Enter column name to drop: '' MAX_FIELD_LEN (\<lambda>col.
           ask_yes (''Drop column '' @ col @ ''? This will delete all data in this column. (y/n): '') (\<lambda>y.
             if y then finish (db_alter_table_drop_column db table_name col) ''Column dropped successfully'' else Returns))
         else if choice = 3 then
           ask ''Enter current column name: '' MAX_FIELD_LEN (\<lambda>old_name.
           ask ''Enter new column name: '' MAX_FIELD_LEN (\<lambda>new_name.
             finish (db_alter_table_rename_column db table_name old_name new_name) ''Column renamed successfully''))
         else say (Warning ''Operation not yet implemented'')))])"

definition truncate_table_interactive :: cmd where
  "truncate_table_interactive = with_db (\<lambda>db.
     ask ''Enter table name: '' MAX_TABLE_NAME (\<lambda>table_name.
     ask_yes (''Truncate table '' @ table_name @ ''? This will delete all records. (y/n): '') (\<lambda>y.
       if y then finish (db_truncate_table db table_name) ''Table truncated successfully'' else Returns)))"

definition drop_table_interactive :: cmd where
  "drop_table_interactive = with_db (\<lambda>db.
     ask ''Enter table name: '' MAX_TABLE_NAME (\<lambda>table_name.
     ask_yes (''Drop table '' @ table_name @ ''? This will delete the table and all its data. (y/n): '') (\<lambda>y.
       if y then finish (db_drop_table db table_name) ''Table dropped successfully'' else Returns)))"

definition strrchr :: "string \<Rightarrow> char \<Rightarrow> nat option" where
  "strrchr s c = (case find_index (\<lambda>d. d = c) (rev s) of None \<Rightarrow> None | Some i \<Rightarrow> Some (length s - 1 - i))"

definition inferred_table :: "string \<Rightarrow> string \<times> string" where
  \<comment> \<open>the name taken from the path, and the path, which is cut at the dot in place\<close>
  "inferred_table file_path =
     (let start = (case strrchr file_path (CHR ''/'') of Some i \<Rightarrow> i + 1
          | None \<Rightarrow> (case strrchr file_path (CHR 0x5C) of Some i \<Rightarrow> i + 1 | None \<Rightarrow> 0));
          filename = drop start file_path
      in case strrchr filename (CHR ''.'') of None \<Rightarrow> (filename, file_path)
         | Some dot \<Rightarrow> (take dot filename, take (start + dot) file_path))"

definition import_table_interactive :: cmd where
  "import_table_interactive = with_db (\<lambda>db.
     ask ''Enter table name (or leave empty to infer from file): '' MAX_TABLE_NAME (\<lambda>table_name.
     ask ''Enter file path: '' (MAX_FIELD_LEN * 2) (\<lambda>file_path.
     ask_number ''Enter file format (1=JSON, 2=CSV, 3=XML): '' 10 (\<lambda>format_choice.
       let format = file_format format_choice in
       if 0 < length table_name
       then finish (db_import_table db table_name format file_path) ''Table imported successfully''
       else case inferred_table file_path of (filename, file_path') \<Rightarrow>
         finish (db_import_table db filename format file_path') ''Table imported successfully''))))"

definition export_table_interactive :: cmd where
  "export_table_interactive = with_db (\<lambda>db.
     ask ''Enter table name: '' MAX_TABLE_NAME (\<lambda>table_name.
       if db_get_table db (Some table_name) = None then print_error_code ERROR_NOT_FOUND
       else ask ''Enter output file path: '' (MAX_FIELD_LEN * 2) (\<lambda>file_path.
         ask_number ''Enter file format (1=JSON, 2=CSV, 3=XML): '' 10 (\<lambda>format_choice.
           report (db_export_table db table_name (file_format format_choice) file_path)
             ''Table exported successfully''))))"

section \<open>Indexes\<close>

definition index_type_choice :: "int \<Rightarrow> IndexType" where
  "index_type_choice choice = (if choice = 2 then INDEX_BTREE else if choice = 3 then INDEX_SKIPLIST
     else if choice = 4 then INDEX_BITMAP else if choice = 5 then INDEX_FULLTEXT else INDEX_HASH)"

definition with_table :: "Database \<Rightarrow> (string \<Rightarrow> Table \<Rightarrow> cmd) \<Rightarrow> string \<Rightarrow> cmd" where
  \<comment> \<open>\<open>db_get_table\<close>, and the error if there is none\<close>
  "with_table db k table_name = (case db_get_table db (Some table_name) of
       None \<Rightarrow> print_error_code ERROR_NOT_FOUND
     | Some i \<Rightarrow> k table_name (db_tables db ! i))"

definition create_index_interactive :: cmd where
  "create_index_interactive = with_db (\<lambda>db.
     ask ''Enter table name: '' MAX_TABLE_NAME (with_table db (\<lambda>table_name t. steps [
       say_lines ((''Available fields in table '' @ table_name @ '':'') #
         map (\<lambda>i. show_nat (i + 1) @ ''. '' @ t_field_names t ! i @ '' ('' @
           field_type_to_string (t_field_types t ! i) @ '')'') [0..<t_field_count t]),
       ask_number ''Select field number: '' 10 (\<lambda>n. let field_choice = n - 1 in
         if field_choice < 0 \<or> int (t_field_count t) \<le> field_choice then print_error_code ERROR_INVALID_INPUT
         else let field_name = t_field_names t ! nat field_choice in steps [
           say_lines index_types_menu_text,
           ask_number ''Select index type: '' 10 (\<lambda>type_choice. with_event (\<lambda>ev.
             case db_create_index (ev_alloc ev) db (Some table_name) (Some field_name) (index_type_choice type_choice) of
               None \<Rightarrow> (\<lambda>_. Undefined)
             | Some r \<Rightarrow> finish r ''Index created successfully''))])])))"

definition list_indexes_interactive :: cmd where
  "list_indexes_interactive = with_db (\<lambda>db.
     ask ''Enter table name (or leave empty for all tables): '' MAX_TABLE_NAME (\<lambda>table_name.
       if 0 < length table_name then with_table db (\<lambda>_ t.
         let m = t_index_manager t in
         if index_manager_get_count m = 0 then say (Info ''No indexes found for this table'')
         else (\<lambda>st. steps [
           sayln (''Indexes for table '' @ table_name @ '':''),
           say_rows ([''No.'', ''Field Name'', ''Type'', ''Size''] #
             indexes_by_id m (\<lambda>i index. [show_nat (i + 1), index_get_field_name index, index_get_type_string index,
               show_nat (index_get_memory_usage (sh_env st) index)]))] st)) table_name
       else
         let tables = take (db_table_count db) (db_tables db);
             total_indexes = sum_list (map (\<lambda>t. length (indexes_by_id (t_index_manager t) (\<lambda>_. bullet_line))) tables)
         in steps [
           sayln ''Indexes for all tables:'',
           say_lines (concat (map (\<lambda>t.
             if 0 < index_manager_get_count (t_index_manager t)
             then (''Table: '' @ t_name t) # indexes_by_id (t_index_manager t) (\<lambda>_. bullet_line) else []) tables)),
           if total_indexes = 0 then say (Info ''No indexes found in the database'')
           else sayln (''Total indexes: '' @ show_nat total_indexes)]))"

definition drop_index_interactive :: cmd where
  "drop_index_interactive = with_db (\<lambda>db.
     ask ''Enter table name: '' MAX_TABLE_NAME (with_table db (\<lambda>table_name t.
       let m = t_index_manager t; index_count = index_manager_get_count m in
       if index_count = 0 then print_error_code ERROR_NOT_FOUND
       else steps [
         say_lines ((''Indexes in table '' @ table_name @ '':'') #
           indexes_by_id m (\<lambda>i index. show_nat (i + 1) @ ''. '' @ index_line index)),
         ask_number ''Select index to drop: '' 10 (\<lambda>n. let choice = n - 1 in
           if choice < 0 \<or> int index_count \<le> choice then print_error_code ERROR_INVALID_INPUT
           else if get_index_by_id m choice = None then print_error_code ERROR_NOT_FOUND
           else let field_name = index_get_field_name (get_index_by_id m choice) in
           ask_yes (''Drop index on '' @ table_name @ ''.'' @ field_name @ ''? (y/n): '') (\<lambda>y.
             if y then finish (db_drop_index db (Some table_name) (Some field_name)) ''Index dropped successfully''
             else Returns))])))"

definition rebuild_index_interactive :: cmd where
  "rebuild_index_interactive = with_db (\<lambda>db.
     ask_yes ''Rebuild all indexes? This may take time. (y/n): '' (\<lambda>y.
       if y then finish (db_rebuild_indexes db) ''Indexes rebuilt successfully'' else Returns))"

definition optimize_index_interactive :: cmd where
  "optimize_index_interactive = with_db (\<lambda>db.
     ask ''Enter table name (or leave empty for all tables): '' MAX_TABLE_NAME (\<lambda>table_name.
       if 0 < length table_name then with_table db (\<lambda>_ t.
         let m = t_index_manager t in
         if 0 < index_manager_get_count m then say_lines (
           (''Optimizing indexes for table '' @ table_name @ '':'') #
           indexes_by_id m (\<lambda>i index. ''  Optimizing index on '' @ index_get_field_name index @ ''... '' @
             (if index_optimize index = SUCCESS then check_mark else cross_mark)))
         else say (Info ''No indexes found for this table'')) table_name
       else sayln (''Optimized '' @ show_nat (sum_list (map (\<lambda>t.
         length (indexes_by_id (t_index_manager t) (\<lambda>_. index_optimize)))
         (take (db_table_count db) (db_tables db)))) @ '' indexes'')))"


end
