(* ===== verification/Lx_Menus_Query.thy ===== *)
theory Lx_Menus_Query
  imports Lx_Menus
begin

text \<open>
  The commands of \<open>src/src/main.c\<close> on queries, scripts, maintenance, configuration, help and tools, and
  \<open>read_multiline_input\<close> of \<open>src/src/utils.c\<close>.
\<close>

section \<open>Reading a query\<close>

definition read_line :: "string \<Rightarrow> (string \<times> string) option" where
  \<comment> \<open>\<open>getline\<close>, and the newline cut off\<close>
  "read_line s = (if s = [] then None
     else let k = Suc (length (takeWhile (\<lambda>c. c \<noteq> newline) s)) in Some (cli_input (take k s), drop k s))"

definition trimmed_in_place :: "string \<Rightarrow> string" where
  \<comment> \<open>the line after \<open>trim_whitespace\<close> has stored its terminator in it\<close>
  "trimmed_in_place line = (let t = the (trim_whitespace (Some line)) in
     if t = [] then line else takeWhile isspace line @ t)"

lemma read_line_shorter: "read_line s = Some (line, rest) \<Longrightarrow> length rest < length s"
  by (auto simp: read_line_def Let_def split: if_splits)

function read_lines :: "alloc \<Rightarrow> nat \<Rightarrow> string option \<Rightarrow> string \<Rightarrow> string option \<times> string \<times> nat" where
  \<comment> \<open>the text, the input that is left, and the number of lines appended\<close>
  "read_lines ok n input s = (case read_line s of None \<Rightarrow> (input, s, n)
     | Some (line, rest) \<Rightarrow>
         if strcmp (the (trim_whitespace (Some line))) '';'' = 0 then (input, rest, n)
         else if \<not> ok n then (None, rest, n)
         else let line' = trimmed_in_place line in
           read_lines ok (Suc n)
             (Some (case input of None \<Rightarrow> line' | Some t \<Rightarrow> if t = [] then line' else t @ '' '' @ line')) rest)"
  by pat_completeness auto
termination
  by (relation "measure (\<lambda>(ok, n, input, s). length s)") (auto dest: read_line_shorter)

declare read_lines.simps [simp del]

definition read_multiline_input :: "(string option \<Rightarrow> cmd) \<Rightarrow> cmd" where
  "read_multiline_input k = with_event (\<lambda>ev st. case read_lines (ev_alloc ev) 0 None (sh_in st) of
     (input, rest, n) \<Rightarrow> k input (st\<lparr>sh_in := rest, sh_out := sh_out st @
        [Text (''Enter SQL command (end with '' @ apostrophe @ '';'' @ apostrophe @ '' on a line by itself):'' @ [newline]),
         Text ''SQL> ''] @ replicate n (Text ''... '')\<rparr>))"

section \<open>Help\<close>

definition show_help_topic :: "string option \<Rightarrow> cmd" where
  "show_help_topic topic = (case topic of None \<Rightarrow> say_lines help_general_text
     | Some t \<Rightarrow>
         if strcmp t ''general'' = 0 then say_lines help_general_text
         else if strcmp t ''sql'' = 0 then say_lines help_sql_text
         else if strcmp t ''commands'' = 0 then say_lines help_commands_text
         else if strcmp t ''examples'' = 0 then say_lines show_examples_text
         else sayln (''Help topic '' @ apostrophe @ t @ apostrophe @ '' not found. Type '' @ apostrophe @ ''help'' @
           apostrophe @ '' for available topics.''))"

definition getchar :: cmd where
  "getchar st = Returns (st\<lparr>sh_in := tl (sh_in st)\<rparr>)"

definition interactive_tutorial :: cmd where
  "interactive_tutorial = steps [say_lines interactive_tutorial_text, getchar]"

section \<open>Queries\<close>

definition query_format :: "int \<Rightarrow> OutputFormat" where
  "query_format choice = (if choice = 2 then FORMAT_JSON else if choice = 3 then FORMAT_CSV
     else if choice = 4 then FORMAT_XML else FORMAT_TABLE)"

definition note_query :: "string \<Rightarrow> cmd" where
  "note_query query st = Returns (add_to_history (Some query) st)"

definition execute_query_interactive :: cmd where
  "execute_query_interactive = with_db (\<lambda>db. steps [
     say_lines [''Enter SQL query (or type '' @ apostrophe @ ''help'' @ apostrophe @ '' for syntax help):'',
       ''Use '' @ apostrophe @ '';;'' @ apostrophe @ '' on a new line to execute multi-line queries.''],
     read_multiline_input (\<lambda>qp. case qp of None \<Rightarrow> Returns
       | Some query \<Rightarrow>
           if length query = 0 then Returns
           else if strcasecmp_eq query ''help'' then show_help_topic (Some ''sql'')
           else steps [note_query query, with_event (\<lambda>ev.
             case db_execute_query (ev_alloc ev) db (Some query) of
               (None, db') \<Rightarrow> steps [set_db (Some db'),
                 sayln (''Query failed ('' @ ev_elapsed ev @ '' seconds)''), print_error_code ERROR_GENERIC]
             | (Some result, db') \<Rightarrow> steps [set_db (Some db'),
                 sayln (''Query executed successfully ('' @ ev_elapsed ev @ '' seconds)''),
                 ask_number ''Output format (1=Table, 2=JSON, 3=CSV, 4=XML): '' 10 (\<lambda>format_choice. steps [
                   print_query_result_formatted (Some result) (query_format format_choice),
                   ask_yes ''Save result to file? (y/n): '' (\<lambda>y.
                     if y then save_query_result (Some result) else Returns)])])])])"

function fgets_all :: "nat \<Rightarrow> string \<Rightarrow> string list" where
  \<comment> \<open>what \<open>while (fgets(line, n, file))\<close> reads, with \<open>n\<close> at least 2\<close>
  "fgets_all n s = (if n < 2 then [] else case fgets n s of None \<Rightarrow> [] | Some (line, rest) \<Rightarrow> line # fgets_all n rest)"
  by pat_completeness auto
termination
  by (relation "measure (\<lambda>(n, s). length s)") (auto simp: fgets_def Let_def split: if_splits)

declare fgets_all.simps [simp del]

fun script_loop :: "string list \<Rightarrow> nat \<Rightarrow> string \<Rightarrow> nat \<Rightarrow> nat \<Rightarrow> Database \<Rightarrow> cmd" where
  "script_loop [] line_num query success_count error_count db = say_lines
     [''Script execution completed:'', ''  Successful: '' @ show_nat success_count, ''  Failed: '' @ show_nat error_count,
      ''  Total: '' @ show_nat (success_count + error_count)]"
| "script_loop (raw # rest) line_num query success_count error_count db =
     (let line = the (trim_string (Some (c_str raw))) in
      if line = [] \<or> hd line = CHR ''#'' \<or> hd line = CHR ''-''
      then script_loop rest (Suc line_num) query success_count error_count db
      else if MAX_QUERY_LEN * 10 \<le> length query + length line then (\<lambda>_. Undefined)
      else if strstr line '';'' \<noteq> None then with_event (\<lambda>ev.
        case db_execute_query (ev_alloc ev) db (Some (query @ line)) of (result, db') \<Rightarrow> steps [
          set_db (Some db'),
          say (Text (''[Line '' @ show_nat (Suc line_num) @ ''] Executing: '' @ query @ line)),
          sayln ('' '' @ (if result \<noteq> None then check_mark else cross_mark) @ '' ('' @ ev_elapsed ev @ '' seconds)''),
          if result \<noteq> None then script_loop rest (Suc line_num) [] (Suc success_count) error_count db'
          else script_loop rest (Suc line_num) [] success_count (Suc error_count) db'])
      else script_loop rest (Suc line_num) (query @ line) success_count error_count db)"

definition execute_script_interactive :: cmd where
  "execute_script_interactive = with_db (\<lambda>db.
     ask ''Enter script file path: '' (MAX_FIELD_LEN * 2) (\<lambda>script_path st.
       case sh_files st script_path of None \<Rightarrow> print_error_code ERROR_IO_OPERATION st
       | Some content \<Rightarrow> steps [sayln (''Executing script: '' @ script_path),
           script_loop (fgets_all MAX_QUERY_LEN content) 0 [] 0 0 db] st))"

definition history_row :: "Shell \<Rightarrow> nat \<Rightarrow> cmd" where
  "history_row st i = (case history_display (history_entry st i) of
       None \<Rightarrow> (\<lambda>_. Undefined)
     | Some display \<Rightarrow> say (Row [show_nat (i + 1), display]))"

definition reexecute_query :: "string \<Rightarrow> cmd" where
  \<comment> \<open>\<open>db_execute_query\<close> of a NULL database returns NULL\<close>
  "reexecute_query query = steps [sayln (''Re-executing query: '' @ query), with_event (\<lambda>ev st.
     case (case sh_db st of None \<Rightarrow> (None, None)
           | Some db \<Rightarrow> (case db_execute_query (ev_alloc ev) db (Some query) of (r, db') \<Rightarrow> (r, Some db'))) of
       (None, dp) \<Rightarrow> steps [set_db dp, sayln (''Query failed ('' @ ev_elapsed ev @ '' seconds)'')] st
     | (Some result, dp) \<Rightarrow> steps [set_db dp,
         sayln (''Query executed successfully ('' @ ev_elapsed ev @ '' seconds)''),
         print_query_result_formatted (Some result) FORMAT_TABLE] st)]"

definition query_history :: cmd where
  "query_history st = (if sh_history_count st = 0 then say (Info ''No query history'') st
     else steps (
       [sayln (''Query History (last '' @ show_nat (sh_history_count st) @ '' queries):''), say (Row [''No.'', ''Query''])] @
       map (history_row st) [0..<sh_history_count st] @
       [ask_number ''Enter query number to re-execute (0 to cancel): '' 10 (\<lambda>choice.
          if 0 < choice \<and> choice \<le> int (sh_history_count st)
          then reexecute_query (history_entry st (nat choice - 1)) else Returns)]) st)"

definition explain_query_interactive :: cmd where
  "explain_query_interactive = with_db (\<lambda>db. steps [
     say (Text ''Enter query to explain: ''),
     read_multiline_input (\<lambda>qp. case qp of None \<Rightarrow> Returns
       | Some query \<Rightarrow>
           if length query = 0 then Returns
           else (case db_explain_query db query of
               (result, Some explanation) \<Rightarrow>
                 if result = SUCCESS then say_lines [''Query Explanation:'', ''=================='', explanation]
                 else print_error_code result
             | (result, None) \<Rightarrow> print_error_code result))])"

end
