(* ===== verification/Lx_Main.thy ===== *)
theory Lx_Main
  imports Lx_Menus_Query
begin

text \<open>
  The commands of \<open>src/src/main.c\<close> on maintenance, configuration and tools, its menus and \<open>main\<close>.

  The loop of a menu may go on for ever, so the menus take fuel, one unit for each turn, which a menu
  passes on to the menus it opens.
\<close>

section \<open>Maintenance\<close>

definition leave_db :: "ErrorCode \<times> Database \<Rightarrow> cmd" where
  \<comment> \<open>the database that a call leaves; its result is not looked at\<close>
  "leave_db r = set_db (Some (snd r))"

definition vacuum_database_interactive :: cmd where
  "vacuum_database_interactive = with_db (\<lambda>db. steps [say_lines vacuum_menu_text,
     ask_number ''Select operation: '' 10 (\<lambda>choice.
       if choice = 1 then steps [sayln ''Performing full vacuum...'', leave_db (db_vacuum db), say (Success ''Vacuum completed'')]
       else if choice = 2 then
         steps [sayln ''Analyzing database...'', leave_db (db_analyze db), say (Success ''Analysis completed'')]
       else if choice = 3 then ask ''Enter table name: '' MAX_TABLE_NAME (\<lambda>table_name. steps [
         sayln (''Vacuuming table '' @ apostrophe @ table_name @ apostrophe @ ''...''),
         leave_db (db_vacuum_table db table_name), say (Success ''Table vacuum completed'')])
       else if choice = 4 then ask ''Enter table name: '' MAX_TABLE_NAME (\<lambda>table_name. steps [
         sayln (''Analyzing table '' @ apostrophe @ table_name @ apostrophe @ ''...''),
         leave_db (db_analyze_table db table_name), say (Success ''Table analysis completed'')])
       else say (Warning ''Invalid operation''))])"

definition analyze_database_interactive :: cmd where
  "analyze_database_interactive = with_db (\<lambda>db. steps [sayln ''Running database analysis...'',
     leave_db (db_analyze db), say (Success ''Analysis completed'')])"

definition check_integrity_interactive :: cmd where
  "check_integrity_interactive = with_db (\<lambda>db.
     ask_yes ''Check integrity with automatic repair? (y/n): '' (\<lambda>repair.
       case db_check_integrity db repair of (result, db') \<Rightarrow> steps [
         sayln ''Checking database integrity...'', set_db (Some db'),
         if result = SUCCESS then say (Success ''Integrity check passed'')
         else if result = ERROR_CORRUPT_DATA then steps [say (Warning ''Data corruption detected''),
           if repair then sayln ''Attempting repair...'' else Returns]
         else print_error_code result]))"

definition repair_database_interactive :: cmd where
  "repair_database_interactive = with_db (\<lambda>db. steps [say_lines repair_menu_text,
     ask_number ''Select operation: '' 10 (\<lambda>choice.
       if choice = 1 then ask ''Enter table name: '' MAX_TABLE_NAME (\<lambda>table_name. steps [
         sayln (''Repairing table '' @ apostrophe @ table_name @ apostrophe @ ''...''),
         finish (db_repair_table db table_name) ''Table repaired successfully''])
       else if choice = 2 then steps [sayln ''Repairing all tables...'', say (Warning ''Not yet implemented'')]
       else if choice = 3 then
         steps [sayln ''Rebuilding all indexes...'', leave_db (db_rebuild_indexes db), say (Success ''Indexes rebuilt'')]
       else if choice = 4 then restore_database_interactive
       else say (Warning ''Invalid operation''))])"

definition statistics_interactive :: cmd where
  \<comment> \<open>\<open>Counters\<close>: the counters and what is computed from them\<close>
  "statistics_interactive = with_db (\<lambda>db. steps [
     say_lines [''Database Statistics:'', ''====================''],
     (case db_get_statistics db of None \<Rightarrow> Returns | Some stats \<Rightarrow> say (Counters stats)),
     say_lines [''Table Statistics:'', ''=================''],
     say_lines (concat (map (\<lambda>t. if db_get_table_statistics db (Some (t_name t)) = None then []
         else [''Table: '' @ t_name t, ''  Records:          '' @ show_nat (t_record_count t)])
       (take (db_get_table_count (Some db)) (db_tables db))))])"

section \<open>Configuration\<close>

definition config_row :: "string \<Rightarrow> string list" where
  "config_row c = (case find_index (\<lambda>x. x = CHR ''='') c of None \<Rightarrow> [take 63 c, []]
     | Some i \<Rightarrow> [take 63 (take i c), take 255 (drop (i + 1) c)])"

definition show_config_interactive :: cmd where
  "show_config_interactive = with_db (\<lambda>db. case db_list_config db of
       (result, None) \<Rightarrow> print_error_code result
     | (result, Some configs) \<Rightarrow>
         if result = SUCCESS
         then steps [sayln ''Database Configuration:'', say_rows ([''Key'', ''Value''] # map config_row configs)]
         else print_error_code result)"

definition set_config_interactive :: cmd where
  "set_config_interactive = with_db (\<lambda>db.
     ask ''Enter configuration key: '' 64 (\<lambda>key.
     ask ''Enter configuration value: '' 256 (\<lambda>v. finish (db_set_config db key v) ''Configuration updated'')))"

definition reset_config_interactive :: cmd where
  "reset_config_interactive = with_db (\<lambda>db.
     ask_yes ''Reset all configuration to defaults? (y/n): '' (\<lambda>y.
       if y then say (Warning ''Not yet implemented'') else Returns))"

definition export_config_interactive :: cmd where
  "export_config_interactive = with_db (\<lambda>db.
     ask ''Enter configuration file path: '' (MAX_FIELD_LEN * 2) (\<lambda>file_path.
       report (db_export_schema db file_path) ''Configuration exported''))"

definition import_config_interactive :: cmd where
  "import_config_interactive = with_db (\<lambda>db.
     ask ''Enter configuration file path: '' (MAX_FIELD_LEN * 2) (\<lambda>file_path.
       finish (db_import_schema db file_path) ''Configuration imported''))"

section \<open>Tools\<close>

definition benchmark_database :: cmd where
  "benchmark_database = with_db (\<lambda>_. steps [
     say_lines [''Database Benchmark'', ''=================='', ''Warning: Benchmarking will modify the database.''],
     ask_yes ''Create backup first? (y/n): '' (\<lambda>y. if y then backup_database_interactive else Returns),
     say_lines benchmark_menu_text,
     ask_number ''Choice: '' 10 (\<lambda>choice.
       if choice = 1 then sayln ''Running insert benchmark...''
       else if choice = 2 then sayln ''Running query benchmark...''
       else if choice = 5 then sayln ''Running complete benchmark suite...''
       else say (Warning ''Benchmark type not yet implemented''))])"

definition stress_test_database :: cmd where
  "stress_test_database = with_db (\<lambda>_. steps [
     say_lines [''Database Stress Test'', ''===================='', ''Warning: Stress test will heavily load the database.''],
     ask_yes ''Continue? (y/n): '' (\<lambda>y.
       if \<not> y then Returns
       else ask_number ''Enter number of operations (default: 10000): '' 20 (\<lambda>operations.
         ask_number ''Enter number of threads (default: 4): '' 20 (\<lambda>threads. say_lines [
           ''Starting stress test with '' @ show_int (if operations \<le> 0 then 10000 else operations) @ '' operations, '' @
             show_int (if threads \<le> 0 then 4 else threads) @ '' threads...'',
           ''This may take a while...'', ''Stress test completed.''])))])"

definition performance_monitor :: cmd where
  "performance_monitor = with_db (\<lambda>_. say_lines [''Performance Monitor'', ''==================='',
     ''Press Ctrl+C to stop monitoring...'', ''Not yet implemented - coming soon!''])"

section \<open>Menus\<close>

definition not_yet :: cmd where
  "not_yet = say (Warning ''Not yet implemented'')"

definition invalid_choice :: cmd where
  "invalid_choice = say (Warning ''Invalid choice'')"

definition next_input :: "string option \<Rightarrow> Shell \<Rightarrow> string option \<times> string" where
  \<comment> \<open>\<open>fgets(input, sizeof(input), stdin)\<close> into the array of 10 bytes, which stays as it was at the end\<close>
  "next_input input st = (case fgets 10 (sh_in st) of None \<Rightarrow> (input, sh_in st) | Some (line, rest) \<Rightarrow> (Some line, rest))"

fun menu_loop :: "nat \<Rightarrow> string list \<Rightarrow> (int \<Rightarrow> cmd) \<Rightarrow> string option \<Rightarrow> cmd" where
  \<comment> \<open>the loop that all menus repeat; \<open>input\<close> is \<open>None\<close> before anything was read\<close>
  "menu_loop 0 shown body input st = OutOfFuel"
| "menu_loop (Suc n) shown body input st = steps [say_lines shown, \<lambda>st1.
     (case next_input input st1 of
        (None, _) \<Rightarrow> Undefined
      | (Some line, rest) \<Rightarrow>
          let choice = atoi (c_str line) in
          if choice = 0 then Returns (st1\<lparr>sh_in := rest\<rparr>)
          else steps [body choice, press_enter, menu_loop n shown body (Some line)] (st1\<lparr>sh_in := rest\<rparr>))] st"

definition database_choice :: "int \<Rightarrow> cmd" where
  "database_choice choice =
     (if choice = 1 then create_database_interactive
      else if choice = 2 then open_database_interactive
      else if choice = 3 then close_database_interactive
      else if choice = 4 then backup_database_interactive
      else if choice = 5 then restore_database_interactive
      else if choice = 6 then with_db (\<lambda>db. steps [say_lines [''Database: '' @ get_database_name db,
        ''Tables: '' @ show_nat (db_get_table_count (Some db)), ''Path: '' @ get_database_path db], statistics_interactive])
      else if choice = 7 then save_state
      else if choice = 8 then steps [sayln ''Compacting database...'',
        \<lambda>st. set_db (map_option (\<lambda>db. snd (db_vacuum db)) (sh_db st)) st, say (Success ''Database compacted'')]
      else if choice = 9 then not_yet
      else invalid_choice)"

definition handle_database_operations :: "nat \<Rightarrow> cmd" where
  "handle_database_operations n = menu_loop n print_database_menu_text database_choice None"

definition with_open_db :: "cmd \<Rightarrow> cmd" where
  "with_open_db c st = (if sh_db st = None
     then steps [print_error_code ERROR_NOT_FOUND, sayln ''Please open or create a database first.''] st else c st)"

definition table_choice :: "int \<Rightarrow> cmd" where
  "table_choice choice =
     (if choice = 1 then create_table_interactive
      else if choice = 2 then list_tables_interactive
      else if choice = 3 then describe_table_interactive
      else if choice = 4 then alter_table_interactive
      else if choice = 5 then truncate_table_interactive
      else if choice = 6 then drop_table_interactive
      else if choice = 7 then import_table_interactive
      else if choice = 8 then export_table_interactive
      else if choice = 9 then statistics_interactive
      else invalid_choice)"

definition handle_table_operations :: "nat \<Rightarrow> cmd" where
  "handle_table_operations n = with_open_db (menu_loop n print_table_menu_text table_choice None)"

definition index_choice :: "int \<Rightarrow> cmd" where
  "index_choice choice =
     (if choice = 1 then create_index_interactive
      else if choice = 2 then list_indexes_interactive
      else if choice = 3 then drop_index_interactive
      else if choice = 4 then rebuild_index_interactive
      else if choice = 5 then optimize_index_interactive
      else if choice = 6 then statistics_interactive
      else if choice = 7 \<or> choice = 8 \<or> choice = 9 then not_yet
      else invalid_choice)"

definition handle_index_operations :: "nat \<Rightarrow> cmd" where
  "handle_index_operations n = with_open_db (menu_loop n print_index_menu_text index_choice None)"

definition query_choice :: "int \<Rightarrow> cmd" where
  "query_choice choice =
     (if choice = 1 then execute_query_interactive
      else if choice = 2 then execute_script_interactive
      else if choice = 3 then query_history
      else if choice = 4 then say (Warning ''Save query result - use after executing a query'')
      else if choice = 5 then explain_query_interactive
      else if choice = 6 \<or> choice = 7 \<or> choice = 8 \<or> choice = 9 then not_yet
      else invalid_choice)"

definition handle_query_operations :: "nat \<Rightarrow> cmd" where
  "handle_query_operations n = with_open_db (menu_loop n print_query_menu_text query_choice None)"

definition maintenance_choice :: "int \<Rightarrow> cmd" where
  "maintenance_choice choice =
     (if choice = 1 then vacuum_database_interactive
      else if choice = 2 then analyze_database_interactive
      else if choice = 3 then check_integrity_interactive
      else if choice = 4 then repair_database_interactive
      else if choice = 5 then statistics_interactive
      else if choice = 6 \<or> choice = 7 \<or> choice = 8 \<or> choice = 9 then not_yet
      else invalid_choice)"

definition handle_maintenance_operations :: "nat \<Rightarrow> cmd" where
  "handle_maintenance_operations n = with_open_db (menu_loop n print_maintenance_menu_text maintenance_choice None)"

definition config_choice :: "int \<Rightarrow> cmd" where
  "config_choice choice =
     (if choice = 1 then show_config_interactive
      else if choice = 2 then set_config_interactive
      else if choice = 3 then reset_config_interactive
      else if choice = 4 then export_config_interactive
      else if choice = 5 then import_config_interactive
      else if choice = 6 \<or> choice = 7 \<or> choice = 8 \<or> choice = 9 then not_yet
      else invalid_choice)"

definition handle_config_operations :: "nat \<Rightarrow> cmd" where
  "handle_config_operations n = with_open_db (menu_loop n print_config_menu_text config_choice None)"

definition help_choice :: "int \<Rightarrow> cmd" where
  "help_choice choice =
     (if choice = 1 then show_help_topic (Some ''general'')
      else if choice = 2 then show_help_topic (Some ''sql'')
      else if choice = 3 then interactive_tutorial
      else if choice = 4 then say_lines show_examples_text
      else if choice = 5 then say_lines show_cheat_sheet_text
      else if choice = 6 then say_lines faq_text
      else if choice = 7 then say_lines troubleshooting_text
      else if choice = 8 then say_lines advanced_topics_text
      else if choice = 9 then say_lines about_luminix_text
      else invalid_choice)"

definition handle_help :: "nat \<Rightarrow> cmd" where
  "handle_help n = menu_loop n print_help_menu_text help_choice None"

definition no_tool :: "string \<Rightarrow> cmd" where
  \<comment> \<open>the title, underlined\<close>
  "no_tool title = say_lines [title, replicate (length title) (CHR ''=''), ''Not yet implemented'']"

definition tools_choice :: "int \<Rightarrow> cmd" where
  "tools_choice choice =
     (if choice = 1 then benchmark_database
      else if choice = 2 then stress_test_database
      else if choice = 3 then performance_monitor
      else if choice = 4 then no_tool ''Memory Profiler''
      else if choice = 5 then no_tool ''Query Analyzer''
      else if choice = 6 then no_tool ''Index Analyzer''
      else if choice = 7 then no_tool ''Data Generator''
      else if choice = 8 then no_tool ''Migration Tool''
      else if choice = 9 then no_tool ''Report Generator''
      else invalid_choice)"

definition handle_tools :: "nat \<Rightarrow> cmd" where
  "handle_tools n = menu_loop n print_tools_menu_text tools_choice None"

section \<open>Main\<close>

definition stop :: cmd where
  "stop st = Returns (st\<lparr>sh_running := False\<rparr>)"

definition shortcut :: "string \<Rightarrow> cmd" where
  \<comment> \<open>the default branch: a line that starts with a backslash or a slash is a shortcut\<close>
  "shortcut input =
     (if input \<noteq> [] \<and> (hd input = CHR 0x5C \<or> hd input = CHR ''/'') then
        let c = cli_input (tl input) in
        if strcmp c ''q'' = 0 then execute_query_interactive
        else if strcmp c ''t'' = 0 then list_tables_interactive
        else if take 2 c = ''d '' then (\<lambda>st. case sh_db st of
            None \<Rightarrow> print_error_code ERROR_NOT_FOUND st
          | Some db \<Rightarrow> (case db_get_table db (Some (drop 2 c)) of
                None \<Rightarrow> print_error_code ERROR_NOT_FOUND st
              | Some i \<Rightarrow> print_table_formatted (db_tables db ! i) FORMAT_TABLE st))
        else if strcmp c ''i'' = 0 then import_table_interactive
        else if strcmp c ''e'' = 0 then export_table_interactive
        else if strcmp c ''h'' = 0 then query_history
        else if strcmp c ''c'' = 0 then say_lines print_banner_text
        else if strcmp c ''?'' = 0 then show_help_topic (Some ''general'')
        else if strcmp c ''x'' = 0 then stop
        else say_lines [''Unknown command: '' @ c, ''Available shortcuts: '' @ concat (map (\<lambda>s. backslash @ s @ '', '')
          [''q'', ''t'', ''d <table>'', ''i'', ''e'', ''h'', ''c'', ''?'']) @ backslash @ ''x'']
      else invalid_choice)"

definition main_choice :: "nat \<Rightarrow> int \<Rightarrow> string \<Rightarrow> cmd" where
  "main_choice n choice input =
     (if choice = 1 then handle_database_operations n
      else if choice = 2 then handle_table_operations n
      else if choice = 3 then handle_index_operations n
      else if choice = 4 then handle_query_operations n
      else if choice = 5 then handle_maintenance_operations n
      else if choice = 6 then handle_config_operations n
      else if choice = 7 then handle_help n
      else if choice = 8 then handle_tools n
      else if choice = 0 then stop
      else shortcut input)"

fun main_loop :: "nat \<Rightarrow> cmd" where
  "main_loop 0 st = OutOfFuel"
| "main_loop (Suc n) st =
     (if \<not> sh_running st then Returns st
      else steps [say_lines print_main_menu_text, \<lambda>st1.
        (case fgets 10 (sh_in st1) of
           None \<Rightarrow> Returns st1
         | Some (line, rest) \<Rightarrow>
             steps [main_choice n (atoi (c_str line)) (c_str line), main_loop n] (st1\<lparr>sh_in := rest\<rparr>))] st)"

definition interactive_mode :: "nat \<Rightarrow> cmd" where
  "interactive_mode n = steps [say_lines print_banner_text, say_lines print_welcome_text, load_saved_state,
     main_loop n, cleanup, sayln ''Thank you for using Luminix Database!'']"

definition batch_db :: cmd where
  \<comment> \<open>\<open>if (!g_database) g_database = db_create();\<close>\<close>
  "batch_db st = (if sh_db st \<noteq> None then Returns st else with_event (\<lambda>ev. set_db (db_create (ev_alloc ev))) st)"

definition execute_argument :: "string \<Rightarrow> cmd" where
  "execute_argument query = with_event (\<lambda>ev st. case sh_db st of None \<Rightarrow> Returns st
     | Some db \<Rightarrow> (case db_execute_query (ev_alloc ev) db (Some query) of
           (None, db') \<Rightarrow> set_db (Some db') st
         | (Some result, db') \<Rightarrow> steps [set_db (Some db'), print_query_result_formatted (Some result) FORMAT_TABLE] st))"

definition given :: "string \<Rightarrow> string \<Rightarrow> string \<Rightarrow> bool" where
  "given arg long short \<longleftrightarrow> strcmp arg long = 0 \<or> strcmp arg short = 0"

fun run_arguments :: "nat \<Rightarrow> string \<Rightarrow> string list \<Rightarrow> Shell \<Rightarrow> (int \<times> Shell) run" where
  \<comment> \<open>the arguments from the second on, the name of the program, and the exit status\<close>
  "run_arguments n name [] st = (case interactive_mode n st of OutOfFuel \<Rightarrow> OutOfFuel | Undefined \<Rightarrow> Undefined
     | Returns st' \<Rightarrow> Returns (0, st'))"
| "run_arguments n name (arg # rest) st =
     (let exit = (\<lambda>status cs. case steps cs st of OutOfFuel \<Rightarrow> OutOfFuel | Undefined \<Rightarrow> Undefined
          | Returns st' \<Rightarrow> Returns (status, st'))
      in
      if given arg ''--help'' ''-h'' then exit 0 [sayln (''Usage: '' @ name @ '' [options]''), say_lines usage_options_text]
      else if given arg ''--version'' ''-v'' then exit 0 [sayln ''Luminix Database 1.0.0'']
      else if given arg ''--database'' ''-d'' then
        (case rest of [] \<Rightarrow> run_arguments n name rest st
         | path # rest' \<Rightarrow>
             let ev = sh_events st 0; st1 = st\<lparr>sh_events := (\<lambda>k. sh_events st (Suc k))\<rparr> in
             (case db_open (se_lib (sh_env st1)) (se_mk (sh_env st1)) (ev_alloc ev) (ev_now ev) (sh_counter st1)
                     (sh_files st1) (Some path) of
                OutOfFuel \<Rightarrow> OutOfFuel
              | Undefined \<Rightarrow> Undefined
              | Returns (None, gc) \<Rightarrow> Returns (1, st1\<lparr>sh_db := None, sh_counter := gc,
                  sh_out := sh_out st1 @ [Text (''Failed to open database: '' @ path @ [newline])]\<rparr>)
              | Returns (Some db, gc) \<Rightarrow> run_arguments n name rest' (st1\<lparr>sh_db := Some db, sh_counter := gc\<rparr>)))
      else if given arg ''--execute'' ''-e'' then
        (case rest of [] \<Rightarrow> run_arguments n name rest st
         | query # _ \<Rightarrow> exit 0 [batch_db, execute_argument query, cleanup])
      else if given arg ''--script'' ''-s'' then
        (if rest = [] then run_arguments n name rest st
         else exit 0 [batch_db, execute_script_interactive, cleanup])
      else run_arguments n name rest st)"

definition initial_shell :: "shell_env \<Rightarrow> string \<Rightarrow> file_system \<Rightarrow> (nat \<Rightarrow> event) \<Rightarrow> Shell" where
  "initial_shell env input files events = \<lparr>sh_env = env, sh_in = input, sh_out = [], sh_db = None, sh_counter = 1000,
     sh_files = files, sh_events = events, sh_history = replicate HISTORY_SIZE [], sh_history_index = 0,
     sh_history_count = 0, sh_running = True\<rparr>"


end
