(* ===== verification/Lx_Shell_Inv.thy ===== *)
theory Lx_Shell_Inv
  imports Lx_Main
begin

text \<open>
  What every command of the shell keeps. The locale \<open>shell_frame\<close> is the contract of a relation
  between the state before and after a command that looks at nothing but what reading, printing,
  events, files and the history leave alone; \<open>shell_relation\<close> adds the steps on the database that the
  commands take (\<open>db_step\<close>). Its lemmas go through the commands once; \<open>Lx_Shell_Props\<close> interprets it.
\<close>

section \<open>The steps on the database\<close>

inductive db_step :: "shell_env \<Rightarrow> Database option \<times> int \<Rightarrow> Database option \<times> int \<Rightarrow> bool" where
  same: "db_step env s s"
| closed: "db_step env (dp, gc) (None, gc)"
| created: "db_create ok = Some db \<Longrightarrow> db_step env (dp, gc) (Some db, gc)"
| loaded: "db_load_from_file (se_lib env) (se_mk env) ok now gc files fp = Returns (dp', gc') \<Longrightarrow>
     db_step env (dp, gc) (dp', gc')"
| not_restored: "db_load_from_file (se_lib env) (se_mk env) ok now gc files fp = Returns (dp', gc') \<Longrightarrow>
     db_step env (dp, gc) (dp, gc')"
| counted: "db_step env (Some db, gc) (Some (update_simple_statistics k db), gc)"
| queried: "db_execute_query ok db qp = (r, db') \<Longrightarrow> db_step env (Some db, gc) (Some db', gc)"
| added: "add_parsed_table ok db name sf = Returns (e, slot, db') \<Longrightarrow> db_step env (Some db, gc) (Some db', gc)"
| constrained: "db_step env (Some db, gc) (Some (put_table db i (set_constraints cs (db_tables db ! i))), gc)"
| indexed: "db_create_index ok db tn fn type = Some (e, db') \<Longrightarrow> db_step env (Some db, gc) (Some db', gc)"
| unindexed: "db_drop_index db tn fn = (e, db') \<Longrightarrow> db_step env (Some db, gc) (Some db', gc)"

definition goes :: "(Shell \<Rightarrow> Shell \<Rightarrow> bool) \<Rightarrow> Shell \<Rightarrow> Shell run \<Rightarrow> bool" where
  "goes R st r \<longleftrightarrow> (case r of OutOfFuel \<Rightarrow> False | Undefined \<Rightarrow> True | Returns st' \<Rightarrow> R st st')"

definition runs :: "(Shell \<Rightarrow> Shell \<Rightarrow> bool) \<Rightarrow> Database option \<Rightarrow> cmd \<Rightarrow> bool" where
  \<comment> \<open>from every state with that database\<close>
  "runs R D c \<longleftrightarrow> (\<forall>st. sh_db st = D \<longrightarrow> goes R st (c st))"

lemma goes_simps [simp]: "\<not> goes R st OutOfFuel" "goes R st Undefined" "goes R st (Returns st') \<longleftrightarrow> R st st'"
  by (simp_all add: goes_def)

lemma runsI: "(\<And>st. sh_db st = D \<Longrightarrow> goes R st (c st)) \<Longrightarrow> runs R D c"
  by (simp add: runs_def)

lemma runsD: "runs R D c \<Longrightarrow> sh_db st = D \<Longrightarrow> goes R st (c st)"
  by (simp add: runs_def)

lemma runs_if: "(b \<Longrightarrow> runs R D c) \<Longrightarrow> (\<not> b \<Longrightarrow> runs R D d) \<Longrightarrow> runs R D (if b then c else d)"
  by simp

lemma runs_let: "runs R D (f x) \<Longrightarrow> runs R D (let y = x in f y)"
  by simp

lemma runs_option: "(x = None \<Longrightarrow> runs R D c) \<Longrightarrow> (\<And>y. x = Some y \<Longrightarrow> runs R D (f y)) \<Longrightarrow>
    runs R D (case x of None \<Rightarrow> c | Some y \<Rightarrow> f y)"
  by (cases x) simp_all

lemma runs_prod: "(\<And>a b. p = (a, b) \<Longrightarrow> runs R D (f a b)) \<Longrightarrow> runs R D (case p of (a, b) \<Rightarrow> f a b)"
  by (cases p) simp

lemma runs_format: "runs R D c1 \<Longrightarrow> runs R D c2 \<Longrightarrow> runs R D c3 \<Longrightarrow> runs R D c4 \<Longrightarrow>
    runs R D (case x of FORMAT_TABLE \<Rightarrow> c1 | FORMAT_JSON \<Rightarrow> c2 | FORMAT_CSV \<Rightarrow> c3 | FORMAT_XML \<Rightarrow> c4)"
  by (cases x) simp_all

lemma runs_undefined: "runs R D (\<lambda>_. Undefined)"
  by (simp add: runs_def)

lemma add_to_history_frame [simp]:
  "sh_db (add_to_history qp st) = sh_db st" "sh_in (add_to_history qp st) = sh_in st"
  "sh_counter (add_to_history qp st) = sh_counter st" "sh_env (add_to_history qp st) = sh_env st"
  by (simp_all add: add_to_history_def split: option.split)

section \<open>Relations that reading, printing and files do not touch\<close>

lemma read_lines_left: "read_lines ok n input s = (input', rest, m) \<Longrightarrow> length rest \<le> length s"
proof (induction ok n input s rule: read_lines.induct)
  case (1 ok n input s)
  from 1(2) show ?case
  proof (subst (asm) read_lines.simps, cases "read_line s")
    case (Some p)
    obtain line rest1 where p: "p = (line, rest1)" by fastforce
    have short: "length rest1 < length s" using Some p by (simp add: read_line_shorter)
    show ?thesis
    proof (cases "strcmp (the (trim_whitespace (Some line))) '';'' \<noteq> 0 \<and> ok n")
      case True
      have "read_lines ok (Suc n) (Some (case input of None \<Rightarrow> trimmed_in_place line
          | Some t \<Rightarrow> if t = [] then trimmed_in_place line else t @ '' '' @ trimmed_in_place line)) rest1 = (input', rest, m)"
        using 1(2) True by (subst (asm) read_lines.simps) (simp add: Some p Let_def)
      from 1(1) [OF Some p [symmetric] _ _ HOL.refl this] True short show ?thesis by simp
    next
      case False
      then show ?thesis using 1(2) short by (subst (asm) read_lines.simps) (auto simp: Some p Let_def split: if_splits)
    qed
  qed simp
qed

locale shell_frame =
  fixes R :: "Shell \<Rightarrow> Shell \<Rightarrow> bool"
  assumes refl: "R st st"
    and trans: "R a b \<Longrightarrow> R b c \<Longrightarrow> R a c"
    and prints: "R st (st\<lparr>sh_out := out\<rparr>)"
    and reads: "length s \<le> length (sh_in st) \<Longrightarrow> R st (st\<lparr>sh_in := s\<rparr>)"
    and passes: "R st (st\<lparr>sh_events := es\<rparr>)"
    and records_query: "R st (add_to_history qp st)"
    and writes: "R st (st\<lparr>sh_files := fs\<rparr>)"
begin

lemma goes_via: "R st st1 \<Longrightarrow> goes R st1 r \<Longrightarrow> goes R st r"
  using trans by (auto simp: goes_def split: run.splits)

lemma runs_return: "runs R D Returns"
  using refl by (simp add: runs_def)

lemma runs_say: "runs R D (say p)"
  using prints by (simp add: runs_def say_def)

lemma goes_bind: "goes R st r \<Longrightarrow> (\<And>st'. r = Returns st' \<Longrightarrow> goes R st' (f st')) \<Longrightarrow>
    goes R st (case r of OutOfFuel \<Rightarrow> OutOfFuel | Undefined \<Rightarrow> Undefined | Returns st' \<Rightarrow> f st')"
  by (cases r) (auto intro: goes_via)

lemma runs_steps:
  assumes "runs R D c" and "\<And>D'. runs R D' (steps cs)"
  shows "runs R D (steps (c # cs))"
  by (rule runsI) (auto intro!: goes_bind runsD [OF assms(1)] runsD [OF assms(2)])

lemma runs_steps_nil: "runs R D (steps [])"
  using refl by (simp add: runs_def)

lemma steps_quiet: "(\<And>c D. c \<in> set cs \<Longrightarrow> runs R D c) \<Longrightarrow> runs R D (steps cs)"
  by (induction cs arbitrary: D) (auto intro!: runs_steps runs_steps_nil simp del: steps.simps)

lemma runs_sayln: "runs R D (sayln s)"
  unfolding sayln_def by (rule runs_say)

lemma runs_say_lines: "runs R D (say_lines ls)"
  unfolding say_lines_def by (rule steps_quiet) (auto intro: runs_sayln)

lemma runs_say_rows: "runs R D (say_rows rs)"
  unfolding say_rows_def by (rule steps_quiet) (auto intro: runs_say)

lemma runs_error: "runs R D (print_error_code e)"
  unfolding print_error_code_def by (rule runs_say)

lemma runs_report: "runs R D (report e s)"
  unfolding report_def by (intro runs_if runs_say runs_error)

lemma reads_prints: "length s \<le> length (sh_in st) \<Longrightarrow> R st (st\<lparr>sh_in := s, sh_out := out\<rparr>)"
  using trans [OF reads prints, of s st out] by simp

lemma fgets_left: "fgets n s = Some (line, rest) \<Longrightarrow> length rest \<le> length s"
  by (auto simp: fgets_def Let_def split: if_splits)

lemma runs_ask_or:
  assumes k: "\<And>s. runs R D (k s)"
  shows "runs R D (ask_or prompt n dflt k)"
proof (rule runsI)
  fix st :: Shell assume st: "sh_db st = D"
  show "goes R st (ask_or prompt n dflt k st)"
  proof (cases "fgets n (sh_in st)")
    case None
    have "goes R (st\<lparr>sh_out := sh_out st @ [Text prompt]\<rparr>) (k dflt (st\<lparr>sh_out := sh_out st @ [Text prompt]\<rparr>))"
      by (rule runsD [OF k]) (simp add: st)
    then show ?thesis by (simp add: ask_or_def None goes_via [OF prints])
  next
    case (Some p)
    obtain line rest where p: "p = (line, rest)" by fastforce
    let ?st = "st\<lparr>sh_in := rest, sh_out := sh_out st @ [Text prompt]\<rparr>"
    have "goes R ?st (k (cli_input line) ?st)" by (rule runsD [OF k]) (simp add: st)
    then have "goes R st (k (cli_input line) ?st)"
      by (rule goes_via [OF reads_prints [OF fgets_left [OF Some [unfolded p]]]])
    then show ?thesis by (simp add: ask_or_def Some p)
  qed
qed

lemma runs_ask:
  assumes "\<And>s. runs R D (k s)"
  shows "runs R D (ask prompt n k)"
proof (rule runsI)
  fix st :: Shell assume st: "sh_db st = D"
  have "ask prompt n k st = (if fgets n (sh_in st) = None then Undefined else ask_or prompt n [] k st)"
    by (simp add: ask_def ask_or_def split: option.split)
  then show "goes R st (ask prompt n k st)" using runsD [OF runs_ask_or [OF assms] st] by simp
qed

lemma runs_ask_number: "(\<And>i. runs R D (k i)) \<Longrightarrow> runs R D (ask_number prompt n k)"
  unfolding ask_number_def by (rule runs_ask)

lemma runs_ask_yes: "(\<And>b. runs R D (k b)) \<Longrightarrow> runs R D (ask_yes prompt k)"
  unfolding ask_yes_def by (rule runs_ask)

lemma runs_with_event:
  assumes "\<And>ev. runs R D (k ev)"
  shows "runs R D (with_event k)"
proof (rule runsI)
  fix st :: Shell assume st: "sh_db st = D"
  let ?st = "st\<lparr>sh_events := (\<lambda>n. sh_events st (Suc n))\<rparr>"
  have "goes R ?st (k (sh_events st 0) ?st)" by (rule runsD [OF assms]) (simp add: st)
  then show "goes R st (with_event k st)" unfolding with_event_def by (rule goes_via [OF passes])
qed

lemma runs_with_db:
  assumes "\<And>db. D = Some db \<Longrightarrow> runs R D (k db)"
  shows "runs R D (with_db k)"
proof (cases D)
  case None
  then show ?thesis using runsD [OF runs_error [of D ERROR_NOT_FOUND]] by (auto simp: with_db_def intro!: runsI)
next
  case (Some db)
  then show ?thesis using runsD [OF assms [OF Some]] by (auto simp: with_db_def intro!: runsI)
qed

lemma runs_press_enter: "runs R D press_enter"
  by (rule runsI) (simp add: press_enter_def reads_prints)

lemma runs_getchar: "runs R D getchar"
  by (rule runsI) (simp add: getchar_def reads)

lemma runs_note: "runs R D (note_query q)"
  by (rule runsI) (simp add: note_query_def records_query)

lemmas quiet_rules = runs_steps runs_steps_nil runs_if runs_let runs_option runs_prod runs_undefined runs_return runs_say runs_sayln
  runs_say_lines runs_say_rows runs_error runs_report runs_ask runs_ask_or runs_ask_number runs_ask_yes
  runs_with_event runs_with_db runs_press_enter runs_getchar runs_note

lemma runs_read_multiline:
  assumes "\<And>q. runs R D (k q)"
  shows "runs R D (read_multiline_input k)"
  unfolding read_multiline_input_def
proof (rule runs_with_event, rule runsI)
  fix ev and st :: Shell assume st: "sh_db st = D"
  obtain input rest n where r: "read_lines (ev_alloc ev) 0 None (sh_in st) = (input, rest, n)" by (rule prod_cases3)
  let ?out = "sh_out st @ [Text (''Enter SQL command (end with '' @ apostrophe @ '';'' @ apostrophe @
      '' on a line by itself):'' @ [newline]), Text ''SQL> ''] @ replicate n (Text ''... '')"
  have "goes R (st\<lparr>sh_in := rest, sh_out := ?out\<rparr>) (k input (st\<lparr>sh_in := rest, sh_out := ?out\<rparr>))"
    by (rule runsD [OF assms]) (simp add: st)
  then have "goes R st (k input (st\<lparr>sh_in := rest, sh_out := ?out\<rparr>))"
    by (rule goes_via [OF reads_prints [OF read_lines_left [OF r]]])
  then show "goes R st (case read_lines (ev_alloc ev) 0 None (sh_in st) of (input, rest, n) \<Rightarrow>
      k input (st\<lparr>sh_in := rest, sh_out := sh_out st @
        [Text (''Enter SQL command (end with '' @ apostrophe @ '';'' @ apostrophe @ '' on a line by itself):'' @ [newline]),
         Text ''SQL> ''] @ replicate n (Text ''... '')\<rparr>))"
    by (simp add: r)
qed

lemma runs_print_record_text: "runs R D (print_record_text r t)"
  by (rule runsI) (simp add: print_record_text_def say_def prints)

lemma runs_print_table: "runs R D (print_table t)"
  unfolding print_table_def by (rule steps_quiet) (auto intro: runs_say runs_print_record_text)

lemma runs_print_json: "runs R D (print_json f)"
  unfolding print_json_def
  by (intro runs_with_event runsI) (auto simp: say_def prints refl split: option.split)

lemma runs_print_record_formatted: "runs R D (print_record_formatted r t fmt)"
  unfolding print_record_formatted_def
  by (intro runs_format runs_print_record_text runs_print_json) (rule runsI, simp add: say_def prints)+

lemma runs_print_table_formatted: "runs R D (print_table_formatted t fmt)"
  unfolding print_table_formatted_def
  by (intro runs_format runs_print_table runs_print_json steps_quiet)
    (auto intro: runs_say runs_print_record_formatted)

lemma runs_print_result: "runs R D (print_query_result_formatted rp fmt)"
  unfolding print_query_result_formatted_def
  by (intro runs_option runs_format runs_print_json runs_return)
    (rule runsI, auto simp: say_def prints intro!: runsD [OF steps_quiet] runs_say)+

lemma runs_write_file: "runs R D (write_file path content msg)"
  unfolding write_file_def
proof (intro runs_with_event runsI)
  fix ev and st :: Shell
  show "goes R st (if \<not> ev_can_write ev then Returns st
      else say (Success msg) (st\<lparr>sh_files := (sh_files st)(path \<mapsto> take (ev_written ev) content)\<rparr>))"
    using trans [OF writes prints] refl by (simp add: say_def)
qed

lemma runs_save_query_result: "runs R D (save_query_result rp)"
  unfolding save_query_result_def Let_def
proof (intro runs_option runs_ask runs_ask_number runs_if runs_return runs_with_event)
  fix y fp fc ev
  show "runs R D (\<lambda>st. case query_result_to_json (se_json (sh_env st)) (ev_alloc ev) (Some y) (Some pretty_options) of
      None \<Rightarrow> Undefined | Some None \<Rightarrow> Returns st
    | Some (Some json) \<Rightarrow> write_file fp json ''Result saved to JSON file'' st)"
    by (rule runsI) (auto simp: refl split: option.split intro: runsD [OF runs_write_file])
  show "runs R D (\<lambda>st. write_file fp (result_csv (sh_env st) y) ''Result saved to CSV file'' st)"
    by (rule runsI) (auto intro: runsD [OF runs_write_file])
qed

lemmas quiet_prints = runs_read_multiline runs_print_record_text runs_print_table runs_print_json
  runs_print_record_formatted runs_print_table_formatted runs_print_result runs_write_file runs_save_query_result

lemma runs_with_table: "(\<And>n t. runs R D (k n t)) \<Longrightarrow> runs R D (with_table db k nm)"
  unfolding with_table_def by (intro quiet_rules)

lemma runs_no_tool: "runs R D (no_tool s)"
  unfolding no_tool_def by (rule runs_say_lines)

lemma runs_list_tables_interactive: "runs R D list_tables_interactive"
  unfolding list_tables_interactive_def Let_def by (intro quiet_rules runs_read_multiline)

lemma runs_describe_table_interactive: "runs R D describe_table_interactive"
  unfolding describe_table_interactive_def Let_def by (intro quiet_rules runs_read_multiline)

lemma runs_export_table_interactive: "runs R D export_table_interactive"
  unfolding export_table_interactive_def Let_def by (intro quiet_rules runs_read_multiline)

lemma runs_optimize_index_interactive: "runs R D optimize_index_interactive"
  unfolding optimize_index_interactive_def Let_def by (intro quiet_rules runs_with_table)

lemma runs_show_help_topic: "runs R D (show_help_topic t)"
  unfolding show_help_topic_def Let_def by (intro quiet_rules runs_read_multiline)

lemma runs_interactive_tutorial: "runs R D interactive_tutorial"
  unfolding interactive_tutorial_def Let_def by (intro quiet_rules runs_read_multiline)

lemma runs_explain_query_interactive: "runs R D explain_query_interactive"
  unfolding explain_query_interactive_def Let_def by (intro quiet_rules runs_read_multiline)

lemma runs_statistics_interactive: "runs R D statistics_interactive"
  unfolding statistics_interactive_def Let_def by (intro quiet_rules runs_read_multiline)

lemma runs_show_config_interactive: "runs R D show_config_interactive"
  unfolding show_config_interactive_def Let_def by (intro quiet_rules runs_read_multiline)

lemma runs_reset_config_interactive: "runs R D reset_config_interactive"
  unfolding reset_config_interactive_def Let_def by (intro quiet_rules runs_read_multiline)

lemma runs_export_config_interactive: "runs R D export_config_interactive"
  unfolding export_config_interactive_def Let_def by (intro quiet_rules runs_read_multiline)

lemma runs_stress_test_database: "runs R D stress_test_database"
  unfolding stress_test_database_def Let_def by (intro quiet_rules runs_read_multiline)

lemma runs_performance_monitor: "runs R D performance_monitor"
  unfolding performance_monitor_def Let_def by (intro quiet_rules runs_read_multiline)

lemma runs_not_yet: "runs R D not_yet"
  unfolding not_yet_def Let_def by (intro quiet_rules runs_read_multiline)

lemma runs_invalid_choice: "runs R D invalid_choice"
  unfolding invalid_choice_def Let_def by (intro quiet_rules runs_read_multiline)

lemma runs_list_indexes_interactive: "runs R D list_indexes_interactive"
  unfolding list_indexes_interactive_def Let_def
  by (intro quiet_rules runs_with_table) (rule runsI, rule runsD, intro quiet_rules, assumption)

lemma goes_say_writes: "goes R st (say p (st\<lparr>sh_files := fs\<rparr>))"
  using trans [OF writes prints] by (simp add: say_def)

lemma goes_report_writes: "goes R st (report e s (st\<lparr>sh_files := fs\<rparr>))"
  unfolding report_def print_error_code_def if_distribR by (intro conjI impI goes_say_writes if_split [THEN iffD2])

lemma runs_save_state: "runs R D save_state"
proof -
  have "runs R D (with_event (\<lambda>ev st1. case db_save_to_file (se_json (sh_env st1)) (ev_alloc ev) (ev_now ev)
      (ev_can_write ev) (ev_written ev) (sh_files st1) (Some db) (Some (state_file_name db)) of
        None \<Rightarrow> Undefined
      | Some (result, files') \<Rightarrow> sayln (if result = SUCCESS then ''State saved to '' @ state_file_name db
          else ''Warning: Failed to save state: '' @ show_int (error_value result)) (st1\<lparr>sh_files := files'\<rparr>)))" for db
    by (intro runs_with_event runsI) (auto simp: sayln_def goes_say_writes split!: option.split prod.split)
  then show ?thesis unfolding save_state_def Let_def
    by (intro runsI) (auto simp: refl split!: option.split dest: runsD)
qed

lemma runs_backup_database_interactive: "runs R D backup_database_interactive"
  unfolding backup_database_interactive_def
  by (intro runs_with_db runs_ask runs_with_event runsI)
    (auto simp: goes_report_writes split!: option.split prod.split)

lemma runs_benchmark_database: "runs R D benchmark_database"
  unfolding benchmark_database_def by (intro quiet_rules runs_backup_database_interactive)

lemma runs_help_choice: "runs R D (help_choice c)"
  unfolding help_choice_def
  by (intro quiet_rules runs_show_help_topic runs_interactive_tutorial runs_invalid_choice)

lemma runs_tools_choice: "runs R D (tools_choice c)"
  unfolding tools_choice_def
  by (intro runs_if runs_benchmark_database runs_stress_test_database runs_performance_monitor runs_no_tool
      runs_invalid_choice)

end

section \<open>Relations that the steps on the database keep\<close>

locale shell_relation = shell_frame +
  assumes works: "db_step (sh_env st) (sh_db st, sh_counter st) (dp, gc) \<Longrightarrow>
    R st (st\<lparr>sh_db := dp, sh_counter := gc\<rparr>)"

context shell_relation
begin

sublocale keep: shell_frame "\<lambda>st st'. R st st' \<and> sh_db st' = sh_db st"
proof unfold_locales
  fix a b c :: Shell
  assume "R a b \<and> sh_db b = sh_db a" "R b c \<and> sh_db c = sh_db b"
  then show "R a c \<and> sh_db c = sh_db a" using trans by auto
qed (auto simp: refl prints reads passes records_query writes)

lemma runs_keep:
  assumes "runs (\<lambda>st st'. R st st' \<and> sh_db st' = sh_db st) D c" and "runs R D (steps cs)"
  shows "runs R D (steps (c # cs))"
proof (rule runsI)
  fix st :: Shell assume st: "sh_db st = D"
  have c: "goes (\<lambda>st st'. R st st' \<and> sh_db st' = sh_db st) st (c st)" by (rule runsD [OF assms(1) st])
  show "goes R st (steps (c # cs) st)"
  proof (cases "c st")
    case (Returns st')
    with c have "R st st'" "sh_db st' = D" using st by auto
    then show ?thesis using runsD [OF assms(2)] by (simp add: Returns goes_via)
  qed (use c in simp_all)
qed

lemma works_db: "db_step (sh_env st) (sh_db st, sh_counter st) (dp, sh_counter st) \<Longrightarrow> R st (st\<lparr>sh_db := dp\<rparr>)"
  using works [of st dp "sh_counter st"] by simp

lemma runs_set_then:
  assumes "\<And>env gc. db_step env (D, gc) (dp, gc)" and "runs R dp (steps cs)"
  shows "runs R D (steps (set_db dp # cs))"
proof (rule runsI)
  fix st :: Shell assume st: "sh_db st = D"
  have "R st (st\<lparr>sh_db := dp\<rparr>)" by (rule works_db) (simp add: st assms(1))
  moreover have "goes R (st\<lparr>sh_db := dp\<rparr>) (steps cs (st\<lparr>sh_db := dp\<rparr>))" by (rule runsD [OF assms(2)]) simp
  ultimately show "goes R st (steps (set_db dp # cs) st)" by (simp add: set_db_def goes_via)
qed

lemma runs_last: "runs R D c \<Longrightarrow> runs R D (steps [c])"
  by (rule runs_steps) (auto intro: runs_steps_nil)

lemma runs_finish: "(\<And>env gc. db_step env (D, gc) (Some (snd r), gc)) \<Longrightarrow> runs R D (finish r s)"
  unfolding finish_def by (rule runs_set_then) (auto intro!: runs_last runs_report)

lemma runs_create_database_interactive: "runs R D create_database_interactive"
  unfolding create_database_interactive_def Let_def
proof (intro runs_ask runs_ask_or runs_with_event)
  fix ev
  have "\<And>env gc. db_step env (D, gc) (db_create (ev_alloc ev), gc)"
    using db_step.created db_step.closed by (cases "db_create (ev_alloc ev)") auto
  then show "runs R D (steps [set_db (db_create (ev_alloc ev)),
      if db_create (ev_alloc ev) \<noteq> None then say (Success ''Database created successfully'')
      else print_error_code ERROR_GENERIC])"
    by (rule runs_set_then) (intro quiet_rules)
qed

lemma goes_works: "db_step (sh_env st) (sh_db st, sh_counter st) (dp, gc) \<Longrightarrow> (\<And>D. runs R D c) \<Longrightarrow>
    goes R st (c (st\<lparr>sh_db := dp, sh_counter := gc\<rparr>))"
  by (rule goes_via [OF works]) (auto intro: runsD)

lemma load_step:
  assumes "db_load_from_file (se_lib env) (se_mk env) ok now gc files fp = r"
  shows "r = Returns (dp', gc') \<Longrightarrow> db_step env (dp, gc) (dp', gc')" and "r \<noteq> OutOfFuel"
  using assms db_step.loaded db_load_sound(1) by auto

lemma open_step:
  assumes "db_open (se_lib env) (se_mk env) ok now gc files pp = r"
  shows "r = Returns (dp', gc') \<Longrightarrow> db_step env (dp, gc) (dp', gc')" and "r \<noteq> OutOfFuel"
  using assms db_load_sound(1) load_step(1) [OF HOL.refl]
  by (auto simp: db_open_def split: option.splits if_splits intro: db_step.closed db_step.created)
    (metis db_step.closed db_step.created not_None_eq)+

lemma restore_step:
  assumes "db_restore_backup (se_lib env) (se_mk env) ok now gc files dp fp = r"
  shows "r = Returns (e, dp', gc') \<Longrightarrow> db_step env (dp, gc) (dp', gc')" and "r \<noteq> OutOfFuel"
  using assms db_load_sound(1) load_step(1) [OF HOL.refl]
  by (auto simp: db_restore_backup_def split: option.splits run.splits prod.splits if_splits
      intro: db_step.same db_step.loaded db_step.not_restored)

lemma runs_open_database_interactive: "runs R D open_database_interactive"
  unfolding open_database_interactive_def
proof (intro runs_ask runs_with_event runsI)
  fix path ev and st :: Shell
  let ?r = "db_open (se_lib (sh_env st)) (se_mk (sh_env st)) (ev_alloc ev) (ev_now ev) (sh_counter st) (sh_files st) (Some path)"
  note step = open_step [OF HOL.refl, of "sh_env st" "ev_alloc ev" "ev_now ev" "sh_counter st" "sh_files st" "Some path"]
  have all: "runs R D' (steps (case dp of None \<Rightarrow> [print_error_code ERROR_GENERIC]
      | Some db \<Rightarrow> [say (Success ''Database opened successfully''), sayln (''Database: '' @ get_database_name db),
          sayln (''Tables: '' @ show_nat (db_get_table_count (Some db)))]))" for dp D'
    by (cases dp) (simp_all del: steps.simps, (intro quiet_rules)+)
  show "goes R st (case ?r of OutOfFuel \<Rightarrow> OutOfFuel | Undefined \<Rightarrow> Undefined
      | Returns (dp, gc) \<Rightarrow> steps (case dp of None \<Rightarrow> [print_error_code ERROR_GENERIC]
          | Some db \<Rightarrow> [say (Success ''Database opened successfully''), sayln (''Database: '' @ get_database_name db),
              sayln (''Tables: '' @ show_nat (db_get_table_count (Some db)))]) (st\<lparr>sh_db := dp, sh_counter := gc\<rparr>))"
    using step by (auto split!: run.split prod.split) (rule goes_works, blast, rule all)
qed

lemma runs_close_database_interactive: "runs R D close_database_interactive"
proof -
  have yes: "runs R D (ask_yes s (\<lambda>y. steps ((if y then [save_state] else []) @
      [set_db None, say (Success ''Database closed'')])))" for s
    by (rule runs_ask_yes) (auto intro!: runs_keep keep.runs_save_state runs_set_then db_step.closed
        runs_last runs_say simp del: steps.simps)
  show ?thesis unfolding close_database_interactive_def
    by (rule runsI) (auto intro: runsD [OF runs_say] runsD [OF yes])
qed

lemma runs_restore_database_interactive: "runs R D restore_database_interactive"
proof -
  have restore: "runs R D' (\<lambda>st. case db_restore_backup (se_lib (sh_env st)) (se_mk (sh_env st)) (ev_alloc ev) (ev_now ev)
      (sh_counter st) (sh_files st) (sh_db st) fp of
        OutOfFuel \<Rightarrow> OutOfFuel | Undefined \<Rightarrow> Undefined
      | Returns (result', dp, gc) \<Rightarrow> report result' s (st\<lparr>sh_db := dp, sh_counter := gc\<rparr>))" for ev fp s D'
  proof (rule runsI)
    fix st :: Shell
    note step = restore_step [OF HOL.refl, of "sh_env st" "ev_alloc ev" "ev_now ev" "sh_counter st" "sh_files st" "sh_db st" fp]
    show "goes R st (case db_restore_backup (se_lib (sh_env st)) (se_mk (sh_env st)) (ev_alloc ev) (ev_now ev)
        (sh_counter st) (sh_files st) (sh_db st) fp of OutOfFuel \<Rightarrow> OutOfFuel | Undefined \<Rightarrow> Undefined
      | Returns (result', dp, gc) \<Rightarrow> report result' s (st\<lparr>sh_db := dp, sh_counter := gc\<rparr>))"
      using step by (auto split!: run.split prod.split) (rule goes_works, blast, rule runs_report)
  qed
  show ?thesis unfolding restore_database_interactive_def Let_def
    by (intro quiet_rules restore)
qed

lemma runs_create_asked: "runs R (Some db) (create_asked_table ok nm asked db)"
  unfolding create_asked_table_def
proof (rule runsI)
  fix st :: Shell assume st: "sh_db st = Some db"
  let ?r = "add_parsed_table (shift_alloc (3 + length asked) ok) db nm (asked_fields asked)"
  show "goes R st (case ?r of OutOfFuel \<Rightarrow> OutOfFuel | Undefined \<Rightarrow> Undefined
      | Returns (result, slot, db1) \<Rightarrow> (case slot of
            Some i \<Rightarrow> if result = SUCCESS
              then steps [set_db (Some (put_table db1 i
                     (set_constraints (map (\<lambda>(_, _, c). c) asked) (db_tables db1 ! i)))),
                   say (Success ''Table created successfully'')] st
              else steps [set_db (Some db1), print_error_code result] st
          | None \<Rightarrow> steps [set_db (Some db1), print_error_code result] st))"
  proof (cases ?r)
    case (Returns p)
    obtain e slot db1 where p: "p = (e, slot, db1)" by (rule prod_cases3)
    have add: "db_step env (Some db, gc) (Some db1, gc)" for env gc by (rule db_step.added [OF Returns [unfolded p]])
    have err: "goes R st (steps [set_db (Some db1), print_error_code e] st)"
      by (rule runsD [OF runs_set_then [OF add runs_last [OF runs_error]] st])
    have ok: "goes R st (steps [set_db (Some (put_table db1 i (set_constraints cs (db_tables db1 ! i)))), say s] st)" for i cs s
    proof -
      have "R st (st\<lparr>sh_db := Some db1\<rparr>)" by (rule works_db) (simp add: st add)
      moreover have "goes R (st\<lparr>sh_db := Some db1\<rparr>)
          (steps [set_db (Some (put_table db1 i (set_constraints cs (db_tables db1 ! i)))), say s] (st\<lparr>sh_db := Some db1\<rparr>))"
        by (rule runsD [OF runs_set_then [OF db_step.constrained runs_last [OF runs_say]]]) simp
      ultimately show ?thesis by (simp add: set_db_def goes_via)
    qed
    show ?thesis using err ok by (auto simp: Returns p simp del: steps.simps split: option.split)
  qed (use add_parsed_table_no_fuel in simp_all)
qed

lemma runs_ask_fields: "(\<And>asked. runs R D (k asked)) \<Longrightarrow> runs R D (ask_fields ok n i asked k)"
  by (induction ok n i asked k rule: ask_fields.induct) (simp, simp, intro quiet_rules, blast)

lemma runs_create_table_interactive: "runs R D create_table_interactive"
  unfolding create_table_interactive_def Let_def
  by (intro quiet_rules runs_ask_fields) (simp add: runs_create_asked)

lemma runs_some_db: "(\<And>db. runs R (Some db) (k db)) \<Longrightarrow> runs R D (with_db k)"
  by (rule runs_with_db) simp

lemma stub_same:
  "snd (db_analyze db) = db" "snd (db_vacuum_table db a) = db" "snd (db_analyze_table db a) = db"
  "snd (db_repair_table db a) = db" "snd (db_set_config db a b) = db" "snd (db_import_schema db a) = db"
  "snd (db_import_table db a b c) = db" "snd (db_rebuild_indexes db) = db" "snd (db_truncate_table db a) = db"
  "snd (db_drop_table db a) = db" "snd (db_alter_table_add_column db a b ty co) = db"
  "snd (db_alter_table_drop_column db a b) = db" "snd (db_alter_table_rename_column db a b c) = db"
  "snd (db_check_integrity db r) = db"
  by (simp_all add: db_analyze_def db_vacuum_table_def db_analyze_table_def db_repair_table_def db_set_config_def
      db_import_schema_def db_import_table_def db_rebuild_indexes_def db_truncate_table_def db_drop_table_def
      db_alter_table_add_column_def db_alter_table_drop_column_def db_alter_table_rename_column_def
      db_check_integrity_def)

lemma runs_stub: "snd r = db \<Longrightarrow> runs R (Some db) (finish r s)"
  by (rule runs_finish) (simp add: db_step.same)

lemma runs_stub_then: "snd r = db \<Longrightarrow> runs R (Some db) (steps cs) \<Longrightarrow> runs R (Some db) (steps (leave_db r # cs))"
  unfolding leave_db_def by (rule runs_set_then) (simp_all add: db_step.same)

lemmas keep_rules = runs_keep [OF keep.runs_say_lines] runs_keep [OF keep.runs_sayln] runs_keep [OF keep.runs_say]
  runs_last

lemmas command_rules = runs_if runs_option runs_prod runs_undefined runs_return runs_ask runs_ask_or
  runs_ask_number runs_ask_yes runs_with_event runs_with_table keep_rules runs_say runs_sayln runs_say_lines runs_error

lemma runs_alter_table_interactive: "runs R D alter_table_interactive"
  unfolding alter_table_interactive_def
  by (rule runs_some_db) (intro command_rules runs_stub stub_same)

lemma runs_truncate_table_interactive: "runs R D truncate_table_interactive"
  unfolding truncate_table_interactive_def
  by (rule runs_some_db) (intro command_rules runs_stub stub_same)

lemma runs_drop_table_interactive: "runs R D drop_table_interactive"
  unfolding drop_table_interactive_def
  by (rule runs_some_db) (intro command_rules runs_stub stub_same)

lemma runs_import_table_interactive: "runs R D import_table_interactive"
  unfolding import_table_interactive_def Let_def
  by (rule runs_some_db) (intro command_rules runs_stub stub_same)

lemma runs_create_index_interactive: "runs R D create_index_interactive"
  unfolding create_index_interactive_def Let_def
  by (rule runs_some_db)
    (intro command_rules runs_finish, auto intro: db_step.indexed simp: prod_eq_iff)

lemma runs_drop_index_interactive: "runs R D drop_index_interactive"
  unfolding drop_index_interactive_def Let_def
  by (rule runs_some_db) (intro command_rules runs_finish, rule db_step.unindexed, rule prod.collapse [symmetric])

lemma runs_rebuild_index_interactive: "runs R D rebuild_index_interactive"
  unfolding rebuild_index_interactive_def
  by (rule runs_some_db) (intro command_rules runs_stub stub_same)

lemma runs_vacuum_then: "runs R (Some (snd (db_vacuum db))) (steps cs) \<Longrightarrow>
    runs R (Some db) (steps (leave_db (db_vacuum db) # cs))"
  unfolding leave_db_def by (rule runs_set_then) (simp_all add: db_vacuum_def db_step.counted)

lemma runs_vacuum_database_interactive: "runs R D vacuum_database_interactive"
  unfolding vacuum_database_interactive_def
  by (rule runs_some_db) (intro command_rules runs_vacuum_then runs_stub_then stub_same)

lemma runs_analyze_database_interactive: "runs R D analyze_database_interactive"
  unfolding analyze_database_interactive_def
  by (rule runs_some_db) (intro command_rules runs_stub_then stub_same)

lemma runs_check_integrity_interactive: "runs R D check_integrity_interactive"
  unfolding check_integrity_interactive_def db_check_integrity_def
  by (rule runs_with_db) (intro command_rules, auto intro!: keep_rules runs_set_then db_step.same runs_error
      simp del: steps.simps)

lemma runs_repair_database_interactive: "runs R D repair_database_interactive"
  unfolding repair_database_interactive_def
  by (rule runs_some_db)
    (intro command_rules runs_stub runs_stub_then stub_same runs_restore_database_interactive)

lemma runs_set_config_interactive: "runs R D set_config_interactive"
  unfolding set_config_interactive_def
  by (rule runs_some_db) (intro command_rules runs_stub stub_same)

lemma runs_import_config_interactive: "runs R D import_config_interactive"
  unfolding import_config_interactive_def
  by (rule runs_some_db) (intro command_rules runs_stub stub_same)

lemma query_step: "db_execute_query ok db qp = (r, db') \<Longrightarrow> db_step env (Some db, gc) (Some db', gc)"
  by (rule db_step.queried)

lemma runs_execute_query_interactive: "runs R D execute_query_interactive"
proof -
  have after: "runs R D' (steps [sayln s, ask_number p 10 (\<lambda>c. steps [
      print_query_result_formatted (Some result) (query_format c),
      ask_yes q (\<lambda>y. if y then save_query_result (Some result) else Returns)])])" for D' s p q result
    by (intro quiet_rules runs_print_result runs_save_query_result)
  have failed: "runs R D' (steps [sayln s, print_error_code e])" for D' s e
    by (intro quiet_rules)
  show ?thesis unfolding execute_query_interactive_def
    by (rule runs_some_db)
      (intro command_rules runs_read_multiline runs_show_help_topic runs_keep [OF keep.runs_note],
       (rule runs_set_then, erule query_step, (rule failed | rule after))+)
qed

lemma runs_script_loop: "runs R (Some db) (script_loop ls n q good bad db)"
proof (induction ls arbitrary: n q good bad db)
  case Nil
  show ?case unfolding script_loop.simps by (intro command_rules)
next
  case (Cons raw rest)
  then show ?case unfolding script_loop.simps Let_def
    by (intro command_rules) (auto intro!: keep_rules runs_set_then query_step simp del: steps.simps)
qed

lemma runs_execute_script_interactive: "runs R D execute_script_interactive"
  unfolding execute_script_interactive_def
  by (rule runs_with_db, rule runs_ask, rule runsI)
    (auto split: option.split intro!: runsD [OF runs_error] runsD [OF runs_keep [OF keep.runs_sayln runs_last [OF runs_script_loop]]]
      simp del: steps.simps)

lemma runs_reexecute:
  "runs R D (\<lambda>st1. case (case sh_db st1 of None \<Rightarrow> (None, None)
      | Some db \<Rightarrow> (case db_execute_query ok db q of (r, db') \<Rightarrow> (r, Some db'))) of
        (None, dp) \<Rightarrow> steps [set_db dp, sayln s] st1
      | (Some result, dp) \<Rightarrow> steps [set_db dp, sayln s', print_query_result_formatted (Some result) FORMAT_TABLE] st1)"
proof (rule runsI)
  fix st :: Shell assume st: "sh_db st = D"
  have bad: "goes R st (steps [set_db dp, sayln s] st)" if "\<And>env gc. db_step env (D, gc) (dp, gc)" for dp
    by (rule runsD [OF runs_set_then [OF that runs_last [OF runs_sayln]] st])
  have good: "goes R st (steps [set_db dp, sayln s', print_query_result_formatted rp FORMAT_TABLE] st)"
    if "\<And>env gc. db_step env (D, gc) (dp, gc)" for dp rp
    by (rule runsD [OF runs_set_then [OF that] st]) (intro quiet_rules runs_print_result)
  show "goes R st (case (case sh_db st of None \<Rightarrow> (None, None)
      | Some db \<Rightarrow> (case db_execute_query ok db q of (r, db') \<Rightarrow> (r, Some db'))) of
        (None, dp) \<Rightarrow> steps [set_db dp, sayln s] st
      | (Some result, dp) \<Rightarrow> steps [set_db dp, sayln s', print_query_result_formatted (Some result) FORMAT_TABLE] st)"
  proof (cases D)
    case None
    with bad db_step.same show ?thesis by (simp add: st del: steps.simps)
  next
    case (Some db)
    obtain r db' where q: "db_execute_query ok db q = (r, db')" by fastforce
    have "db_step env (D, gc) (Some db', gc)" for env gc unfolding Some by (rule query_step [OF q])
    with bad good show ?thesis by (cases r) (simp_all add: st Some q del: steps.simps)
  qed
qed

lemma runs_reexecute_query: "runs R D (reexecute_query q)"
  unfolding reexecute_query_def by (intro keep_rules runs_with_event runs_reexecute)

lemma runs_query_history: "runs R D query_history"
proof (rule runsI)
  fix st :: Shell assume st: "sh_db st = D"
  have "runs R D (steps ([sayln s, say p] @ map (history_row st) is @
      [ask_number q n (\<lambda>c. if b c then reexecute_query (f c) else Returns)]))" for s p "is" q n b f
    by (rule steps_quiet) (auto intro!: runs_sayln runs_say runs_ask_number runs_reexecute_query runs_return
        runs_option runs_undefined simp: history_row_def)
  from runsD [OF this st] runsD [OF runs_say st] show "goes R st (query_history st)"
    by (simp add: query_history_def del: steps.simps)
qed

lemmas menu_rules = runs_create_database_interactive runs_open_database_interactive runs_close_database_interactive
  runs_backup_database_interactive runs_restore_database_interactive runs_create_table_interactive
  runs_list_tables_interactive runs_describe_table_interactive runs_alter_table_interactive
  runs_truncate_table_interactive runs_drop_table_interactive runs_import_table_interactive
  runs_export_table_interactive runs_create_index_interactive runs_list_indexes_interactive
  runs_drop_index_interactive runs_rebuild_index_interactive runs_optimize_index_interactive
  runs_execute_query_interactive runs_execute_script_interactive runs_query_history runs_explain_query_interactive
  runs_vacuum_database_interactive runs_analyze_database_interactive runs_check_integrity_interactive
  runs_repair_database_interactive runs_statistics_interactive runs_show_config_interactive
  runs_set_config_interactive runs_reset_config_interactive runs_export_config_interactive
  runs_import_config_interactive runs_not_yet runs_invalid_choice runs_save_state

lemma runs_compact: "runs R D (steps [sayln s, \<lambda>st. set_db (map_option (\<lambda>db. snd (db_vacuum db)) (sh_db st)) st, say p])"
proof (intro keep_rules runs_steps)
  show "runs R D (\<lambda>st. set_db (map_option (\<lambda>db. snd (db_vacuum db)) (sh_db st)) st)"
  proof (rule runsI)
    fix st :: Shell assume st: "sh_db st = D"
    have "db_step env (D, gc) (map_option (\<lambda>db. snd (db_vacuum db)) D, gc)" for env gc
      by (cases D) (simp_all add: db_vacuum_def db_step.same db_step.counted)
    then show "goes R st (set_db (map_option (\<lambda>db. snd (db_vacuum db)) (sh_db st)) st)"
      by (simp add: set_db_def st works_db)
  qed
qed (rule runs_steps_nil)

lemma runs_database_choice: "runs R D (database_choice c)"
  unfolding database_choice_def
  by (intro runs_if menu_rules runs_compact) (intro quiet_rules runs_statistics_interactive)

lemma runs_table_choice: "runs R D (table_choice c)"
  unfolding table_choice_def by (intro runs_if menu_rules)

lemma runs_index_choice: "runs R D (index_choice c)"
  unfolding index_choice_def by (intro runs_if menu_rules)

lemma runs_query_choice: "runs R D (query_choice c)"
  unfolding query_choice_def by (intro runs_if menu_rules runs_say)

lemma runs_maintenance_choice: "runs R D (maintenance_choice c)"
  unfolding maintenance_choice_def by (intro runs_if menu_rules)

lemma runs_config_choice: "runs R D (config_choice c)"
  unfolding config_choice_def by (intro runs_if menu_rules)

lemma runs_load_saved_state: "runs R D load_saved_state"
proof -
  have load: "runs R D' (\<lambda>st1. case db_load_from_file (se_lib (sh_env st1)) (se_mk (sh_env st1)) (ev_alloc ev) (ev_now ev)
      (sh_counter st1) (sh_files st1) fp of OutOfFuel \<Rightarrow> OutOfFuel | Undefined \<Rightarrow> Undefined
    | Returns (dp, gc) \<Rightarrow> steps (if dp = None then [] else [sayln s]) (st1\<lparr>sh_db := dp, sh_counter := gc\<rparr>))" for D' ev fp s
  proof (rule runsI)
    fix st :: Shell
    note step = load_step [OF HOL.refl, of "sh_env st" "ev_alloc ev" "ev_now ev" "sh_counter st" "sh_files st" fp]
    show "goes R st (case db_load_from_file (se_lib (sh_env st)) (se_mk (sh_env st)) (ev_alloc ev) (ev_now ev)
        (sh_counter st) (sh_files st) fp of OutOfFuel \<Rightarrow> OutOfFuel | Undefined \<Rightarrow> Undefined
      | Returns (dp, gc) \<Rightarrow> steps (if dp = None then [] else [sayln s]) (st\<lparr>sh_db := dp, sh_counter := gc\<rparr>))"
      using step by (auto split!: run.split prod.split simp del: steps.simps) (rule goes_works, blast, intro quiet_rules)+
  qed
  have "runs R D (ask_yes q (\<lambda>y. if \<not> y then Returns else with_event (\<lambda>ev st1.
      case db_load_from_file (se_lib (sh_env st1)) (se_mk (sh_env st1)) (ev_alloc ev) (ev_now ev) (sh_counter st1)
        (sh_files st1) fp of OutOfFuel \<Rightarrow> OutOfFuel | Undefined \<Rightarrow> Undefined
    | Returns (dp, gc) \<Rightarrow> steps (if dp = None then [] else [sayln s]) (st1\<lparr>sh_db := dp, sh_counter := gc\<rparr>))))" for q fp s
    by (intro runs_ask_yes runs_if runs_return runs_with_event load)
  then show ?thesis unfolding load_saved_state_def by (intro runsI) (auto simp: refl dest: runsD)
qed

end

end
