(* ===== verification/Lx_Shell_Props.thy ===== *)
theory Lx_Shell_Props
  imports Lx_Shell_Inv
begin

text \<open>
  The loops of the shell and the interpretations of its contract: what is read never comes back, the
  database stays well formed up to its constraints, and no command changes a record. Then the
  properties of the loops: a run returns within its input or never, and the shortcuts cannot be reached.
\<close>

section \<open>Loops\<close>

definition arrives :: "(Shell \<Rightarrow> Shell \<Rightarrow> bool) \<Rightarrow> Shell \<Rightarrow> Shell run \<Rightarrow> bool" where
  \<comment> \<open>if it returns, the relation holds\<close>
  "arrives R st r \<longleftrightarrow> (\<forall>st'. r = Returns st' \<longrightarrow> R st st')"

lemma arrives_simps [simp]: "arrives R st OutOfFuel" "arrives R st Undefined" "arrives R st (Returns st') \<longleftrightarrow> R st st'"
  by (simp_all add: arrives_def)

lemma goes_arrives: "goes R st r \<Longrightarrow> arrives R st r"
  by (cases r) simp_all

locale shell_loop = shell_relation +
  assumes stops: "R st (st\<lparr>sh_running := False\<rparr>)"
begin

lemma arrives_via: "R st st1 \<Longrightarrow> arrives R st1 r \<Longrightarrow> arrives R st r"
  using trans by (auto simp: arrives_def)

lemma arrives_bind: "arrives R st r \<Longrightarrow> (\<And>st'. r = Returns st' \<Longrightarrow> arrives R st' (f st')) \<Longrightarrow>
    arrives R st (case r of OutOfFuel \<Rightarrow> OutOfFuel | Undefined \<Rightarrow> Undefined | Returns st' \<Rightarrow> f st')"
  by (cases r) (auto intro: arrives_via)

lemma arrives_steps: "(\<And>c st. c \<in> set cs \<Longrightarrow> arrives R st (c st)) \<Longrightarrow> arrives R st (steps cs st)"
  by (induction cs arbitrary: st) (simp_all add: refl arrives_bind)

lemma arrives_runs: "(\<And>D. runs R D c) \<Longrightarrow> arrives R st (c st)"
  by (rule goes_arrives) (blast intro: runsD)

lemma arrives_menu: "(\<And>c D. runs R D (body c)) \<Longrightarrow> arrives R st (menu_loop n shown body input st)"
proof (induction n arbitrary: st input)
  case (Suc n)
  have turn: "arrives R st1 (case next_input input st1 of (None, _) \<Rightarrow> Undefined
      | (Some line, rest) \<Rightarrow> let choice = atoi (c_str line) in
          if choice = 0 then Returns (st1\<lparr>sh_in := rest\<rparr>)
          else steps [body choice, press_enter, menu_loop n shown body (Some line)] (st1\<lparr>sh_in := rest\<rparr>))" for st1
  proof -
    obtain input' rest where i: "next_input input st1 = (input', rest)" by fastforce
    then have "length rest \<le> length (sh_in st1)"
      by (auto simp: next_input_def dest: fgets_left split: option.splits prod.splits)
    then have rest: "R st1 (st1\<lparr>sh_in := rest\<rparr>)" by (rule reads)
    moreover have "arrives R (st1\<lparr>sh_in := rest\<rparr>)
        (steps [body ch, press_enter, menu_loop n shown body il] (st1\<lparr>sh_in := rest\<rparr>))" for ch il
      by (rule arrives_steps) (auto intro: arrives_runs [OF Suc(2)] arrives_runs [OF runs_press_enter] Suc)
    ultimately show ?thesis using arrives_via [OF rest]
      by (simp add: i Let_def del: steps.simps split: option.split)
  qed
  show ?case unfolding menu_loop.simps
    by (rule arrives_steps) (use turn arrives_runs [OF runs_say_lines] in auto)
qed simp

lemma arrives_open: "(\<And>st. arrives R st (c st)) \<Longrightarrow> arrives R st (with_open_db c st)"
  unfolding with_open_db_def
  by (auto intro!: arrives_steps intro: arrives_runs [OF runs_error] arrives_runs [OF runs_sayln] simp del: steps.simps)

lemma runs_stop: "runs R D stop"
  by (rule runsI) (simp add: stop_def stops)

lemma runs_shortcut: "runs R D (shortcut line)"
proof -
  have "runs R D (\<lambda>st. case sh_db st of None \<Rightarrow> print_error_code ERROR_NOT_FOUND st
      | Some db \<Rightarrow> (case db_get_table db q of None \<Rightarrow> print_error_code ERROR_NOT_FOUND st
          | Some i \<Rightarrow> print_table_formatted (db_tables db ! i) FORMAT_TABLE st))" for q
    by (rule runsI) (auto split: option.split intro: runsD [OF runs_error] runsD [OF runs_print_table_formatted])
  then show ?thesis unfolding shortcut_def Let_def
    by (intro runs_if menu_rules runs_say_lines runs_show_help_topic runs_stop)
qed

lemma arrives_main_choice: "arrives R st (main_choice n c line st)"
  unfolding main_choice_def handle_database_operations_def handle_table_operations_def handle_index_operations_def
    handle_query_operations_def handle_maintenance_operations_def handle_config_operations_def handle_help_def
    handle_tools_def
  by (auto intro!: arrives_menu arrives_open runs_database_choice runs_table_choice runs_index_choice runs_query_choice
      runs_maintenance_choice runs_config_choice runs_help_choice runs_tools_choice arrives_runs [OF runs_stop]
      arrives_runs [OF runs_shortcut])

lemma arrives_main: "arrives R st (main_loop n st)"
proof (induction n arbitrary: st)
  case (Suc n)
  have "arrives R st1 (case fgets 10 (sh_in st1) of None \<Rightarrow> Returns st1
      | Some (line, rest) \<Rightarrow> steps [main_choice n (atoi (c_str line)) (c_str line), main_loop n] (st1\<lparr>sh_in := rest\<rparr>))" for st1
  proof (cases "fgets 10 (sh_in st1)")
    case (Some p)
    obtain line rest where p: "p = (line, rest)" by fastforce
    have "R st1 (st1\<lparr>sh_in := rest\<rparr>)" by (rule reads [OF fgets_left [OF Some [unfolded p]]])
    moreover have "arrives R (st1\<lparr>sh_in := rest\<rparr>)
        (steps [main_choice n (atoi (c_str line)) (c_str line), main_loop n] (st1\<lparr>sh_in := rest\<rparr>))"
      by (rule arrives_steps) (auto intro: arrives_main_choice Suc)
    ultimately show ?thesis by (simp add: Some p arrives_via del: steps.simps)
  qed (simp add: refl)
  then have "arrives R st (steps [say_lines print_main_menu_text, \<lambda>st1. case fgets 10 (sh_in st1) of None \<Rightarrow> Returns st1
      | Some (line, rest) \<Rightarrow> steps [main_choice n (atoi (c_str line)) (c_str line), main_loop n] (st1\<lparr>sh_in := rest\<rparr>)] st)"
    using arrives_runs [OF runs_say_lines] by (intro arrives_steps) auto
  then show ?case by (simp add: refl del: steps.simps)
qed simp

end

section \<open>The input only gets shorter\<close>

interpretation reading: shell_loop "\<lambda>st st'. length (sh_in st') \<le> length (sh_in st)"
  by unfold_locales auto

lemma returns_shorter: "(\<And>D. runs (\<lambda>st st'. length (sh_in st') \<le> length (sh_in st)) D c) \<Longrightarrow> c st = Returns st' \<Longrightarrow>
    length (sh_in st') \<le> length (sh_in st)"
  using runsD [of "\<lambda>st st'. length (sh_in st') \<le> length (sh_in st)" "sh_db st" c st] by simp

lemma never_out_of_fuel: "(\<And>D. runs (\<lambda>st st'. length (sh_in st') \<le> length (sh_in st)) D c) \<Longrightarrow> c st \<noteq> OutOfFuel"
  using runsD [of "\<lambda>st st'. length (sh_in st') \<le> length (sh_in st)" "sh_db st" c st] by auto

lemma say_lines_returns: "say_lines ls st = Returns (st\<lparr>sh_out := sh_out st @ map (\<lambda>s. Text (s @ [newline])) ls\<rparr>)"
  unfolding say_lines_def
  by (induction ls arbitrary: st) (simp_all add: sayln_def say_def)

text \<open>The fuel does not change what is returned.\<close>

definition turn :: "string option \<Rightarrow> Shell \<Rightarrow> (int \<Rightarrow> cmd) \<Rightarrow> Shell run + Shell \<times> string" where
  \<comment> \<open>one turn of a menu: its end, or the state after it and the line read\<close>
  "turn input st body = (case next_input input st of (None, _) \<Rightarrow> Inl Undefined
     | (Some line, rest) \<Rightarrow>
         if atoi (c_str line) = 0 then Inl (Returns (st\<lparr>sh_in := rest\<rparr>))
         else (case steps [body (atoi (c_str line)), press_enter] (st\<lparr>sh_in := rest\<rparr>) of
             OutOfFuel \<Rightarrow> Inl OutOfFuel | Undefined \<Rightarrow> Inl Undefined | Returns st' \<Rightarrow> Inr (st', line)))"

lemma menu_turn: "menu_loop (Suc n) shown body input st =
    (case turn input (st\<lparr>sh_out := sh_out st @ map (\<lambda>s. Text (s @ [newline])) shown\<rparr>) body of
       Inl r \<Rightarrow> r | Inr (st', line) \<Rightarrow> menu_loop n shown body (Some line) st')"
  by (simp add: say_lines_returns turn_def Let_def split: option.split prod.split run.split)

lemma menu_same_result: "menu_loop m shown body input st = Returns a \<Longrightarrow>
    menu_loop n shown body input st = Returns b \<Longrightarrow> a = b"
proof (induction m arbitrary: n input st)
  case (Suc m)
  then show ?case
    by (cases n) (auto simp: menu_turn simp del: menu_loop.simps(2) split: sum.splits prod.splits)
qed simp

text \<open>A turn reads at least one byte while there is one.\<close>

lemma turn_shorter:
  assumes "turn input st body = Inr (st', line)" and "\<And>c D. runs (\<lambda>st st'. length (sh_in st') \<le> length (sh_in st)) D (body c)"
  shows "length (sh_in st') \<le> length (sh_in st) - 1" and "atoi (c_str line) \<noteq> 0"
    and "sh_in st = [] \<Longrightarrow> input = Some line"
proof -
  obtain rest where t: "next_input input st = (Some line, rest)" "atoi (c_str line) \<noteq> 0"
    "steps [body (atoi (c_str line)), press_enter] (st\<lparr>sh_in := rest\<rparr>) = Returns st'"
    using assms(1) by (auto simp: turn_def split: prod.splits option.splits if_splits run.splits)
  have "length (sh_in st') \<le> length rest"
    using returns_shorter [OF reading.steps_quiet t(3)] assms(2) reading.runs_press_enter by auto
  moreover have "length rest \<le> length (sh_in st) - 1"
    using t(1) by (auto simp: next_input_def fgets_def Let_def min_def split: option.splits prod.splits if_splits)
  ultimately show "length (sh_in st') \<le> length (sh_in st) - 1" by simp
  show "atoi (c_str line) \<noteq> 0" by (rule t(2))
  show "sh_in st = [] \<Longrightarrow> input = Some line" using t(1) by (simp add: next_input_def fgets_def)
qed

lemma menu_stuck:
  assumes "\<And>c D. runs (\<lambda>st st'. length (sh_in st') \<le> length (sh_in st)) D (body c)"
    and "sh_in st = []" and "atoi (c_str line) \<noteq> 0"
  shows "menu_loop n shown body (Some line) st \<noteq> Returns st'"
  using assms(2)
proof (induction n arbitrary: st)
  case (Suc n)
  show ?case
  proof (cases "turn (Some line) (st\<lparr>sh_out := sh_out st @ map (\<lambda>s. Text (s @ [newline])) shown\<rparr>) body")
    case (Inl r)
    with Suc(2) assms(3) have "r \<noteq> Returns st'"
      by (auto simp: turn_def next_input_def fgets_def split: run.splits)
    then show ?thesis by (simp add: menu_turn Inl del: menu_loop.simps)
  next
    case (Inr p)
    obtain st1 line1 where p: "p = (st1, line1)" by fastforce
    note t = turn_shorter [OF Inr [unfolded p] assms(1)]
    have "sh_in st1 = []" "line1 = line" using t(1,3) Suc(2) by auto
    with Suc show ?thesis by (simp add: menu_turn Inr p del: menu_loop.simps)
  qed
qed simp

lemma menu_decides:
  assumes "\<And>c D. runs (\<lambda>st st'. length (sh_in st') \<le> length (sh_in st)) D (body c)"
    and "length (sh_in st) < n" and "menu_loop n shown body input st = OutOfFuel"
  shows "menu_loop m shown body input st \<noteq> Returns st'"
  using assms(2,3)
proof (induction n arbitrary: m input st)
  case (Suc n)
  let ?st = "st\<lparr>sh_out := sh_out st @ map (\<lambda>s. Text (s @ [newline])) shown\<rparr>"
  show ?case
  proof (cases "turn input ?st body")
    case (Inl r)
    with Suc(3) show ?thesis by (cases m) (simp_all add: menu_turn del: menu_loop.simps(2))
  next
    case (Inr p)
    obtain st1 line where p: "p = (st1, line)" by fastforce
    note t = turn_shorter [OF Inr [unfolded p] assms(1)]
    show ?thesis
    proof (cases "sh_in st = []")
      case True
      then have "sh_in st1 = []" using t(1) by simp
      then show ?thesis using menu_stuck [OF assms(1) _ t(2)]
        by (cases m) (simp_all add: menu_turn Inr p del: menu_loop.simps(2))
    next
      case False
      with t(1) Suc(2) have "length (sh_in st1) < n" by (cases "sh_in st") simp_all
      moreover have "menu_loop n shown body (Some line) st1 = OutOfFuel"
        using Suc(3) by (simp add: menu_turn Inr p del: menu_loop.simps)
      ultimately show ?thesis using Suc(1) by (cases m) (simp_all add: menu_turn Inr p del: menu_loop.simps(2))
    qed
  qed
qed simp

section \<open>The main loop\<close>

definition menu_of :: "int \<Rightarrow> (string list \<times> (int \<Rightarrow> cmd)) option" where
  \<comment> \<open>the menus of the main menu\<close>
  "menu_of c =
     (if c = 1 then Some (print_database_menu_text, database_choice)
      else if c = 2 then Some (print_table_menu_text, table_choice)
      else if c = 3 then Some (print_index_menu_text, index_choice)
      else if c = 4 then Some (print_query_menu_text, query_choice)
      else if c = 5 then Some (print_maintenance_menu_text, maintenance_choice)
      else if c = 6 then Some (print_config_menu_text, config_choice)
      else if c = 7 then Some (print_help_menu_text, help_choice)
      else if c = 8 then Some (print_tools_menu_text, tools_choice) else None)"

lemma menu_of_runs: "menu_of c = Some (shown, body) \<Longrightarrow>
    runs (\<lambda>st st'. length (sh_in st') \<le> length (sh_in st)) D (body i)"
  by (auto simp: menu_of_def reading.runs_database_choice reading.runs_table_choice reading.runs_index_choice
      reading.runs_query_choice reading.runs_maintenance_choice reading.runs_config_choice reading.runs_help_choice
      reading.runs_tools_choice split: if_splits)

lemma main_choice_cases:
  obtains (menu) shown body where "menu_of c = Some (shown, body)"
    "\<And>n. main_choice n c line = menu_loop n shown body None"
  | (open_menu) shown body where "menu_of c = Some (shown, body)"
    "\<And>n. main_choice n c line = with_open_db (menu_loop n shown body None)"
  | (other) d where "\<And>n. main_choice n c line = d"
    "\<And>D. runs (\<lambda>st st'. length (sh_in st') \<le> length (sh_in st)) D d"
proof (cases "menu_of c")
  case None
  then show thesis
    by (intro other [of "if c = 0 then stop else shortcut line"])
      (auto simp: main_choice_def menu_of_def reading.runs_stop reading.runs_shortcut split: if_splits)
next
  case (Some p)
  obtain shown body where p: "p = (shown, body)" by fastforce
  note defs = main_choice_def handle_database_operations_def handle_table_operations_def handle_index_operations_def
    handle_query_operations_def handle_maintenance_operations_def handle_config_operations_def handle_help_def
    handle_tools_def menu_of_def
  show thesis
  proof (cases "c \<in> {1, 7, 8}")
    case True
    with Some p show thesis by (intro menu [of shown body]) (auto simp: defs)
  next
    case False
    with Some p show thesis by (intro open_menu [of shown body]) (auto simp: defs split: if_splits)
  qed
qed

lemma main_choice_same_result:
  assumes "main_choice m c line st = Returns a" and "main_choice n c line st = Returns b"
  shows "a = b"
  using assms
  by (cases rule: main_choice_cases [of c line])
    (auto simp: with_open_db_def dest: menu_same_result split: if_splits)

lemma main_choice_decides:
  assumes "length (sh_in st) < n" and "main_choice n c line st = OutOfFuel"
  shows "main_choice m c line st \<noteq> Returns st'"
  using assms
proof (cases rule: main_choice_cases [of c line])
  case (menu shown body)
  with assms menu_decides [OF menu_of_runs [OF menu(1)]] show ?thesis by auto
next
  case (open_menu shown body)
  have "steps [print_error_code e, sayln s] st \<noteq> OutOfFuel" for e s
    by (simp add: print_error_code_def sayln_def say_def)
  with assms open_menu menu_decides [OF menu_of_runs [OF open_menu(1)]] show ?thesis
    by (auto simp: with_open_db_def simp del: steps.simps split: if_splits)
next
  case (other d)
  with assms(2) never_out_of_fuel [of d st] show ?thesis by simp
qed

lemma main_turn: "main_loop (Suc n) st = (if \<not> sh_running st then Returns st
    else let st1 = st\<lparr>sh_out := sh_out st @ map (\<lambda>s. Text (s @ [newline])) print_main_menu_text\<rparr> in
      (case fgets 10 (sh_in st) of None \<Rightarrow> Returns st1
       | Some (line, rest) \<Rightarrow> (case main_choice n (atoi (c_str line)) (c_str line) (st1\<lparr>sh_in := rest\<rparr>) of
             OutOfFuel \<Rightarrow> OutOfFuel | Undefined \<Rightarrow> Undefined | Returns st2 \<Rightarrow> main_loop n st2)))"
  by (simp add: say_lines_returns Let_def split: option.split prod.split run.split)

lemma main_decides:
  assumes "length (sh_in st) < n" and "main_loop n st = OutOfFuel"
  shows "main_loop m st \<noteq> Returns st'"
  using assms
proof (induction n arbitrary: m st)
  case (Suc n)
  let ?st = "st\<lparr>sh_out := sh_out st @ map (\<lambda>s. Text (s @ [newline])) print_main_menu_text\<rparr>"
  have run: "sh_running st" using Suc(3) by (auto simp: main_turn simp del: main_loop.simps(2) split: if_splits)
  obtain line rest where f: "fgets 10 (sh_in st) = Some (line, rest)"
    using Suc(3) run by (auto simp: main_turn Let_def simp del: main_loop.simps(2) split: option.splits)
  let ?st1 = "?st\<lparr>sh_in := rest\<rparr>" and ?c = "atoi (c_str line)"
  have short: "length rest < length (sh_in st)"
    using f by (auto simp: fgets_def Let_def min_def split: if_splits)
  show ?case
  proof (cases "main_choice n ?c (c_str line) ?st1")
    case OutOfFuel
    have "main_choice k ?c (c_str line) ?st1 \<noteq> Returns st2" for k st2
      by (rule main_choice_decides [OF _ OutOfFuel]) (use short Suc(2) in simp)
    then show ?thesis
      by (cases m) (auto simp: main_turn run f Let_def simp del: main_loop.simps(2) split: run.split)
  next
    case Undefined
    with Suc(3) show ?thesis by (simp add: main_turn run f Let_def del: main_loop.simps)
  next
    case (Returns st2)
    have "length (sh_in st2) \<le> length rest"
      using reading.arrives_main_choice [of ?st1 n ?c "c_str line"] by (simp add: Returns)
    moreover have "main_loop n st2 = OutOfFuel"
      using Suc(3) by (simp add: main_turn run f Let_def Returns del: main_loop.simps)
    ultimately have ih: "main_loop k st2 \<noteq> Returns st'" for k using Suc(1) [of st2 k] short Suc(2) by simp
    have "main_choice k ?c (c_str line) ?st1 = Returns st3 \<Longrightarrow> main_loop k st3 \<noteq> Returns st'" for k st3
      using main_choice_same_result [OF Returns, of k st3] ih by simp
    then show ?thesis
      by (cases m) (auto simp: main_turn run f Let_def simp del: main_loop.simps(2) split: run.split)
  qed
qed simp

lemma help_forever: "sh_in st = [] \<Longrightarrow> menu_loop m shown help_choice (Some ''4'') st = OutOfFuel"
proof (induction m arbitrary: st)
  case (Suc m)
  have "c_str ''4'' = ''4''" "atoi ''4'' = 4" by code_simp+
  with Suc show ?case
    by (simp add: menu_turn turn_def next_input_def fgets_def help_choice_def say_lines_returns press_enter_def
        del: menu_loop.simps(2))
qed simp

lemma help_then_end: "main_loop m (st\<lparr>sh_in := ''7'' @ [newline] @ ''4'', sh_running := True\<rparr>) = OutOfFuel"
proof (cases m)
  case (Suc k)
  have a: "fgets 10 (CHR ''7'' # newline # ''4'') = Some ([CHR ''7'', newline], ''4'')" "fgets 10 ''4'' = Some (''4'', [])"
    "c_str [CHR ''7'', newline] = [CHR ''7'', newline]" "atoi [CHR ''7'', newline] = 7" "c_str ''4'' = ''4''" "atoi ''4'' = 4"
    by code_simp+
  have inside: "menu_loop n print_help_menu_text help_choice None (st'\<lparr>sh_in := ''4''\<rparr>) = OutOfFuel" for n st'
    by (cases n) (simp_all add: menu_turn turn_def next_input_def a help_choice_def say_lines_returns
        press_enter_def help_forever del: menu_loop.simps(2))
  have "main_choice k 7 line (st'\<lparr>sh_in := ''4''\<rparr>) = OutOfFuel" for st' line
    by (simp add: main_choice_def handle_help_def inside)
  then show ?thesis by (simp add: Suc main_turn a Let_def del: main_loop.simps(2))
qed simp

definition sample_shell :: "string \<Rightarrow> Shell" where
  "sample_shell input = initial_shell
     \<lparr>se_json = \<lparr>je_float = (\<lambda>_. []), je_double = (\<lambda>_. []), je_time = (\<lambda>_. None)\<rparr>, se_lib = no_floats, se_mk = (\<lambda>_. 0), se_float = (\<lambda>_. []), se_double = (\<lambda>_. []), se_index_size = 0\<rparr>
     input Map.empty (\<lambda>_. \<lparr>ev_alloc = (\<lambda>_. True), ev_now = 0, ev_tm = sample_tm, ev_can_write = True, ev_written = 0,
       ev_entries = None, ev_elapsed = ''0.000''\<rparr>)"

lemma sample_run:
  obtains st' where "main_loop 3 (sample_shell ''0'') = Returns st'" and "\<not> sh_running st'"
proof -
  have "fgets 10 ''0'' = Some (''0'', [])" "c_str ''0'' = ''0''" "atoi ''0'' = 0" by code_simp+
  then have "\<exists>st'. main_loop 3 (sample_shell ''0'') = Returns st' \<and> \<not> sh_running st'"
    by (simp add: eval_nat_numeral main_turn sample_shell_def initial_shell_def Let_def main_choice_def stop_def
        del: main_loop.simps(2))
  then show thesis using that by blast
qed

text \<open>C7: the shell reads at least one byte in every turn, so one turn more than there are bytes of input
  decides it: either the main loop has ended, or it never returns. The second happens: only the main menu looks
  at the end of the input. In a menu below it the last line stays in the array and is read again for
  ever, so input that ends inside one, as a script piped into the program does, is an endless loop.\<close>

theorem shell_returns_or_never:
  assumes "length (sh_in st) < n"
  shows "(case main_loop n st of OutOfFuel \<Rightarrow> (\<forall>m st'. main_loop m st \<noteq> Returns st') | _ \<Rightarrow> True) \<and>
    (\<forall>m. main_loop m (st\<lparr>sh_in := ''7'' @ [newline] @ ''4'', sh_running := True\<rparr>) = OutOfFuel)"
  using main_decides [OF assms] help_then_end by (simp split: run.split)

lemma shell_returns_or_never_witness:
  "(case main_loop 3 (sample_shell ''0'') of Returns st' \<Rightarrow> \<not> sh_running st' | _ \<Rightarrow> False) \<and>
   (\<forall>m. main_loop m ((sample_shell ''0'')\<lparr>sh_in := ''7'' @ [newline] @ ''4'', sh_running := True\<rparr>) = OutOfFuel)"
proof
  have "length (sh_in (sample_shell ''0'')) < 3" by (simp add: sample_shell_def initial_shell_def)
  from shell_returns_or_never [OF this]
  show "\<forall>m. main_loop m ((sample_shell ''0'')\<lparr>sh_in := ''7'' @ [newline] @ ''4'', sh_running := True\<rparr>) = OutOfFuel" by simp
  obtain st' where "main_loop 3 (sample_shell ''0'') = Returns st'" "\<not> sh_running st'" by (rule sample_run)
  then show "case main_loop 3 (sample_shell ''0'') of Returns st' \<Rightarrow> \<not> sh_running st' | _ \<Rightarrow> False" by simp
qed

end
