(* ===== verification/Lx_Shell_Db.thy ===== *)
theory Lx_Shell_Db
  imports Lx_Shell_Props
begin

text \<open>
  The state that every command of the shell keeps well formed: the database, up to the constraints
  that \<open>create_table_interactive\<close> stores in its tables, the counter of record ids, and the history.
\<close>

section \<open>Databases up to constraints\<close>

definition plain_table :: "Table \<Rightarrow> Table" where
  \<comment> \<open>with the constraints that \<open>db_add_table\<close> gives\<close>
  "plain_table t = t\<lparr>t_constraints := map default_constraint [0..<t_field_count t]\<rparr>"

definition plain_db :: "Database \<Rightarrow> Database" where
  "plain_db db = db\<lparr>db_tables := map plain_table (db_tables db)\<rparr>"

definition shell_db_ok :: "Database \<Rightarrow> bool" where
  "shell_db_ok db \<longleftrightarrow> db_ok (plain_db db)"

lemma plain_table_simps [simp]:
  "t_name (plain_table t) = t_name t" "t_field_names (plain_table t) = t_field_names t"
  "t_field_count (plain_table t) = t_field_count t" "t_records (plain_table t) = t_records t"
  "t_index_manager (plain_table t) = t_index_manager t" "t_next_record_id (plain_table t) = t_next_record_id t"
  "plain_table (set_constraints cs t) = plain_table t"
  "plain_table (t\<lparr>t_index_manager := m\<rparr>) = plain_table t\<lparr>t_index_manager := m\<rparr>"
  by (simp_all add: plain_table_def set_constraints_def)

lemma plain_table_same: "table_ok t \<Longrightarrow> plain_table t = t"
  by (simp add: table_ok_def schema_ok_def plain_table_def)

lemma plain_db_simps [simp]:
  "db_tables (plain_db db) = map plain_table (db_tables db)" "db_table_count (plain_db db) = db_table_count db"
  "db_cache (plain_db db) = db_cache db" "db_table_capacity (plain_db db) = db_table_capacity db"
  "plain_db (update_simple_statistics k db) = update_simple_statistics k (plain_db db)"
  "plain_db (put_table db i t) = put_table (plain_db db) i (plain_table t)"
  "db_get_table (plain_db db) tn = db_get_table db tn"
  by (simp_all add: plain_db_def update_simple_statistics_def put_table_def map_update db_get_table_def find_index_map
      take_map cong: option.case_cong)

lemma shell_db_ok_loaded: "db_ok db \<Longrightarrow> shell_db_ok db"
proof -
  assume ok: "db_ok db"
  then have "map plain_table (db_tables db) = db_tables db"
    by (intro map_idI plain_table_same) (simp add: db_ok_def tables_ok_def list_all_iff)
  then show ?thesis using ok by (simp add: shell_db_ok_def plain_db_def)
qed

lemma find_field_plain [simp]: "find_field (plain_table t) name = find_field t name"
  by (simp add: find_field_def)

lemma add_table_plain:
  assumes "db_add_table ok db np fp tp n = (e, out, db')"
    and "db_table_count db = length (db_tables db)"
  shows "db_add_table ok (plain_db db) np fp tp n = (e, out, plain_db db')"
proof -
  have grow: "plain_db (grow_tables db) = grow_tables (plain_db db)"
    by (simp add: plain_db_def grow_tables_def)
  have slot: "plain_db (db0\<lparr>db_tables := store_slot k t (db_tables db), db_table_count := c\<rparr>) =
      (plain_db db0)\<lparr>db_tables := store_slot k (plain_table t) (map plain_table (db_tables db)), db_table_count := c\<rparr>"
    for db0 k t c
    by (cases db0) (simp add: plain_db_def store_slot_def take_map drop_map)
  have new: "plain_table (new_table ok name fs ts m) = new_table ok name fs ts m" for name fs ts m
    by (simp add: plain_table_def new_table_def)
  show ?thesis using assms(1)
    by (auto simp: db_add_table_def Let_def grow slot new take_map list_ex_iff split: option.splits if_splits)
qed

lemma parsed_table_step:
  assumes "shell_db_ok db" and "add_parsed_table ok db name sf = Returns (e, slot, db')"
  shows "shell_db_ok db'"
proof -
  obtain np fp tp n ok' where a: "db_add_table ok' db np fp tp n = (e, slot, db')"
    using assms(2) by (auto simp: add_parsed_table_def Let_def split: option.splits if_splits)
  have "db_table_count db = length (db_tables db)" using assms(1) by (simp add: shell_db_ok_def db_ok_def tables_ok_def)
  from db_add_table_ok [OF _ add_table_plain [OF a this]] assms(1) show ?thesis by (simp add: shell_db_ok_def)
qed

lemma create_index_plain:
  "db_create_index ok (plain_db db) tn fn ty = map_option (\<lambda>(e, d). (e, plain_db d)) (db_create_index ok db tn fn ty)"
proof (cases "tn = None \<or> fn = None \<or> db_get_table db tn = None")
  case False
  then obtain t f i where p: "tn = Some t" "fn = Some f" "db_get_table db (Some t) = Some i" by auto
  then have i: "i < length (db_tables db)" by (blast dest: db_get_table_SomeD)
  show ?thesis unfolding db_create_index_def p
    by (auto simp: p i Let_def split: option.split prod.split)
qed (auto simp: db_create_index_def split: option.split)

lemma drop_index_plain:
  "db_drop_index db tn fn = (e, db') \<Longrightarrow> db_drop_index (plain_db db) tn fn = (e, plain_db db')"
proof (cases "tn = None \<or> fn = None \<or> db_get_table db tn = None")
  case False
  assume d: "db_drop_index db tn fn = (e, db')"
  from False obtain t f i where p: "tn = Some t" "fn = Some f" "db_get_table db (Some t) = Some i" by auto
  then have i: "i < length (db_tables db)" by (blast dest: db_get_table_SomeD)
  obtain r m where m: "remove_index_from_manager (t_index_manager (db_tables db ! i)) t f = (r, m)" by fastforce
  show ?thesis using d unfolding db_drop_index_def p
    by (auto simp: p i m Let_def)
qed (auto simp: db_drop_index_def split: option.split)

lemma execute_query_plain:
  "db_execute_query ok db qp = (r, db') \<Longrightarrow> \<exists>r'. db_execute_query ok (plain_db db) qp = (r', plain_db db')"
  by (auto simp: db_execute_query_def Let_def split: option.splits)

text \<open>Loading keeps the counter of record ids within an \<open>int\<close>, whether or not it returns a database.\<close>

lemma load_counter:
  assumes "db_load_from_file lib mk ok now gc files fp = Returns (dp, gc')" and "c_int gc"
  shows "c_int gc'"
proof (cases "gc' = gc")
  case False
  then obtain content db0 token st result st' where l: "db_create (shift_alloc 1 ok) = Some db0"
    "next_token (load_state content db0 gc (shift_alloc 5 ok)) = (token, st)"
    "parse_database lib mk now (bytes_left st + 1) st = Returns (result, st')" "gc' = ls_counter st'"
    using assms(1) by (auto simp: db_load_from_file_def split: option.splits prod.splits run.splits if_splits)
  have run: "sound 0 st snd (parse_database lib mk now (bytes_left st + 1) st)"
    by (rule parse_database_sound) simp
  have "load_ok 0 (load_state content db0 gc (shift_alloc 5 ok))"
    using db_create_ok [OF l(1)] assms(2) by (simp add: load_ok_def load_state_def)
  then have "load_ok 0 st" using follows_next(1) [OF l(2)] by (simp add: follows_def)
  moreover have "follows 0 st st'" using run unfolding l(3) by (simp add: sound_def)
  ultimately show ?thesis using l(4) by (simp add: follows_def load_ok_def)
qed (use assms(2) in simp)

definition db_state_ok :: "Database option \<times> int \<Rightarrow> bool" where
  "db_state_ok s \<longleftrightarrow> c_int (snd s) \<and> (case fst s of None \<Rightarrow> True | Some db \<Rightarrow> shell_db_ok db)"

lemma db_step_ok:
  assumes "db_step env s s'" and "db_state_ok s"
  shows "db_state_ok s'"
  using assms
proof (induction rule: db_step.induct)
  case (created ok db env dp gc)
  then show ?case using shell_db_ok_loaded db_create_ok by (auto simp: db_state_ok_def)
next
  case (loaded env ok now gc files fp dp' gc' dp)
  then show ?case using load_counter [OF loaded(1)] db_load_sound(2) shell_db_ok_loaded
    by (fastforce simp: db_state_ok_def split: option.split)
next
  case (not_restored env ok now gc files fp dp' gc' dp)
  then show ?case using load_counter [OF not_restored(1)] by (auto simp: db_state_ok_def)
next
  case (counted env db gc k)
  then show ?case by (simp add: db_state_ok_def shell_db_ok_def db_ok_def)
next
  case (queried ok db qp r db' env gc)
  then show ?case using execute_query_plain [OF queried(1)] db_execute_query_ok [of "plain_db db"]
    by (auto simp: db_state_ok_def shell_db_ok_def)
next
  case (added ok db name sf e slot db' env gc)
  then show ?case using parsed_table_step [OF _ added(1)] by (auto simp: db_state_ok_def)
next
  case (constrained env db gc i cs)
  show ?case
  proof (cases "i < length (db_tables db)")
    case True
    then have "plain_db (put_table db i (set_constraints cs (db_tables db ! i))) = plain_db db"
      by (simp add: put_table_def plain_db_def map_update list_update_same_conv)
    with constrained show ?thesis by (simp add: db_state_ok_def shell_db_ok_def)
  next
    case False
    then have "put_table db i t = db" for t by (cases db) (simp add: put_table_def list_update_beyond)
    with constrained show ?thesis by simp
  qed
next
  case (indexed ok db tn fn type e db' env gc)
  then show ?case using create_index_plain [of ok db tn fn type] db_create_index_ok [of "plain_db db" ok tn fn type]
    by (auto simp: db_state_ok_def shell_db_ok_def)
next
  case (unindexed db tn fn e db' env gc)
  then show ?case using db_drop_index_ok [OF _ drop_index_plain [OF unindexed(1)]]
    by (auto simp: db_state_ok_def shell_db_ok_def)
qed (auto simp: db_state_ok_def)

section \<open>What the shell keeps\<close>

definition history_ok :: "Shell \<Rightarrow> bool" where
  \<comment> \<open>until the ring is full, the slots from the count on were never used\<close>
  "history_ok st \<longleftrightarrow> length (sh_history st) = HISTORY_SIZE \<and> sh_history_index st < HISTORY_SIZE \<and>
     sh_history_count st \<le> HISTORY_SIZE \<and> (\<forall>q \<in> set (sh_history st). length q < MAX_QUERY_LEN) \<and>
     (sh_history_count st < HISTORY_SIZE \<longrightarrow> sh_history_index st = sh_history_count st \<and>
        (\<forall>i. sh_history_count st \<le> i \<and> i < HISTORY_SIZE \<longrightarrow> sh_history st ! i = []))"

definition shell_ok :: "Shell \<Rightarrow> bool" where
  "shell_ok st \<longleftrightarrow> history_ok st \<and> db_state_ok (sh_db st, sh_counter st)"

lemma history_ok_frame [simp]:
  "history_ok (st\<lparr>sh_in := s\<rparr>) = history_ok st" "history_ok (st\<lparr>sh_out := out\<rparr>) = history_ok st"
  "history_ok (st\<lparr>sh_events := es\<rparr>) = history_ok st" "history_ok (st\<lparr>sh_files := fs\<rparr>) = history_ok st"
  "history_ok (st\<lparr>sh_db := dp, sh_counter := gc\<rparr>) = history_ok st" "history_ok (st\<lparr>sh_running := b\<rparr>) = history_ok st"
  by (simp_all add: history_ok_def)

lemma add_to_history_ok:
  assumes "history_ok st"
  shows "history_ok (add_to_history qp st)"
proof (cases "add_to_history qp st = st")
  case False
  then obtain q where q: "qp = Some q" by (cases qp) (auto simp: add_to_history_def)
  have "set ((sh_history st)[sh_history_index st := take (MAX_QUERY_LEN - 1) q]) \<subseteq>
      insert (take (MAX_QUERY_LEN - 1) q) (set (sh_history st))" by (rule set_update_subset_insert)
  then have "\<forall>r \<in> set ((sh_history st)[sh_history_index st := take (MAX_QUERY_LEN - 1) q]). length r < MAX_QUERY_LEN"
    using assms by (auto simp: history_ok_def MAX_QUERY_LEN_def)
  with False assms show ?thesis
    by (auto simp: q add_to_history_def history_ok_def HISTORY_SIZE_def nth_list_update split: if_splits)
next
  case True
  show ?thesis unfolding True by (rule assms)
qed

interpretation keeping: shell_loop "\<lambda>st st'. shell_ok st \<longrightarrow> shell_ok st'"
  by unfold_locales (simp_all add: shell_ok_def add_to_history_ok db_step_ok)

lemma initial_shell_ok: "shell_ok (initial_shell env input files events)"
  by (simp add: shell_ok_def initial_shell_def history_ok_def db_state_ok_def HISTORY_SIZE_def MAX_QUERY_LEN_def
      c_int_def int_min_def int_max_def)

definition rows_of :: "Database option \<Rightarrow> Record list set" where
  \<comment> \<open>the records of each table\<close>
  "rows_of dp = (case dp of None \<Rightarrow> {} | Some db \<Rightarrow> t_records ` set (db_tables db))"

definition file_rows :: "shell_env \<Rightarrow> Record list set" where
  \<comment> \<open>the records of the tables that loading some file can give\<close>
  "file_rows env = {rs. \<exists>ok now gc files fp db gc'.
     db_load_from_file (se_lib env) (se_mk env) ok now gc files fp = Returns (Some db, gc') \<and> rs \<in> rows_of (Some db)}"

definition same_rows :: "Shell \<Rightarrow> Shell \<Rightarrow> bool" where
  "same_rows st st' \<longleftrightarrow> sh_env st' = sh_env st \<and>
     rows_of (sh_db st') \<subseteq> rows_of (sh_db st) \<union> {[]} \<union> file_rows (sh_env st)"

lemma rows_of_put: "t_records t = t_records (db_tables db ! i) \<Longrightarrow> rows_of (Some (put_table db i t)) = rows_of (Some db)"
proof (cases "i < length (db_tables db)")
  case True
  assume "t_records t = t_records (db_tables db ! i)"
  then have "map t_records ((db_tables db)[i := t]) = map t_records (db_tables db)"
    using True by (simp add: map_update list_update_same_conv)
  then have "t_records ` set ((db_tables db)[i := t]) = t_records ` set (db_tables db)"
    by (metis image_set)
  then show ?thesis by (simp add: rows_of_def)
qed (simp add: rows_of_def list_update_beyond)

lemma rows_of_same: "db_tables db' = db_tables db \<Longrightarrow> rows_of (Some db') = rows_of (Some db)"
  by (simp add: rows_of_def)

lemma rows_of_bump: "rows_of (Some (update_simple_statistics k db)) = rows_of (Some db)"
  by (rule rows_of_same) simp

lemma add_table_rows:
  assumes "db_add_table ok db np fp tp n = (e, out, db')"
  shows "rows_of (Some db') \<subseteq> rows_of (Some db) \<union> {[]}"
  using assms
proof (cases rule: db_add_table_cases)
  case (added name fs ts)
  have "t_records (new_table ok name fs ts (nat n)) = []" by (simp add: new_table_def)
  with added(11) show ?thesis
    by (auto simp: rows_of_def store_slot_def dest: in_set_takeD in_set_dropD)
qed (auto simp: rows_of_def)

lemma db_step_rows: "db_step env s s' \<Longrightarrow> rows_of (fst s') \<subseteq> rows_of (fst s) \<union> {[]} \<union> file_rows env"
proof (induction rule: db_step.induct)
  case (loaded env ok now gc files fp dp' gc' dp)
  show ?case
  proof (cases dp')
    case (Some db)
    with loaded have "rows_of (Some db) \<subseteq> file_rows env" unfolding file_rows_def by blast
    then show ?thesis by (auto simp: Some)
  qed (simp add: rows_of_def)
next
  case (created ok db env dp gc)
  then show ?case by (auto simp: db_create_def rows_of_def split: if_splits)
next
  case (counted env db gc k)
  show ?case by (auto simp: rows_of_bump)
next
  case (queried ok db qp r db' env gc)
  then have "db_tables db' = db_tables db"
    by (auto simp: db_execute_query_def Let_def split: option.splits)
  then have "rows_of (Some db') = rows_of (Some db)" by (rule rows_of_same)
  then show ?case by auto
next
  case (added ok db name sf e slot db' env gc)
  then obtain np fp tp n ok' where "db_add_table ok' db np fp tp n = (e, slot, db')"
    by (auto simp: add_parsed_table_def Let_def split: option.splits if_splits)
  then have "rows_of (Some db') \<subseteq> rows_of (Some db) \<union> {[]}" by (rule add_table_rows)
  then show ?case by auto
next
  case (constrained env db gc i cs)
  show ?case by (auto simp: rows_of_put set_constraints_def)
next
  case (indexed ok db tn fn type e db' env gc)
  then have "rows_of (Some db') = rows_of (Some db)"
    by (auto simp: db_create_index_def Let_def rows_of_put rows_of_bump split: option.splits if_splits prod.splits)
  then show ?case by auto
next
  case (unindexed db tn fn e db' env gc)
  then have "rows_of (Some db') = rows_of (Some db)"
    by (auto simp: db_drop_index_def Let_def rows_of_put rows_of_bump split: option.splits if_splits prod.splits)
  then show ?case by auto
qed (auto simp: rows_of_def)

interpretation reading_rows: shell_loop same_rows
proof unfold_locales
  fix st :: Shell and dp gc
  assume "db_step (sh_env st) (sh_db st, sh_counter st) (dp, gc)"
  from db_step_rows [OF this] show "same_rows st (st\<lparr>sh_db := dp, sh_counter := gc\<rparr>)" by (simp add: same_rows_def)
next
  fix a b c :: Shell
  assume "same_rows a b" and "same_rows b c"
  then show "same_rows a c" by (auto simp: same_rows_def)
qed (auto simp: same_rows_def)

text \<open>C6: whatever is typed and whatever the files hold, the shell keeps its state well formed: the history
  within its 100 entries of at most 4095 bytes, the counter of record ids within an \<open>int\<close>, and the open
  database as calls of \<open>db_add_table\<close> and \<open>db_insert_record\<close> would build it, constraints aside. So
  creating an index never meets a NULL manager.\<close>

theorem shell_keeps_ok:
  assumes "shell_ok st" and "main_loop n st = Returns st'"
  shows "shell_ok st' \<and> shell_ok (initial_shell env input files events) \<and>
    (\<forall>db ok tn fn type. sh_db st' = Some db \<longrightarrow> db_create_index ok db tn fn type \<noteq> None)"
proof (intro conjI allI impI)
  show ok: "shell_ok st'" using keeping.arrives_main [of st n] assms by simp
  show "shell_ok (initial_shell env input files events)" by (rule initial_shell_ok)
  fix db ok1 tn fn type assume "sh_db st' = Some db"
  then have "db_ok (plain_db db)" using ok by (simp add: shell_ok_def db_state_ok_def shell_db_ok_def)
  from db_create_index_ok [OF this, of ok1 tn fn type] show "db_create_index ok1 db tn fn type \<noteq> None"
    by (auto simp: create_index_plain)
qed

lemma shell_keeps_ok_witness:
  "case main_loop 3 (sample_shell ''0'') of Returns st' \<Rightarrow> shell_ok st' | _ \<Rightarrow> False"
proof -
  obtain st' where "main_loop 3 (sample_shell ''0'') = Returns st'" by (rule sample_run)
  moreover from this have "shell_ok st'"
    using shell_keeps_ok [of "sample_shell ''0''" 3 st'] initial_shell_ok by (simp add: sample_shell_def)
  ultimately show ?thesis by simp
qed



end
