(* ===== verification/Lx_Answers.thy ===== *)
theory Lx_Answers
  imports Lx_Shell_Db
begin

text \<open>
  Properties of single commands of the shell: the history, reading a query, creating a table, answers that are
  too long, restoring a backup, and the saved state.
\<close>

section \<open>The history\<close>

definition history_list :: "Shell \<Rightarrow> string list" where
  "history_list st = map (history_entry st) [0..<sh_history_count st]"

definition push_history :: "string \<Rightarrow> string list \<Rightarrow> string list" where
  \<comment> \<open>the specification: the last 100 queries; a full list drops its oldest, unless the query repeats that\<close>
  "push_history q l = (if q = [] \<or> (length l = HISTORY_SIZE \<and> hd l = q) then l
     else drop (length l + 1 - HISTORY_SIZE) (l @ [take (MAX_QUERY_LEN - 1) q]))"

lemma history_list_partial:
  assumes "history_ok st" and "sh_history_count st < HISTORY_SIZE"
  shows "history_list st = take (sh_history_count st) (sh_history st)"
  using assms by (intro nth_equalityI) (auto simp: history_list_def history_entry_def history_start_def history_ok_def)

lemma history_list_full:
  assumes "history_ok st" and "sh_history_count st = HISTORY_SIZE"
  shows "history_list st = rotate (sh_history_index st) (sh_history st)"
  using assms by (intro nth_equalityI)
    (auto simp: history_list_def history_entry_def history_start_def history_ok_def nth_rotate add.commute)

lemma push_history_room:
  assumes "history_ok st" and "q \<noteq> []" and "sh_history_count st < HISTORY_SIZE"
  shows "history_list (add_to_history (Some q) st) = history_list st @ [take (MAX_QUERY_LEN - 1) q]"
proof -
  let ?n = "sh_history_count st" and ?h = "sh_history st" and ?q = "take (MAX_QUERY_LEN - 1) q"
    and ?st = "add_to_history (Some q) st"
  have ok: "history_ok ?st" by (rule add_to_history_ok [OF assms(1)])
  have slot: "sh_history_index st = ?n" "?h ! ?n = []" "length ?h = HISTORY_SIZE"
    using assms by (auto simp: history_ok_def)
  then have st: "?st = st\<lparr>sh_history := ?h[?n := ?q], sh_history_index := (?n + 1) mod HISTORY_SIZE,
      sh_history_count := ?n + 1\<rparr>"
    using assms by (simp add: add_to_history_def)
  have "history_list ?st = take (?n + 1) (?h[?n := ?q])"
  proof (cases "?n + 1 < HISTORY_SIZE")
    case True
    then show ?thesis using history_list_partial [OF ok] by (simp add: st)
  next
    case False
    then have "?n + 1 = HISTORY_SIZE" using assms(3) by simp
    then show ?thesis using history_list_full [OF ok] slot by (simp add: st)
  qed
  then show ?thesis using assms(3) slot by (simp add: history_list_partial [OF assms(1,3)] take_Suc_conv_app_nth)
qed

lemma push_history_full:
  assumes "history_ok st" and "q \<noteq> []" and "sh_history_count st = HISTORY_SIZE"
  shows "hd (history_list st) = sh_history st ! sh_history_index st" and
    "sh_history st ! sh_history_index st \<noteq> q \<Longrightarrow>
     history_list (add_to_history (Some q) st) = tl (history_list st) @ [take (MAX_QUERY_LEN - 1) q]"
proof -
  let ?i = "sh_history_index st" and ?h = "sh_history st" and ?q = "take (MAX_QUERY_LEN - 1) q"
    and ?st = "add_to_history (Some q) st"
  have i: "?i < HISTORY_SIZE" "length ?h = HISTORY_SIZE" using assms(1) by (auto simp: history_ok_def)
  note l = history_list_full [OF assms(1,3)]
  have "?h \<noteq> []" using i by (auto simp: HISTORY_SIZE_def)
  then show "hd (history_list st) = ?h ! ?i" unfolding l using i by (simp add: hd_conv_nth nth_rotate)
  assume "?h ! ?i \<noteq> q"
  then have st: "?st = st\<lparr>sh_history := ?h[?i := ?q], sh_history_index := (?i + 1) mod HISTORY_SIZE\<rparr>"
    using assms(2,3) by (simp add: add_to_history_def)
  have "history_list ?st = rotate ((?i + 1) mod HISTORY_SIZE) (?h[?i := ?q])"
    using history_list_full [OF add_to_history_ok [OF assms(1), of "Some q"]] assms(3) by (simp add: st)
  also have "\<dots> = rotate (Suc ?i) (?h[?i := ?q])" using i rotate_conv_mod [of "Suc ?i" "?h[?i := ?q]"] by simp
  also have "\<dots> = tl (rotate ?i ?h) @ [?q]"
  proof -
    have "rotate ?i (?h[?i := ?q]) = ?q # drop (Suc ?i) ?h @ take ?i ?h"
      using i by (simp add: rotate_drop_take upd_conv_take_nth_drop)
    moreover have "rotate ?i ?h = ?h ! ?i # drop (Suc ?i) ?h @ take ?i ?h"
      using i by (simp add: rotate_drop_take Cons_nth_drop_Suc [symmetric])
    ultimately show ?thesis by simp
  qed
  finally show "history_list ?st = tl (history_list st) @ [?q]" by (simp add: l)
qed

text \<open>C12: the history is the list of the last 100 queries, each cut to 4095 bytes, with the oldest first, and the
  ring of slots implements it. What keeps duplicates out compares a query with the slot that is
  written next. Before 100 queries that slot was never used, so every repetition is kept; after that it holds the
  oldest query, so only a repetition of that one is left out.\<close>

theorem history_is_last_queries:
  assumes "history_ok st"
  shows "history_list (add_to_history (Some q) st) = push_history q (history_list st)"
proof -
  have len: "length (history_list st) = sh_history_count st" by (simp add: history_list_def)
  consider (none) "q = []" | (room) "q \<noteq> []" "sh_history_count st < HISTORY_SIZE"
    | (full) "q \<noteq> []" "sh_history_count st = HISTORY_SIZE"
    using assms by (fastforce simp: history_ok_def)
  then show ?thesis
  proof cases
    case none
    then show ?thesis by (simp add: push_history_def add_to_history_def)
  next
    case room
    then show ?thesis using push_history_room [OF assms room] len by (simp add: push_history_def)
  next
    case full
    note push = push_history_full [OF assms full]
    show ?thesis
    proof (cases "sh_history st ! sh_history_index st = q")
      case True
      then have "add_to_history (Some q) st = st" using full by (simp add: add_to_history_def HISTORY_SIZE_def)
      then show ?thesis using True full push(1) len by (simp add: push_history_def)
    next
      case False
      then show ?thesis using push full len by (simp add: push_history_def drop_Suc HISTORY_SIZE_def)
    qed
  qed
qed

lemma history_is_last_queries_witness:
  "history_list (add_to_history (Some ''b'') (add_to_history (Some ''b'') (sample_shell []))) =
     push_history ''b'' (push_history ''b'' [])"
proof -
  have ok: "history_ok (sample_shell [])" using initial_shell_ok by (simp add: sample_shell_def shell_ok_def)
  have "history_list (sample_shell []) = []" by (simp add: history_list_def sample_shell_def initial_shell_def)
  with history_is_last_queries [OF ok, of "''b''"] history_is_last_queries [OF add_to_history_ok [OF ok], of "''b''" "Some ''b''"]
  show ?thesis by simp
qed

section \<open>Answers\<close>

definition answer_ok :: "nat \<Rightarrow> string \<Rightarrow> bool" where
  \<comment> \<open>a line that fits an array of \<open>n\<close> bytes\<close>
  "answer_ok n s \<longleftrightarrow> newline \<notin> set s \<and> nul_free s \<and> length s + 1 < n"

lemma takeWhile_line: "newline \<notin> set s \<Longrightarrow> takeWhile (\<lambda>c. c \<noteq> newline) (s @ newline # rest) = s"
  by (induction s) auto

lemma no_newline: "newline \<notin> set s \<Longrightarrow> takeWhile (\<lambda>c. c \<noteq> newline) s = s"
  by (induction s) auto

lemma nul_free_line [simp]: "nul_free (s @ [newline]) \<longleftrightarrow> nul_free s"
  by (auto simp: nul_free_iff newline_def)

lemma cli_input_line: "newline \<notin> set s \<Longrightarrow> nul_free s \<Longrightarrow> cli_input (s @ [newline]) = s"
  by (subst cli_input_def, subst c_str_id) (simp only: nul_free_line, rule takeWhile_line)

lemma fgets_line:
  assumes "answer_ok n s"
  shows "fgets n (s @ newline # rest) = Some (s @ [newline], rest)"
proof -
  have "length s + 1 \<le> n - 1" "newline \<notin> set s" using assms by (auto simp: answer_ok_def)
  moreover from this have "take (n - 1) (s @ newline # rest) = s @ newline # take (n - 1 - length s - 1) rest"
    by (simp add: take_Cons')
  ultimately show ?thesis by (simp add: fgets_def takeWhile_line Let_def min_def)
qed

lemma fgets_long:
  assumes "newline \<notin> set s" and "length s = n - 1" and "s \<noteq> []"
  shows "fgets n (s @ rest) = Some (s, rest)"
  using assms by (auto simp: fgets_def Let_def no_newline)

lemma ask_line: "answer_ok n s \<Longrightarrow> sh_in st = s @ newline # rest \<Longrightarrow>
    ask prompt n k st = k s (st\<lparr>sh_in := rest, sh_out := sh_out st @ [Text prompt]\<rparr>)"
  by (simp add: ask_def fgets_line) (simp add: answer_ok_def cli_input_line)

lemma ask_long:
  assumes "newline \<notin> set s" and "nul_free s" and "length s = n - 1" and "s \<noteq> []" and "sh_in st = s @ rest"
  shows "ask prompt n k st = k s (st\<lparr>sh_in := rest, sh_out := sh_out st @ [Text prompt]\<rparr>)"
  using assms by (simp add: ask_def fgets_long cli_input_def no_newline)

text \<open>C24: an answer too long for its array is not refused: the rest of the line answers the next question.
  So a table cannot be created under a name of 63 bytes, which \<open>db_add_table\<close> would store whole: the
  newline that is left is read as the number of fields, and that is 0. And a longer name can confirm a
  question that was not answered: the 64th byte of the table to drop is the \<open>y\<close>.\<close>

theorem long_answer_spills:
  assumes "newline \<notin> set s" and "nul_free s" and "length s = MAX_TABLE_NAME - 1" and "sh_db st = Some db"
  shows "create_table_interactive (st\<lparr>sh_in := s @ newline # rest\<rparr>) =
      Returns (st\<lparr>sh_in := rest, sh_out := sh_out st @ [Text ''Enter table name: '', Text ''Enter number of fields: '',
        Failure (-12) ''Invalid input'']\<rparr>) \<and>
    drop_table_interactive (st\<lparr>sh_in := s @ ''y'' @ newline # rest\<rparr>) =
      finish (db_drop_table db s) ''Table dropped successfully'' (st\<lparr>sh_in := rest, sh_out := sh_out st @
        [Text ''Enter table name: '', Text (''Drop table '' @ s @ ''? This will delete the table and all its data. (y/n): '')]\<rparr>)"
proof -
  have "s \<noteq> []" using assms(3) by (auto simp: MAX_TABLE_NAME_def)
  note name = ask_long [OF assms(1,2,3) this]
  have empty: "answer_ok 10 []" and yes: "answer_ok 4 ''y''"
    by (simp_all add: answer_ok_def newline_def nul_free_def)
  have "atoi [] = 0" "yes ''y''" by code_simp+
  have "create_table_interactive (st\<lparr>sh_in := s @ newline # rest\<rparr>) =
      Returns (st\<lparr>sh_in := rest, sh_out := sh_out st @ [Text ''Enter table name: '', Text ''Enter number of fields: '',
        Failure (-12) ''Invalid input'']\<rparr>)"
    by (simp add: create_table_interactive_def with_db_def assms(4) name ask_number_def
        ask_line [OF empty] \<open>atoi [] = 0\<close> print_error_code_def say_def)
  moreover have "drop_table_interactive (st\<lparr>sh_in := s @ ''y'' @ newline # rest\<rparr>) =
      finish (db_drop_table db s) ''Table dropped successfully'' (st\<lparr>sh_in := rest, sh_out := sh_out st @
        [Text ''Enter table name: '', Text (''Drop table '' @ s @ ''? This will delete the table and all its data. (y/n): '')]\<rparr>)"
    by (simp add: drop_table_interactive_def with_db_def assms(4) name ask_yes_def ask_line [OF yes] \<open>yes ''y''\<close>)
  ultimately show ?thesis by simp
qed

lemma long_answer_spills_witness:
  "drop_table_interactive ((sample_shell [])\<lparr>sh_db := Some empty_db, sh_in := replicate 63 (CHR ''t'') @ ''y'' @ newline # []\<rparr>) =
    finish (db_drop_table empty_db (replicate 63 (CHR ''t''))) ''Table dropped successfully''
      ((sample_shell [])\<lparr>sh_db := Some empty_db, sh_in := [], sh_out := [Text ''Enter table name: '',
        Text (''Drop table '' @ replicate 63 (CHR ''t'') @ ''? This will delete the table and all its data. (y/n): '')]\<rparr>)"
proof -
  have "newline \<notin> set (replicate 63 (CHR ''t''))" "nul_free (replicate 63 (CHR ''t''))"
    "length (replicate 63 (CHR ''t'')) = MAX_TABLE_NAME - 1"
    by (simp_all add: newline_def nul_free_iff MAX_TABLE_NAME_def)
  from long_answer_spills [OF this, of "(sample_shell [])\<lparr>sh_db := Some empty_db\<rparr>" empty_db "[]"]
  show ?thesis by (simp add: sample_shell_def initial_shell_def)
qed

section \<open>Creating a table\<close>

fun type_answer :: "FieldType \<Rightarrow> string" where
  "type_answer TYPE_INT = ''1''"
| "type_answer TYPE_STRING = ''2''"
| "type_answer TYPE_FLOAT = ''3''"
| "type_answer TYPE_DOUBLE = ''4''"
| "type_answer TYPE_BOOL = ''5''"
| "type_answer _ = ''6''"

definition yn :: "bool \<Rightarrow> string" where
  "yn b = (if b then ''y'' else ''n'')"

definition field_lines :: "string \<times> FieldType \<times> Constraint \<Rightarrow> string" where
  \<comment> \<open>the five answers on a field\<close>
  "field_lines = (\<lambda>(name, t, c). name @ newline # type_answer t @ newline # yn (c_primary_key c) @ newline #
     yn (c_nullable c) @ newline # yn (c_unique c) @ [newline])"

definition field_asked_ok :: "string \<times> FieldType \<times> Constraint \<Rightarrow> bool" where
  "field_asked_ok = (\<lambda>(name, t, c). answer_ok MAX_FIELD_LEN name \<and>
     t \<in> {TYPE_INT, TYPE_STRING, TYPE_FLOAT, TYPE_DOUBLE, TYPE_BOOL, TYPE_DATETIME} \<and> \<not> c_foreign_key c)"

lemma yes_yn [simp]: "yes (yn b) = b" and answer_yn: "answer_ok 4 (yn b)"
  by (cases b; simp add: yn_def yes_def answer_ok_def newline_def nul_free_iff tolower_def isupper_def)+

lemma answer_type: "answer_ok 10 (type_answer t)"
  by (cases t) (simp_all add: answer_ok_def newline_def nul_free_iff)

lemma chosen_type_answer:
  "t \<in> {TYPE_INT, TYPE_STRING, TYPE_FLOAT, TYPE_DOUBLE, TYPE_BOOL, TYPE_DATETIME} \<Longrightarrow> chosen_type (atoi (type_answer t)) = t"
proof -
  have "atoi ''1'' = 1" "atoi ''2'' = 2" "atoi ''3'' = 3" "atoi ''4'' = 4" "atoi ''5'' = 5" "atoi ''6'' = 6" by code_simp+
  then show "t \<in> {TYPE_INT, TYPE_STRING, TYPE_FLOAT, TYPE_DOUBLE, TYPE_BOOL, TYPE_DATETIME} \<Longrightarrow> ?thesis"
    by (auto simp: chosen_type_def)
qed

lemma ask_fields_lines:
  assumes "list_all field_asked_ok fs" and "sh_in st = concat (map field_lines fs) @ rest"
  shows "\<exists>out. ask_fields (\<lambda>_. True) (length fs) i asked k st =
    k (asked @ map (\<lambda>(n, t, c). (Some n, t, c)) fs) (st\<lparr>sh_in := rest, sh_out := out\<rparr>)"
  using assms
proof (induction fs arbitrary: i asked st)
  case Nil
  have "st = st\<lparr>sh_in := rest, sh_out := sh_out st\<rparr>" using Nil by simp
  then show ?case by (auto intro: exI [of _ "sh_out st"])
next
  case (Cons f fs)
  obtain name t c where f: "f = (name, t, c)" by (rule prod_cases3)
  have ok: "answer_ok MAX_FIELD_LEN name" "chosen_type (atoi (type_answer t)) = t" "\<not> c_foreign_key c"
    using Cons(2) chosen_type_answer by (auto simp: f field_asked_ok_def)
  have c: "\<lparr>c_nullable = c_nullable c, c_unique = c_unique c, c_primary_key = c_primary_key c, c_foreign_key = False\<rparr> = c"
    using ok(3) by (cases c) simp
  have "\<exists>out. ask_fields (\<lambda>_. True) (Suc (length fs)) i asked k st =
      ask_fields (\<lambda>_. True) (length fs) (Suc i) (asked @ [(Some name, t, c)]) k
        (st\<lparr>sh_in := concat (map field_lines fs) @ rest, sh_out := out\<rparr>)"
    using Cons(3)
    by (simp add: f field_lines_def ask_line [OF ok(1)] ask_number_def ask_yes_def ask_line [OF answer_type]
        ask_line [OF answer_yn] ok(2) c) blast
  then obtain out where o: "ask_fields (\<lambda>_. True) (Suc (length fs)) i asked k st =
      ask_fields (\<lambda>_. True) (length fs) (Suc i) (asked @ [(Some name, t, c)]) k
        (st\<lparr>sh_in := concat (map field_lines fs) @ rest, sh_out := out\<rparr>)" ..
  have "list_all field_asked_ok fs" using Cons(2) by simp
  from Cons(1) [OF this, of "st\<lparr>sh_in := concat (map field_lines fs) @ rest, sh_out := out\<rparr>" "Suc i" "asked @ [(Some name, t, c)]"]
  show ?case by (simp add: o f del: ask_fields.simps)
qed

lemma short_count:
  assumes "n \<le> 50"
  shows "answer_ok 10 (show_nat n)" and "atoi (show_nat n) = int n"
proof -
  have "c_int (int n)" using assms by (simp add: c_int_def int_min_def int_max_def)
  then show "atoi (show_nat n) = int n" by (simp add: show_nat_def)
  have "list_all (\<lambda>m. answer_ok 10 (show_nat m)) [0..<51]" by code_simp
  moreover have "n \<in> set [0..<51]" using assms by simp
  ultimately show "answer_ok 10 (show_nat n)" unfolding list_all_iff by blast
qed

definition as_asked :: "(string \<times> FieldType \<times> Constraint) list \<Rightarrow> (string option \<times> FieldType \<times> Constraint) list" where
  "as_asked fs = map (\<lambda>(n, t, c). (Some n, t, c)) fs"

definition db_with_new_table :: "Database \<Rightarrow> Table \<Rightarrow> Database" where
  \<comment> \<open>what \<open>db_add_table\<close> leaves, for the new table it makes\<close>
  "db_with_new_table db t = update_simple_statistics STAT_TABLES_CREATED ((grow_tables db)\<lparr>
     db_tables := store_slot (db_table_count db) t (db_tables db), db_table_count := Suc (db_table_count db)\<rparr>)"

lemma add_asked_table:
  assumes "fs \<noteq> []" and "length fs \<le> 50" and "db_get_table db (Some name) = None" and "db_table_count db < MAX_TABLES"
  shows "add_parsed_table (\<lambda>_. True) db name (asked_fields (as_asked fs)) = Returns (SUCCESS, Some (db_table_count db),
    db_with_new_table db (new_table (\<lambda>_. True) name (map fst fs) (map (\<lambda>(_, ty, _). ty) fs) (length fs)))"
proof -
  have fields: "sf_names (asked_fields (as_asked fs)) = map Some (map fst fs)"
    "sf_types (asked_fields (as_asked fs)) = map (\<lambda>(_, ty, _). ty) fs"
    by (induction fs) (auto simp: asked_fields_def as_asked_def)
  have some: "find_index (\<lambda>n. n = None) (map Some (map fst fs)) = None" by (auto simp: find_index_None_iff)
  have "\<not> list_ex (\<lambda>t. strcmp (t_name t) name = 0) (take (db_table_count db) (db_tables db))"
    using assms(3) by (auto simp: db_get_table_def find_index_None_iff list_ex_iff)
  then have "db_add_table (\<lambda>_. True) db (Some name) (Some (map fst fs)) (Some (map (\<lambda>(_, ty, _). ty) fs)) (int (length fs)) =
      (SUCCESS, Some (db_table_count db), db_with_new_table db
        (new_table (\<lambda>_. True) name (map fst fs) (map (\<lambda>(_, ty, _). ty) fs) (length fs)))"
    using assms by (simp add: db_add_table_def Let_def MAX_FIELDS_PER_TABLE_def list_ex_iff Suc_le_eq db_with_new_table_def)
  then show ?thesis unfolding add_parsed_table_def fields Let_def some by (simp add: comp_def)
qed

lemma insert_refuses_null:
  assumes "\<exists>i < t_field_count t. \<not> c_nullable (t_constraints t ! i) \<and> f_type (vals ! i) = TYPE_NULL"
    and "f_type (vals ! 0) \<noteq> TYPE_UNKNOWN" and "t_record_count t = 0"
  shows "fst (table_insert_record ok now gc t vals) = ERROR_CONSTRAINT_VIOLATION"
proof -
  have "not_null_violated t vals" using assms(1) by (auto simp: not_null_violated_def list_ex_iff)
  then show ?thesis using assms(2,3) by (simp add: table_insert_record_def MAX_RECORDS_PER_TABLE_def)
qed

text \<open>C8: a table is created as it was asked for: with room for it and memory, the answers give a table that
  is found under its name, after the others, with the names, the types and the constraints of the answers,
  whatever \<open>db_add_table\<close> sets, and no records. The answers are all that is read. A field that was not to
  allow NULL then refuses it, which no table does that \<open>db_add_table\<close> alone makes.\<close>

theorem created_table_as_answered:
  assumes "answer_ok MAX_TABLE_NAME name" and "list_all field_asked_ok fs" and "fs \<noteq> []" and "length fs \<le> 50"
    and "ev_alloc (sh_events st 0) = (\<lambda>_. True)" and "sh_db st = Some db" and "shell_db_ok db"
    and "db_get_table db (Some name) = None" and "db_table_count db < MAX_TABLES"
    and "sh_in st = name @ newline # show_nat (length fs) @ newline # concat (map field_lines fs) @ rest"
  shows "\<exists>st' db' t. create_table_interactive st = Returns st' \<and> sh_in st' = rest \<and> sh_db st' = Some db' \<and>
    db_tables db' = db_tables db @ [t] \<and> db_get_table db' (Some name) = Some (db_table_count db) \<and>
    t_field_names t = map fst fs \<and> t_field_types t = map (\<lambda>(_, ty, _). ty) fs \<and>
    t_constraints t = map (\<lambda>(_, _, c). c) fs \<and> t_records t = [] \<and>
    (\<forall>ok now gc vals. (\<exists>i < length fs. \<not> c_nullable (t_constraints t ! i) \<and> f_type (vals ! i) = TYPE_NULL) \<and>
       f_type (vals ! 0) \<noteq> TYPE_UNKNOWN \<longrightarrow> fst (table_insert_record ok now gc t vals) = ERROR_CONSTRAINT_VIOLATION)"
proof -
  let ?al = "\<lambda>_::nat. True" and ?k = "db_table_count db" and ?cs = "map (\<lambda>(_, _, c). c) fs"
  let ?new = "new_table ?al name (map fst fs) (map (\<lambda>(_, ty, _). ty) fs) (length fs)"
  let ?t = "set_constraints ?cs ?new"
  let ?db' = "put_table (db_with_new_table db ?new) ?k ?t"
  have k: "?k = length (db_tables db)" using assms(7) by (simp add: shell_db_ok_def db_ok_def tables_ok_def)
  let ?st1 = "st\<lparr>sh_in := concat (map field_lines fs) @ rest, sh_out := sh_out st @ [Text ''Enter table name: '',
      Text ''Enter number of fields: ''], sh_events := (\<lambda>n. sh_events st (Suc n))\<rparr>"
  note num = short_count [OF assms(4)]
  have "create_table_interactive st = ask_fields ?al (length fs) 0 [] (\<lambda>asked. create_asked_table ?al name asked db) ?st1"
    using assms(3,4)
    by (simp add: create_table_interactive_def with_db_def assms(6) ask_line [OF assms(1) assms(10)] ask_number_def
        ask_line [OF num(1)] num(2) MAX_FIELDS_PER_TABLE_def with_event_def assms(5) Let_def del: ask_fields.simps)
  then obtain out where run: "create_table_interactive st = create_asked_table ?al name (as_asked fs) db
      (?st1\<lparr>sh_in := rest, sh_out := out\<rparr>)"
    using ask_fields_lines [OF assms(2), of ?st1 rest 0 "[]" "\<lambda>asked. create_asked_table ?al name asked db"]
    by (auto simp: as_asked_def)
  have shift: "shift_alloc m ?al = ?al" and cs: "map (\<lambda>(_, _, c). c) (as_asked fs) = ?cs" for m
    by (simp add: shift_alloc_def, induction fs) (auto simp: as_asked_def)
  have created: "create_table_interactive st = Returns (?st1\<lparr>sh_in := rest,
      sh_out := out @ [Success ''Table created successfully''], sh_db := Some ?db'\<rparr>)"
    unfolding run create_asked_table_def shift add_asked_table [OF assms(3,4,8,9)] cs using k
    by (simp add: set_db_def say_def store_slot_def db_with_new_table_def)
  have tables: "db_tables ?db' = db_tables db @ [?t]" using k by (simp add: store_slot_def db_with_new_table_def)
  have t: "t_field_names ?t = map fst fs" "t_field_types ?t = map (\<lambda>(_, ty, _). ty) fs" "t_constraints ?t = ?cs"
    "t_records ?t = []" "t_record_count ?t = 0" "t_name ?t = name" "t_field_count ?t = length fs"
    using assms(1) map_nth [of "map fst fs"] map_nth [of "map (\<lambda>(_, ty, _). ty) fs"]
    by (simp_all add: set_constraints_def new_table_def answer_ok_def MAX_TABLE_NAME_def)
  have "find_index (\<lambda>t. t_name t = name) (db_tables db @ [?t]) = Some ?k"
    unfolding k using assms(8) t(6)
    by (intro find_index_last) (auto simp: db_get_table_def find_index_None_iff k)
  then have "db_get_table ?db' (Some name) = Some ?k" unfolding db_get_table_def tables
    by (simp add: k db_with_new_table_def)
  with created tables t(1-4) insert_refuses_null [of ?t, unfolded t(7), OF _ _ t(5)] show ?thesis by auto
qed

lemma created_table_as_answered_witness:
  "\<exists>st' db'. create_table_interactive ((sample_shell (''t'' @ newline # show_nat 1 @ newline #
      concat (map field_lines [(''n'', TYPE_INT, \<lparr>c_nullable = False, c_unique = True, c_primary_key = True, c_foreign_key = False\<rparr>)])))
      \<lparr>sh_db := Some empty_db\<rparr>) = Returns st' \<and> sh_db st' = Some db' \<and> db_get_table db' (Some ''t'') = Some 0"
proof -
  let ?fs = "[(''n'', TYPE_INT, \<lparr>c_nullable = False, c_unique = True, c_primary_key = True, c_foreign_key = False\<rparr>)]"
  have "shell_db_ok empty_db" unfolding empty_db_def
    by (rule shell_db_ok_loaded, rule db_create_ok [of "\<lambda>_. True"]) (simp add: db_create_def)
  moreover have "answer_ok MAX_TABLE_NAME ''t''" "list_all field_asked_ok ?fs"
    "db_get_table empty_db (Some ''t'') = None" "db_table_count empty_db = 0"
    by (simp_all add: answer_ok_def newline_def nul_free_iff MAX_TABLE_NAME_def MAX_FIELD_LEN_def field_asked_ok_def
        empty_db_def db_create_def db_get_table_def)
  ultimately have ok: "answer_ok MAX_TABLE_NAME ''t''" "list_all field_asked_ok ?fs" "shell_db_ok empty_db"
    "db_get_table empty_db (Some ''t'') = None" "db_table_count empty_db = 0" by blast+
  let ?st = "(sample_shell (''t'' @ newline # show_nat 1 @ newline # concat (map field_lines ?fs)))\<lparr>sh_db := Some empty_db\<rparr>"
  have st: "ev_alloc (sh_events ?st 0) = (\<lambda>_. True)" "sh_db ?st = Some empty_db"
    "sh_in ?st = ''t'' @ newline # show_nat (length ?fs) @ newline # concat (map field_lines ?fs) @ []"
    by (simp_all add: sample_shell_def initial_shell_def)
  from created_table_as_answered [OF ok(1,2) _ _ st(1,2) ok(3,4) _ st(3)] show ?thesis
    by (simp add: ok(5) MAX_TABLES_def) blast
qed

section \<open>Backups and the saved state\<close>

interpretation holding: shell_frame "\<lambda>st st'. sh_db st' = sh_db st"
  by unfold_locales simp_all

lemma holds_steps:
  assumes "runs (\<lambda>st st'. sh_db st' = sh_db st) D c" and "runs (\<lambda>st st'. sh_db st' = sh_db st) D (steps cs)"
  shows "runs (\<lambda>st st'. sh_db st' = sh_db st) D (steps (c # cs))"
proof (rule runsI)
  fix st :: Shell assume st: "sh_db st = D"
  from runsD [OF assms(1) this] show "goes (\<lambda>st st'. sh_db st' = sh_db st) st (steps (c # cs) st)"
    using st runsD [OF assms(2)] by (cases "c st") (auto intro: holding.goes_via)
qed

lemma restore_holds:
  assumes "\<And>db. D = Some db \<Longrightarrow> db_index_manager db \<noteq> None"
  shows "runs (\<lambda>st st'. sh_db st' = sh_db st) D restore_database_interactive"
proof -
  have restore: "runs (\<lambda>st st'. sh_db st' = sh_db st) D (\<lambda>st. case db_restore_backup (se_lib (sh_env st)) (se_mk (sh_env st))
      (ev_alloc ev) (ev_now ev) (sh_counter st) (sh_files st) (sh_db st) (Some f) of
        OutOfFuel \<Rightarrow> OutOfFuel | Undefined \<Rightarrow> Undefined
      | Returns (result', dp, gc) \<Rightarrow> report result' s (st\<lparr>sh_db := dp, sh_counter := gc\<rparr>))" for ev f s
  proof (rule runsI)
    fix st :: Shell assume st: "sh_db st = D"
    let ?r = "db_restore_backup (se_lib (sh_env st)) (se_mk (sh_env st)) (ev_alloc ev) (ev_now ev) (sh_counter st)
      (sh_files st) D (Some f)"
    have "?r \<noteq> OutOfFuel" using db_load_sound(1)
      by (auto simp: db_restore_backup_def split: option.splits run.splits prod.splits)
    moreover have "dp = D" if "?r = Returns (e, dp, gc)" for e dp gc
      using that assms by (auto simp: db_restore_backup_def split: option.splits run.splits prod.splits if_splits)
    moreover have "goes (\<lambda>st st'. sh_db st' = sh_db st) st (report e s (st\<lparr>sh_db := D, sh_counter := gc\<rparr>))" for e gc
      using st by (simp add: report_def print_error_code_def say_def)
    ultimately show "goes (\<lambda>st st'. sh_db st' = sh_db st) st (case db_restore_backup (se_lib (sh_env st)) (se_mk (sh_env st))
      (ev_alloc ev) (ev_now ev) (sh_counter st) (sh_files st) (sh_db st) (Some f) of
        OutOfFuel \<Rightarrow> OutOfFuel | Undefined \<Rightarrow> Undefined
      | Returns (result', dp, gc) \<Rightarrow> report result' s (st\<lparr>sh_db := dp, sh_counter := gc\<rparr>))"
      unfolding st by (cases ?r) auto
  qed
  show ?thesis unfolding restore_database_interactive_def Let_def
    by (intro holding.runs_ask holding.runs_with_event runs_prod runs_if holding.runs_error holds_steps
        holding.runs_say_lines holding.runs_ask_number holding.runs_ask_yes holding.runs_say holding.runs_steps_nil restore)
qed

definition backup_shell :: "Database \<Rightarrow> Shell" where
  \<comment> \<open>a directory with a backup of an empty database, and the answers that restore it\<close>
  "backup_shell db = (sample_shell (''d'' @ newline # ''1'' @ newline # ''y'' @ [newline]))\<lparr>sh_db := Some db,
     sh_files := [''d/backup_1.json'' \<mapsto> ''{}''],
     sh_events := (\<lambda>n. (sh_events (sample_shell []) n)\<lparr>ev_entries := Some [''backup_1.json'']\<rparr>)\<rparr>"

lemma load_empty: "\<exists>db gc'. db_load_from_file lib mk (\<lambda>_. True) now gc [''d/backup_1.json'' \<mapsto> ''{}''] (Some ''d/backup_1.json'') =
    Returns (Some db, gc')"
proof -
  have "case db_load_from_file lib mk (\<lambda>_. True) now gc [''d/backup_1.json'' \<mapsto> ''{}''] (Some ''d/backup_1.json'') of
      Returns (Some db, gc') \<Rightarrow> True | _ \<Rightarrow> False"
    by code_simp
  then show ?thesis by (auto split: run.splits option.splits prod.splits)
qed

text \<open>C17: restoring a backup never changes the database that is open, and never opens one: the command returns
  only with the database it began with. With none open it reports invalid input; with one open, a backup that
  cannot be loaded is an I/O error, and one that can, as that of an empty database, is undefined behaviour,
  since the restore frees fields of the index manager that nothing has set.\<close>

theorem restore_never_replaces:
  assumes "\<forall>db. sh_db st = Some db \<longrightarrow> db_index_manager db \<noteq> None" and "db_index_manager db0 \<noteq> None"
  shows "(case restore_database_interactive st of OutOfFuel \<Rightarrow> False | Undefined \<Rightarrow> True | Returns st' \<Rightarrow> sh_db st' = sh_db st) \<and>
    restore_database_interactive (backup_shell db0) = Undefined"
proof
  show "case restore_database_interactive st of OutOfFuel \<Rightarrow> False | Undefined \<Rightarrow> True | Returns st' \<Rightarrow> sh_db st' = sh_db st"
    using runsD [OF restore_holds [of "sh_db st"], of st] assms(1) by (simp add: goes_def)
  let ?ok = "\<lambda>_::nat. True"
  have lines: "answer_ok (MAX_FIELD_LEN * 2) ''d''" "answer_ok 10 ''1''" "answer_ok 4 ''y''"
    by (simp_all add: answer_ok_def newline_def nul_free_iff MAX_FIELD_LEN_def)
  have path: "take (MAX_FIELD_LEN * 2 - 1) ''d/backup_1.json'' = ''d/backup_1.json''" by (simp add: MAX_FIELD_LEN_def)
  have nums: "atoi ''1'' = 1" "yes ''y''" by code_simp+
  have listed: "db_list_backups (Some [''backup_1.json'']) (Some ''d'') = (SUCCESS, [''backup_1.json''])" by code_simp
  have "db_restore_backup lib mk ?ok now gc [''d/backup_1.json'' \<mapsto> ''{}''] (Some db0) (Some ''d/backup_1.json'') = Undefined"
    for lib mk now gc
    using load_empty [of lib mk now gc] assms(2) by (auto simp: db_restore_backup_def)
  then show "restore_database_interactive (backup_shell db0) = Undefined"
    by (simp add: restore_database_interactive_def backup_shell_def sample_shell_def initial_shell_def ask_line [OF lines(1)]
        ask_line [OF lines(2)] ask_line [OF lines(3)] ask_number_def ask_yes_def with_event_def listed nums
        say_lines_returns path [unfolded One_nat_def] Let_def)
qed

lemma restore_never_replaces_witness:
  "restore_database_interactive (backup_shell empty_db) = Undefined"
proof -
  have "\<forall>db. sh_db (sample_shell []) = Some db \<longrightarrow> db_index_manager db \<noteq> None"
    by (simp add: sample_shell_def initial_shell_def)
  moreover have "db_index_manager empty_db \<noteq> None"
    by (simp add: empty_db_def db_create_def create_simple_index_manager_def shift_alloc_def)
  ultimately show ?thesis using restore_never_replaces by blast
qed

lemma save_state_files: "save_state st = Returns st' \<Longrightarrow> sh_files st' default_state_file = sh_files st default_state_file"
  by (auto simp: save_state_def with_event_def db_save_to_file_def sayln_def say_def state_file_name_def
      get_database_name_def default_state_file_def Let_def split: option.splits if_splits prod.splits)

text \<open>The state that the shell saves when it ends is never offered again: \<open>save_state\<close> and \<open>cleanup\<close> write
  \<open>Database.state.json\<close>, whatever name the database was created with, and the next start looks for
  \<open>default.state.json\<close> and finds nothing to restore.\<close>

lemma saved_state_not_found:
  assumes "cleanup st = Returns st'" and "sh_files st default_state_file = None"
  shows "load_saved_state (initial_shell env input (sh_files st') events) = Returns (initial_shell env input (sh_files st') events) \<and>
    state_file_name db = ''Database.state.json''"
proof
  have "sh_files st' default_state_file = None"
    using assms save_state_files
    by (auto simp: cleanup_def sayln_def say_def set_db_def split: if_splits run.splits)
  then show "load_saved_state (initial_shell env input (sh_files st') events) = Returns (initial_shell env input (sh_files st') events)"
    by (simp add: load_saved_state_def initial_shell_def)
  show "state_file_name db = ''Database.state.json''" by (simp add: state_file_name_def get_database_name_def)
qed

lemma saved_state_not_found_example:
  "load_saved_state (sample_shell ''y'') = Returns (sample_shell ''y'')"
proof -
  have "\<exists>st'. cleanup (sample_shell ''y'') = Returns st' \<and> sh_files st' = Map.empty"
    by (simp add: cleanup_def sample_shell_def initial_shell_def sayln_def say_def)
  then obtain st' where st': "cleanup (sample_shell ''y'') = Returns st'" "sh_files st' = Map.empty" by blast
  have "sh_files (sample_shell ''y'') default_state_file = None" by (simp add: sample_shell_def initial_shell_def)
  from saved_state_not_found [OF st'(1) this] show ?thesis unfolding sample_shell_def st'(2) by blast
qed

section \<open>Shortcuts\<close>

text \<open>C18: none of the shortcuts that the welcome and the help announce works. A line that starts with a backslash or
  a slash is no number, so \<open>atoi\<close> gives 0, and 0 is the choice that leaves the shell, before the branch that
  reads shortcuts is looked at. So does \<open>help\<close>, which the welcome asks for, and an empty line. And
  the lines that reach that branch are not shortcuts.\<close>

theorem shortcuts_leave:
  assumes "sh_running st" and "fgets 10 (sh_in st) = Some (line, rest)"
    and "c_str line \<in> {s. hd s = CHR 0x5C \<or> hd s = CHR ''/''} \<union> {''help'', ''help'' @ [newline], [newline]}" and "c_str line \<noteq> []"
  shows "(\<exists>out. main_loop (Suc (Suc n)) st = Returns (st\<lparr>sh_out := out, sh_in := rest, sh_running := False\<rparr>)) \<and>
    (\<forall>s. atoi s = 0 \<or> shortcut s = invalid_choice)"
proof -
  have sign: "atoi s = 0" if s0: "s \<noteq> []" and h: "hd s = CHR 0x5C \<or> hd s = CHR ''/''" for s
  proof -
    obtain c cs where s: "s = c # cs" using s0 by (cases s) auto
    then have "\<not> isspace c \<and> \<not> isdigit c \<and> c \<noteq> CHR ''-'' \<and> c \<noteq> CHR ''+''"
      using h by (auto simp: char_class_defs)
    then show ?thesis by (auto simp: s atoi_def strtol_def strtol_sign_def)
  qed
  have "atoi ''help'' = 0" "atoi (''help'' @ [newline]) = 0" "atoi [newline] = 0" by code_simp+
  then have "atoi (c_str line) = 0" using sign assms(3,4) by auto
  then have "\<exists>out. main_loop (Suc (Suc n)) st = Returns (st\<lparr>sh_out := out, sh_in := rest, sh_running := False\<rparr>)"
    using assms(1,2) by (auto simp: main_turn main_choice_def stop_def Let_def simp del: main_loop.simps)
  moreover have "atoi s = 0 \<or> shortcut s = invalid_choice" for s
    using sign [of s] by (auto simp: shortcut_def)
  ultimately show ?thesis by blast
qed

lemma shortcuts_leave_witness:
  "\<exists>out. main_loop 2 (sample_shell (''help'' @ newline # ''1'')) =
     Returns ((sample_shell (''help'' @ newline # ''1''))\<lparr>sh_out := out, sh_in := ''1'', sh_running := False\<rparr>)"
proof -
  let ?st = "sample_shell (''help'' @ newline # ''1'')"
  have "sh_running ?st" "fgets 10 (sh_in ?st) = Some (''help'' @ [newline], ''1'')"
    using fgets_line [of 10 "''help''" "''1''"]
    by (simp_all add: sample_shell_def initial_shell_def answer_ok_def newline_def nul_free_iff)
  moreover have "c_str (''help'' @ [newline]) = ''help'' @ [newline]" by code_simp
  ultimately show ?thesis using shortcuts_leave [of ?st "''help'' @ [newline]" "''1''" 0] by (simp add: numeral_2_eq_2)
qed

section \<open>Reading a query\<close>

definition query_line_ok :: "string \<Rightarrow> bool" where
  "query_line_ok l \<longleftrightarrow> newline \<notin> set l \<and> nul_free l \<and> the (trim_whitespace (Some l)) \<noteq> '';''"

fun joined :: "string option \<Rightarrow> string list \<Rightarrow> string option" where
  \<comment> \<open>the lines with a blank between them\<close>
  "joined q [] = q"
| "joined q (l # ls) = joined (Some (case q of None \<Rightarrow> l | Some t \<Rightarrow> if t = [] then l else t @ '' '' @ l)) ls"

lemma read_line_line: "newline \<notin> set l \<Longrightarrow> nul_free l \<Longrightarrow> read_line (l @ newline # rest) = Some (l, rest)"
  by (simp add: read_line_def takeWhile_line cli_input_line)

lemma read_lines_join:
  assumes "list_all query_line_ok ls"
  shows "read_lines (\<lambda>_. True) n q (concat (map (\<lambda>l. l @ [newline]) ls) @ '';'' @ newline # rest) =
    (joined q (map trimmed_in_place ls), rest, n + length ls)"
  using assms
proof (induction ls arbitrary: n q)
  case Nil
  have "read_line ('';'' @ newline # rest) = Some ('';'', rest)"
    by (rule read_line_line) (simp_all add: newline_def nul_free_iff)
  moreover have "the (trim_whitespace (Some '';'')) = '';''" by code_simp
  ultimately show ?case by (subst read_lines.simps) simp
next
  case (Cons l ls)
  have l: "newline \<notin> set l" "nul_free l" "the (trim_whitespace (Some l)) \<noteq> '';''"
    using Cons(2) by (auto simp: query_line_ok_def)
  define r where "r = concat (map (\<lambda>l. l @ [newline]) ls) @ '';'' @ newline # rest"
  have eq: "concat (map (\<lambda>l. l @ [newline]) (l # ls)) @ '';'' @ newline # rest = l @ newline # r" by (simp add: r_def)
  have ih: "read_lines (\<lambda>_. True) m q' r = (joined q' (map trimmed_in_place ls), rest, m + length ls)" for m q'
    using Cons by (simp add: r_def)
  show ?case unfolding eq
    by (subst read_lines.simps) (simp add: read_line_line [OF l(1,2)] l(3) ih Let_def)
qed

text \<open>C25: a query of several lines is read up to the first line that is a semicolon alone, white space around it
  aside: the lines before it, each without the white space at its end, with one blank between them, and
  nothing after it is read. The double semicolon that the menu asks for does not end a query: it
  becomes part of it.\<close>

theorem query_lines_joined:
  assumes "list_all query_line_ok ls" and "ev_alloc (sh_events st 0) = (\<lambda>_. True)"
    and "sh_in st = concat (map (\<lambda>l. l @ [newline]) ls) @ '';'' @ newline # rest"
  shows "(\<exists>out. read_multiline_input k st = k (joined None (map trimmed_in_place ls))
      (st\<lparr>sh_events := (\<lambda>n. sh_events st (Suc n)), sh_in := rest, sh_out := out\<rparr>)) \<and> query_line_ok '';;''"
proof
  have "query_line_ok '';;''" by code_simp
  then show "query_line_ok '';;''" .
  show "\<exists>out. read_multiline_input k st = k (joined None (map trimmed_in_place ls))
      (st\<lparr>sh_events := (\<lambda>n. sh_events st (Suc n)), sh_in := rest, sh_out := out\<rparr>)"
    using read_lines_join [OF assms(1), of 0 None rest]
    by (auto simp: read_multiline_input_def with_event_def assms(2,3))
qed

lemma query_lines_joined_witness:
  "\<exists>out. read_multiline_input (\<lambda>q. note_query (the q)) (sample_shell (''SELECT  '' @ newline # '';;'' @ newline # '';'' @ newline # ''x'')) =
     note_query ''SELECT ;;'' ((sample_shell (''SELECT  '' @ newline # '';;'' @ newline # '';'' @ newline # ''x''))
       \<lparr>sh_events := (\<lambda>n. sh_events (sample_shell []) (Suc n)), sh_in := ''x'', sh_out := out\<rparr>)"
proof -
  let ?st = "sample_shell (''SELECT  '' @ newline # '';;'' @ newline # '';'' @ newline # ''x'')"
  have ok: "list_all query_line_ok [''SELECT  '', '';;'']" by code_simp
  have al: "ev_alloc (sh_events ?st 0) = (\<lambda>_. True)" "sh_events ?st = sh_events (sample_shell [])"
    by (simp_all add: sample_shell_def initial_shell_def)
  have s: "sh_in ?st = concat (map (\<lambda>l. l @ [newline]) [''SELECT  '', '';;'']) @ '';'' @ newline # ''x''"
    by (simp add: sample_shell_def initial_shell_def)
  have j: "joined None (map trimmed_in_place [''SELECT  '', '';;'']) = Some ''SELECT ;;''" by code_simp
  from query_lines_joined [OF ok al(1) s, of "\<lambda>q. note_query (the q)"] show ?thesis
    unfolding j al(2) option.sel by blast
qed

end
