(* ===== verification/Lx_Clock.thy ===== *)
theory Lx_Clock
  imports Lx_Storage Lx_Json_Reader
begin

text \<open>
  The date and time utilities of \<open>src/src/utils.c\<close>. What \<open>localtime\<close> gives is an argument, a \<open>tm\<close> with its fields in
  their ranges; \<open>mk\<close> is \<open>mktime\<close>, with the value of \<open>tm_isdst\<close> as its first argument. \<open>strptime\<close> and
  \<open>sscanf\<close> are modelled for the one format that is used; a two-branch function has the branch that is compiled
  on Windows under \<open>windows\<close>.
\<close>

section \<open>Formatting\<close>

definition date_text :: "tm \<Rightarrow> string" where
  "date_text t = dec_digits (tm_year t + 1900) @ ''-'' @ pad_int 2 (tm_mon t + 1) @ ''-'' @ pad_int 2 (tm_mday t)"

definition time_text :: "tm \<Rightarrow> string" where
  "time_text t = pad_int 2 (tm_hour t) @ '':'' @ pad_int 2 (tm_min t) @ '':'' @ pad_int 2 (tm_sec t)"

definition strftime_array :: "alloc \<Rightarrow> nat \<Rightarrow> string \<Rightarrow> string option run" where
  \<comment> \<open>an array of \<open>n\<close> bytes for \<open>strftime\<close>, which leaves it undefined where the text does not fit\<close>
  "strftime_array ok n s = (if \<not> ok 0 then Returns None else if length s < n then Returns (Some s) else Undefined)"

definition get_current_timestamp :: "alloc \<Rightarrow> tm \<Rightarrow> string option run" where
  "get_current_timestamp ok t = strftime_array ok 20 (date_text t @ '' '' @ time_text t)"

definition get_current_date :: "alloc \<Rightarrow> tm \<Rightarrow> string option run" where
  "get_current_date ok t = strftime_array ok 11 (date_text t)"

definition format_timestamp :: "alloc \<Rightarrow> (int \<Rightarrow> tm) \<Rightarrow> int \<Rightarrow> string option run" where
  "format_timestamp ok localtime timestamp =
     (let t = localtime timestamp in strftime_array ok 20 (date_text t @ '' '' @ time_text t))"

section \<open>Parsing\<close>

fun more_digits :: "nat \<Rightarrow> nat \<Rightarrow> nat \<Rightarrow> string \<Rightarrow> nat \<times> string" where
  \<comment> \<open>the digits that \<open>strptime\<close> still takes: at most \<open>n\<close>, and none that must pass \<open>most\<close>\<close>
  "more_digits 0 most val s = (val, s)"
| "more_digits (Suc n) most val [] = (val, [])"
| "more_digits (Suc n) most val (c # s) =
     (if isdigit c \<and> val * 10 \<le> most then more_digits n most (val * 10 + digit_value c) s else (val, c # s))"

definition get_number :: "nat \<Rightarrow> nat \<Rightarrow> nat \<Rightarrow> string \<Rightarrow> (nat \<times> string) option" where
  "get_number low most n s = (case dropWhile isspace s of [] \<Rightarrow> None
     | c # s' \<Rightarrow> if \<not> isdigit c then None
         else case more_digits (n - 1) most (digit_value c) s' of (val, rest) \<Rightarrow>
           if val < low \<or> most < val then None else Some (val, rest))"

definition literal :: "char \<Rightarrow> string \<Rightarrow> string option" where
  "literal c s = (case s of [] \<Rightarrow> None | d # s' \<Rightarrow> if d = c then Some s' else None)"

definition strptime :: "string \<Rightarrow> (nat \<times> nat \<times> nat \<times> nat \<times> nat \<times> nat) option" where
  \<comment> \<open>\<open>%Y-%m-%d %H:%M:%S\<close>: the numbers as they are written\<close>
  "strptime s0 = do {
     (year, s1) \<leftarrow> get_number 0 9999 4 s0; s2 \<leftarrow> literal (CHR ''-'') s1;
     (month, s3) \<leftarrow> get_number 1 12 2 s2; s4 \<leftarrow> literal (CHR ''-'') s3;
     (day, s5) \<leftarrow> get_number 1 31 2 s4;
     (hour, s6) \<leftarrow> get_number 0 23 2 s5; s7 \<leftarrow> literal (CHR '':'') s6;
     (minute, s8) \<leftarrow> get_number 0 59 2 s7; s9 \<leftarrow> literal (CHR '':'') s8;
     (second, s10) \<leftarrow> get_number 0 61 2 s9;
     Some (year, month, day, hour, minute, second) }"

definition scan_int :: "string \<Rightarrow> (int \<times> string) option" where
  \<comment> \<open>\<open>%d\<close>\<close>
  "scan_int s = (case strtol s of (v, rest) \<Rightarrow> if rest = s then None else Some (v, rest))"

definition sscanf_timestamp :: "string \<Rightarrow> (int \<times> int \<times> int \<times> int \<times> int \<times> int) option" where
  \<comment> \<open>\<open>%d-%d-%d %d:%d:%d\<close>, where all six are converted\<close>
  "sscanf_timestamp s0 = do {
     (year, s1) \<leftarrow> scan_int s0; s2 \<leftarrow> literal (CHR ''-'') s1;
     (month, s3) \<leftarrow> scan_int s2; s4 \<leftarrow> literal (CHR ''-'') s3;
     (day, s5) \<leftarrow> scan_int s4;
     (hour, s6) \<leftarrow> scan_int s5; s7 \<leftarrow> literal (CHR '':'') s6;
     (minute, s8) \<leftarrow> scan_int s7; s9 \<leftarrow> literal (CHR '':'') s8;
     (second, s10) \<leftarrow> scan_int s9;
     Some (year, month, day, hour, minute, second) }"

record broken_time =
  bt_year :: int
  bt_mon :: int
  bt_mday :: int
  bt_hour :: int
  bt_min :: int
  bt_sec :: int
  bt_isdst :: int

definition broken :: "int \<Rightarrow> int \<times> int \<times> int \<times> int \<times> int \<times> int \<Rightarrow> broken_time" where
  "broken isdst = (\<lambda>(year, month, day, hour, minute, second).
     \<lparr>bt_year = wrap32 (year - 1900), bt_mon = wrap32 (month - 1), bt_mday = day, bt_hour = hour, bt_min = minute, bt_sec = second,
      bt_isdst = isdst\<rparr>)"

definition parse_timestamp :: "bool \<Rightarrow> (broken_time \<Rightarrow> int) \<Rightarrow> string option \<Rightarrow> int" where
  \<comment> \<open>\<open>tm_isdst\<close> is -1 on Windows; elsewhere \<open>strptime\<close> leaves the 0 it was set to\<close>
  "parse_timestamp windows mk sp = (case sp of None \<Rightarrow> 0
     | Some s \<Rightarrow>
         if windows then (case sscanf_timestamp s of None \<Rightarrow> 0 | Some v \<Rightarrow> mk (broken (-1) v))
         else (case strptime s of None \<Rightarrow> 0
           | Some (year, month, day, hour, minute, second) \<Rightarrow>
               mk (broken 0 (int year, int month, int day, int hour, int minute, int second))))"

section \<open>A formatted time is parsed\<close>

lemma digit_char_0: "digit_char 0 = CHR ''0''"
  by code_simp

lemma pad_int_two: "n < 100 \<Longrightarrow> pad_int 2 n = [digit_char (n div 10), digit_char (n mod 10)]"
  by (auto simp: pad_int_def dec_digits.simps [of n] dec_digits.simps [of "n div 10"] digit_char_0)

lemma dec_digits_four:
  assumes "1000 \<le> n" and "n < 10000"
  shows "dec_digits n = map digit_char [n div 1000, n div 100 mod 10, n div 10 mod 10, n mod 10]"
proof -
  have "n div 10 div 10 = n div 100" "n div 100 div 10 = n div 1000" by (simp_all add: div_mult2_eq [symmetric])
  moreover have "\<not> n < 10" "\<not> n div 10 < 10" "\<not> n div 100 < 10" "n div 1000 < 10"
    using assms by (auto simp: div_less_iff_less_mult)
  ultimately show ?thesis
    by (simp add: dec_digits.simps [of n] dec_digits.simps [of "n div 10"] dec_digits.simps [of "n div 100"]
        dec_digits.simps [of "n div 1000"])
qed

lemma digit_char_not_space [simp]: "d < 10 \<Longrightarrow> \<not> isspace (digit_char d)"
  using isdigit_digit_char isdigit_not_space by blast

lemma get_number_two:
  assumes "low \<le> n" and "n \<le> most" and "most < 100"
  shows "get_number low most 2 (pad_int 2 n @ rest) = Some (n, rest)"
proof -
  have "n < 100" "n div 10 < 10" "n div 10 * 10 \<le> most" using assms by auto
  then show ?thesis using assms by (simp add: pad_int_two get_number_def)
qed

lemma get_number_four:
  assumes "a < 10" and "b < 10" and "c < 10" and "d < 10"
  shows "get_number 0 9999 4 (map digit_char [a, b, c, d] @ rest) = Some (((a * 10 + b) * 10 + c) * 10 + d, rest)"
  using assms by (simp add: get_number_def numeral_3_eq_3)

lemma get_number_year:
  assumes "1000 \<le> n" and "n < 10000"
  shows "get_number 0 9999 4 (dec_digits n @ rest) = Some (n, rest)"
proof -
  have d: "n div 1000 < 10" using assms by auto
  have "n div 1000 * 10 + n div 100 mod 10 = n div 100" "n div 100 * 10 + n div 10 mod 10 = n div 10"
    using mod_div_mult_eq [of "n div 100" 10] mod_div_mult_eq [of "n div 10" 10]
    by (simp_all add: div_mult2_eq [symmetric])
  then have "((n div 1000 * 10 + n div 100 mod 10) * 10 + n div 10 mod 10) * 10 + n mod 10 = n" by simp
  then show ?thesis
    using get_number_four [OF d, of "n div 100 mod 10" "n div 10 mod 10" "n mod 10" rest]
    by (simp add: dec_digits_four [OF assms])
qed

lemma dec_value_zeros: "dec_value (replicate k (CHR ''0'') @ ds) = dec_value ds"
proof -
  have "digit_value (CHR ''0'') = 0" by code_simp
  then show ?thesis by (induction k) (simp_all add: dec_value_def)
qed

lemma strtol_pad:
  assumes "n < 2 ^ 31" and "no_digit_next rest"
  shows "strtol (pad_int k n @ rest) = (int n, rest)"
proof -
  let ?p = "pad_int k n"
  have digits: "\<forall>c \<in> set ?p. isdigit c" using isdigit_digit_char [of 0] by (auto simp: pad_int_def digit_char_0)
  then have span: "takeWhile isdigit (?p @ rest) = ?p" "dropWhile isdigit (?p @ rest) = rest"
    using assms(2) by (cases rest; simp add: takeWhile_append2 dropWhile_append2)+
  obtain c cs where p: "?p = c # cs" by (cases ?p) (auto simp: pad_int_def)
  then have "isdigit c" using digits by simp
  then have "dropWhile isspace (?p @ rest) = ?p @ rest" "strtol_sign (?p @ rest) = (False, ?p @ rest)"
    using p by (auto simp: isdigit_not_space strtol_sign_def isdigit_def)
  moreover have "dec_value ?p = n" by (simp add: pad_int_def dec_value_zeros)
  ultimately show ?thesis
    using assms(1) span p by (simp add: strtol_def int_min_def int_max_def del: append_Cons)
qed

lemma pad_int_nonempty [simp]: "pad_int k n \<noteq> []"
  by (simp add: pad_int_def)

lemma scan_int_pad:
  assumes "n < 2 ^ 31" and "no_digit_next rest"
  shows "scan_int (pad_int k n @ rest) = Some (int n, rest)" and "scan_int ('' '' @ pad_int k n @ rest) = Some (int n, rest)"
proof -
  have "isspace (CHR '' '')" by (simp add: isspace_def)
  then have "strtol ('' '' @ s) = (case strtol s of (v, r) \<Rightarrow> if r = s then strtol ('' '' @ s) else (v, r))" for s
    by (auto simp: strtol_def Let_def split: prod.splits)
  then have "strtol ('' '' @ pad_int k n @ rest) = (int n, rest)"
    using strtol_pad [OF assms, of k] by simp
  then show "scan_int ('' '' @ pad_int k n @ rest) = Some (int n, rest)"
    by (simp add: scan_int_def)
  show "scan_int (pad_int k n @ rest) = Some (int n, rest)"
    using strtol_pad [OF assms, of k] by (simp add: scan_int_def)
qed

definition tm_ok :: "tm \<Rightarrow> bool" where
  \<comment> \<open>the fields in their ranges, and a year of four digits\<close>
  "tm_ok t \<longleftrightarrow> tm_year t < 8100 \<and> tm_mon t < 12 \<and> 1 \<le> tm_mday t \<and> tm_mday t \<le> 31 \<and>
     tm_hour t < 24 \<and> tm_min t < 60 \<and> tm_sec t \<le> 61"

definition tm_numbers :: "tm \<Rightarrow> int \<times> int \<times> int \<times> int \<times> int \<times> int" where
  "tm_numbers t = (int (tm_year t + 1900), int (tm_mon t + 1), int (tm_mday t), int (tm_hour t), int (tm_min t), int (tm_sec t))"

lemma length_pad_two: "n < 100 \<Longrightarrow> length (pad_int 2 n) = 2"
  by (simp add: pad_int_two)

lemma format_fits:
  assumes "tm_ok t"
  shows "length (date_text t @ '' '' @ time_text t) = 19"
  using assms by (simp add: tm_ok_def date_text_def time_text_def length_pad_two dec_digits_four)

lemma format_overflows:
  assumes "8100 \<le> tm_year t"
  shows "20 \<le> length (date_text t @ '' '' @ time_text t)"
proof -
  have "\<not> tm_year t + 1900 < 10" "\<not> (tm_year t + 1900) div 10 < 10" "\<not> (tm_year t + 1900) div 10 div 10 < 10"
    "\<not> (tm_year t + 1900) div 10 div 10 div 10 < 10"
    using assms by (auto simp: div_less_iff_less_mult)
  then have "5 \<le> length (dec_digits (tm_year t + 1900))"
    by (subst dec_digits.simps, subst dec_digits.simps, subst dec_digits.simps, subst dec_digits.simps)
      (simp add: Suc_le_eq)
  moreover have "2 \<le> length (pad_int 2 n)" for n by (simp add: pad_int_def)
  from add_mono [OF add_mono [OF this this] add_mono [OF this add_mono [OF this this]]]
  have "10 \<le> length (pad_int 2 (tm_mon t + 1)) + length (pad_int 2 (tm_mday t)) + (length (pad_int 2 (tm_hour t)) +
      (length (pad_int 2 (tm_min t)) + length (pad_int 2 (tm_sec t))))" by simp
  ultimately show ?thesis by (simp add: date_text_def time_text_def)
qed

lemma strptime_text:
  assumes "tm_ok t"
  shows "strptime (date_text t @ '' '' @ time_text t) =
    Some (tm_year t + 1900, tm_mon t + 1, tm_mday t, tm_hour t, tm_min t, tm_sec t)"
proof -
  have space: "get_number low most n ('' '' @ s) = get_number low most n s" for low most n s
    by (simp add: get_number_def isspace_def)
  have "1000 \<le> tm_year t + 1900" "tm_year t + 1900 < 10000" "tm_mon t + 1 \<le> 12" "1 \<le> tm_mday t" "tm_mday t \<le> 31"
    "tm_hour t \<le> 23" "tm_min t \<le> 59" "tm_sec t \<le> 61"
    using assms by (auto simp: tm_ok_def)
  moreover from this have "get_number 0 61 2 (pad_int 2 (tm_sec t)) = Some (tm_sec t, [])"
    using get_number_two [of 0 "tm_sec t" 61 "[]"] by simp
  ultimately show ?thesis
    using space by (simp add: strptime_def date_text_def time_text_def get_number_year get_number_two literal_def)
qed

lemma sscanf_text:
  assumes "tm_ok t"
  shows "sscanf_timestamp (date_text t @ '' '' @ time_text t) = Some (tm_numbers t)"
proof -
  have year: "dec_digits n = pad_int 0 n" for n by (simp add: pad_int_def)
  have "tm_year t + 1900 < 2 ^ 31" "tm_mon t + 1 < 2 ^ 31" "tm_mday t < 2 ^ 31" "tm_hour t < 2 ^ 31" "tm_min t < 2 ^ 31"
    "tm_sec t < 2 ^ 31"
    using assms by (auto simp: tm_ok_def)
  moreover have "no_digit_next (CHR ''-'' # s)" "no_digit_next (CHR '' '' # s)" "no_digit_next (CHR '':'' # s)" for s
    by (simp_all add: isdigit_def)
  moreover from calculation have "scan_int (pad_int 2 (tm_sec t)) = Some (int (tm_sec t), [])"
    using scan_int_pad(1) [of "tm_sec t" "[]" 2] by simp
  ultimately show ?thesis
    using scan_int_pad [of "tm_hour t" "CHR '':'' # s" 2 for s]
    by (simp add: sscanf_timestamp_def date_text_def time_text_def year scan_int_pad literal_def tm_numbers_def)
qed

text \<open>C26: a formatted time is parsed back: \<open>parse_timestamp\<close> hands \<open>mktime\<close> the fields that \<open>localtime\<close> gave, for
  years up to 9999, with one difference: on Windows the summer time is left open, elsewhere it is denied, so
  there a time in summer comes back an hour late. From the year 10000 on nothing is formatted.\<close>

theorem timestamp_parsed_back:
  assumes "tm_ok (localtime ts)" and "ok 0"
  shows "(\<exists>s. format_timestamp ok localtime ts = Returns (Some s) \<and>
      parse_timestamp windows mk (Some s) = mk (broken (if windows then -1 else 0) (tm_numbers (localtime ts)))) \<and>
    (8100 \<le> tm_year t \<longrightarrow> get_current_timestamp ok t = Undefined)"
proof (intro exI conjI impI)
  let ?s = "date_text (localtime ts) @ '' '' @ time_text (localtime ts)"
  show "format_timestamp ok localtime ts = Returns (Some ?s)"
    using assms(2) format_fits [OF assms(1)] by (simp add: format_timestamp_def strftime_array_def Let_def)
  show "parse_timestamp windows mk (Some ?s) = mk (broken (if windows then -1 else 0) (tm_numbers (localtime ts)))"
    unfolding parse_timestamp_def option.case sscanf_text [OF assms(1)] strptime_text [OF assms(1)]
    by (simp add: tm_numbers_def)
  show "get_current_timestamp ok t = Undefined" if "8100 \<le> tm_year t"
    using format_overflows [OF that] assms(2) by (simp add: get_current_timestamp_def strftime_array_def)
qed

lemma timestamp_parsed_back_witness:
  "parse_timestamp False (\<lambda>b. bt_hour b * 3600 + bt_min b * 60 - bt_isdst b) (Some ''2024-05-01 09:30:00'') = 34200 \<and>
   get_current_timestamp (\<lambda>_. True) (sample_tm\<lparr>tm_year := 8100\<rparr>) = Undefined"
proof -
  let ?mk = "\<lambda>b. bt_hour b * 3600 + bt_min b * 60 - bt_isdst b"
  have "tm_ok sample_tm" by code_simp
  note parsed = timestamp_parsed_back [of "\<lambda>_. sample_tm" 0 "\<lambda>_. True", OF this]
  have s: "date_text sample_tm @ '' '' @ time_text sample_tm = ''2024-05-01 09:30:00''" by code_simp
  have "format_timestamp (\<lambda>_. True) (\<lambda>_. sample_tm) 0 = Returns (Some ''2024-05-01 09:30:00'')"
    unfolding format_timestamp_def Let_def s by (simp add: strftime_array_def)
  then have "parse_timestamp False ?mk (Some ''2024-05-01 09:30:00'') = ?mk (broken 0 (tm_numbers sample_tm))"
    using parsed [of False ?mk sample_tm] by auto
  then show ?thesis using parsed [of False ?mk "sample_tm\<lparr>tm_year := 8100\<rparr>"]
    by (simp add: broken_def tm_numbers_def sample_tm_def)
qed

end
