(* ===== verification/Lx_Files.thy ===== *)
theory Lx_Files
  imports Lx_Clock "HOL-Library.AList" "HOL-Library.Sublist"
begin

text \<open>
  Directories: the file system utilities, \<open>copy_directory\<close> and \<open>create_backup\<close> of \<open>src/src/utils.c\<close>.

  The disk is a tree of directories with their entries in the order in which \<open>readdir\<close> lists them. A
  path is read against the root of the tree, \<open>.\<close> and \<open>..\<close> included; there are no symbolic links.
  The system calls are those of POSIX. What else they depend on is an argument: \<open>may\<close> says where a file or a
  directory may be created or written (rights, lengths of names, room), \<open>fw k\<close> how many bytes of its \<open>k\<close>-th
  block \<open>fwrite\<close> takes, and \<open>shell\<close> is what \<open>system\<close> does with a command and the disk. A directory
  is listed as it was when it was opened.
\<close>

section \<open>The disk\<close>

datatype node = Regular string | Directory "(string \<times> node) list"

fun node_at :: "string list \<Rightarrow> node \<Rightarrow> node option" where
  "node_at [] t = Some t"
| "node_at (n # p) (Regular c) = None"
| "node_at (n # p) (Directory es) = (case map_of es n of None \<Rightarrow> None | Some t \<Rightarrow> node_at p t)"

fun put_node :: "string list \<Rightarrow> node \<Rightarrow> node \<Rightarrow> node" where
  \<comment> \<open>an entry that is new comes after the others; nothing happens where there is no directory\<close>
  "put_node [] new t = new"
| "put_node (n # p) new (Regular c) = Regular c"
| "put_node (n # p) new (Directory es) = Directory (case map_of es n of
     None \<Rightarrow> if p = [] then es @ [(n, new)] else es
   | Some t \<Rightarrow> AList.update n (put_node p new t) es)"

fun drop_node :: "string list \<Rightarrow> node \<Rightarrow> node" where
  "drop_node [] t = t"
| "drop_node (n # p) (Regular c) = Regular c"
| "drop_node (n # p) (Directory es) = Directory (case map_of es n of None \<Rightarrow> es
   | Some t \<Rightarrow> if p = [] then AList.delete n es else AList.update n (drop_node p t) es)"

fun path_parts :: "string \<Rightarrow> string list" where
  "path_parts [] = [[]]"
| "path_parts (c # s) = (if c = CHR ''/'' then [] # path_parts s
     else (case path_parts s of [] \<Rightarrow> [[c]] | n # ns \<Rightarrow> (c # n) # ns))"

definition resolve :: "string \<Rightarrow> string list" where
  "resolve s = foldl (\<lambda>p n. if n = [] \<or> n = ''.'' then p else if n = ''..'' then butlast p else p @ [n]) [] (path_parts s)"

definition is_directory :: "node \<Rightarrow> bool" where
  "is_directory t = (case t of Directory _ \<Rightarrow> True | Regular _ \<Rightarrow> False)"

definition can_create :: "(string list \<Rightarrow> bool) \<Rightarrow> node \<Rightarrow> string list \<Rightarrow> bool" where
  \<comment> \<open>nothing is there, and its place is a directory\<close>
  "can_create may t p \<longleftrightarrow> may p \<and> p \<noteq> [] \<and> node_at p t = None \<and>
     (case node_at (butlast p) t of None \<Rightarrow> False | Some d \<Rightarrow> is_directory d)"

definition open_write :: "(string list \<Rightarrow> bool) \<Rightarrow> node \<Rightarrow> string list \<Rightarrow> node option" where
  \<comment> \<open>\<open>fopen(path, "wb")\<close>\<close>
  "open_write may t p = (case node_at p t of
     Some (Directory _) \<Rightarrow> None
   | Some (Regular _) \<Rightarrow> if may p then Some (put_node p (Regular []) t) else None
   | None \<Rightarrow> if can_create may t p then Some (put_node p (Regular []) t) else None)"

section \<open>File system utilities\<close>

definition file_exists :: "node \<Rightarrow> string option \<Rightarrow> int" where
  \<comment> \<open>a directory can be opened for reading too\<close>
  "file_exists t fp = (case fp of None \<Rightarrow> 0 | Some filename \<Rightarrow> if node_at (resolve filename) t \<noteq> None then 1 else 0)"

definition directory_exists :: "node \<Rightarrow> string option \<Rightarrow> int" where
  "directory_exists t dp = (case dp of None \<Rightarrow> 0
     | Some dirname \<Rightarrow> (case node_at (resolve dirname) t of None \<Rightarrow> 0 | Some d \<Rightarrow> if is_directory d then 1 else 0))"

definition create_directory :: "(string list \<Rightarrow> bool) \<Rightarrow> node \<Rightarrow> string option \<Rightarrow> int \<times> node" where
  "create_directory may t dp = (case dp of None \<Rightarrow> (0, t)
     | Some dirname \<Rightarrow> if can_create may t (resolve dirname) then (1, put_node (resolve dirname) (Directory []) t) else (0, t))"

definition get_file_size :: "int \<Rightarrow> node \<Rightarrow> string option \<Rightarrow> int" where
  \<comment> \<open>\<open>dir_size\<close>: what \<open>stat\<close> gives as the size of a directory\<close>
  "get_file_size dir_size t fp = (case fp of None \<Rightarrow> -1
     | Some filename \<Rightarrow> (case node_at (resolve filename) t of
         None \<Rightarrow> -1 | Some (Regular c) \<Rightarrow> int (length c) | Some (Directory _) \<Rightarrow> dir_size))"

definition get_file_modified_time :: "(string list \<Rightarrow> int) \<Rightarrow> node \<Rightarrow> string option \<Rightarrow> int" where
  "get_file_modified_time mtime t fp = (case fp of None \<Rightarrow> 0
     | Some filename \<Rightarrow> if node_at (resolve filename) t \<noteq> None then mtime (resolve filename) else 0)"

definition delete_file :: "(string list \<Rightarrow> bool) \<Rightarrow> node \<Rightarrow> string option \<Rightarrow> int \<times> node" where
  \<comment> \<open>\<open>remove\<close> deletes an empty directory as well\<close>
  "delete_file may t fp = (case fp of None \<Rightarrow> (0, t)
     | Some filename \<Rightarrow> let p = resolve filename in
         if may p \<and> p \<noteq> [] \<and> (case node_at p t of None \<Rightarrow> False | Some (Regular _) \<Rightarrow> True | Some (Directory es) \<Rightarrow> es = [])
         then (1, drop_node p t) else (0, t))"

definition copy_file_at ::
  "(string list \<Rightarrow> bool) \<Rightarrow> (nat \<Rightarrow> nat) \<Rightarrow> node \<Rightarrow> string option \<Rightarrow> string option \<Rightarrow> int \<times> node" where
  \<comment> \<open>the destination is emptied before the source is read; nothing is read from a directory\<close>
  "copy_file_at may fw t sp dp = (case (sp, dp) of
     (Some source, Some destination) \<Rightarrow>
       if node_at (resolve source) t = None then (0, t)
       else (case open_write may t (resolve destination) of
           None \<Rightarrow> (0, t)
         | Some t1 \<Rightarrow>
             let src = (case node_at (resolve source) t1 of Some (Regular c) \<Rightarrow> c | _ \<Rightarrow> [])
             in (1, put_node (resolve destination) (Regular (copy_blocks fw 0 (length src) src)) t1))
   | _ \<Rightarrow> (0, t))"

section \<open>Copying a directory\<close>

fun copy_entries ::
  "(string list \<Rightarrow> bool) \<Rightarrow> (nat \<Rightarrow> nat) \<Rightarrow> (node \<Rightarrow> string option \<Rightarrow> string option \<Rightarrow> (int \<times> node) run) \<Rightarrow>
   node \<Rightarrow> string \<Rightarrow> string \<Rightarrow> string list \<Rightarrow> (int \<times> node) run" where
  \<comment> \<open>the loop over the entries; \<open>sub\<close> is the recursive call\<close>
  "copy_entries may fw sub t source destination [] = Returns (1, t)"
| "copy_entries may fw sub t source destination (d_name # entries) =
     (if d_name = ''.'' \<or> d_name = ''..'' then copy_entries may fw sub t source destination entries
      else
        let source_path = take 511 (source @ ''/'' @ d_name);
            dest_path = take 511 (destination @ ''/'' @ d_name)
        in (case (case node_at (resolve source_path) t of
                None \<Rightarrow> Undefined \<comment> \<open>the result of \<open>stat\<close> is not looked at\<close>
              | Some (Directory _) \<Rightarrow> sub t (Some source_path) (Some dest_path)
              | Some (Regular _) \<Rightarrow> Returns (copy_file_at may fw t (Some source_path) (Some dest_path))) of
            OutOfFuel \<Rightarrow> OutOfFuel
          | Undefined \<Rightarrow> Undefined
          | Returns (copied, t') \<Rightarrow> if copied = 0 then Returns (0, t')
              else copy_entries may fw sub t' source destination entries))"

fun copy_directory ::
  "(string list \<Rightarrow> bool) \<Rightarrow> (nat \<Rightarrow> nat) \<Rightarrow> nat \<Rightarrow> node \<Rightarrow> string option \<Rightarrow> string option \<Rightarrow> (int \<times> node) run" where
  "copy_directory may fw 0 t sp dp = OutOfFuel"
| "copy_directory may fw (Suc n) t sp dp = (case (sp, dp) of
     (Some source, Some destination) \<Rightarrow>
       (let (created, t1) = create_directory may t dp in
        if created = 0 then Returns (0, t1)
        else (case node_at (resolve source) t1 of
            Some (Directory es) \<Rightarrow>
              copy_entries may fw (copy_directory may fw n) t1 source destination (''.'' # ''..'' # map fst es)
          | _ \<Rightarrow> Returns (0, t1)))
   | _ \<Rightarrow> Returns (0, t))"

section \<open>Creating a backup\<close>

definition archive_command :: "bool \<Rightarrow> string \<Rightarrow> string" where
  "archive_command windows backup_path =
     (if windows then ''powershell Compress-Archive -Path \"'' @ backup_path @ ''\" -DestinationPath \"'' @ backup_path @ ''.zip\"''
      else ''tar -czf '' @ backup_path @ ''.tar.gz '' @ backup_path)"

definition remove_command :: "bool \<Rightarrow> string \<Rightarrow> string" where
  "remove_command windows backup_path =
     (if windows then ''rmdir /s /q \"'' @ backup_path @ ''\"'' else ''rm -rf '' @ backup_path)"

definition create_backup ::
  "bool \<Rightarrow> (string list \<Rightarrow> bool) \<Rightarrow> (nat \<Rightarrow> nat) \<Rightarrow> alloc \<Rightarrow> tm \<Rightarrow> (string \<Rightarrow> node \<Rightarrow> int \<times> node) \<Rightarrow> nat \<Rightarrow>
   node \<Rightarrow> string option \<Rightarrow> string option \<Rightarrow> (int \<times> node) run" where
  \<comment> \<open>a timestamp that could not be made is printed all the same\<close>
  "create_backup windows may fw ok now shell n t sp dp = (case (sp, dp) of
     (Some source_dir, Some backup_dir) \<Rightarrow>
       (let (there, t1) = (if directory_exists t dp = 0 then create_directory may t dp else (1, t)) in
        if there = 0 then Returns (0, t1)
        else (case get_current_timestamp ok now of OutOfFuel \<Rightarrow> OutOfFuel | Undefined \<Rightarrow> Undefined
          | Returns timestamp \<Rightarrow>
             (case string_replace (\<lambda>i. ok (Suc i)) timestamp (Some '':'') (Some ''-'') of
                None \<Rightarrow> OutOfFuel
              | Some None \<Rightarrow> Undefined
              | Some (Some safe_timestamp) \<Rightarrow>
                  let backup_path = take 511 (backup_dir @ ''/backup_'' @ safe_timestamp) in
                  (case copy_directory may fw n t1 sp (Some backup_path) of
                     OutOfFuel \<Rightarrow> OutOfFuel
                   | Undefined \<Rightarrow> Undefined
                   | Returns (copied, t2) \<Rightarrow>
                       if copied = 0 then Returns (0, t2)
                       else
                         let (result, t3) = shell (take 1023 (archive_command windows backup_path)) t2;
                             (removed, t4) = shell (take 511 (remove_command windows backup_path)) t3
                         in Returns (if result = 0 then 1 else 0, t4)))))
   | _ \<Rightarrow> Returns (0, t))"

section \<open>Paths and trees\<close>

definition file_name :: "string \<Rightarrow> bool" where
  "file_name n \<longleftrightarrow> n \<noteq> [] \<and> n \<noteq> ''.'' \<and> n \<noteq> ''..'' \<and> CHR ''/'' \<notin> set n"

lemma path_parts_nonempty [simp]: "path_parts s \<noteq> []"
  by (induction s) (auto split: list.split)

lemma path_parts_name: "CHR ''/'' \<notin> set n \<Longrightarrow> path_parts n = [n]"
  by (induction n) auto

lemma path_parts_append: "path_parts (s @ CHR ''/'' # n) = path_parts s @ path_parts n"
  by (induction s) (auto split: list.split)

lemma resolve_entry [simp]: "file_name n \<Longrightarrow> resolve (s @ CHR ''/'' # n) = resolve s @ [n]"
  by (simp add: resolve_def path_parts_append path_parts_name file_name_def)

lemma node_at_append: "node_at (p @ q) t = (case node_at p t of None \<Rightarrow> None | Some t' \<Rightarrow> node_at q t')"
  by (induction p t rule: node_at.induct) (auto split: option.split)

lemma node_at_put_parallel:
  "\<not> prefix p q \<Longrightarrow> \<not> prefix q p \<Longrightarrow> node_at p (put_node q new t) = node_at p t"
proof (induction q new t arbitrary: p rule: put_node.induct)
  case (3 n q new es)
  then obtain m p' where p: "p = m # p'" by (cases p) auto
  show ?case
  proof (cases "m = n")
    case True
    then have "q \<noteq> []" "\<not> prefix p' q" "\<not> prefix q p'" using 3 p by auto
    then show ?thesis using 3(1) True p by (auto simp: update_conv split: option.split)
  next
    case False
    then show ?thesis using p by (auto simp: update_conv map_add_def split: option.split)
  qed
qed auto

lemma node_at_put_same: "node_at p t = Some old \<Longrightarrow> node_at p (put_node p new t) = Some new"
  by (induction p t arbitrary: old rule: node_at.induct) (auto simp: update_conv split: option.splits)

lemma node_at_put_new:
  "node_at p t = Some (Directory es) \<Longrightarrow> map_of es n = None \<Longrightarrow> node_at (p @ [n]) (put_node (p @ [n]) new t) = Some new"
  by (induction p t rule: node_at.induct) (auto simp: update_conv map_add_def split: option.splits)

lemma put_in_node:
  "node_at p t = Some old \<Longrightarrow> put_node (p @ q) new t = put_node p (put_node q new old) t"
  by (induction p t rule: node_at.induct) (auto split: option.splits)

lemma put_twice: "node_at p t = Some old \<Longrightarrow> put_node p b (put_node p a t) = put_node p b t"
  by (induction p t rule: node_at.induct) (auto simp: update_conv split: option.splits)

lemma can_createD:
  assumes "can_create may t p"
  obtains q n es where "p = q @ [n]" and "node_at q t = Some (Directory es)" and "map_of es n = None" and "node_at p t = None"
proof -
  obtain q n where p: "p = q @ [n]" using assms by (cases p rule: rev_cases) (auto simp: can_create_def)
  obtain es where es: "node_at q t = Some (Directory es)"
    using assms p by (auto simp: can_create_def is_directory_def split: option.splits node.splits)
  have none: "node_at p t = None" using assms by (simp add: can_create_def)
  then have "map_of es n = None" using es p by (simp add: node_at_append split: option.splits)
  then show thesis using that p es none by blast
qed

lemma node_at_created: "can_create may t p \<Longrightarrow> node_at p (put_node p new t) = Some new"
  by (erule can_createD) (simp add: node_at_put_new)

lemma put_created_twice: "can_create may t p \<Longrightarrow> put_node p b (put_node p a t) = put_node p b t"
proof (erule can_createD)
  fix q n es assume p: "p = q @ [n]" and q: "node_at q t = Some (Directory es)" and n: "map_of es n = None"
  let ?ta = "put_node q (Directory (es @ [(n, a)])) t"
  have a: "put_node p x t = put_node q (Directory (es @ [(n, x)])) t" for x by (simp add: p put_in_node [OF q] n)
  have "AList.update n b (es @ [(n, a)]) = es @ [(n, b)]" using n by (induction es) auto
  then have "put_node p b ?ta = put_node q (Directory (es @ [(n, b)])) ?ta"
    using n by (simp add: p put_in_node [OF node_at_put_same [OF q]] map_add_def)
  then show ?thesis by (simp add: a put_twice [OF q])
qed

lemma put_next:
  assumes "can_create may t p" and "map_of es n = None"
  shows "put_node (p @ [n]) new (put_node p (Directory es) t) = put_node p (Directory (es @ [(n, new)])) t"
    and "can_create (\<lambda>_. True) (put_node p (Directory es) t) (p @ [n])"
proof -
  note at = node_at_created [OF assms(1), of "Directory es"]
  show "put_node (p @ [n]) new (put_node p (Directory es) t) = put_node p (Directory (es @ [(n, new)])) t"
    by (simp add: put_in_node [OF at] assms(2) put_created_twice [OF assms(1)])
  show "can_create (\<lambda>_. True) (put_node p (Directory es) t) (p @ [n])"
    by (simp add: can_create_def node_at_append at assms(2) is_directory_def)
qed

section \<open>The copy is the source\<close>

fun tree_ok :: "node \<Rightarrow> bool" where
  "tree_ok (Regular c) = True"
| "tree_ok (Directory es) = (distinct (map fst es) \<and> list_all (\<lambda>(n, t). file_name n \<and> tree_ok t) es)"

fun height :: "node \<Rightarrow> nat" where
  "height (Regular c) = 0"
| "height (Directory es) = Suc (foldr max (map (\<lambda>(n, t). height t) es) 0)"

fun longest :: "node \<Rightarrow> nat" where
  \<comment> \<open>of the paths of the entries below, with their slashes\<close>
  "longest (Regular c) = 0"
| "longest (Directory es) = foldr max (map (\<lambda>(n, t). Suc (length n) + longest t) es) 0"

lemma foldr_max_ge: "x \<in> set xs \<Longrightarrow> (x::nat) \<le> foldr max xs 0"
  by (induction xs) auto

lemma height_entry: "(n, t) \<in> set es \<Longrightarrow> height t < height (Directory es)"
  using foldr_max_ge [of "height t" "map (\<lambda>(n, t). height t) es"] by force

lemma longest_entry: "(n, t) \<in> set es \<Longrightarrow> Suc (length n) + longest t \<le> longest (Directory es)"
  using foldr_max_ge [of "Suc (length n) + longest t" "map (\<lambda>(n, t). Suc (length n) + longest t) es"] by force

definition copyable :: "node \<Rightarrow> string \<Rightarrow> string \<Rightarrow> node \<Rightarrow> bool" where
  \<comment> \<open>the destination is new and not inside the source, and no path is cut\<close>
  "copyable t source destination src \<longleftrightarrow> node_at (resolve source) t = Some src \<and> tree_ok src \<and>
     can_create (\<lambda>_. True) t (resolve destination) \<and> \<not> prefix (resolve source) (resolve destination) \<and>
     max (length source) (length destination) + longest src \<le> 511"

lemma copyable_apart:
  assumes "copyable t s d src"
  shows "\<not> prefix (resolve d) (resolve s)" and "node_at (resolve s) (put_node (resolve d) new t) = Some src"
proof -
  have at: "node_at (resolve s) t = Some src" "node_at (resolve d) t = None" "\<not> prefix (resolve s) (resolve d)"
    using assms by (auto simp: copyable_def can_create_def)
  show apart: "\<not> prefix (resolve d) (resolve s)"
  proof
    assume "prefix (resolve d) (resolve s)"
    then obtain r where "resolve s = resolve d @ r" by (auto simp: prefix_def)
    then show False using at by (simp add: node_at_append)
  qed
  show "node_at (resolve s) (put_node (resolve d) new t) = Some src"
    using node_at_put_parallel [OF at(3) apart] at(1) by simp
qed

lemma copyable_entry:
  assumes c: "copyable t s d (Directory (es1 @ (e, x) # es2))"
  shows "file_name e" and "copyable (put_node (resolve d) (Directory es1) t) (s @ ''/'' @ e) (d @ ''/'' @ e) x"
    and "put_node (resolve (d @ ''/'' @ e)) x (put_node (resolve d) (Directory es1) t) =
      put_node (resolve d) (Directory (es1 @ [(e, x)])) t"
proof -
  let ?es = "es1 @ (e, x) # es2" and ?t1 = "put_node (resolve d) (Directory es1) t"
  have d: "can_create (\<lambda>_. True) t (resolve d)" and apart: "\<not> prefix (resolve s) (resolve d)"
    using c by (simp_all add: copyable_def)
  have ok: "tree_ok (Directory ?es)" using c by (simp add: copyable_def)
  then show name: "file_name e" by simp
  have new: "map_of es1 e = None" using ok by (auto simp: map_of_eq_None_iff)
  then have old: "map_of ?es e = Some x" by (simp add: map_add_def)
  show "put_node (resolve (d @ ''/'' @ e)) x ?t1 = put_node (resolve d) (Directory (es1 @ [(e, x)])) t"
    using put_next(1) [OF d new] name by simp
  have "Suc (length e) + longest x \<le> longest (Directory ?es)" by (rule longest_entry) simp
  moreover have "max (length s) (length d) + longest (Directory ?es) \<le> 511" using c by (simp only: copyable_def)
  ultimately have "max (length (s @ ''/'' @ e)) (length (d @ ''/'' @ e)) + longest x \<le> 511"
    by (simp del: longest.simps)
  moreover have "node_at (resolve s @ [e]) ?t1 = Some x"
    using copyable_apart(2) [OF c, of "Directory es1"] old by (simp add: node_at_append)
  moreover have "\<not> prefix (resolve s @ [e]) (resolve d @ [e])"
    using apart by (auto dest: append_prefixD)
  moreover have "tree_ok x" using ok by simp
  ultimately show "copyable ?t1 (s @ ''/'' @ e) (d @ ''/'' @ e) x"
    using name put_next(2) [OF d new] by (simp add: copyable_def)
qed

lemma copy_file_at_result:
  assumes "copyable t s d (Regular c)" and "\<forall>k. fw k = 4096"
  shows "copy_file_at (\<lambda>_. True) fw t (Some s) (Some d) = (1, put_node (resolve d) (Regular c) t)"
proof -
  have d: "can_create (\<lambda>_. True) t (resolve d)" and s: "node_at (resolve s) t = Some (Regular c)"
    using assms(1) by (simp_all add: copyable_def)
  then have "node_at (resolve d) t = None" by (simp add: can_create_def)
  then have "open_write (\<lambda>_. True) t (resolve d) = Some (put_node (resolve d) (Regular []) t)"
    using d by (simp add: open_write_def)
  then show ?thesis
    by (simp add: copy_file_at_def s copyable_apart(2) [OF assms(1)] Let_def copy_blocks_all [OF assms(2)]
        put_created_twice [OF d])
qed

lemma copy_entries_result:
  assumes sub: "\<And>t s d es. copyable t s d (Directory es) \<Longrightarrow> height (Directory es) < h \<Longrightarrow>
      sub t (Some s) (Some d) = Returns (1, put_node (resolve d) (Directory es) t)"
    and fw: "\<forall>k. fw k = 4096"
    and "copyable t s d (Directory (es1 @ es2))" and "height (Directory (es1 @ es2)) \<le> h"
  shows "copy_entries (\<lambda>_. True) fw sub (put_node (resolve d) (Directory es1) t) s d (map fst es2) =
    Returns (1, put_node (resolve d) (Directory (es1 @ es2)) t)"
  using assms(3,4)
proof (induction es2 arbitrary: es1)
  case (Cons ex es2)
  obtain e x where ex: "ex = (e, x)" by (rule prod.exhaust)
  let ?t1 = "put_node (resolve d) (Directory es1) t" and ?se = "s @ ''/'' @ e" and ?de = "d @ ''/'' @ e"
  have c: "copyable t s d (Directory (es1 @ (e, x) # es2))" using Cons(2) ex by simp
  note entry = copyable_entry [OF c]
  have cut: "take 511 ?se = ?se" "take 511 ?de = ?de" using entry(2) by (auto simp: copyable_def simp del: append.simps take_append)
  have at: "node_at (resolve ?se) ?t1 = Some x" using entry(2) by (simp add: copyable_def)
  have low: "height x < h" using height_entry [of e x "es1 @ (e, x) # es2"] Cons(3) ex by simp
  have "(case Some x of None \<Rightarrow> Undefined
      | Some (Directory _) \<Rightarrow> sub ?t1 (Some ?se) (Some ?de)
      | Some (Regular _) \<Rightarrow> Returns (copy_file_at (\<lambda>_. True) fw ?t1 (Some ?se) (Some ?de))) =
      Returns (1, put_node (resolve d) (Directory (es1 @ [(e, x)])) t)"
    using entry(2) low copy_file_at_result [OF _ fw] sub unfolding entry(3) [symmetric]
    by (cases x) simp_all
  moreover have "e \<noteq> ''.''" "e \<noteq> ''..''" using entry(1) by (simp_all add: file_name_def)
  moreover have "copy_entries (\<lambda>_. True) fw sub (put_node (resolve d) (Directory (es1 @ [(e, x)])) t) s d (map fst es2) =
      Returns (1, put_node (resolve d) (Directory (es1 @ ex # es2)) t)"
    using Cons(1) [of "es1 @ [ex]"] Cons(2,3) ex by simp
  ultimately show ?case
    by (simp only: ex list.map fst_conv copy_entries.simps if_False simp_thms Let_def cut at run.case prod.case one_neq_zero)
qed simp

lemma copy_directory_result:
  assumes "copyable t s d (Directory es)" and "height (Directory es) \<le> n" and fw: "\<forall>k. fw k = 4096"
  shows "copy_directory (\<lambda>_. True) fw n t (Some s) (Some d) = Returns (1, put_node (resolve d) (Directory es) t)"
  using assms(1,2)
proof (induction n arbitrary: t s d es)
  case (Suc n)
  let ?t1 = "put_node (resolve d) (Directory []) t"
  have d: "can_create (\<lambda>_. True) t (resolve d)" using Suc(2) by (simp add: copyable_def)
  have "copy_entries (\<lambda>_. True) fw (copy_directory (\<lambda>_. True) fw n) ?t1 s d (map fst es) =
      Returns (1, put_node (resolve d) (Directory es) t)"
    using copy_entries_result [of "Suc n" "copy_directory (\<lambda>_. True) fw n" fw t s d "[]" es] Suc fw by simp
  then show ?case by (simp add: create_directory_def d copyable_apart(2) [OF Suc(2)])
qed simp

text \<open>C19: copying a directory gives the destination the tree of the source, with all files and directories below
  in the same order, and changes nothing else, where the destination is new and does not lie inside the
  source, no path is longer than 511 bytes, and the system lets everything be written. The recursion is
  no deeper than the tree.\<close>

theorem copy_directory_copies:
  assumes "copyable t s d (Directory es)" and "height (Directory es) \<le> n" and "\<forall>k. fw k = 4096"
  shows "copy_directory (\<lambda>_. True) fw n t (Some s) (Some d) = Returns (1, put_node (resolve d) (Directory es) t) \<and>
    node_at (resolve d) (put_node (resolve d) (Directory es) t) = Some (Directory es) \<and>
    (\<forall>p. \<not> prefix p (resolve d) \<and> \<not> prefix (resolve d) p \<longrightarrow>
       node_at p (put_node (resolve d) (Directory es) t) = node_at p t)"
  using copy_directory_result [OF assms] node_at_created [of "\<lambda>_. True" t "resolve d"] assms(1)
  by (auto simp: copyable_def intro: node_at_put_parallel)

definition sample_disk :: node where
  "sample_disk = Directory [(''data'', Directory [(''db'', Regular ''x''), (''log'', Directory [])]), (''b'', Directory [])]"

lemma copyable_sample:
  assumes "can_create (\<lambda>_. True) sample_disk (resolve d)" and "\<not> prefix [''data''] (resolve d)" and "length d \<le> 500"
  shows "copyable sample_disk ''data'' d (Directory [(''db'', Regular ''x''), (''log'', Directory [])])"
proof -
  have r: "resolve ''data'' = [''data'']" by code_simp
  have at: "node_at [''data''] sample_disk = Some (Directory [(''db'', Regular ''x''), (''log'', Directory [])])" by code_simp
  have "tree_ok (Directory [(''db'', Regular ''x''), (''log'', Directory [])])" by code_simp
  then show ?thesis using assms by (simp add: copyable_def r at del: tree_ok.simps)
qed

lemma copy_directory_copies_witness:
  "copy_directory (\<lambda>_. True) (\<lambda>_. 4096) 2 sample_disk (Some ''data'') (Some ''b/copy'') =
    Returns (1, Directory [(''data'', Directory [(''db'', Regular ''x''), (''log'', Directory [])]),
      (''b'', Directory [(''copy'', Directory [(''db'', Regular ''x''), (''log'', Directory [])])])])"
proof -
  have r: "resolve ''b/copy'' = [''b'', ''copy'']" by code_simp
  have "copyable sample_disk ''data'' ''b/copy'' (Directory [(''db'', Regular ''x''), (''log'', Directory [])])"
    by (rule copyable_sample) (simp_all add: r can_create_def sample_disk_def is_directory_def)
  from copy_directory_copies [OF this, of 2 "\<lambda>_. 4096"] show ?thesis by (simp add: r sample_disk_def)
qed

section \<open>What a backup leaves\<close>

fun shell_words :: "string \<Rightarrow> string list" where
  \<comment> \<open>a command line of plain characters, split at the blanks\<close>
  "shell_words [] = [[]]"
| "shell_words (c # s) = (if c = CHR '' '' then [] # shell_words s
     else (case shell_words s of [] \<Rightarrow> [[c]] | w # ws \<Rightarrow> (c # w) # ws))"

lemma shell_words_nonempty [simp]: "shell_words s \<noteq> []"
  by (induction s) (auto split: list.split)

lemma shell_words_word: "CHR '' '' \<notin> set w \<Longrightarrow> shell_words w = [w]"
  by (induction w) auto

lemma shell_words_append: "CHR '' '' \<notin> set w \<Longrightarrow> shell_words (w @ CHR '' '' # s) = w # shell_words s"
  by (induction w) auto

definition dashed_time :: "tm \<Rightarrow> string" where
  "dashed_time t = pad_int 2 (tm_hour t) @ ''-'' @ pad_int 2 (tm_min t) @ ''-'' @ pad_int 2 (tm_sec t)"

lemma pad_int_chars:
  "c \<in> set (pad_int k n) \<Longrightarrow> c \<noteq> CHR '':'' \<and> c \<noteq> CHR '' '' \<and> c \<noteq> CHR ''/''"
  using dec_digits_isdigit [of c n] by (auto simp: pad_int_def isdigit_def)

lemma replace_all_keeps: "c \<notin> set s \<Longrightarrow> replace_all [c] new s = s"
  by (induction s) (auto simp: starts_with_def)

lemma replace_all_char_append: "replace_all [c] new (s @ t) = replace_all [c] new s @ replace_all [c] new t"
  by (simp add: replace_all_char)

lemma safe_timestamp:
  "string_replace (\<lambda>_. True) (Some (date_text t @ '' '' @ time_text t)) (Some '':'') (Some ''-'') =
    Some (Some (date_text t @ '' '' @ dashed_time t))"
proof -
  have pad: "replace_all '':'' ''-'' (pad_int k n) = pad_int k n" for k n
    using pad_int_chars [of "CHR '':''" k n] by (intro replace_all_keeps) blast
  moreover have "dec_digits n = pad_int 0 n" for n by (simp add: pad_int_def)
  ultimately have "replace_all '':'' ''-'' (dec_digits n) = dec_digits n" for n by metis
  then have "replace_all '':'' ''-'' (date_text t @ '' '' @ time_text t) = date_text t @ '' '' @ dashed_time t"
    unfolding date_text_def time_text_def dashed_time_def replace_all_char_append
    by (simp add: pad starts_with_def)
  then show ?thesis
    by (simp add: string_replace_def replace_capacity_def replace_count_eq replace_write_eq)
qed

definition backup_day :: "string \<Rightarrow> tm \<Rightarrow> string" where
  "backup_day dir t = dir @ ''/backup_'' @ date_text t"

definition backup_path :: "string \<Rightarrow> tm \<Rightarrow> string" where
  "backup_path dir t = backup_day dir t @ '' '' @ dashed_time t"

lemma no_blanks: "CHR '' '' \<notin> set (dashed_time t)" "CHR '' '' \<notin> set dir \<Longrightarrow> CHR '' '' \<notin> set (backup_day dir t)"
  using pad_int_chars [of "CHR '' ''"] dec_digits_isdigit [of "CHR '' ''"]
  by (auto simp: dashed_time_def backup_day_def date_text_def isdigit_def)

lemma command_words:
  assumes "CHR '' '' \<notin> set dir"
  shows "shell_words (archive_command False (backup_path dir t)) =
      [''tar'', ''-czf'', backup_day dir t, dashed_time t @ ''.tar.gz'', backup_day dir t, dashed_time t]"
    and "shell_words (remove_command False (backup_path dir t)) = [''rm'', ''-rf'', backup_day dir t, dashed_time t]"
proof -
  have w: "CHR '' '' \<notin> set ''tar''" "CHR '' '' \<notin> set ''-czf''" "CHR '' '' \<notin> set ''rm''" "CHR '' '' \<notin> set ''-rf''"
    "CHR '' '' \<notin> set (dashed_time t @ ''.tar.gz'')"
    using no_blanks(1) by auto
  have "archive_command False (backup_path dir t) = ''tar'' @ CHR '' '' # ''-czf'' @ CHR '' '' # backup_day dir t @
      CHR '' '' # (dashed_time t @ ''.tar.gz'') @ CHR '' '' # backup_day dir t @ CHR '' '' # dashed_time t"
    by (simp add: archive_command_def backup_path_def)
  then show "shell_words (archive_command False (backup_path dir t)) =
      [''tar'', ''-czf'', backup_day dir t, dashed_time t @ ''.tar.gz'', backup_day dir t, dashed_time t]"
    by (simp only: shell_words_append [OF w(1)] shell_words_append [OF w(2)] shell_words_append [OF no_blanks(2) [OF assms]]
        shell_words_append [OF w(5)] shell_words_word [OF no_blanks(1)])
  have "remove_command False (backup_path dir t) = ''rm'' @ CHR '' '' # ''-rf'' @ CHR '' '' # backup_day dir t @
      CHR '' '' # dashed_time t"
    by (simp add: remove_command_def backup_path_def)
  then show "shell_words (remove_command False (backup_path dir t)) = [''rm'', ''-rf'', backup_day dir t, dashed_time t]"
    by (simp only: shell_words_append [OF w(3)] shell_words_append [OF w(4)] shell_words_append [OF no_blanks(2) [OF assms]]
        shell_words_word [OF no_blanks(1)])
qed



end
