(* ===== verification/Lx_Terminal.thy ===== *)
theory Lx_Terminal
  imports Lx_Clock Lx_Query Lx_Json_Writer
begin

text \<open>
  Terminal output, logging and line input of \<open>src/src/utils.c\<close>, and the diagnostics of \<open>src/src/database.c\<close>.

  A function that prints gives the bytes it writes; texts beyond ASCII are UTF-8. \<open>%-*s\<close> counts bytes. A
  varargs message is passed as the text that \<open>vprintf\<close> makes of it, and \<open>rate\<close> is the text of
  \<open>%.2f\<close> for the cache hit rate. The streams take everything that is written. \<open>getline\<close> is the
  one that is compiled on Windows.
\<close>

section \<open>Colours and messages\<close>

definition escape :: "string \<Rightarrow> string" where
  "escape code = CHR 0x1B # ''['' @ code @ ''m''"

definition COLOR_RESET :: string where "COLOR_RESET = escape ''0''"
definition COLOR_BOLD :: string where "COLOR_BOLD = escape ''1''"
definition COLOR_RED :: string where "COLOR_RED = escape ''31''"
definition COLOR_GREEN :: string where "COLOR_GREEN = escape ''32''"
definition COLOR_YELLOW :: string where "COLOR_YELLOW = escape ''33''"
definition COLOR_BLUE :: string where "COLOR_BLUE = escape ''34''"
definition COLOR_CYAN :: string where "COLOR_CYAN = escape ''36''"
definition COLOR_WHITE :: string where "COLOR_WHITE = escape ''37''"
definition COLOR_BG_BLUE :: string where "COLOR_BG_BLUE = escape ''44''"

definition pad_right :: "int \<Rightarrow> string \<Rightarrow> string" where
  \<comment> \<open>\<open>%-*s\<close>\<close>
  "pad_right width s = s @ replicate (nat \<bar>width\<bar> - length s) (CHR '' '')"

definition double_line :: string where "double_line = [CHR 0xE2, CHR 0x95, CHR 0x90]"
definition double_side :: string where "double_side = [CHR 0xE2, CHR 0x95, CHR 0x91]"

definition print_header :: "string \<Rightarrow> string" where
  "print_header title = [newline] @ COLOR_BG_BLUE @ COLOR_WHITE @
     [CHR 0xE2, CHR 0x95, CHR 0x94] @ concat (replicate 60 double_line) @ [CHR 0xE2, CHR 0x95, CHR 0x97, newline] @
     double_side @ replicate 21 (CHR '' '') @ pad_right 40 title @ '' '' @ double_side @ [newline] @
     [CHR 0xE2, CHR 0x95, CHR 0x9A] @ concat (replicate 60 double_line) @ [CHR 0xE2, CHR 0x95, CHR 0x9D, newline] @
     COLOR_RESET"

definition print_success :: "string \<Rightarrow> string" where
  "print_success message = COLOR_GREEN @ [CHR 0xE2, CHR 0x9C, CHR 0x93] @ '' '' @ message @ COLOR_RESET @ [newline]"

definition print_error :: "string \<Rightarrow> string" where
  "print_error message = COLOR_RED @ [CHR 0xE2, CHR 0x9C, CHR 0x97] @ '' '' @ message @ COLOR_RESET @ [newline]"

definition print_warning :: "string \<Rightarrow> string" where
  "print_warning message = COLOR_YELLOW @ [CHR 0xE2, CHR 0x9A, CHR 0xA0] @ '' '' @ message @ COLOR_RESET @ [newline]"

definition print_info :: "string \<Rightarrow> string" where
  "print_info message = COLOR_CYAN @ [CHR 0xE2, CHR 0x84, CHR 0xB9] @ '' '' @ message @ COLOR_RESET @ [newline]"

section \<open>Tables\<close>

definition single_line :: string where "single_line = [CHR 0xE2, CHR 0x94, CHR 0x80]"
definition single_side :: string where "single_side = [CHR 0xE2, CHR 0x94, CHR 0x82]"

definition rule_line :: "string \<Rightarrow> string \<Rightarrow> string \<Rightarrow> int list \<Rightarrow> string" where
  \<comment> \<open>a border: the loop over the columns, each two wider than its text\<close>
  "rule_line first_corner joint last_corner widths = first_corner @
     concat (map (\<lambda>i. concat (replicate (nat (widths ! i + 2)) single_line) @ (if i < length widths - 1 then joint else []))
       [0..<length widths]) @ last_corner @ [newline]"

definition cell_line :: "string list \<Rightarrow> int list \<Rightarrow> string" where
  "cell_line values widths = single_side @
     concat (map (\<lambda>i. '' '' @ pad_right (widths ! i) (values ! i) @ '' '' @ single_side) [0..<length widths]) @ [newline]"

definition print_table_header :: "string list \<Rightarrow> int list \<Rightarrow> string" where
  "print_table_header headers widths = COLOR_BOLD @
     rule_line [CHR 0xE2, CHR 0x94, CHR 0x8C] [CHR 0xE2, CHR 0x94, CHR 0xAC] [CHR 0xE2, CHR 0x94, CHR 0x90] widths @
     cell_line headers widths @
     rule_line [CHR 0xE2, CHR 0x94, CHR 0x9C] [CHR 0xE2, CHR 0x94, CHR 0xBC] [CHR 0xE2, CHR 0x94, CHR 0xA4] widths @
     COLOR_RESET"

definition print_table_row :: "string option list \<Rightarrow> int list \<Rightarrow> string" where
  "print_table_row values widths = cell_line (map (\<lambda>v. case v of Some s \<Rightarrow> s | None \<Rightarrow> ''NULL'') values) widths"

definition print_table_footer :: "int list \<Rightarrow> string" where
  "print_table_footer widths =
     rule_line [CHR 0xE2, CHR 0x94, CHR 0x94] [CHR 0xE2, CHR 0x94, CHR 0xB4] [CHR 0xE2, CHR 0x94, CHR 0x98] widths"

definition c_div :: "int \<Rightarrow> int \<Rightarrow> int" where
  \<comment> \<open>\<open>/\<close> for a positive divisor: toward zero\<close>
  "c_div a b = (if a < 0 then - ((- a) div b) else a div b)"

definition print_progress_bar :: "int \<Rightarrow> int \<Rightarrow> string" where
  "print_progress_bar percentage width = (let filled = c_div (wrap32 (percentage * width)) 100 in
     COLOR_BLUE @ ''['' @
     concat (map (\<lambda>i. if int i < filled then [CHR 0xE2, CHR 0x96, CHR 0x88] else [CHR 0xE2, CHR 0x96, CHR 0x91]) [0..<nat width]) @
     ''] '' @ show_int percentage @ ''%'' @ COLOR_RESET @ [newline])"

section \<open>Logging\<close>

record Logger =
  lg_file :: string
  lg_level :: int

definition create_logger :: "alloc \<Rightarrow> bool \<Rightarrow> file_system \<Rightarrow> string \<Rightarrow> int \<Rightarrow> Logger option \<times> file_system" where
  \<comment> \<open>\<open>can_append\<close>: the outcome of \<open>fopen\<close> with mode \<open>a\<close>, which makes a file that is not there\<close>
  "create_logger ok can_append files filename level =
     (if \<not> ok 0 then (None, files)
      else if \<not> can_append then (None, files)
      else (Some \<lparr>lg_file = filename, lg_level = level\<rparr>,
        case files filename of None \<Rightarrow> files(filename \<mapsto> []) | Some _ \<Rightarrow> files))"

definition level_name :: "int \<Rightarrow> string \<times> string" where
  \<comment> \<open>and its colour\<close>
  "level_name level = (if level = 0 then (''DEBUG'', COLOR_BLUE) else if level = 1 then (''INFO'', COLOR_GREEN)
     else if level = 2 then (''WARNING'', COLOR_YELLOW) else if level = 3 then (''ERROR'', COLOR_RED)
     else (''UNKNOWN'', COLOR_RESET))"

definition log_line :: "string \<Rightarrow> int \<Rightarrow> string \<Rightarrow> string" where
  "log_line timestamp level message = ''['' @ timestamp @ ''] ['' @ fst (level_name level) @ ''] '' @ message"

definition log_message ::
  "alloc \<Rightarrow> tm \<Rightarrow> Logger option \<Rightarrow> int \<Rightarrow> string \<Rightarrow> file_system \<times> string \<Rightarrow> (file_system \<times> string) run" where
  \<comment> \<open>the files and what was printed; a timestamp that could not be made is printed all the same\<close>
  "log_message ok now lp level message = (\<lambda>(files, out). (case lp of None \<Rightarrow> Returns (files, out)
     | Some logger \<Rightarrow>
         if level < lg_level logger then Returns (files, out)
         else (case get_current_timestamp ok now of OutOfFuel \<Rightarrow> OutOfFuel | Undefined \<Rightarrow> Undefined
           | Returns None \<Rightarrow> Undefined
           | Returns (Some timestamp) \<Rightarrow>
               let line = log_line timestamp level message in
               Returns (files(lg_file logger \<mapsto> the (files (lg_file logger)) @ line @ [newline]),
                 if 1 \<le> level then out @ snd (level_name level) @ line @ COLOR_RESET @ [newline] else out))))"

section \<open>Reading a line\<close>

fun getline_loop :: "alloc \<Rightarrow> nat \<Rightarrow> nat \<Rightarrow> string \<Rightarrow> string \<Rightarrow> (string \<times> string \<times> nat) option" where
  \<comment> \<open>allocation \<open>k\<close> is next, \<open>n\<close> bytes are allocated, \<open>line\<close> is stored: the line, the input that is left
      and the size; \<open>None\<close> where \<open>realloc\<close> fails, and what was read is lost. The size is a \<open>size_t\<close> of 32 bits.\<close>
  "getline_loop ok k n line [] = Some (line, [], n)"
| "getline_loop ok k n line (c # s) =
     (let grows = n \<le> length line + 1; n' = (if grows then (2 * n) mod 2 ^ 32 else n);
          k' = (if grows then Suc k else k)
      in if grows \<and> \<not> ok k then None
         else if c = newline then Some (line @ [c], s, n')
         else getline_loop ok k' n' (line @ [c]) s)"

definition getline :: "alloc \<Rightarrow> nat option \<Rightarrow> string \<Rightarrow> (string \<times> string \<times> nat) option" where
  \<comment> \<open>\<open>buf\<close>: the size of the buffer that is there, \<open>None\<close> for a NULL one; \<open>None\<close> for the result -1\<close>
  "getline ok buf s = (case buf of
     None \<Rightarrow> if \<not> ok 0 then None else
       (case getline_loop ok 1 128 [] s of None \<Rightarrow> None
         | Some (line, rest, n) \<Rightarrow> if line = [] then None else Some (line, rest, n))
   | Some n0 \<Rightarrow>
       (case getline_loop ok 0 n0 [] s of None \<Rightarrow> None
         | Some (line, rest, n) \<Rightarrow> if line = [] then None else Some (line, rest, n)))"

section \<open>Memory and time\<close>

datatype 'a halting = Exits string | Goes_on 'a

definition safe_malloc :: "bool \<Rightarrow> nat \<Rightarrow> nat halting" where
  \<comment> \<open>the bytes of the block, or the message on \<open>stderr\<close> with which the program ends\<close>
  "safe_malloc ok sz = (if ok then Goes_on sz
     else Exits (''Memory allocation failed for '' @ dec_digits sz @ '' bytes'' @ [newline]))"

definition safe_calloc :: "bool \<Rightarrow> nat \<Rightarrow> nat \<Rightarrow> nat halting" where
  "safe_calloc ok num sz = (if ok then Goes_on (num * sz)
     else Exits (''Memory allocation failed for '' @ dec_digits num @ '' elements of size '' @ dec_digits sz @ [newline]))"

definition safe_realloc :: "bool \<Rightarrow> nat \<Rightarrow> nat option halting" where
  \<comment> \<open>\<open>None\<close>: the NULL that a size of 0 may give\<close>
  "safe_realloc ok sz = (if ok then Goes_on (Some sz)
     else if 0 < sz then Exits (''Memory reallocation failed for '' @ dec_digits sz @ '' bytes'' @ [newline])
     else Goes_on None)"

definition safe_free :: "'a option option \<Rightarrow> 'a option option" where
  \<comment> \<open>the pointer variable, if there is one, after the call\<close>
  "safe_free ptr = (case ptr of Some (Some block) \<Rightarrow> Some None | _ \<Rightarrow> ptr)"

definition sleep_ms :: "bool \<Rightarrow> int \<Rightarrow> int" where
  \<comment> \<open>what \<open>Sleep\<close> or \<open>usleep\<close> is called with\<close>
  "sleep_ms windows milliseconds = (if windows then milliseconds else wrap32 (milliseconds * 1000))"

definition get_terminal_width :: "bool \<Rightarrow> (int \<times> int) option \<Rightarrow> int" where
  \<comment> \<open>the outcome of the system call: on Windows the first and last column, else columns and rows\<close>
  "get_terminal_width windows w = (case w of None \<Rightarrow> 80 | Some (a, b) \<Rightarrow> if windows then b - a + 1 else a)"

definition get_terminal_height :: "bool \<Rightarrow> (int \<times> int) option \<Rightarrow> int" where
  \<comment> \<open>on Windows the first and last row\<close>
  "get_terminal_height windows w = (case w of None \<Rightarrow> 24 | Some (a, b) \<Rightarrow> if windows then b - a + 1 else b)"

definition print_performance_stats :: "string \<Rightarrow> (int \<Rightarrow> string) \<Rightarrow> (int \<Rightarrow> string) \<Rightarrow> string \<Rightarrow> int \<Rightarrow> string list" where
  \<comment> \<open>line by line, with the texts of the time, and of the megabytes and the rate for a number of bytes\<close>
  "print_performance_stats seconds megabytes rate operation bytes_processed =
     [COLOR_CYAN @ ''Performance Stats:'' @ COLOR_RESET, ''  Operation: '' @ operation, ''  Time: '' @ seconds @ '' seconds''] @
     (if 0 < bytes_processed then [''  Data: '' @ megabytes bytes_processed @ '' MB'', ''  Throughput: '' @ rate bytes_processed @ '' MB/s'']
      else []) @ [[]]"

section \<open>Diagnostics of the database\<close>

definition schema_lines :: "Table \<Rightarrow> string list" where
  "schema_lines t =
     [''Table: '' @ t_name t, ''Records: '' @ show_int (int (t_record_count t)), ''Fields:''] @
     map (\<lambda>j. ''  '' @ t_field_names t ! j @ '' ('' @ field_type_to_string (t_field_types t ! j) @ '')'' @
       (if c_primary_key (t_constraints t ! j) then '' PRIMARY KEY'' else []) @
       (if c_unique (t_constraints t ! j) then '' UNIQUE'' else []) @
       (if \<not> c_nullable (t_constraints t ! j) then '' NOT NULL'' else [])) [0..<t_field_count t] @
     (case t_index_manager t of None \<Rightarrow> [''Indexes: 0'']
      | Some m \<Rightarrow> (''Indexes: '' @ show_int (int (im_index_count m))) #
          map (\<lambda>ix. ''  - '' @ ix_field_name ix @ '' ('' @ index_type_to_string_simple (ix_type ix) @ '')'') (live_indexes m)) @ [[]]"

definition db_print_schema :: "Database option \<Rightarrow> string list" where
  \<comment> \<open>line by line\<close>
  "db_print_schema dbp = (case dbp of None \<Rightarrow> [''Database is NULL'']
     | Some db \<Rightarrow> [[], ''=== DATABASE SCHEMA ==='', ''Tables: '' @ show_int (int (db_table_count db)), []] @
         concat (map schema_lines (take (db_table_count db) (db_tables db))))"

definition db_print_statistics :: "(int \<Rightarrow> int \<Rightarrow> string) \<Rightarrow> Database option \<Rightarrow> string list" where
  \<comment> \<open>\<open>rate hits accesses\<close>: the percentage, with two digits\<close>
  "db_print_statistics rate dbp = (case dbp of None \<Rightarrow> [''No statistics available'']
     | Some db \<Rightarrow> (case db_statistics db of None \<Rightarrow> [''No statistics available'']
       | Some s \<Rightarrow>
           [[], ''=== DATABASE STATISTICS ==='', ''Tables Created: '' @ show_int (ds_tables_created s),
            ''Records Inserted: '' @ show_int (ds_records_inserted s), ''Records Updated: '' @ show_int (ds_records_updated s),
            ''Records Deleted: '' @ show_int (ds_records_deleted s), ''Queries Executed: '' @ show_int (ds_queries_executed s),
            ''Cache Hits: '' @ show_int (ds_cache_hits s), ''Cache Misses: '' @ show_int (ds_cache_misses s),
            ''Transactions Started: '' @ show_int (ds_transactions_started s),
            ''Transactions Committed: '' @ show_int (ds_transactions_committed s),
            ''Transactions Rolled Back: '' @ show_int (ds_transactions_rolled_back s),
            ''Indexes Created: '' @ show_int (ds_indexes_created s), ''Indexes Dropped: '' @ show_int (ds_indexes_dropped s)] @
           (if 0 < ds_cache_hits s + ds_cache_misses s
            then [''Cache Hit Rate: '' @ rate (ds_cache_hits s) (ds_cache_hits s + ds_cache_misses s) @ ''%''] else [])))"

section \<open>Tables are drawn straight\<close>

definition continues :: "char \<Rightarrow> bool" where
  \<comment> \<open>a byte of a UTF-8 sequence after its first\<close>
  "continues c \<longleftrightarrow> 128 \<le> (of_char c :: nat) \<and> (of_char c :: nat) < 192"

definition glyphs :: "string \<Rightarrow> nat" where
  \<comment> \<open>the characters of a UTF-8 text\<close>
  "glyphs s = length (filter (\<lambda>c. \<not> continues c) s)"

definition extra_bytes :: "string \<Rightarrow> nat" where
  "extra_bytes s = length (filter continues s)"

lemma glyphs_simps [simp]:
  "glyphs [] = 0" "glyphs (s @ t) = glyphs s + glyphs t" "glyphs (c # s) = (if continues c then glyphs s else Suc (glyphs s))"
  "glyphs (concat ss) = sum_list (map glyphs ss)" "glyphs (replicate n c) = (if continues c then 0 else n)"
  by (simp_all add: glyphs_def [abs_def] filter_concat length_concat comp_def)

lemma glyphs_extra: "glyphs s + extra_bytes s = length s"
  using sum_length_filter_compl [of continues s] by (simp add: glyphs_def extra_bytes_def)

lemma glyphs_lines [simp]: "glyphs single_line = 1" "glyphs single_side = 1" "\<not> continues newline" "\<not> continues (CHR '' '')"
  by (simp_all add: single_line_def single_side_def newline_def continues_def)

definition table_width :: "int list \<Rightarrow> nat" where
  \<comment> \<open>of a line, its end included\<close>
  "table_width widths = sum_list (map (\<lambda>w. nat w + 3) widths) + 2"

lemma sum_list_nth: "sum_list (map (\<lambda>i. f (xs ! i)) [0..<length xs]) = sum_list (map f xs)"
proof -
  have "map (\<lambda>i. f (xs ! i)) [0..<length xs] = map f xs" by (rule nth_equalityI) auto
  then show ?thesis by (rule arg_cong)
qed

lemma glyphs_rule_line:
  assumes "widths \<noteq> []" and "list_all (\<lambda>w. 0 \<le> w) widths" and "glyphs a = 1" and "glyphs b = 1" and "glyphs c = 1"
  shows "glyphs (rule_line a b c widths) = table_width widths"
proof -
  let ?n = "length widths"
  have "sum_list (map (\<lambda>i. if i < m then (1::nat) else 0) [0..<n]) = min n m" for m n by (induction n) auto
  then have joints: "sum_list (map (\<lambda>i. if i < ?n - 1 then (1::nat) else 0) [0..<?n]) = ?n - 1" by simp
  have "sum_list (map (\<lambda>i. nat (widths ! i + 2) + (if i < ?n - 1 then 1 else 0)) [0..<?n]) =
      sum_list (map (\<lambda>w. nat (w + 2)) widths) + (?n - 1)"
    using joints by (simp add: sum_list_addf sum_list_nth [where f = "\<lambda>w. nat (w + 2)"])
  moreover have "sum_list (map (\<lambda>w. nat (w + 2)) widths) + ?n = sum_list (map (\<lambda>w. nat w + 3) widths)"
    using assms(2) by (induction widths) (auto simp: nat_add_distrib)
  moreover have "0 < ?n" using assms(1) by simp
  moreover have "glyphs (rule_line a b c widths) =
      3 + sum_list (map (\<lambda>i. nat (widths ! i + 2) + (if i < ?n - 1 then 1 else 0)) [0..<?n])"
    using assms(3-5) by (simp add: rule_line_def comp_def sum_list_replicate if_distrib cong: if_cong)
  moreover have "1 \<le> sum_list (map (\<lambda>w. nat w + 3) widths)" using assms(1) by (cases widths) auto
  ultimately show ?thesis by (simp add: table_width_def)
qed

lemma glyphs_cell_line:
  assumes "list_all2 (\<lambda>v w. int (length v) \<le> w) values widths"
  shows "glyphs (cell_line values widths) + sum_list (map extra_bytes values) = table_width widths"
proof -
  have len: "length values = length widths" using assms by (rule list_all2_lengthD)
  have row: "glyphs (cell_line values widths) =
      2 + sum_list (map (\<lambda>i. 3 + glyphs (values ! i) + (nat \<bar>widths ! i\<bar> - length (values ! i))) [0..<length widths])"
    by (simp add: cell_line_def comp_def pad_right_def numeral_3_eq_3)
  have "map (\<lambda>i. 3 + glyphs (values ! i) + (nat \<bar>widths ! i\<bar> - length (values ! i)) + extra_bytes (values ! i)) [0..<length widths] =
      map (\<lambda>i. nat (widths ! i) + 3) [0..<length widths]"
  proof (rule map_cong [OF refl])
    fix i assume "i \<in> set [0..<length widths]"
    then have "int (length (values ! i)) \<le> widths ! i" using assms by (simp add: list_all2_conv_all_nth)
    then show "3 + glyphs (values ! i) + (nat \<bar>widths ! i\<bar> - length (values ! i)) + extra_bytes (values ! i) = nat (widths ! i) + 3"
      using glyphs_extra [of "values ! i"] by simp
  qed
  then have "sum_list (map (\<lambda>i. 3 + glyphs (values ! i) + (nat \<bar>widths ! i\<bar> - length (values ! i)) + extra_bytes (values ! i))
      [0..<length widths]) = sum_list (map (\<lambda>w. nat w + 3) widths)"
    by (simp only: sum_list_nth [where f = "\<lambda>w. nat w + 3"])
  then show ?thesis
    using sum_list_nth [of extra_bytes "values"] unfolding row table_width_def len sum_list_addf [of _ "\<lambda>i. extra_bytes (values ! i)"]
    by linarith
qed

text \<open>C34: a table is drawn straight: where every text fits its column in bytes, all lines of the header, the footer
  and the rows of plain text have the same number of characters. The padding counts bytes, so a row with other
  texts is shorter by the bytes that continue their characters.\<close>

theorem table_lines_align:
  assumes "list_all2 (\<lambda>v w. int (length (case v of Some s \<Rightarrow> s | None \<Rightarrow> ''NULL'')) \<le> w) vs widths"
    and "list_all2 (\<lambda>h w. int (length h) \<le> w) headers widths" and "list_all (\<lambda>h. extra_bytes h = 0) headers"
    and "widths \<noteq> []"
  shows "(\<exists>l1 l2 l3. print_table_header headers widths = COLOR_BOLD @ l1 @ l2 @ l3 @ COLOR_RESET \<and>
      (\<forall>l \<in> {l1, l2, l3, print_table_footer widths}. glyphs l = table_width widths)) \<and>
    glyphs (print_table_row vs widths) + sum_list (map (\<lambda>v. case v of Some s \<Rightarrow> extra_bytes s | None \<Rightarrow> 0) vs) =
      table_width widths"
proof (intro conjI exI)
  let ?s = "\<lambda>v. case v of Some s \<Rightarrow> s | None \<Rightarrow> ''NULL''"
  have "list_all (\<lambda>w. 0 \<le> w) widths"
    using assms(2) by (auto simp: list_all2_conv_all_nth list_all_length)
  note rule = glyphs_rule_line [OF assms(4) this]
  have "sum_list (map extra_bytes headers) = 0" using assms(3) by (induction headers) auto
  then have "glyphs (cell_line headers widths) = table_width widths" using glyphs_cell_line [OF assms(2)] by linarith
  moreover have "glyphs (rule_line [CHR 0xE2, CHR 0x94, x] [CHR 0xE2, CHR 0x94, y] [CHR 0xE2, CHR 0x94, z] widths) =
      table_width widths" if "continues x" "continues y" "continues z" for x y z
    by (rule rule) (use that in \<open>simp_all add: continues_def\<close>)
  ultimately show "\<forall>l \<in> {rule_line [CHR 0xE2, CHR 0x94, CHR 0x8C] [CHR 0xE2, CHR 0x94, CHR 0xAC] [CHR 0xE2, CHR 0x94, CHR 0x90] widths,
      cell_line headers widths,
      rule_line [CHR 0xE2, CHR 0x94, CHR 0x9C] [CHR 0xE2, CHR 0x94, CHR 0xBC] [CHR 0xE2, CHR 0x94, CHR 0xA4] widths,
      print_table_footer widths}. glyphs l = table_width widths"
    by (simp add: print_table_footer_def continues_def)
  have fits: "list_all2 (\<lambda>v w. int (length v) \<le> w) (map ?s vs) widths" using assms(1) by (simp add: list.rel_map)
  have extra: "map extra_bytes (map ?s vs) = map (\<lambda>v. case v of Some s \<Rightarrow> extra_bytes s | None \<Rightarrow> 0) vs"
    by (auto simp: extra_bytes_def continues_def split: option.split)
  from glyphs_cell_line [OF fits] show "glyphs (print_table_row vs widths) + sum_list (map (\<lambda>v. case v of Some s \<Rightarrow> extra_bytes s | None \<Rightarrow> 0) vs) =
      table_width widths"
    unfolding extra print_table_row_def .
qed (simp add: print_table_header_def)

lemma table_lines_align_witness:
  "glyphs (print_table_row [Some ''7'', Some [CHR 0xC3, CHR 0xA9], None] [2, 4, 4]) = table_width [2, 4, 4] - 1"
proof -
  have "list_all2 (\<lambda>v w. int (length (case v of Some s \<Rightarrow> s | None \<Rightarrow> ''NULL'')) \<le> w)
    [Some ''7'', Some [CHR 0xC3, CHR 0xA9], None] [2, 4, 4]" by simp
  from table_lines_align [OF this, of "[''id'', ''name'', ''last'']", THEN conjunct2] show ?thesis
    by (simp add: extra_bytes_def continues_def)
qed

section \<open>Whole lines\<close>

lemma getline_loop_prefix:
  assumes "newline \<notin> set l" and "length line + length l < 2 ^ 31" and "length line < n"
  shows "\<exists>k' n'. getline_loop (\<lambda>_. True) k n line (l @ s) = getline_loop (\<lambda>_. True) k' n' (line @ l) s \<and>
    length line + length l < n' \<and> n' \<le> max n (2 * (length line + length l))"
  using assms
proof (induction l arbitrary: line n k)
  case (Cons c l)
  define n' where "n' = (if n \<le> length line + 1 then (2 * n) mod 2 ^ 32 else n)"
  have n': "length line + 1 < n'" "n' \<le> max n (2 * (length line + 1))"
    using Cons(3,4) by (auto simp: n'_def)
  have nl: "c \<noteq> newline" using Cons(2) by auto
  obtain k1 where step: "getline_loop (\<lambda>_. True) k n line ((c # l) @ s) = getline_loop (\<lambda>_. True) k1 n' (line @ [c]) (l @ s)"
    by (rule that [of "if n \<le> length line + 1 then Suc k else k"]) (simp add: n'_def Let_def nl)
  obtain k2 n2 where "getline_loop (\<lambda>_. True) k1 n' (line @ [c]) (l @ s) = getline_loop (\<lambda>_. True) k2 n2 ((line @ [c]) @ l) s"
    "length (line @ [c]) + length l < n2" "n2 \<le> max n' (2 * (length (line @ [c]) + length l))"
    using Cons(1) [of "line @ [c]" n' k1] Cons(2,3) n'(1) by auto
  then show ?case unfolding step using n'(2) by (intro exI [of _ k2] exI [of _ n2]) auto
next
  case Nil
  then show ?case by (intro exI [of _ k] exI [of _ n]) auto
qed

definition line_length :: "string \<Rightarrow> nat" where
  \<comment> \<open>of the first line, with its newline if it has one\<close>
  "line_length s = min (length s) (Suc (length (takeWhile (\<lambda>c. c \<noteq> newline) s)))"

lemma getline_loop_line:
  assumes "length s + 1 < 2 ^ 31" and "0 < n"
  shows "\<exists>n'. getline_loop (\<lambda>_. True) k n [] s = Some (take (line_length s) s, drop (line_length s) s, n') \<and>
    line_length s < n' \<and> n' \<le> max n (2 * line_length s)"
proof -
  let ?l = "takeWhile (\<lambda>c. c \<noteq> newline) s" and ?r = "dropWhile (\<lambda>c. c \<noteq> newline) s"
  have l: "newline \<notin> set ?l" by (auto dest: set_takeWhileD)
  have s: "s = ?l @ ?r" by simp
  then have len: "length s = length ?l + length ?r" by (metis length_append)
  then have "length [] + length ?l < 2 ^ 31" "length [] < n" using assms by simp_all
  from getline_loop_prefix [OF l this, of k ?r] obtain k1 n1 where
    loop: "getline_loop (\<lambda>_. True) k n [] s = getline_loop (\<lambda>_. True) k1 n1 ?l ?r" and
    n1: "length ?l < n1" "n1 \<le> max n (2 * length ?l)"
    by auto
  show ?thesis
  proof (cases ?r)
    case Nil
    then have eq: "?l = s" "line_length s = length s" using len s by (auto simp: line_length_def)
    show ?thesis using loop [unfolded Nil eq(1)] n1 [unfolded eq(1)] by (simp add: eq(2))
  next
    case (Cons c r)
    then have c: "c = newline" using hd_dropWhile [of "\<lambda>c. c \<noteq> newline" s] by auto
    then have k: "line_length s = Suc (length ?l)" using len Cons by (simp add: line_length_def)
    have "s = (?l @ [newline]) @ r" using s Cons c by simp
    then have "take (line_length s) s = ?l @ [newline]" "drop (line_length s) s = r"
      unfolding k by (metis append_eq_conv_conj length_append_singleton)+
    moreover define n2 where "n2 = (if n1 \<le> length ?l + 1 then (2 * n1) mod 2 ^ 32 else n1)"
    have "getline_loop (\<lambda>_. True) k1 n1 ?l ?r = Some (?l @ [newline], r, n2)"
      unfolding Cons c n2_def by (simp add: Let_def)
    moreover have "length ?l + 2 < 2 ^ 31" using assms(1) len Cons by simp
    then have "Suc (length ?l) < n2" "n2 \<le> max n (2 * Suc (length ?l))" using n1 by (auto simp: n2_def le_max_iff_disj)
    ultimately show ?thesis unfolding loop k by simp
  qed
qed

text \<open>C29: the replacement for \<open>getline\<close> reads what \<open>getline\<close> reads, for lines shorter than two gigabytes: the bytes up to
  and with the first newline, or to the end. The buffer always has room for the line and its terminator, and is
  never more than twice the line, or its first size. At the end of the input there is no line, and nothing else is
  taken from it.\<close>

theorem getline_reads_line:
  assumes "length s + 1 < 2 ^ 31" and "buf \<noteq> Some 0"
  shows "\<exists>n. getline (\<lambda>_. True) buf s =
      (if s = [] then None else Some (take (line_length s) s, drop (line_length s) s, n)) \<and>
    line_length s < n \<and> n \<le> max (case buf of None \<Rightarrow> 128 | Some m \<Rightarrow> m) (2 * line_length s)"
proof -
  have empty: "take (line_length s) s = [] \<longleftrightarrow> s = []" by (cases s) (auto simp: line_length_def)
  show ?thesis
  proof (cases buf)
    case None
    then show ?thesis using getline_loop_line [OF assms(1), of 128 1] empty by (auto simp: getline_def)
  next
    case (Some m)
    then show ?thesis using getline_loop_line [OF assms(1), of m 0] assms(2) empty by (auto simp: getline_def)
  qed
qed

lemma getline_reads_line_witness:
  "\<exists>n. getline (\<lambda>_. True) (Some 2) (''SELECT'' @ newline # ''x'') = Some (''SELECT'' @ [newline], ''x'', n) \<and> 7 < n \<and> n \<le> 14"
proof -
  have "line_length (''SELECT'' @ newline # ''x'') = 7" by code_simp
  then show ?thesis using getline_reads_line [of "''SELECT'' @ newline # ''x''" "Some 2"] by (simp add: max_def)
qed

section \<open>Progress\<close>

definition full_block :: string where "full_block = [CHR 0xE2, CHR 0x96, CHR 0x88]"
definition light_block :: string where "light_block = [CHR 0xE2, CHR 0x96, CHR 0x91]"

lemma map_split_at:
  "concat (map (\<lambda>i. if i < k then a else b) [0..<n]) = concat (replicate (min n k) a) @ concat (replicate (n - k) b)"
proof (induction n)
  case (Suc n)
  show ?case
  proof (cases "n < k")
    case True
    then have "min (Suc n) k = Suc (min n k)" "min n k = n" "n - k = 0" "Suc n - k = 0" by auto
    moreover have "replicate (Suc n) a = replicate n a @ [a]" by (simp add: replicate_append_same)
    ultimately show ?thesis using Suc True by simp
  next
    case False
    then have "min (Suc n) k = min n k" "Suc n - k = Suc (n - k)" by auto
    moreover have "replicate (Suc (n - k)) b = replicate (n - k) b @ [b]" by (simp add: replicate_append_same)
    ultimately show ?thesis using Suc False by simp
  qed
qed simp

lemma progress_bar_filled:
  assumes "0 \<le> percentage" and "0 \<le> width" and "percentage * width < 2 ^ 31"
  shows "print_progress_bar percentage width = COLOR_BLUE @ ''['' @
    concat (replicate (min (nat width) (nat (percentage * width div 100))) full_block) @
    concat (replicate (nat width - nat (percentage * width div 100)) light_block) @
    ''] '' @ show_int percentage @ ''%'' @ COLOR_RESET @ [newline]"
proof -
  have "0 \<le> percentage * width" using assms(1,2) by simp
  then have "c_int (percentage * width)" using assms(3) by (simp add: c_int_def int_min_def int_max_def)
  then have "c_div (wrap32 (percentage * width)) 100 = int (nat (percentage * width div 100))"
    using \<open>0 \<le> percentage * width\<close> by (simp add: c_div_def)
  then have "print_progress_bar percentage width = COLOR_BLUE @ ''['' @
      concat (map (\<lambda>i. if i < nat (percentage * width div 100) then full_block else light_block) [0..<nat width]) @
      ''] '' @ show_int percentage @ ''%'' @ COLOR_RESET @ [newline]"
    unfolding print_progress_bar_def Let_def full_block_def light_block_def by (simp only: of_nat_less_iff)
  then show ?thesis by (simp only: map_split_at append_assoc)
qed

section \<open>A log keeps what is above its level\<close>

fun log_all :: "Logger \<Rightarrow> (tm \<times> int \<times> string) list \<Rightarrow> file_system \<times> string \<Rightarrow> (file_system \<times> string) run" where
  \<comment> \<open>the calls in their order, with the times at which they are made\<close>
  "log_all logger [] st = Returns st"
| "log_all logger ((now, level, message) # calls) st =
     (case log_message (\<lambda>_. True) now (Some logger) level message st of
        Returns st' \<Rightarrow> log_all logger calls st' | OutOfFuel \<Rightarrow> OutOfFuel | Undefined \<Rightarrow> Undefined)"

definition logged_line :: "tm \<times> int \<times> string \<Rightarrow> string" where
  "logged_line = (\<lambda>(now, level, message). log_line (date_text now @ '' '' @ time_text now) level message)"

lemma log_all_lines:
  assumes "list_all (\<lambda>c. tm_ok (fst c)) calls" and "files (lg_file logger) = Some c"
  shows "log_all logger calls (files, out) =
    (let kept = filter (\<lambda>c. lg_level logger \<le> fst (snd c)) calls in
     Returns (files(lg_file logger \<mapsto> c @ concat (map (\<lambda>l. logged_line l @ [newline]) kept)),
       out @ concat (map (\<lambda>l. snd (level_name (fst (snd l))) @ logged_line l @ COLOR_RESET @ [newline])
         (filter (\<lambda>c. 1 \<le> fst (snd c)) kept))))"
  using assms
proof (induction calls arbitrary: files c out)
  case Nil
  then show ?case by (auto simp: fun_upd_idem_iff)
next
  case (Cons call calls)
  obtain now level message where call: "call = (now, level, message)" by (rule prod_cases3)
  have ts: "get_current_timestamp (\<lambda>_. True) now = Returns (Some (date_text now @ '' '' @ time_text now))"
    using Cons(2) format_fits [of now] by (simp add: call get_current_timestamp_def strftime_array_def)
  have calls: "list_all (\<lambda>c. tm_ok (fst c)) calls" using Cons(2) by simp
  show ?case
  proof (cases "lg_level logger \<le> level")
    case False
    then show ?thesis using Cons(1) [where files = files and c = c, OF calls Cons(3)] by (simp add: call log_message_def)
  next
    case True
    let ?files = "files(lg_file logger \<mapsto> c @ logged_line call @ [newline])"
    have m: "log_message (\<lambda>_. True) now (Some logger) level message (files, out) =
        Returns (?files, if 1 \<le> level then out @ snd (level_name level) @ logged_line call @ COLOR_RESET @ [newline] else out)"
      using True by (simp add: log_message_def ts Let_def logged_line_def call Cons(3))
    have "?files (lg_file logger) = Some (c @ logged_line call @ [newline])" by simp
    note ih = Cons(1) [where files = ?files and c = "c @ logged_line call @ [newline]", OF calls this]
    have kept: "filter (\<lambda>c. lg_level logger \<le> fst (snd c)) (call # calls) =
        call # filter (\<lambda>c. lg_level logger \<le> fst (snd c)) calls"
      using True by (simp add: call)
    have "log_all logger (call # calls) (files, out) = log_all logger calls (?files,
        if 1 \<le> level then out @ snd (level_name level) @ logged_line call @ COLOR_RESET @ [newline] else out)"
      using m by (simp add: call)
    then show ?thesis unfolding kept Let_def ih by (simp add: call)
  qed
qed



end
