(* ===== verification/Lx_Memory.thy ===== *)
theory Lx_Memory
  imports Lx_Database_Props Lx_Query Lx_Json_Reader
begin

text \<open>
  The functions that release memory: those of \<open>src/src/database.c\<close> with \<open>db_close\<close>, and \<open>free_query\<close>,
  \<open>query_result_free\<close> and \<open>index_free\<close>.

  The heap is the set of the blocks that are allocated. A block has the name of the pointer that owns it: the handle, an
  array of the handle or of its \<open>i\<close>-th table, the \<open>j\<close>-th node of a list of records, and so on. Two
  owners never share a block, since each is set by an allocation of its own. A releasing function is the
  list of what it does to the heap, in its order: it reads a structure, which has to be allocated then, and
  it releases a pointer, which is NULL or has to be allocated then.
\<close>

section \<open>Blocks\<close>

datatype block = Handle_Block | Tables_Block | Cache_Block
  | Names_Block nat | Name_Block nat nat | Types_Block nat | Constraints_Block nat
  | Record_Block nat nat | Fields_Block nat nat
  | Manager_Block "nat option" | Indexes_Block "nat option" | Index_Block "nat option" nat
  | Statistics_Block "nat option"
  | Query_Block | Query_Table_Block | Query_Fields_Block | Query_Field_Block nat | Conditions_Block
  | Condition_Block nat string
  | Result_Block | Message_Block

text \<open>The argument \<open>None\<close> stands for the handle itself, \<open>Some i\<close> for its \<open>i\<close>-th table.\<close>

type_synonym heap = "block set"

datatype mem_op = Reads block | Frees "block option"

fun exec :: "mem_op list \<Rightarrow> heap \<Rightarrow> heap run" where
  "exec [] h = Returns h"
| "exec (Reads b # ops) h = (if b \<in> h then exec ops h else Undefined)"
| "exec (Frees None # ops) h = exec ops h"
| "exec (Frees (Some b) # ops) h = (if b \<in> h then exec ops (h - {b}) else Undefined)"

section \<open>The functions of the database\<close>

definition free_index_manager :: "nat option \<Rightarrow> IndexManager option \<Rightarrow> mem_op list" where
  \<comment> \<open>the \<open>data\<close> of an index is the NULL that \<open>create_simple_index\<close> stores\<close>
  "free_index_manager who mp = (case mp of None \<Rightarrow> []
     | Some manager \<Rightarrow> Reads (Manager_Block who) #
         (if im_indexes_ptr manager = NullPtr then []
          else concat (map (\<lambda>i. [Reads (Indexes_Block who), Reads (Index_Block who i), Frees None, Frees (Some (Index_Block who i))])
              [0..<im_index_count manager]) @ [Frees (Some (Indexes_Block who))]) @
         [Frees (Some (Manager_Block who))])"

definition free_simple_statistics :: "DatabaseStatistics option \<Rightarrow> mem_op list" where
  "free_simple_statistics stats = (case stats of None \<Rightarrow> [] | Some _ \<Rightarrow> [Frees (Some (Statistics_Block None))])"

definition free_simple_table_statistics :: "nat \<Rightarrow> TableStatistics option \<Rightarrow> mem_op list" where
  "free_simple_table_statistics i stats = (case stats of None \<Rightarrow> [] | Some _ \<Rightarrow> [Frees (Some (Statistics_Block (Some i)))])"

definition free_simple_cache :: "Cache option \<Rightarrow> mem_op list" where
  \<comment> \<open>the \<open>data\<close> of a cache is the NULL that \<open>create_simple_cache\<close> stores\<close>
  "free_simple_cache cache = (case cache of None \<Rightarrow> [] | Some _ \<Rightarrow> [Reads Cache_Block, Frees (Some Cache_Block)])"

definition table_free :: "nat \<Rightarrow> Table \<Rightarrow> mem_op list" where
  \<comment> \<open>of the \<open>i\<close>-th table, which is in the array of the handle\<close>
  "table_free i t = Reads Tables_Block #
     concat (map (\<lambda>j. [Reads (Names_Block i), Frees (Some (Name_Block i j))]) [0..<t_field_count t]) @
     [Frees (Some (Names_Block i)), Frees (Some (Types_Block i)), Frees (Some (Constraints_Block i))] @
     concat (map (\<lambda>j. [Reads (Record_Block i j), Frees (Some (Fields_Block i j)), Frees (Some (Record_Block i j))])
       [0..<length (t_records t)]) @
     free_index_manager (Some i) (t_index_manager t) @ free_simple_table_statistics i (t_statistics t)"

definition db_free :: "Database option \<Rightarrow> mem_op list" where
  "db_free dbp = (case dbp of None \<Rightarrow> []
     | Some db \<Rightarrow> Reads Handle_Block #
         (if db_table_capacity db = 0 then [] \<comment> \<open>\<open>tables\<close> is NULL\<close>
          else concat (map (\<lambda>i. table_free i (db_tables db ! i)) [0..<db_table_count db]) @ [Frees (Some Tables_Block)]) @
         free_index_manager None (db_index_manager db) @ free_simple_cache (db_cache db) @
         free_simple_statistics (db_statistics db) @ [Frees (Some Handle_Block)])"

definition db_close :: "Database option \<Rightarrow> heap \<Rightarrow> (ErrorCode \<times> heap) run" where
  "db_close dbp h = (case dbp of None \<Rightarrow> Returns (ERROR_INVALID_INPUT, h)
     | Some db \<Rightarrow> (case exec (db_free dbp) h of Returns h' \<Rightarrow> Returns (SUCCESS, h')
         | OutOfFuel \<Rightarrow> OutOfFuel | Undefined \<Rightarrow> Undefined))"

section \<open>Other structures\<close>

definition free_query :: "Query option \<Rightarrow> mem_op list" where
  \<comment> \<open>the texts of a condition are stored by \<open>parse_condition\<close>\<close>
  "free_query qp = (case qp of None \<Rightarrow> []
     | Some query \<Rightarrow> [Reads Query_Block, Frees (map_option (\<lambda>_. Query_Table_Block) (q_table query))] @
         (case q_fields query of None \<Rightarrow> []
          | Some _ \<Rightarrow> concat (map (\<lambda>i. [Reads Query_Fields_Block, Frees (Some (Query_Field_Block i))]) [0..<q_field_count query]) @
              [Frees (Some Query_Fields_Block)]) @
         (case q_conditions query of None \<Rightarrow> []
          | Some _ \<Rightarrow> concat (map (\<lambda>i. [Reads Conditions_Block, Frees (Some (Condition_Block i ''field'')),
                Frees (Some (Condition_Block i ''op'')), Frees (Some (Condition_Block i ''value''))]) [0..<q_condition_count query]) @
              [Frees (Some Conditions_Block)]) @
         [Frees (Some Query_Block)])"

definition query_result_free :: "EngineQueryResult option \<Rightarrow> mem_op list" where
  \<comment> \<open>\<open>data\<close> is never set to anything but NULL\<close>
  "query_result_free rp = (case rp of None \<Rightarrow> []
     | Some _ \<Rightarrow> [Reads Result_Block, Frees (Some Message_Block), Frees None, Frees (Some Result_Block)])"

definition index_free :: "nat \<Rightarrow> Index option \<Rightarrow> mem_op list" where
  \<comment> \<open>of the index in slot \<open>j\<close> of a registry\<close>
  "index_free j ip = (case ip of None \<Rightarrow> [] | Some _ \<Rightarrow> [Frees (Some (Index_Block None j))])"

section \<open>Releasing each block once\<close>

definition releases :: "mem_op list \<Rightarrow> heap \<Rightarrow> heap \<Rightarrow> bool" where
  \<comment> \<open>where the blocks of \<open>R\<close> and \<open>B\<close> are allocated, exactly those of \<open>B\<close> are released\<close>
  "releases ops R B \<longleftrightarrow> (\<forall>h. R \<union> B \<subseteq> h \<longrightarrow> exec ops h = Returns (h - B))"

lemma exec_append: "exec (a @ b) h = (case exec a h of Returns h' \<Rightarrow> exec b h' | OutOfFuel \<Rightarrow> OutOfFuel | Undefined \<Rightarrow> Undefined)"
  by (induction a h rule: exec.induct) auto

lemma releases_nil: "releases [] R {}"
  by (simp add: releases_def)

lemma releases_reads: "b \<in> R \<union> B \<Longrightarrow> releases ops R B \<Longrightarrow> releases (Reads b # ops) R B"
  by (auto simp: releases_def)

lemma releases_null: "releases ops R B \<Longrightarrow> releases (Frees None # ops) R B"
  by (simp add: releases_def)

lemma releases_frees: "b \<notin> R \<union> B \<Longrightarrow> releases ops R B \<Longrightarrow> releases (Frees (Some b) # ops) R (insert b B)"
proof (unfold releases_def, intro allI impI)
  fix h assume b: "b \<notin> R \<union> B" and ops: "\<forall>h. R \<union> B \<subseteq> h \<longrightarrow> exec ops h = Returns (h - B)" and h: "R \<union> insert b B \<subseteq> h"
  have "R \<union> B \<subseteq> h - {b}" using b h by blast
  then have "exec ops (h - {b}) = Returns (h - {b} - B)" using ops by blast
  moreover have "h - {b} - B = h - insert b B" by blast
  ultimately show "exec (Frees (Some b) # ops) h = Returns (h - insert b B)" using h by simp
qed

lemma releases_append:
  assumes "releases a Ra A" and "releases b R B" and "Ra \<subseteq> R \<union> A \<union> B" and "A \<inter> (R \<union> B) = {}"
  shows "releases (a @ b) R (A \<union> B)"
  unfolding releases_def
proof (intro allI impI)
  fix h assume h: "R \<union> (A \<union> B) \<subseteq> h"
  then have "Ra \<union> A \<subseteq> h" "R \<union> B \<subseteq> h - A" using assms(3,4) by blast+
  then have "exec a h = Returns (h - A)" "exec b (h - A) = Returns (h - A - B)" using assms(1,2) unfolding releases_def by blast+
  moreover have "h - A - B = h - (A \<union> B)" by blast
  ultimately show "exec (a @ b) h = Returns (h - (A \<union> B))" by (simp add: exec_append)
qed

lemma releases_map:
  assumes "\<And>i. i < n \<Longrightarrow> releases (f i) R (B i)" and "\<And>i. i < n \<Longrightarrow> R \<inter> B i = {}"
    and "\<And>i j. i < j \<Longrightarrow> j < n \<Longrightarrow> B i \<inter> B j = {}"
  shows "releases (concat (map f [0..<n])) R (\<Union>i < n. B i)"
  using assms
proof (induction n)
  case (Suc n)
  have "releases (concat (map f [0..<n])) R (\<Union>i < n. B i)" by (rule Suc(1)) (use Suc(2-4) in auto)
  moreover have "B i \<inter> (R \<union> B n) = {}" if "i < n" for i using Suc(3) [of i] Suc(4) [OF that] that by auto
  then have "(\<Union>i < n. B i) \<inter> (R \<union> B n) = {}" by blast
  ultimately have "releases (concat (map f [0..<n]) @ f n) R ((\<Union>i < n. B i) \<union> B n)"
    using Suc(2) [of n] by (intro releases_append) auto
  then show ?case by (simp add: lessThan_Suc Un_commute)
qed (simp add: releases_nil)

section \<open>What a handle owns\<close>

definition manager_blocks :: "nat option \<Rightarrow> IndexManager option \<Rightarrow> heap" where
  "manager_blocks who mp = (case mp of None \<Rightarrow> {}
     | Some m \<Rightarrow> insert (Manager_Block who) (if im_indexes_ptr m = NullPtr then {}
         else insert (Indexes_Block who) (Index_Block who ` {..<length (live_indexes m)})))"

definition table_blocks :: "nat \<Rightarrow> Table \<Rightarrow> heap" where
  "table_blocks i t = {Names_Block i, Types_Block i, Constraints_Block i} \<union> Name_Block i ` {..<length (t_field_names t)} \<union>
     Record_Block i ` {..<length (t_records t)} \<union> Fields_Block i ` {..<length (t_records t)} \<union>
     manager_blocks (Some i) (t_index_manager t) \<union> (if t_statistics t = None then {} else {Statistics_Block (Some i)})"

definition db_blocks :: "Database \<Rightarrow> heap" where
  "db_blocks db = {Handle_Block} \<union>
     (if db_table_capacity db = 0 then {} else insert Tables_Block (\<Union>i < length (db_tables db). table_blocks i (db_tables db ! i))) \<union>
     manager_blocks None (db_index_manager db) \<union> (if db_cache db = None then {} else {Cache_Block}) \<union>
     (if db_statistics db = None then {} else {Statistics_Block None})"

lemma releases_set: "releases ops R B \<Longrightarrow> B = B' \<Longrightarrow> releases ops R B'"
  by simp

lemmas release_rules = releases_reads releases_null releases_frees releases_nil

lemma releases_one: "b \<notin> R \<Longrightarrow> releases [Frees (Some b)] R {b}"
  by (rule releases_frees) (simp_all add: releases_nil)

lemma releases_manager:
  assumes "case mp of None \<Rightarrow> True | Some m \<Rightarrow> im_index_count m \<le> length (im_indexes m)"
  shows "releases (free_index_manager who mp) {} (manager_blocks who mp)"
proof (cases mp)
  case None
  then show ?thesis by (simp add: free_index_manager_def manager_blocks_def releases_nil)
next
  case (Some m)
  let ?entry = "\<lambda>i. [Reads (Indexes_Block who), Reads (Index_Block who i), Frees None, Frees (Some (Index_Block who i))]"
  let ?n = "im_index_count m" and ?all = "concat (map ?entry [0..<im_index_count m]) @ [Frees (Some (Indexes_Block who))]"
  have n: "length (live_indexes m) = ?n" using assms Some by (simp add: live_indexes_def)
  have self: "releases [Frees (Some (Manager_Block who))] {} {Manager_Block who}" by (rule releases_one) simp
  have "releases (?entry i) {Indexes_Block who} {Index_Block who i}" for i
    by (intro releases_reads releases_null releases_one) auto
  then have "releases (concat (map ?entry [0..<?n])) {Indexes_Block who} (\<Union>i < ?n. {Index_Block who i})"
    by (intro releases_map) auto
  from releases_append [OF this releases_one [of _ "{}"]]
  have all: "releases ?all {} (insert (Indexes_Block who) (Index_Block who ` {..<?n}))"
    by (rule releases_set) auto
  show ?thesis
  proof (cases "im_indexes_ptr m = NullPtr")
    case True
    then show ?thesis using self
      by (simp add: Some free_index_manager_def manager_blocks_def releases_reads)
  next
    case False
    have "releases (?all @ [Frees (Some (Manager_Block who))]) {}
        (insert (Indexes_Block who) (Index_Block who ` {..<?n}) \<union> {Manager_Block who})"
      by (rule releases_append [OF all self]) auto
    then have "releases (?all @ [Frees (Some (Manager_Block who))]) {}
        (insert (Manager_Block who) (insert (Indexes_Block who) (Index_Block who ` {..<?n})))"
      by (rule releases_set) auto
    then show ?thesis using False
      by (simp add: Some free_index_manager_def manager_blocks_def n releases_reads)
  qed
qed

lemma releases_more: "releases ops R B \<Longrightarrow> R \<subseteq> R' \<Longrightarrow> releases ops R' B"
  unfolding releases_def by blast

lemma manager_blocks_range: "manager_blocks who mp \<subseteq> {Manager_Block who, Indexes_Block who} \<union> range (Index_Block who)"
  by (auto simp: manager_blocks_def split: option.splits if_splits)

lemma releases_table:
  assumes "table_ok t"
  shows "releases (table_free i t) {Tables_Block} (table_blocks i t)"
proof -
  let ?k = "t_field_count t" and ?r = "length (t_records t)" and ?m = "manager_blocks (Some i) (t_index_manager t)"
  let ?s = "if t_statistics t = None then {} else {Statistics_Block (Some i)}"
  let ?names = "concat (map (\<lambda>j. [Reads (Names_Block i), Frees (Some (Name_Block i j))]) [0..<?k])"
  let ?arrays = "[Frees (Some (Names_Block i)), Frees (Some (Types_Block i)), Frees (Some (Constraints_Block i))]"
  let ?rows = "concat (map (\<lambda>j. [Reads (Record_Block i j), Frees (Some (Fields_Block i j)), Frees (Some (Record_Block i j))]) [0..<?r])"
  let ?rest = "free_index_manager (Some i) (t_index_manager t) @ free_simple_table_statistics i (t_statistics t)"
  have k: "length (t_field_names t) = ?k" using assms by (simp add: table_ok_def schema_ok_def)
  have m: "?m \<subseteq> {Manager_Block (Some i), Indexes_Block (Some i)} \<union> range (Index_Block (Some i))" by (rule manager_blocks_range)
  have manager: "releases (free_index_manager (Some i) (t_index_manager t)) {} ?m"
    using assms by (intro releases_manager) (auto simp: table_ok_def manager_ok_def simple_manager_ok_def split: option.splits)
  have stats: "releases (free_simple_table_statistics i (t_statistics t)) {} ?s"
    by (auto simp: free_simple_table_statistics_def releases_nil releases_one split: option.split)
  have rest: "releases ?rest {} (?m \<union> ?s)" by (rule releases_append [OF manager stats]) (use m in auto)
  have "releases [Reads (Record_Block i j), Frees (Some (Fields_Block i j)), Frees (Some (Record_Block i j))] {}
      {Fields_Block i j, Record_Block i j}" for j
    by (intro release_rules) auto
  then have rows: "releases ?rows {} (\<Union>j < ?r. {Fields_Block i j, Record_Block i j})" by (intro releases_map) auto
  have arrays: "releases ?arrays {} {Names_Block i, Types_Block i, Constraints_Block i}" by (intro release_rules) auto
  have "releases [Reads (Names_Block i), Frees (Some (Name_Block i j))] {Names_Block i} {Name_Block i j}" for j
    by (intro release_rules) auto
  then have names: "releases ?names {Names_Block i} (\<Union>j < ?k. {Name_Block i j})" by (intro releases_map) auto
  have "releases (?rows @ ?rest) {} ((\<Union>j < ?r. {Fields_Block i j, Record_Block i j}) \<union> (?m \<union> ?s))"
    by (rule releases_append [OF rows rest]) (use m in auto)
  note tail = releases_append [OF arrays this]
  have "releases (?arrays @ ?rows @ ?rest) {} ({Names_Block i, Types_Block i, Constraints_Block i} \<union>
      ((\<Union>j < ?r. {Fields_Block i j, Record_Block i j}) \<union> (?m \<union> ?s)))"
    by (rule tail) (use m in auto)
  note all = releases_append [OF names this]
  have "releases (?names @ ?arrays @ ?rows @ ?rest) {} ((\<Union>j < ?k. {Name_Block i j}) \<union>
      ({Names_Block i, Types_Block i, Constraints_Block i} \<union> ((\<Union>j < ?r. {Fields_Block i j, Record_Block i j}) \<union> (?m \<union> ?s))))"
    by (rule all) (use m in auto)
  then have "releases (?names @ ?arrays @ ?rows @ ?rest) {Tables_Block} (table_blocks i t)"
    by (rule releases_more [OF releases_set]) (auto simp: table_blocks_def k)
  then show ?thesis by (simp add: table_free_def releases_reads)
qed

lemma table_blocks_apart:
  "i \<noteq> j \<Longrightarrow> table_blocks i s \<inter> table_blocks j t = {}" "Tables_Block \<notin> table_blocks i s"
  "manager_blocks None mp \<inter> table_blocks i s = {}" "{Handle_Block, Cache_Block, Statistics_Block None} \<inter> table_blocks i s = {}"
  using manager_blocks_range [of "Some i" "t_index_manager s"] manager_blocks_range [of "Some j" "t_index_manager t"]
    manager_blocks_range [of None mp]
  by (auto simp: table_blocks_def split: if_splits)

lemma releases_handle:
  assumes "db_ok db" and "manager_ok (db_index_manager db)"
  shows "releases (db_free (Some db)) {} (db_blocks db)"
proof -
  let ?n = "db_table_count db" and ?t = "\<lambda>i. db_tables db ! i" and ?m = "manager_blocks None (db_index_manager db)"
  let ?c = "if db_cache db = None then {} else {Cache_Block}"
  let ?s = "if db_statistics db = None then {} else {Statistics_Block None}"
  let ?tables = "if db_table_capacity db = 0 then [] else concat (map (\<lambda>i. table_free i (?t i)) [0..<?n]) @ [Frees (Some Tables_Block)]"
  let ?T = "if db_table_capacity db = 0 then {} else insert Tables_Block (\<Union>i < ?n. table_blocks i (?t i))"
  let ?last = "free_simple_statistics (db_statistics db) @ [Frees (Some Handle_Block)]"
  let ?cache = "free_simple_cache (db_cache db)" and ?manager = "free_index_manager None (db_index_manager db)"
  have n: "?n = length (db_tables db)" using assms(1) by (simp add: db_ok_def tables_ok_def)
  have "table_ok (?t i)" if "i < ?n" for i
    using assms(1) that by (auto simp: db_ok_def tables_ok_def list_all_length)
  then have "releases (concat (map (\<lambda>i. table_free i (?t i)) [0..<?n])) {Tables_Block} (\<Union>i < ?n. table_blocks i (?t i))"
    using table_blocks_apart(1,2) by (intro releases_map releases_table) auto
  note each = releases_append [OF this releases_one [of Tables_Block "{}"]]
  have "releases (concat (map (\<lambda>i. table_free i (?t i)) [0..<?n]) @ [Frees (Some Tables_Block)]) {}
      ((\<Union>i < ?n. table_blocks i (?t i)) \<union> {Tables_Block})"
    by (rule each) (use table_blocks_apart(2) in auto)
  then have tables: "releases ?tables {} ?T"
    by (cases "db_table_capacity db = 0") (simp_all add: releases_nil)
  have m: "?m \<subseteq> {Manager_Block None, Indexes_Block None} \<union> range (Index_Block None)" by (rule manager_blocks_range)
  have manager: "releases ?manager {} ?m"
    using assms(2) by (intro releases_manager) (auto simp: manager_ok_def simple_manager_ok_def split: option.splits)
  have cache: "releases ?cache {} ?c"
    by (auto simp: free_simple_cache_def releases_nil split: option.split intro!: releases_reads releases_one)
  have stats: "releases (free_simple_statistics (db_statistics db)) {} ?s"
    by (auto simp: free_simple_statistics_def releases_nil releases_one split: option.split)
  have fin: "releases ?last {} (?s \<union> {Handle_Block})"
    by (rule releases_append [OF stats releases_one]) auto
  have "releases (?cache @ ?last) {} (?c \<union> (?s \<union> {Handle_Block}))"
    by (rule releases_append [OF cache fin]) auto
  note rest = releases_append [OF manager this]
  have "releases (?manager @ ?cache @ ?last) {} (?m \<union> (?c \<union> (?s \<union> {Handle_Block})))" by (rule rest) (use m in auto)
  note all = releases_append [OF tables this]
  have "?T \<inter> (?m \<union> (?c \<union> (?s \<union> {Handle_Block}))) = {}"
    using table_blocks_apart(3) [of "db_index_manager db"] table_blocks_apart(4) m by auto
  then have "releases (?tables @ ?manager @ ?cache @ ?last) {} (?T \<union> (?m \<union> (?c \<union> (?s \<union> {Handle_Block}))))"
    by (intro all) auto
  then have "releases (?tables @ ?manager @ ?cache @ ?last) {} (db_blocks db)"
    by (rule releases_set) (auto simp: db_blocks_def n)
  moreover have "Handle_Block \<in> db_blocks db" by (simp add: db_blocks_def)
  ultimately show ?thesis by (simp add: db_free_def releases_reads)
qed

section \<open>The manager of the handle\<close>

lemma manager_txn [simp]:
  "db_index_manager (update_simple_statistics k db) = db_index_manager db"
  "db_index_manager (put_table db i t) = db_index_manager db"
  "db_index_manager (snd (db_begin_transaction now db)) = db_index_manager db"
  "db_index_manager (snd (db_commit_transaction db)) = db_index_manager db"
  "db_index_manager (snd (db_rollback_transaction db)) = db_index_manager db"
  by (simp_all add: update_simple_statistics_def put_table_def db_begin_transaction_def db_commit_transaction_def
      db_rollback_transaction_def Let_def)

lemma manager_local:
  assumes "\<And>db1. db_index_manager (snd (snd (body db1))) = db_index_manager db1"
  shows "db_index_manager (snd (snd (with_local_transaction now db d body))) = db_index_manager db"
  using assms by (simp add: with_local_transaction_def Let_def split_beta)

lemma manager_calls:
  "db_index_manager (snd (snd (db_add_table ok db np fp tp n))) = db_index_manager db"
  "db_index_manager (snd (snd (db_insert_record ok now gc db tn vp))) = db_index_manager db"
  "db_index_manager (snd (snd (db_batch_insert_records ok now gc db tn bp m w))) = db_index_manager db"
  "db_index_manager (snd (snd (db_update_record now db tn key vp))) = db_index_manager db"
  "db_index_manager (snd (snd (db_delete_record now db tn key))) = db_index_manager db"
  "db_index_manager (snd (snd (db_delete_records_by_field now db tn fn gp))) = db_index_manager db"
  "db_index_manager (snd (db_execute_query ok db qp)) = db_index_manager db"
  "db_create_index ok db tn fn type = Some (e, db') \<Longrightarrow> db_index_manager db' = db_index_manager db"
  "db_index_manager (snd (db_drop_index db tn fn)) = db_index_manager db"
  "db_index_manager (snd (db_reset_statistics db)) = db_index_manager db"
  by (simp add: db_add_table_def Let_def grow_tables_def split: option.split)
    (simp_all add: db_insert_record_def db_batch_insert_records_def db_update_record_def db_delete_record_def
      db_delete_records_by_field_def db_execute_query_def db_drop_index_def db_reset_statistics_def
      Let_def split_beta manager_local split: option.split,
     auto simp: db_create_index_def Let_def split_beta split: option.splits if_splits)

lemma perform_manager: "perform c (gc, db) = Some (e, gc', db') \<Longrightarrow> db_index_manager db' = db_index_manager db"
  by (cases c) (use manager_calls manager_txn in \<open>auto simp: split_beta Let_def db_vacuum_def db_optimize_def db_drop_table_def
    db_truncate_table_def db_alter_table_rename_column_def db_check_integrity_def\<close>)

lemma reachable_manager: "reachable s \<Longrightarrow> manager_ok (db_index_manager (snd s))"
proof (induction rule: reachable.induct)
  case (created ok db)
  then have "db_index_manager db = create_simple_index_manager (shift_alloc 1 ok)"
    by (auto simp: db_create_def split: if_splits)
  then show ?case
    by (simp add: manager_ok_def create_simple_index_manager_def simple_manager_ok_def)
qed (metis perform_manager prod.collapse)

text \<open>C22: closing a database releases every block that its handle owns, each once and no other, and reads none after it has
  been released: whatever the tables, records and indexes that calls of the interface have made. Closing it again is
  undefined behaviour.\<close>

theorem close_releases_all:
  assumes "reachable (gc, db)" and "db_blocks db \<subseteq> h"
  shows "db_close (Some db) h = Returns (SUCCESS, h - db_blocks db) \<and> db_close (Some db) (h - db_blocks db) = Undefined"
proof -
  have "db_ok db" "manager_ok (db_index_manager db)"
    using reachable_state_ok [OF assms(1)] reachable_manager [OF assms(1)] by (simp_all add: state_ok_def)
  then have "exec (db_free (Some db)) h = Returns (h - db_blocks db)"
    using releases_handle assms(2) by (simp add: releases_def)
  moreover have "Handle_Block \<in> db_blocks db" by (simp add: db_blocks_def)
  ultimately show ?thesis by (simp add: db_close_def db_free_def)
qed

lemma close_releases_all_witness:
  "db_close (Some sample_db) (insert Result_Block (db_blocks sample_db)) = Returns (SUCCESS, {Result_Block})"
proof -
  have "Result_Block \<notin> db_blocks sample_db"
    by (auto simp: db_blocks_def table_blocks_def manager_blocks_def split: option.splits if_splits)
  then have "insert Result_Block (db_blocks sample_db) - db_blocks sample_db = {Result_Block}" by blast
  then show ?thesis
    using close_releases_all [OF reachable_sample, of "insert Result_Block (db_blocks sample_db)"] by auto
qed

section \<open>A parsed query\<close>

definition query_blocks :: "Query \<Rightarrow> heap" where
  "query_blocks q = {Query_Block} \<union> (if q_table q = None then {} else {Query_Table_Block}) \<union>
     (if q_fields q = None then {} else insert Query_Fields_Block (Query_Field_Block ` {..<q_field_count q})) \<union>
     (if q_conditions q = None then {} else insert Conditions_Block
        (\<Union>i < q_condition_count q. {Condition_Block i ''field'', Condition_Block i ''op'', Condition_Block i ''value''}))"

lemma free_query_releases: "releases (free_query (Some q)) {} (query_blocks q)"
proof -
  let ?fs = "case q_fields q of None \<Rightarrow> [] | Some _ \<Rightarrow> concat (map (\<lambda>i. [Reads Query_Fields_Block, Frees (Some (Query_Field_Block i))])
      [0..<q_field_count q]) @ [Frees (Some Query_Fields_Block)]"
  let ?F = "if q_fields q = None then {} else insert Query_Fields_Block (Query_Field_Block ` {..<q_field_count q})"
  let ?texts = "\<lambda>i. {Condition_Block i ''field'', Condition_Block i ''op'', Condition_Block i ''value''}"
  let ?each = "\<lambda>i. [Reads Conditions_Block, Frees (Some (Condition_Block i ''field'')), Frees (Some (Condition_Block i ''op'')),
      Frees (Some (Condition_Block i ''value''))]"
  let ?cs = "case q_conditions q of None \<Rightarrow> [] | Some _ \<Rightarrow> concat (map ?each [0..<q_condition_count q]) @ [Frees (Some Conditions_Block)]"
  let ?C = "if q_conditions q = None then {} else insert Conditions_Block (\<Union>i < q_condition_count q. ?texts i)"
  have "releases [Reads Query_Fields_Block, Frees (Some (Query_Field_Block i))] {Query_Fields_Block} {Query_Field_Block i}" for i
    by (intro release_rules) auto
  then have "releases (concat (map (\<lambda>i. [Reads Query_Fields_Block, Frees (Some (Query_Field_Block i))]) [0..<q_field_count q]))
      {Query_Fields_Block} (\<Union>i < q_field_count q. {Query_Field_Block i})" by (intro releases_map) auto
  from releases_append [OF this releases_one [of Query_Fields_Block "{}"]]
  have fields: "releases ?fs {} ?F"
    by (cases "q_fields q") (auto simp: releases_nil elim!: releases_set)
  have "releases (?each i) {Conditions_Block} (?texts i)" for i by (intro release_rules) auto
  then have "releases (concat (map ?each [0..<q_condition_count q])) {Conditions_Block} (\<Union>i < q_condition_count q. ?texts i)"
    by (intro releases_map) auto
  from releases_append [OF this releases_one [of Conditions_Block "{}"]]
  have conditions: "releases ?cs {} ?C"
    by (cases "q_conditions q") (auto simp: releases_nil elim!: releases_set)
  have self: "releases [Frees (Some Query_Block)] {} {Query_Block}" by (rule releases_one) simp
  have "releases (?cs @ [Frees (Some Query_Block)]) {} (?C \<union> {Query_Block})"
    by (rule releases_append [OF conditions self]) auto
  note tail = releases_append [OF fields this]
  have rest: "releases (?fs @ ?cs @ [Frees (Some Query_Block)]) {} (?F \<union> (?C \<union> {Query_Block}))" by (rule tail) auto
  have "releases (Frees (map_option (\<lambda>_. Query_Table_Block) (q_table q)) # ?fs @ ?cs @ [Frees (Some Query_Block)]) {} (query_blocks q)"
  proof (cases "q_table q")
    case None
    then show ?thesis using releases_null [OF rest] by (auto simp: query_blocks_def elim!: releases_set)
  next
    case (Some t)
    have "releases (Frees (Some Query_Table_Block) # ?fs @ ?cs @ [Frees (Some Query_Block)]) {}
        (insert Query_Table_Block (?F \<union> (?C \<union> {Query_Block})))"
      by (rule releases_frees [OF _ rest]) auto
    then show ?thesis using Some by (auto simp: query_blocks_def elim!: releases_set)
  qed
  moreover have "Query_Block \<in> query_blocks q" by (simp add: query_blocks_def)
  ultimately show ?thesis by (simp add: free_query_def releases_reads)
qed

end
