(* ===== verification/Spec2Isabelle.thy ===== *)
theory Spec2Isabelle
  imports Lx_Database_Props Lx_Query Lx_Config Lx_Values Lx_Security Lx_Storage Lx_Txn Lx_Json_Tools_Props Lx_Json_Save_Load Lx_Answers Lx_Files Lx_Terminal Lx_Memory
begin

text \<open>
  A model of the Luminix database engine (the C sources under \<open>src/src\<close>), with the properties that make
  its parts correct.

  The program. \<open>database.c\<close> keeps tables of records in memory behind a handle, \<open>Database\<close>: an array of
  tables, each with a schema and a linked list of records, an index manager, statistics, and a flag
  and level for nested transactions. \<open>json_io.c\<close> writes the handle to a JSON text and loads it back;
  \<open>export_import.c\<close> converts such files and writes CSV. \<open>parser.c\<close> and \<open>query_engine.c\<close> read statements
  and hand them to the handle, \<open>cli.c\<close> reads lines and dispatches them, and \<open>main.c\<close> is the shell of menus
  around it all. \<open>index.c\<close> is a second index
  registry, \<open>transaction.c\<close> a list of operations with a state, \<open>storage.c\<close> and \<open>backup.c\<close> work on files,
  \<open>security.c\<close> encodes passwords, and \<open>utils.c\<close> serves them all with strings, configuration, a growing
  array and file names.

  The theories, and the files they model.

    \<^item> \<open>Lx_Prelude\<close>: C strings, characters, \<open>strtol\<close>, \<open>printf\<close> of ints, list search; shared lemmas.
    \<^item> \<open>Lx_Types\<close>: \<open>types.h\<close>, the limits of \<open>config.h\<close>, the union \<open>FieldValue\<close> as its 256 bytes.
    \<^item> \<open>Lx_Index\<close>: \<open>index.c\<close> and the simple managers of \<open>database.c\<close>; locale \<open>index_registry\<close>.
    \<^item> \<open>Lx_Table\<close>, \<open>Lx_Record_Store\<close>: the \<open>table_*\<close> functions of \<open>database.c\<close>; the locale
      \<open>record_store\<close> states what a table promises as a finite map, and is interpreted on them.
    \<^item> \<open>Lx_Database\<close>, \<open>Lx_Database_Inv\<close>, \<open>Lx_Database_Store\<close>, \<open>Lx_Database_Props\<close>: the \<open>db_*\<close> functions,
      the invariant \<open>db_ok\<close> with its preservation by every call (\<open>perform\<close>, \<open>reachable\<close>), the same
      contract for a named table, and the properties of the interface.
    \<^item> \<open>Lx_Strings\<close>, \<open>Lx_Config\<close>, \<open>Lx_Values\<close>: \<open>utils.c\<close> and the conversions of texts to field values.
    \<^item> \<open>Lx_Security\<close>, \<open>Lx_Storage\<close>, \<open>Lx_Txn\<close>: \<open>security.c\<close>; \<open>storage.c\<close> and \<open>backup.c\<close>; \<open>transaction.c\<close>.
    \<^item> \<open>Lx_Clock\<close>, \<open>Lx_Files\<close>, \<open>Lx_Terminal\<close>: the rest of \<open>utils.c\<close>, that is timestamps; directories, their copies
      and \<open>create_backup\<close>, over a tree of directories; messages, drawn tables, the log, \<open>getline\<close>, the wrappers
      of \<open>malloc\<close>, and the two diagnostic listings of \<open>database.c\<close>.
    \<^item> \<open>Lx_Memory\<close>: \<open>db_close\<close>, \<open>table_free\<close> and the other releasing functions of \<open>database.c\<close>, \<open>parser.c\<close>,
      \<open>query_engine.c\<close> and \<open>index.c\<close>, as what they read and release of a heap of named blocks.
    \<^item> \<open>Lx_Parser\<close>, \<open>Lx_Query\<close>: \<open>parser.c\<close>; \<open>query_engine.c\<close> and \<open>cli.c\<close>.
    \<^item> \<open>Lx_Json_Lexer\<close>, \<open>Lx_Json_Writer\<close>, \<open>Lx_Json_Reader\<close>, \<open>Lx_Json_Tools\<close>, \<open>Lx_Json_Load\<close>: the functions of
      \<open>json_io.c\<close>, in this order: tokens, serializer, values and records, tools over texts, loading.
      \<open>Lx_Json_Roundtrip\<close>, \<open>Lx_Json_Tools_Props\<close> and \<open>Lx_Json_Load_Props\<close> hold what is proved about them,
      \<open>Lx_Json_Tokens\<close> the tokens of a saved database and \<open>Lx_Json_Save_Load\<close> what loading makes of them.
    \<^item> \<open>Lx_Export\<close>: \<open>export_import.c\<close>.
    \<^item> \<open>Lx_Screens\<close>, \<open>Lx_Shell\<close>, \<open>Lx_Menus\<close>, \<open>Lx_Menus_Query\<close>, \<open>Lx_Main\<close>: \<open>main.c\<close>, that is its fixed texts; its
      globals, prompts, history and printing; the commands on databases, tables and indexes; those on queries,
      maintenance, configuration and tools; the menus and \<open>main\<close>. \<open>Lx_Shell_Inv\<close> states what a relation needs
      to be kept by every command, as the locales \<open>shell_frame\<close>, \<open>shell_relation\<close> and \<open>shell_loop\<close> (there and in
      \<open>Lx_Shell_Props\<close>), and goes through the commands once; the interpretations are in \<open>Lx_Shell_Props\<close>
      (the input gets shorter), \<open>Lx_Shell_Db\<close> (the state stays well formed; no record changes) and
      \<open>Lx_Answers\<close>, which holds the properties of single commands.

  How state and calls are modelled. A structure is a record and a linked list the list of its nodes,
  the head first. A function takes the state it can reach and returns it with its result; an
  out-parameter is a component of the result, \<open>None\<close> when it is not written. A pointer argument that
  the code compares with NULL is an option. Ints are HOL integers, wrapped to 32 bits (\<open>wrap32\<close>) where
  an operation can leave their range; \<open>long\<close> and \<open>size_t\<close> have 32 bits, as the Makefile builds for
  mingw32. What the program does not decide is an argument: the outcome of each allocation (\<open>alloc\<close>,
  a predicate on the number of the call within the function), the time, what \<open>fopen\<close>, \<open>fwrite\<close>,
  \<open>open\<close> and \<open>write\<close> answer, \<open>strtod\<close> and the texts of floating point numbers (\<open>float_lib\<close>, \<open>json_env\<close>),
  \<open>mktime\<close> and \<open>localtime\<close>. Files are a map from paths to bytes; only \<open>Lx_Files\<close>, which makes and
  lists directories, has a tree. A function with a branch for Windows and another for POSIX has both where
  they differ, chosen by an argument. Undefined behaviour is a value of its
  own (\<open>None\<close>, or \<open>Undefined\<close> of the type \<open>run\<close>). A command of the shell is a function on its state, \<open>Shell\<close>:
  the bytes of the input that are left, what was printed, the globals, the files, and the outcomes of
  its outside calls as a sequence of events.

  Loops. Structural recursion where the code walks a string or a list, a measure for the loops that
  double a capacity, and fuel where the loop consumes tokens: its callers give the bytes left and
  one, and \<open>skip_defined\<close>, \<open>read_record_enough\<close>, \<open>db_load_sound\<close> prove that enough. \<open>string_replace\<close> and
  \<open>json_get_stats_string\<close> can run forever: there not returning is \<open>None\<close>, and the properties say when. The menus
  can too: they take fuel, one unit a turn, and \<open>shell_returns_or_never\<close> shows that a unit for each
  byte of input and one more decides whether the main loop returns. \<open>copy_directory\<close> takes a unit for each level, and the height of the source is
  enough.

  What the lemmas show. The invariant of the handle and that every call on a reachable handle
  returns; insertion, update and deletion as updates of a finite map, on every outcome; that
  transactions nest but undo nothing; that closing a handle releases each of its blocks once; round trips of the index registries, of splitting and joining,
  of the configuration, of encoded passwords, of storage and of records through JSON; that the
  serializer stays in its growing buffer; that a loaded file is a well-formed handle, and a saved
  handle is loaded back with its tables, schemas and records; bounds and
  termination of the tools; that the shell keeps its state well formed and changes no record, when it
  returns, and what its answers do; that a copied directory is the tree of its source, a formatted time is
  parsed back, a log and a line are what they should be, and a table is drawn straight; and where the code departs from what its comments promise.

  Not modelled. The signal handler of \<open>main.c\<close>, which calls what a handler may not call, and its unused
  \<open>print_prompt\<close> and \<open>read_input\<close>; \<open>clear_screen\<close> and the timers of \<open>utils.c\<close>, which subtract two readings of a clock in
  floating point; and \<open>threading.h\<close>, since the modelled calls are sequential. The functions
  that release the tokens and statistics of the JSON code are not modelled on their own; its double releases are, as
  undefined behaviour. The copies of token texts by the lexer are taken to succeed. \<open>json_io.h\<close>, \<open>index.h\<close> and
  \<open>database.h\<close> declare many functions that have no body anywhere.
\<close>

section \<open>Names from the prompt to the table array\<close>

lemma validated_name_nul_free: "validate_table_name (Some s) \<Longrightarrow> nul_free s"
  by (auto simp: validate_table_name_iff nul_free_iff list_all_iff char_class_defs)

text \<open>A table whose name \<open>validate_table_name\<close> accepted and that \<open>db_add_table\<close> created can be used
  under that name, except when the name has the 64 characters that the validation still allows:
  then the name is stored without its last character, the table is not found, insertions into it
  fail with \<open>ERROR_NOT_FOUND\<close>, and it can be created again.\<close>

lemma validated_table_name_used:
  assumes "reachable (gc, db)" and "validate_table_name (Some name)"
    and "db_add_table ok db (Some name) (Some fs) (Some ts) n = (SUCCESS, out, db')"
  shows "(length name < 64 \<longrightarrow> named_table db' (Some name) = Some (new_table ok name fs ts (nat n))) \<and>
     (length name = 64 \<longrightarrow> db_get_table db' (Some name) = None \<and>
        db_insert_record ok' now gc db' (Some name) (Some vals) = (ERROR_NOT_FOUND, (None, gc), db')) \<and>
     length name \<le> 64"
proof -
  have v: "length name \<le> 64" "nul_free name"
    using assms(2) validated_name_nul_free [OF assms(2)] by (auto simp: validate_table_name_iff)
  have "db_ok db" using reachable_state_ok [OF assms(1)] by (simp add: state_ok_def)
  note a = db_add_table_named [OF this assms(3)]
  have n: "t_name (new_table ok name fs ts (nat n)) = take 63 name"
    using v by (simp add: new_table_def MAX_TABLE_NAME_def)
  have none: "named_table db' (Some name) = None" if "length name = 64"
    using a that n by auto
  then have "db_get_table db' (Some name) = None" if "length name = 64"
    using that by (simp add: named_table_def)
  with a v n show ?thesis by (auto simp: db_insert_record_def)
qed

lemma validated_table_name_used_example:
  "validate_table_name (Some long_name) \<and>
   (\<exists>out db'. db_add_table all_ok sample_empty (Some long_name) (Some [''id'']) (Some [TYPE_INT]) 1 = (SUCCESS, out, db') \<and>
     fst (db_insert_record all_ok 0 0 db' (Some long_name) (Some [])) = ERROR_NOT_FOUND)"
proof -
  have v: "validate_table_name (Some long_name)"
    by (simp add: validate_table_name_iff long_name_def char_class_defs list_all_iff reserved_keywords_def
        numeral_eq_Suc)
  obtain out db' where a: "db_add_table all_ok sample_empty (Some long_name) (Some [''id'']) (Some [TYPE_INT]) 1 =
      (SUCCESS, out, db')"
    by (simp add: sample_empty_def db_create_def db_add_table_def Let_def MAX_TABLES_def
        MAX_FIELDS_PER_TABLE_def list_ex_iff)
  have l: "length long_name = 64" by (simp add: long_name_def)
  from validated_table_name_used [OF reachable_empty v a, of all_ok 0 "[]"] a v l show ?thesis
    by (auto simp: db_insert_record_def)
qed

section \<open>Queries from the command line\<close>

lemma cli_handle_command_frame:
  "cli_handle_command okd g (Some c) = (out, g') \<Longrightarrow> map_option db_tables g' = map_option db_tables g \<and>
     list_all (\<lambda>x. case x of CliResult _ r \<Rightarrow> q_rows r = [] | _ \<Rightarrow> True) out"
  by (auto simp: cli_handle_command_def Let_def dest!: db_execute_query_result
      split: if_splits option.splits prod.splits)

lemma cli_run_frame:
  "cli_run okd g ls = (out, g') \<Longrightarrow> map_option db_tables g' = map_option db_tables g \<and>
     list_all (\<lambda>x. case x of CliResult _ r \<Rightarrow> q_rows r = [] | _ \<Rightarrow> True) out"
proof (induction ls arbitrary: g out g')
  case (Cons l ls)
  show ?case
  proof (cases "cli_input l = ''exit'' \<or> cli_input l = ''quit''")
    case False
    obtain o1 g1 where h: "cli_handle_command okd g (Some (cli_input l)) = (o1, g1)" by fastforce
    obtain o2 g2 where r: "cli_run okd g1 ls = (o2, g2)" by fastforce
    from Cons(1) [OF r] cli_handle_command_frame [OF h] Cons(2) False h r show ?thesis
      by (auto simp: Let_def)
  qed (use Cons(2) in auto)
qed simp

lemma cli_run_stops: "cli_input l \<in> {''exit'', ''quit''} \<Longrightarrow> cli_run okd g (pre @ l # post) = cli_run okd g pre"
  by (induction pre arbitrary: g) (auto simp: Let_def split: prod.splits)

text \<open>Whatever lines are typed, the command line leaves the tables of the database as they are and
  every result that it prints is empty, so SQL typed there has no effect; and what follows a line
  \<open>exit\<close> or \<open>quit\<close> is not read.\<close>

lemma cli_changes_nothing:
  assumes "cli_run okd g (pre @ l # post) = (out, g')"
  shows "map_option db_tables g' = map_option db_tables g \<and>
     list_all (\<lambda>x. case x of CliResult _ r \<Rightarrow> q_rows r = [] | _ \<Rightarrow> True) out \<and>
     (cli_input l \<in> {''exit'', ''quit''} \<longrightarrow> cli_run okd g pre = (out, g'))"
  using cli_run_frame [OF assms] cli_run_stops [of l okd g pre post] assms by auto

lemma cli_status: "cli_handle_command okd (Some db) (Some ''status'') = ([CliStatus (db_table_count db)], Some db)"
proof -
  have "\<not> starts_with_case ''status'' ''help''" "starts_with_case ''status'' ''status''" "dropWhile isspace ''status'' = ''status''"
    by (simp_all add: starts_with_case_def isspace_def tolower_def isupper_def)
  then show ?thesis by (simp add: cli_handle_command_def db_get_table_count_def)
qed

lemma cli_changes_nothing_example:
  "cli_run all_ok (Some sample_db) ([''status'' @ [newline]] @ (''exit'' @ [newline]) # [''drop table users'']) =
     ([CliStatus 1], Some sample_db) \<and>
   cli_run all_ok (Some sample_db) [''status'' @ [newline]] = ([CliStatus 1], Some sample_db)"
proof -
  have i: "cli_input (''exit'' @ [newline]) = ''exit''" "cli_input (''status'' @ [newline]) = ''status''"
    by (simp_all add: cli_input_def newline_def)
  have "cli_run all_ok (Some sample_db) ([''status'' @ [newline]] @ (''exit'' @ [newline]) # [''drop table users'']) =
     ([CliStatus 1], Some sample_db)"
    using i by (simp add: cli_status sample_db_tables Let_def)
  from this cli_changes_nothing [OF this] i show ?thesis by simp
qed

end
